(* ===== verification/GoPrelude.thy ===== *)
theory GoPrelude
  imports Main "HOL-Library.AList" "HOL-Library.Word"
begin

text \<open>
  Shared vocabulary of the development: Go maps and \<open>sync.Map\<close> as association lists,
  strings as lists of bytes, \<open>int64\<close> values as 64-bit words, Go's integer division and
  decimal printing, and the contract every keyed store of the program satisfies.

  A Go map is a list of key/value pairs with distinct keys. The order of the list is the
  order in which a \<open>range\<close> loop (or \<open>sync.Map.Range\<close>) visits the entries: Go leaves that
  order open, and a statement about an arbitrary list covers every order.
\<close>

section \<open>Collections of facts\<close>

named_theorems go_defs \<open>definitions that unfold in component proofs\<close>

section \<open>Go maps\<close>

type_synonym ('k, 'v) gomap = "('k \<times> 'v) list"

abbreviation mload :: "('k, 'v) gomap \<Rightarrow> 'k \<Rightarrow> 'v option" where
  "mload m k \<equiv> map_of m k"

abbreviation mstore :: "('k, 'v) gomap \<Rightarrow> 'k \<Rightarrow> 'v \<Rightarrow> ('k, 'v) gomap" where
  "mstore m k v \<equiv> AList.update k v m"

abbreviation mdelete :: "('k, 'v) gomap \<Rightarrow> 'k \<Rightarrow> ('k, 'v) gomap" where
  "mdelete m k \<equiv> AList.delete k m"

abbreviation mkeys :: "('k, 'v) gomap \<Rightarrow> 'k list" where
  "mkeys m \<equiv> map fst m"

abbreviation mwf :: "('k, 'v) gomap \<Rightarrow> bool" where
  "mwf m \<equiv> distinct (map fst m)"

lemma mload_mstore [simp]: "mload (mstore m k v) k' = (if k' = k then Some v else mload m k')"
  by (simp add: update_conv')

lemma mload_mdelete [simp]: "mload (mdelete m k) k' = (if k' = k then None else mload m k')"
  by (simp add: delete_conv')

lemma mwf_mstore [simp]: "mwf m \<Longrightarrow> mwf (mstore m k v)"
  by (rule distinct_update)

lemma mwf_mdelete [simp]: "mwf m \<Longrightarrow> mwf (mdelete m k)"
  by (rule distinct_delete)

lemma mstore_fresh: "mload m k = None \<Longrightarrow> mstore m k v = m @ [(k, v)]"
  by (induction m) (auto split: if_splits)

lemma mdelete_fresh: "mload m k = None \<Longrightarrow> mdelete m k = m"
  by (metis delete_id map_of_eq_None_iff)

lemma mdelete_append: "mdelete (m @ n) k = mdelete m k @ mdelete n k"
  by (simp add: AList.delete_eq)

lemma mdelete_mstore_fresh: "mload m k = None \<Longrightarrow> mdelete (mstore m k v) k = m"
  by (simp add: AList.delete_update_same mdelete_fresh)

lemma mem_mload: "mwf m \<Longrightarrow> (k, v) \<in> set m \<longleftrightarrow> mload m k = Some v"
  by (simp add: map_of_eq_Some_iff)

lemma mkeys_mload: "k \<in> set (mkeys m) \<longleftrightarrow> mload m k \<noteq> None"
  by (simp add: map_of_eq_None_iff)

lemma mdelete_set: "set (mdelete m k) = {p \<in> set m. fst p \<noteq> k}"
  by (auto simp: AList.delete_eq)

lemma mload_map_values: "mload (map (\<lambda>(k, v). (k, f k v)) m) k = map_option (f k) (mload m k)"
  by (induction m) auto

lemma mload_filter:
  "mwf m \<Longrightarrow> mload (filter (\<lambda>(k, v). P k v) m) k =
     (case mload m k of None \<Rightarrow> None | Some v \<Rightarrow> if P k v then Some v else None)"
proof (induction m)
  case (Cons p m)
  obtain k' v' where p: "p = (k', v')" by force
  from Cons.prems p have "mload m k' = None" by (simp add: map_of_eq_None_iff)
  with Cons p show ?case by (auto split: option.splits)
qed simp

lemma mwf_filter: "mwf m \<Longrightarrow> mwf (filter P m)"
  by (rule distinct_map_filter)

lemma mkeys_map_values [simp]: "mkeys (map (\<lambda>(k, v). (k, f k v)) m) = mkeys m"
  by (induction m) auto

lemma length_mstore:
  "mwf m \<Longrightarrow> length (mstore m k v) = (if mload m k = None then Suc (length m) else length m)"
proof (induction m)
  case (Cons p m)
  then show ?case by (cases p) (auto simp: map_of_eq_None_iff intro: rev_image_eqI)
qed simp

lemma length_mdelete: "mload m k \<noteq> None \<Longrightarrow> length (mdelete m k) < length m"
  by (auto simp: AList.delete_eq dest!: map_of_SomeD intro!: length_filter_less)

lemma mstore_nonempty [simp]: "mstore m k v \<noteq> []" "[] \<noteq> mstore m k v"
  by (metis AList.update_nonempty)+

subsection \<open>Searching a list\<close>

lemma find_app:
  "List.find P (xs @ ys) = (case List.find P xs of Some x \<Rightarrow> Some x | None \<Rightarrow> List.find P ys)"
  by (induction xs) auto

lemma find_unique:
  "x \<in> set xs \<Longrightarrow> P x \<Longrightarrow> (\<And>y. y \<in> set xs \<Longrightarrow> P y \<Longrightarrow> y = x) \<Longrightarrow> List.find P xs = Some x"
proof (induction xs)
  case (Cons a xs)
  show ?case
  proof (cases "P a")
    case True
    with Cons.prems(3) [of a] show ?thesis by simp
  next
    case False
    with Cons.prems(1,2) have "x \<in> set xs" by auto
    then have "List.find P xs = Some x"
      by (rule Cons.IH [OF _ Cons.prems(2)]) (rule Cons.prems(3), simp_all)
    with False show ?thesis by simp
  qed
qed simp

subsection \<open>The contract of a keyed store\<close>

text \<open>
  Every keyed store of the program (Go maps, \<open>sync.Map\<close>, \<open>AliveStore\<close>,
  \<open>OldUserOnlineStore\<close>, \<open>trafficStore\<close>) keeps this contract. The loops of the program that
  store or delete a whole slice of keys are folds, and their effect is proved here once.
\<close>

locale kv_store =
  fixes load :: "'m \<Rightarrow> 'k \<Rightarrow> 'v option"
    and store :: "'m \<Rightarrow> 'k \<Rightarrow> 'v \<Rightarrow> 'm"
    and del :: "'m \<Rightarrow> 'k \<Rightarrow> 'm"
    and keys :: "'m \<Rightarrow> 'k list"
    and wf :: "'m \<Rightarrow> bool"
  assumes load_store: "load (store m k v) k' = (if k' = k then Some v else load m k')"
    and load_del: "load (del m k) k' = (if k' = k then None else load m k')"
    and keys_load: "wf m \<Longrightarrow> k \<in> set (keys m) \<longleftrightarrow> load m k \<noteq> None"
    and keys_distinct: "wf m \<Longrightarrow> distinct (keys m)"
    and wf_store: "wf m \<Longrightarrow> wf (store m k v)"
    and wf_del: "wf m \<Longrightarrow> wf (del m k)"
begin

definition store_all :: "'m \<Rightarrow> ('k \<times> 'v) list \<Rightarrow> 'm" where
  "store_all m kvs = foldl (\<lambda>m (k, v). store m k v) m kvs"

definition del_all :: "'m \<Rightarrow> 'k list \<Rightarrow> 'm" where
  "del_all m ks = foldl del m ks"

lemma store_all_simps [simp]:
  "store_all m [] = m"
  "store_all m ((k, v) # kvs) = store_all (store m k v) kvs"
  by (simp_all add: store_all_def)

lemma del_all_simps [simp]:
  "del_all m [] = m"
  "del_all m (k # ks) = del_all (del m k) ks"
  by (simp_all add: del_all_def)

lemma load_store_all:
  "load (store_all m kvs) k = (case map_of (rev kvs) k of None \<Rightarrow> load m k | Some v \<Rightarrow> Some v)"
proof (induction kvs arbitrary: m)
  case (Cons kv kvs)
  then show ?case
    by (cases kv) (auto simp: load_store map_add_def split: option.splits)
qed simp

lemma load_store_all_notin: "k \<notin> fst ` set kvs \<Longrightarrow> load (store_all m kvs) k = load m k"
  by (simp add: load_store_all map_of_eq_None_iff image_def split: option.splits)
     (metis map_of_SomeD fst_conv set_rev)

lemma load_del_all: "load (del_all m ks) k = (if k \<in> set ks then None else load m k)"
  by (induction ks arbitrary: m) (auto simp: load_del)

lemma wf_store_all: "wf m \<Longrightarrow> wf (store_all m kvs)"
  by (induction kvs arbitrary: m) (auto simp: wf_store)

lemma wf_del_all: "wf m \<Longrightarrow> wf (del_all m ks)"
  by (induction ks arbitrary: m) (auto simp: wf_del)

lemma set_keys: "wf m \<Longrightarrow> set (keys m) = {k. load m k \<noteq> None}"
  by (auto simp: keys_load)

lemma store_then_del: "load (del (store m k v) k) = load (del m k)"
  by (rule ext) (simp add: load_del load_store)

end

interpretation gm: kv_store "\<lambda>m k. mload m k" "\<lambda>m k v. mstore m k v" "\<lambda>m k. mdelete m k" "\<lambda>m. mkeys m"
    "\<lambda>m. mwf m"
  by unfold_locales (auto simp: map_of_eq_None_iff delete_keys distinct_removeAll)

subsection \<open>The contract of a ledger of claims\<close>

text \<open>
  The process-wide tables in which a controller registers itself (the port registry, the limiter
  registry) keep this contract: a claim is refused or recorded, and dropping it gives back the
  table as it was. A start sequence that claims one entry after the other and drops, in reverse
  order, what it had claimed when a later step fails therefore leaves no trace.
\<close>

locale claim_ledger =
  fixes claim :: "'k \<Rightarrow> 'c \<Rightarrow> 's \<Rightarrow> 's option"
    and dropc :: "'k \<Rightarrow> 's \<Rightarrow> 's"
    and held :: "'s \<Rightarrow> 'k set"
    and ok :: "'s \<Rightarrow> bool"
  assumes dropc_claim: "ok s \<Longrightarrow> claim k c s = Some s' \<Longrightarrow> dropc k s' = s"
    and claim_ok: "ok s \<Longrightarrow> claim k c s = Some s' \<Longrightarrow> ok s'"
    and dropc_ok: "ok s \<Longrightarrow> ok (dropc k s)"
    and claim_held: "ok s \<Longrightarrow> claim k c s = Some s' \<Longrightarrow> k \<notin> held s \<and> held s' = insert k (held s)"
    and dropc_held: "ok s \<Longrightarrow> held (dropc k s) = held s - {k}"
begin

fun claim_all :: "('k \<times> 'c) list \<Rightarrow> 's \<Rightarrow> 's option" where
  "claim_all [] s = Some s"
| "claim_all ((k, c) # kcs) s = (case claim k c s of None \<Rightarrow> None | Some s' \<Rightarrow> claim_all kcs s')"

lemma claim_all_ok: "ok s \<Longrightarrow> claim_all kcs s = Some s' \<Longrightarrow> ok s'"
  by (induction kcs s rule: claim_all.induct) (auto split: option.splits dest: claim_ok)

lemma claim_all_held:
  "ok s \<Longrightarrow> claim_all kcs s = Some s' \<Longrightarrow> distinct (map fst kcs) \<and> held s \<inter> fst ` set kcs = {} \<and>
     held s' = held s \<union> fst ` set kcs"
proof (induction kcs s rule: claim_all.induct)
  case (2 k c kcs s)
  then obtain s1 where s1: "claim k c s = Some s1" "claim_all kcs s1 = Some s'"
    by (auto split: option.splits)
  with 2 claim_held [OF 2(2) s1(1)] claim_ok [OF 2(2) s1(1)] show ?case by auto
qed simp

lemma rollback: "ok s \<Longrightarrow> claim_all kcs s = Some s' \<Longrightarrow> foldr (\<lambda>(k, c). dropc k) kcs s' = s"
proof (induction kcs s rule: claim_all.induct)
  case (2 k c kcs s)
  then obtain s1 where s1: "claim k c s = Some s1" "claim_all kcs s1 = Some s'"
    by (auto split: option.splits)
  with 2 have "foldr (\<lambda>(k, c). dropc k) kcs s' = s1" by (auto dest: claim_ok)
  with dropc_claim [OF 2(2) s1(1)] show ?case by simp
qed simp

lemma claim_twice: "ok s \<Longrightarrow> claim k c s = Some s' \<Longrightarrow> claim k d s' = None"
  by (metis claim_held claim_ok insertI1 option.exhaust)

end

section \<open>Machine integers\<close>

text \<open>Go's \<open>int64\<close> (and \<open>int\<close>, on the 64-bit targets the node is built for) wraps around.\<close>

type_synonym int64 = "64 word"
type_synonym uint16 = "16 word"

definition go_quot :: "int \<Rightarrow> int \<Rightarrow> int" where
  "go_quot a b = sgn a * sgn b * (\<bar>a\<bar> div \<bar>b\<bar>)"

lemma sint64_of_int: "- (2 ^ 63) \<le> x \<Longrightarrow> x < 2 ^ 63 \<Longrightarrow> sint (word_of_int x :: int64) = x"
  by (simp add: signed_of_int signed_take_bit_int_eq_self)

section \<open>Strings\<close>

definition HasPrefix :: "string \<Rightarrow> string \<Rightarrow> bool" where
  "HasPrefix s p \<longleftrightarrow> take (length p) s = p"

definition TrimPrefix :: "string \<Rightarrow> string \<Rightarrow> string" where
  "TrimPrefix s p = (if HasPrefix s p then drop (length p) s else s)"

definition Cut :: "string \<Rightarrow> char \<Rightarrow> (string \<times> string) option" where
  "Cut s c = (case dropWhile (\<lambda>x. x \<noteq> c) s of
     [] \<Rightarrow> None
   | _ # rest \<Rightarrow> Some (takeWhile (\<lambda>x. x \<noteq> c) s, rest))"

lemma Cut_append: "c \<notin> set xs \<Longrightarrow> Cut (xs @ c # ys) c = Some (xs, ys)"
  by (induction xs) (auto simp: Cut_def split: list.splits)

lemma Cut_None: "Cut s c = None \<longleftrightarrow> c \<notin> set s"
proof
  assume "Cut s c = None"
  then have "dropWhile (\<lambda>x. x \<noteq> c) s = []" by (simp add: Cut_def split: list.splits)
  then show "c \<notin> set s" by (auto simp: dropWhile_eq_Nil_conv)
next
  assume "c \<notin> set s"
  then have "dropWhile (\<lambda>x. x \<noteq> c) s = []" by (auto simp: dropWhile_eq_Nil_conv)
  then show "Cut s c = None" by (simp only: Cut_def list.case)
qed

lemma Cut_Some: "Cut s c = Some (a, b) \<Longrightarrow> s = a @ c # b \<and> c \<notin> set a"
proof -
  assume h: "Cut s c = Some (a, b)"
  then obtain d where d: "dropWhile (\<lambda>x. x \<noteq> c) s = d # b" and a: "a = takeWhile (\<lambda>x. x \<noteq> c) s"
    by (auto simp: Cut_def split: list.splits)
  from d have "d = c"
    by (metis (mono_tags, lifting) hd_dropWhile list.discI list.sel(1))
  with d a show ?thesis
    by (metis (mono_tags, lifting) set_takeWhileD takeWhile_dropWhile_id)
qed

definition to_lower_char :: "char \<Rightarrow> char" where
  "to_lower_char c = (let n = (of_char c :: nat) in
     if 65 \<le> n \<and> n \<le> 90 then char_of (n + 32) else c)"

definition ToLower :: "string \<Rightarrow> string" where
  "ToLower s = map to_lower_char s"

subsection \<open>Decimal numbers\<close>

definition digit :: "nat \<Rightarrow> char" where
  "digit n = ''0123456789'' ! n"

fun show_nat :: "nat \<Rightarrow> string" where
  "show_nat n = (if n < 10 then [digit n] else show_nat (n div 10) @ [digit (n mod 10)])"

declare show_nat.simps [simp del]

definition Itoa :: "int \<Rightarrow> string" where
  "Itoa i = (if i < 0 then CHR ''-'' # show_nat (nat (- i)) else show_nat (nat i))"

definition digits_set :: "char set" where
  "digits_set = set ''0123456789''"

lemma digit_mem: "n < 10 \<Longrightarrow> digit n \<in> digits_set"
  unfolding digit_def digits_set_def by (rule nth_mem) simp

lemma digit_inj: "m < 10 \<Longrightarrow> n < 10 \<Longrightarrow> digit m = digit n \<Longrightarrow> m = n"
proof -
  have d: "distinct ''0123456789''" by simp
  show "m < 10 \<Longrightarrow> n < 10 \<Longrightarrow> digit m = digit n \<Longrightarrow> m = n"
    unfolding digit_def using nth_eq_iff_index_eq [OF d, of m n] by simp
qed

lemma show_nat_digits: "set (show_nat n) \<subseteq> digits_set"
proof (induction n rule: show_nat.induct)
  case (1 n)
  then show ?case
    by (subst show_nat.simps) (auto simp: digit_mem)
qed

lemma show_nat_nonempty [simp]: "show_nat n \<noteq> []"
  by (subst show_nat.simps) simp

lemma show_nat_ge10: "10 \<le> n \<Longrightarrow> show_nat n = show_nat (n div 10) @ [digit (n mod 10)]"
  by (subst show_nat.simps) simp

lemma show_nat_lt10: "n < 10 \<Longrightarrow> show_nat n = [digit n]"
  by (subst show_nat.simps) simp

lemma show_nat_inj: "show_nat m = show_nat n \<Longrightarrow> m = n"
proof (induction m arbitrary: n rule: show_nat.induct)
  case (1 m)
  show ?case
  proof (cases "m < 10")
    case m: True
    show ?thesis
    proof (cases "n < 10")
      case True
      with m "1.prems" show ?thesis by (simp add: show_nat_lt10 digit_inj)
    next
      case False
      with m "1.prems" show ?thesis
        by (simp add: show_nat_lt10 show_nat_ge10 Cons_eq_append_conv)
    qed
  next
    case m: False
    show ?thesis
    proof (cases "n < 10")
      case True
      with m "1.prems" show ?thesis
        by (simp add: show_nat_lt10 show_nat_ge10 append_eq_Cons_conv)
    next
      case False
      with m "1.prems" have "show_nat (m div 10) = show_nat (n div 10)"
        and "digit (m mod 10) = digit (n mod 10)"
        by (simp_all add: show_nat_ge10)
      with "1.IH" m have "m div 10 = n div 10" and "m mod 10 = n mod 10"
        by (auto intro: digit_inj)
      then show ?thesis by (metis div_mult_mod_eq)
    qed
  qed
qed

lemma minus_notin_show_nat: "CHR ''-'' \<notin> set (show_nat n)"
  using show_nat_digits [of n] by (auto simp: digits_set_def)

lemma bar_notin_Itoa: "CHR ''|'' \<notin> set (Itoa i)"
  using show_nat_digits [of "nat i"] show_nat_digits [of "nat (- i)"]
  by (auto simp: Itoa_def digits_set_def)

lemma Itoa_inj: "Itoa i = Itoa j \<Longrightarrow> i = j"
proof -
  assume h: "Itoa i = Itoa j"
  have hd: "hd (show_nat n) \<noteq> CHR ''-''" for n
    using minus_notin_show_nat [of n] hd_in_set [OF show_nat_nonempty, of n] by metis
  show "i = j"
  proof (cases "i < 0"; cases "j < 0")
    assume "i < 0" "j < 0"
    with h have "nat (- i) = nat (- j)" by (auto simp: Itoa_def dest: show_nat_inj)
    with \<open>i < 0\<close> \<open>j < 0\<close> show ?thesis by simp
  next
    assume "\<not> i < 0" "\<not> j < 0"
    with h have "nat i = nat j" by (auto simp: Itoa_def dest: show_nat_inj)
    with \<open>\<not> i < 0\<close> \<open>\<not> j < 0\<close> show ?thesis by simp
  next
    assume "i < 0" "\<not> j < 0"
    with h hd [of "nat j"] show ?thesis by (simp add: Itoa_def) (metis list.sel(1))
  next
    assume "\<not> i < 0" "j < 0"
    with h hd [of "nat i"] show ?thesis by (auto simp: Itoa_def)
  qed
qed

end
