(* ===== verification/ConnLimits.thy ===== *)
theory ConnLimits
  imports GoPrelude
begin

text \<open>
  \<open>limiter/conn.go\<close>: the per-user admission gate. It counts a user's TCP connections against
  \<open>connLimit\<close> and the addresses a user is online from against \<open>ipLimit\<close>. In realtime mode an
  address slot is a number (two per TCP connection, plus one when a packet session came first);
  otherwise it is the time of the last connect. A failing type assertion of the code is the
  result \<open>None\<close>. \<open>time.Now()\<close> is an argument, in nanoseconds.
\<close>

section \<open>State\<close>

datatype ip_slot = SlotInt int | SlotTime int

type_synonym ip_slots = "(string, ip_slot) gomap"

record ConnLimiter =
  cl_realtime :: bool
  cl_ipLimit :: int
  cl_connLimit :: int
  cl_count :: "(string, int) gomap"
  cl_ip :: "(string, ip_slots) gomap"

definition NewConnLimiter :: "int \<Rightarrow> int \<Rightarrow> bool \<Rightarrow> ConnLimiter" where
  "NewConnLimiter conn ip realtime =
    \<lparr>cl_realtime = realtime, cl_ipLimit = ip, cl_connLimit = conn, cl_count = [], cl_ip = []\<rparr>"

definition IsRealtime :: "ConnLimiter \<Rightarrow> bool" where
  "IsRealtime c = cl_realtime c"

section \<open>Operations\<close>

text \<open>\<open>sync.Map.Range\<close> with the counting callback, which stops once the limit is reached.\<close>

fun range_count :: "int \<Rightarrow> int \<Rightarrow> 'a list \<Rightarrow> int" where
  "range_count lim cn [] = cn"
| "range_count lim cn (x # xs) =
     (let cn' = cn + 1 in if cn' < lim then range_count lim cn' xs else cn')"

text \<open>Phase 1: the checks, which read and do not write.\<close>

definition conn_full :: "ConnLimiter \<Rightarrow> string \<Rightarrow> bool" where
  "conn_full c user \<longleftrightarrow> cl_connLimit c \<noteq> 0 \<and>
     (case mload (cl_count c) user of Some v \<Rightarrow> v \<ge> cl_connLimit c | None \<Rightarrow> False)"

definition existing_ips :: "ConnLimiter \<Rightarrow> string \<Rightarrow> ip_slots option" where
  "existing_ips c user = (if cl_ipLimit c \<noteq> 0 then mload (cl_ip c) user else None)"

definition ip_full :: "ConnLimiter \<Rightarrow> string \<Rightarrow> string \<Rightarrow> bool" where
  "ip_full c user ip =
    (case existing_ips c user of
       None \<Rightarrow> False
     | Some ips \<Rightarrow> mload ips ip = None \<and> range_count (cl_ipLimit c) 0 ips \<ge> cl_ipLimit c)"

text \<open>Phase 2: the writes.\<close>

definition storeIPSlot :: "ConnLimiter \<Rightarrow> ip_slots \<Rightarrow> string \<Rightarrow> bool \<Rightarrow> int \<Rightarrow> ip_slots" where
  "storeIPSlot c ips ip isTcp now =
    (if cl_realtime c
     then if isTcp then mstore ips ip (SlotInt 2) else mstore ips ip (SlotInt 1)
     else mstore ips ip (SlotTime now))"

definition bump_count :: "ConnLimiter \<Rightarrow> string \<Rightarrow> bool \<Rightarrow> ConnLimiter" where
  "bump_count c user isTcp =
    (if cl_connLimit c \<noteq> 0 \<and> isTcp
     then c\<lparr>cl_count := (case mload (cl_count c) user of
              Some v \<Rightarrow> mstore (cl_count c) user (v + 1)
            | None \<Rightarrow> mstore (cl_count c) user 1)\<rparr>
     else c)"

definition set_ips :: "ConnLimiter \<Rightarrow> string \<Rightarrow> ip_slots \<Rightarrow> ConnLimiter" where
  "set_ips c user ips = c\<lparr>cl_ip := mstore (cl_ip c) user ips\<rparr>"

definition claim_ip :: "ConnLimiter \<Rightarrow> string \<Rightarrow> string \<Rightarrow> bool \<Rightarrow> int \<Rightarrow> ConnLimiter option" where
  "claim_ip c user ip isTcp now =
    (if cl_ipLimit c = 0 then Some c
     else case existing_ips c user of
       None \<Rightarrow> Some (set_ips c user (storeIPSlot c [] ip isTcp now))
     | Some ips \<Rightarrow>
         (case mload ips ip of
            None \<Rightarrow> Some (set_ips c user (storeIPSlot c ips ip isTcp now))
          | Some online \<Rightarrow>
              if cl_realtime c then
                if isTcp then
                  (case online of
                     SlotInt n \<Rightarrow> Some (set_ips c user (mstore ips ip (SlotInt (n + 2))))
                   | SlotTime _ \<Rightarrow> None)
                else Some c
              else Some (set_ips c user (mstore ips ip (SlotTime now)))))"

definition AddConnCount ::
  "ConnLimiter \<Rightarrow> string \<Rightarrow> string \<Rightarrow> bool \<Rightarrow> int \<Rightarrow> (bool \<times> ConnLimiter) option" where
  "AddConnCount c user ip isTcp now =
    (if conn_full c user then Some (True, c)
     else if ip_full c user ip then Some (True, c)
     else (case claim_ip (bump_count c user isTcp) user ip isTcp now of
         None \<Rightarrow> None
       | Some c' \<Rightarrow> Some (False, c')))"

definition drop_count :: "ConnLimiter \<Rightarrow> string \<Rightarrow> ConnLimiter" where
  "drop_count c user =
    (if cl_connLimit c \<noteq> 0 then
       (case mload (cl_count c) user of
          None \<Rightarrow> c
        | Some v \<Rightarrow> if v \<le> 1 then c\<lparr>cl_count := mdelete (cl_count c) user\<rparr>
                    else c\<lparr>cl_count := mstore (cl_count c) user (v - 1)\<rparr>)
     else c)"

definition drop_ip :: "ConnLimiter \<Rightarrow> string \<Rightarrow> string \<Rightarrow> ConnLimiter option" where
  "drop_ip c user ip =
    (if cl_ipLimit c = 0 \<or> \<not> cl_realtime c then Some c
     else case mload (cl_ip c) user of
       None \<Rightarrow> Some c
     | Some is \<Rightarrow>
         (case mload is ip of
            None \<Rightarrow> Some c
          | Some (SlotTime _) \<Rightarrow> None
          | Some (SlotInt v) \<Rightarrow>
              (let is' = (if v \<le> 2 then mdelete is ip else mstore is ip (SlotInt (v - 2)));
                   c' = set_ips c user is'
               in Some (if is' = [] then c'\<lparr>cl_ip := mdelete (cl_ip c') user\<rparr> else c'))))"

definition DelConnCount :: "ConnLimiter \<Rightarrow> string \<Rightarrow> string \<Rightarrow> ConnLimiter option" where
  "DelConnCount c user ip = drop_ip (drop_count c user) user ip"

text \<open>The sweep: an entry is dropped as the code decides, and a user's map that was already
  empty when visited is dropped as a whole.\<close>

definition sweep_entry :: "int \<Rightarrow> ip_slot \<Rightarrow> bool" where
  "sweep_entry now s = (case s of SlotInt n \<Rightarrow> n \<noteq> 1 | SlotTime t \<Rightarrow> \<not> t < now + 60 * 1000000000)"

definition sweep_user :: "int \<Rightarrow> ip_slots \<Rightarrow> ip_slots option" where
  "sweep_user now ips = (if ips = [] then None else Some (filter (\<lambda>(ip, s). sweep_entry now s) ips))"

definition ClearOnlineIP :: "ConnLimiter \<Rightarrow> int \<Rightarrow> ConnLimiter" where
  "ClearOnlineIP c now =
    c\<lparr>cl_ip := List.map_filter (\<lambda>(u, ips). map_option (Pair u) (sweep_user now ips)) (cl_ip c)\<rparr>"

section \<open>Well-formed limiters\<close>

definition slot_of :: "ConnLimiter \<Rightarrow> string \<Rightarrow> string \<Rightarrow> ip_slot option" where
  "slot_of c u i = (case mload (cl_ip c) u of None \<Rightarrow> None | Some ips \<Rightarrow> mload ips i)"

definition slot_ok :: "bool \<Rightarrow> ip_slot \<Rightarrow> bool" where
  "slot_ok realtime s = (case s of SlotInt n \<Rightarrow> realtime \<and> n \<ge> 1 | SlotTime _ \<Rightarrow> \<not> realtime)"

definition ips_ok :: "bool \<Rightarrow> ip_slots \<Rightarrow> bool" where
  "ips_ok realtime ips \<longleftrightarrow> mwf ips \<and> (\<forall>i s. mload ips i = Some s \<longrightarrow> slot_ok realtime s)"

definition cl_wf :: "ConnLimiter \<Rightarrow> bool" where
  "cl_wf c \<longleftrightarrow> mwf (cl_count c) \<and> mwf (cl_ip c) \<and>
     (\<forall>u ips. mload (cl_ip c) u = Some ips \<longrightarrow> ips_ok (cl_realtime c) ips)"

lemma range_count_min:
  "cn < lim \<Longrightarrow> range_count lim cn xs = min lim (cn + int (length xs))"
  by (induction lim cn xs rule: range_count.induct) (auto simp: Let_def)

lemma range_count_full:
  "0 < lim \<Longrightarrow> range_count lim 0 xs \<ge> lim \<longleftrightarrow> int (length xs) \<ge> lim"
  by (simp add: range_count_min)

lemma config_frame [simp]:
  "cl_realtime (bump_count c u t) = cl_realtime c" "cl_ipLimit (bump_count c u t) = cl_ipLimit c"
  "cl_connLimit (bump_count c u t) = cl_connLimit c" "cl_ip (bump_count c u t) = cl_ip c"
  "cl_realtime (set_ips c u m) = cl_realtime c" "cl_ipLimit (set_ips c u m) = cl_ipLimit c"
  "cl_connLimit (set_ips c u m) = cl_connLimit c" "cl_count (set_ips c u m) = cl_count c"
  "cl_ip (set_ips c u m) = mstore (cl_ip c) u m"
  "cl_realtime (drop_count c u) = cl_realtime c" "cl_ipLimit (drop_count c u) = cl_ipLimit c"
  "cl_connLimit (drop_count c u) = cl_connLimit c" "cl_ip (drop_count c u) = cl_ip c"
  "existing_ips (bump_count c u t) v = existing_ips c v"
  by (auto simp: bump_count_def set_ips_def drop_count_def existing_ips_def split: option.splits)

lemma ips_ok_store: "ips_ok r ips \<Longrightarrow> slot_ok r s \<Longrightarrow> ips_ok r (mstore ips i s)"
  by (auto simp: ips_ok_def)

lemma ips_ok_delete: "ips_ok r ips \<Longrightarrow> ips_ok r (mdelete ips i)"
  by (auto simp: ips_ok_def)

lemma ips_ok_filter: "ips_ok r ips \<Longrightarrow> ips_ok r (filter P ips)"
  by (auto simp: ips_ok_def mwf_filter dest!: map_of_SomeD intro: map_of_is_SomeI)

lemma ips_ok_storeIPSlot:
  "ips_ok (cl_realtime c) ips \<Longrightarrow> ips_ok (cl_realtime c) (storeIPSlot c ips ip t now)"
  by (auto simp: storeIPSlot_def slot_ok_def intro!: ips_ok_store)

lemma ips_ok_Nil [simp]: "ips_ok r []"
  by (simp add: ips_ok_def)

lemma set_ips_wf: "cl_wf c \<Longrightarrow> ips_ok (cl_realtime c) ips \<Longrightarrow> cl_wf (set_ips c u ips)"
  by (auto simp: cl_wf_def)

lemma bump_count_wf: "cl_wf c \<Longrightarrow> cl_wf (bump_count c u t)"
  by (auto simp: cl_wf_def bump_count_def split: option.splits)

lemma drop_count_wf: "cl_wf c \<Longrightarrow> cl_wf (drop_count c u)"
  by (auto simp: cl_wf_def drop_count_def split: option.splits)

lemma cl_wf_ips: "cl_wf c \<Longrightarrow> mload (cl_ip c) u = Some ips \<Longrightarrow> ips_ok (cl_realtime c) ips"
  by (simp add: cl_wf_def)

lemma ips_ok_slot: "ips_ok r ips \<Longrightarrow> mload ips i = Some s \<Longrightarrow> slot_ok r s"
  by (simp add: ips_ok_def)

lemma claim_ip_total: "cl_wf c \<Longrightarrow> claim_ip c u ip t now \<noteq> None"
  by (auto simp: claim_ip_def existing_ips_def slot_ok_def
      dest!: cl_wf_ips ips_ok_slot split: option.splits ip_slot.splits)

lemma cl_wf_slot:
  "cl_wf c \<Longrightarrow> mload (cl_ip c) u = Some ips \<Longrightarrow> mload ips i = Some s \<Longrightarrow> slot_ok (cl_realtime c) s"
  by (rule ips_ok_slot [OF cl_wf_ips])

lemma claim_ip_wf: "cl_wf c \<Longrightarrow> claim_ip c u ip t now = Some c' \<Longrightarrow> cl_wf c'"
  unfolding claim_ip_def existing_ips_def
  by (auto intro!: set_ips_wf ips_ok_storeIPSlot ips_ok_store simp: slot_ok_def
      dest: cl_wf_ips split: option.splits ip_slot.splits if_splits)
    (force dest: cl_wf_slot simp: slot_ok_def)

lemma claim_ip_frame:
  "claim_ip c u ip t now = Some c' \<Longrightarrow> cl_realtime c' = cl_realtime c \<and> cl_ipLimit c' = cl_ipLimit c
     \<and> cl_connLimit c' = cl_connLimit c \<and> cl_count c' = cl_count c"
  by (auto simp: claim_ip_def split: option.splits ip_slot.splits if_splits)

lemma drop_ip_total: "cl_wf c \<Longrightarrow> drop_ip c u ip \<noteq> None"
  by (auto simp: drop_ip_def slot_ok_def Let_def dest!: cl_wf_ips ips_ok_slot
      split: option.splits ip_slot.splits)

lemma drop_ip_frame:
  "drop_ip c u ip = Some c' \<Longrightarrow> cl_realtime c' = cl_realtime c \<and> cl_ipLimit c' = cl_ipLimit c
     \<and> cl_connLimit c' = cl_connLimit c \<and> cl_count c' = cl_count c"
  by (auto simp: drop_ip_def Let_def split: option.splits ip_slot.splits if_splits)

lemma drop_ip_wf: "cl_wf c \<Longrightarrow> drop_ip c u ip = Some c' \<Longrightarrow> cl_wf c'"
proof -
  assume wf: "cl_wf c" and r: "drop_ip c u ip = Some c'"
  show "cl_wf c'"
  proof (cases "cl_ipLimit c = 0 \<or> \<not> cl_realtime c \<or> slot_of c u ip = None")
    case True
    with wf r show ?thesis by (auto simp: drop_ip_def slot_of_def split: option.splits)
  next
    case False
    then obtain ips s where ips: "mload (cl_ip c) u = Some ips" and s: "mload ips ip = Some s"
      and g: "cl_ipLimit c \<noteq> 0" "cl_realtime c"
      by (auto simp: slot_of_def split: option.splits)
    then obtain v where v: "s = SlotInt v" using cl_wf_slot [OF wf ips s]
      by (auto simp: slot_ok_def split: ip_slot.splits)
    define is' where "is' = (if v \<le> 2 then mdelete ips ip else mstore ips ip (SlotInt (v - 2)))"
    have "ips_ok (cl_realtime c) is'"
      using cl_wf_ips [OF wf ips] g
      by (auto simp: is'_def slot_ok_def intro!: ips_ok_delete ips_ok_store)
    with wf have "cl_wf (set_ips c u is')" by (rule set_ips_wf)
    then have "cl_wf ((set_ips c u is')\<lparr>cl_ip := mdelete (cl_ip (set_ips c u is')) u\<rparr>)"
      by (auto simp: cl_wf_def split: if_splits)
    with \<open>cl_wf (set_ips c u is')\<close> r g ips s v show ?thesis
      by (auto simp: drop_ip_def Let_def is'_def [symmetric] split: if_splits)
  qed
qed

lemma sweep_user_Some: "sweep_user now ips = Some ips' \<Longrightarrow> ips_ok r ips \<Longrightarrow> ips_ok r ips'"
  by (auto simp: sweep_user_def intro: ips_ok_filter split: if_splits)

lemma map_filter_values:
  fixes m :: "('k, 'v) gomap" and f :: "'v \<Rightarrow> 'w option"
  defines "m' \<equiv> List.map_filter (\<lambda>(u, v). map_option (Pair u) (f v)) m"
  assumes "mwf m"
  shows "mwf m' \<and> (\<forall>u. mload m' u = (case mload m u of None \<Rightarrow> None | Some v \<Rightarrow> f v))"
  using assms(2) unfolding m'_def
proof (induction m)
  case (Cons p m)
  obtain k v where p: "p = (k, v)" by force
  let ?t = "List.map_filter (\<lambda>(u, v). map_option (Pair u) (f v)) m"
  from Cons p have IH: "mwf ?t" "\<And>u. mload ?t u = (case mload m u of None \<Rightarrow> None | Some v \<Rightarrow> f v)"
    and k: "mload m k = None" by (auto simp: map_of_eq_None_iff)
  then have "mload ?t k = None" by simp
  then have "k \<notin> fst ` set ?t" by (simp add: map_of_eq_None_iff)
  with IH k p show ?case by (cases "f v") (auto simp: List.map_filter_simps)
qed (simp add: List.map_filter_simps)

lemma ClearOnlineIP_load:
  "cl_wf c \<Longrightarrow> mload (cl_ip (ClearOnlineIP c now)) u =
     (case mload (cl_ip c) u of None \<Rightarrow> None | Some ips \<Rightarrow> sweep_user now ips)"
  using map_filter_values [of "cl_ip c" "sweep_user now"]
  by (simp add: ClearOnlineIP_def cl_wf_def)

lemma ClearOnlineIP_wf: "cl_wf c \<Longrightarrow> cl_wf (ClearOnlineIP c now)"
proof -
  assume wf: "cl_wf c"
  have "mwf (cl_ip (ClearOnlineIP c now))"
    using map_filter_values [of "cl_ip c" "sweep_user now"] wf
    by (simp add: ClearOnlineIP_def cl_wf_def)
  then show ?thesis
    using wf ClearOnlineIP_load [OF wf, of now]
    by (auto simp: cl_wf_def ClearOnlineIP_def split: option.splits
        intro: sweep_user_Some)
qed

section \<open>Every operation is total on well-formed limiters\<close>

lemma NewConnLimiter_wf [simp]: "cl_wf (NewConnLimiter conn ip r)"
  by (simp add: cl_wf_def NewConnLimiter_def)

lemma AddConnCount_wf: "cl_wf c \<Longrightarrow> AddConnCount c u ip t now = Some (r, c') \<Longrightarrow> cl_wf c'"
  by (auto simp: AddConnCount_def intro: claim_ip_wf bump_count_wf split: if_splits option.splits)

lemma AddConnCount_total: "cl_wf c \<Longrightarrow> AddConnCount c u ip t now \<noteq> None"
  by (auto simp: AddConnCount_def dest: claim_ip_total [OF bump_count_wf] split: option.splits)

lemma DelConnCount_wf: "cl_wf c \<Longrightarrow> DelConnCount c u ip = Some c' \<Longrightarrow> cl_wf c'"
  by (auto simp: DelConnCount_def intro: drop_ip_wf drop_count_wf)

lemma DelConnCount_total: "cl_wf c \<Longrightarrow> DelConnCount c u ip \<noteq> None"
  by (simp add: DelConnCount_def drop_ip_total drop_count_wf)

lemmas cl_total = AddConnCount_total DelConnCount_total
lemmas cl_wf_ops = AddConnCount_wf DelConnCount_wf ClearOnlineIP_wf

end
