(* ===== verification/PanelTypes.thy ===== *)
theory PanelTypes
  imports GoPrelude
begin

text \<open>
  The data the panel and the local configuration hand to the node: the structs of
  \<open>api/panel/node.go\<close>, \<open>api/panel/user.go\<close> and \<open>conf/\<close>. A pointer field is an \<open>option\<close>
  (\<open>None\<close> is \<open>nil\<close>); a Go \<open>int\<close> that is only compared or copied is an \<open>int\<close>; a byte
  counter is an \<open>int64\<close>. Field names carry the struct's initials, since record selectors
  share one name space.
\<close>

section \<open>Users, traffic and online reports\<close>

record UserInfo =
  u_Id :: int
  u_Uuid :: string
  u_SpeedLimit :: int
  u_DeviceLimit :: int

record OnlineUser =
  ou_UID :: int
  ou_IP :: string

record UserTraffic =
  ut_UID :: int
  ut_Upload :: int64
  ut_Download :: int64

section \<open>Node description\<close>

text \<open>
  \<open>any\<close> is the dynamic type of the two interval fields. A JSON decoder produces \<open>nil\<close>, a
  string, a \<open>float64\<close>, a bool, a list or an object; \<open>int\<close> and \<open>int64\<close> occur in values built by Go
  code. A \<open>float64\<close> is the rational number \<open>n / d\<close> it stands for, as a pair.
\<close>

datatype any = AnyNil | AnyInt int | AnyInt64 int | AnyFloat int nat | AnyString string | AnyOther

record BasicConfig =
  bc_PushInterval :: any
  bc_PullInterval :: any
  bc_TrafficReportThreshold :: int64

record SecurityConfig =
  sc_SNI :: string
  sc_RealityServerAddress :: string
  sc_RealityServerPort :: int
  sc_RealityPrivateKey :: string
  sc_RealityShortId :: string
  sc_RealityMldsa65seed :: string

record TransportConfig =
  tc_Path :: string
  tc_Host :: string
  tc_ServiceName :: string
  tc_Mode :: string
  tc_Extra :: string

record VlessNode =
  vl_Port :: int
  vl_Flow :: string
  vl_Network :: string
  vl_TransportConfig :: "TransportConfig option"
  vl_Security :: string
  vl_SecurityConfig :: "SecurityConfig option"

record VmessNode =
  vm_Port :: int
  vm_Network :: string
  vm_TransportConfig :: "TransportConfig option"
  vm_Security :: string
  vm_SecurityConfig :: "SecurityConfig option"

record ShadowsocksNode =
  ss_Port :: int
  ss_Cipher :: string
  ss_ServerKey :: string

record TrojanNode =
  tr_Port :: int
  tr_Network :: string
  tr_TransportConfig :: "TransportConfig option"
  tr_Security :: string
  tr_SecurityConfig :: "SecurityConfig option"

record AnyTLSNode =
  at_Port :: int
  at_SecurityConfig :: "SecurityConfig option"
  at_PaddingScheme :: string

record TuicNode =
  tu_Port :: int
  tu_SecurityConfig :: "SecurityConfig option"

record Hysteria2Node =
  hy_Port :: int
  hy_ObfsPassword :: string
  hy_UpMbps :: int
  hy_DownMbps :: int
  hy_SecurityConfig :: "SecurityConfig option"

record CommonNode =
  cn_Basic :: "BasicConfig option"
  cn_Protocol :: string
  cn_Vless :: "VlessNode option"
  cn_Vmess :: "VmessNode option"
  cn_Shadowsocks :: "ShadowsocksNode option"
  cn_Trojan :: "TrojanNode option"
  cn_AnyTLS :: "AnyTLSNode option"
  cn_Tuic :: "TuicNode option"
  cn_Hysteria2 :: "Hysteria2Node option"

definition empty_common :: "string \<Rightarrow> CommonNode" where
  "empty_common p = \<lparr>cn_Basic = None, cn_Protocol = p, cn_Vless = None, cn_Vmess = None,
     cn_Shadowsocks = None, cn_Trojan = None, cn_AnyTLS = None, cn_Tuic = None,
     cn_Hysteria2 = None\<rparr>"

text \<open>Durations are nanoseconds, as \<open>time.Duration\<close>.\<close>

record NodeInfo =
  ni_Id :: int
  ni_Type :: string
  ni_PushInterval :: int64
  ni_PullInterval :: int64
  ni_Common :: "CommonNode option"

section \<open>Local configuration\<close>

record DynamicSpeedLimitConfig =
  dc_Periodic :: int
  dc_Traffic :: int64
  dc_SpeedLimit :: int
  dc_ExpireTime :: int

record LimitConfig =
  lc_EnableRealtime :: bool
  lc_SpeedLimit :: int
  lc_IPLimit :: int
  lc_ConnLimit :: int
  lc_EnableDynamicSpeedLimit :: bool
  lc_DynamicSpeedLimitConfig :: "DynamicSpeedLimitConfig option"
  lc_MaxReportFailureRollbacks :: int

record CertConfig =
  cc_CertMode :: string
  cc_RejectUnknownSni :: bool
  cc_CertDomain :: string
  cc_CertFile :: string
  cc_KeyFile :: string
  cc_Provider :: string
  cc_Email :: string
  cc_DNSEnv :: "(string, string) gomap option"
  cc_RenewBeforeDays :: int

record FallBackConfigForXray =
  fx_SNI :: string
  fx_Alpn :: string
  fx_Path :: string
  fx_Dest :: string
  fx_ProxyProtocolVer :: "64 word"

record XrayOptions =
  xo_EnableProxyProtocol :: bool
  xo_EnableDNS :: bool
  xo_DNSType :: string
  xo_EnableUot :: bool
  xo_EnableTFO :: bool
  xo_DisableIVCheck :: bool
  xo_DisableSniffing :: bool
  xo_EnableFallback :: bool
  xo_FallBackConfigs :: "FallBackConfigForXray list option"

record FallBack =
  fb_Server :: string
  fb_ServerPort :: string

record FallBackConfigForSing =
  fs_FallBack :: FallBack
  fs_FallBackForALPN :: "(string, FallBack) gomap"

record BrutalOptions =
  br_Enabled :: bool
  br_UpMbps :: int
  br_DownMbps :: int

record MultiplexConfig =
  mx_Enabled :: bool
  mx_Padding :: bool
  mx_Brutal :: BrutalOptions

text \<open>The domain strategy, a type of the embedded server that no code reads, is left out.\<close>

record SingOptions =
  so_TCPFastOpen :: bool
  so_SniffEnabled :: bool
  so_SniffOverrideDestination :: bool
  so_EnableDNS :: bool
  so_FallBackConfigs :: "FallBackConfigForSing option"
  so_Multiplex :: "MultiplexConfig option"

record Options =
  op_Name :: string
  op_Core :: string
  op_CoreName :: string
  op_ListenIP :: string
  op_SendIP :: string
  op_DeviceOnlineMinTraffic :: int64
  op_LimitConfig :: LimitConfig
  op_RawOptions :: string
  op_XrayOptions :: "XrayOptions option"
  op_SingOptions :: "SingOptions option"
  op_CertConfig :: "CertConfig option"

section \<open>Outcomes\<close>

text \<open>
  A Go call that can fail returns normally, returns an error, or panics. An error carries the
  constant part of its message; the values formatted into it are left out.
\<close>

datatype 'a outcome = Ret 'a | Fail string | Panic

definition is_Ret :: "'a outcome \<Rightarrow> bool" where
  "is_Ret r \<longleftrightarrow> (\<exists>x. r = Ret x)"

lemma is_Ret_simps [simp]: "is_Ret (Ret x)" "\<not> is_Ret (Fail e)" "\<not> is_Ret Panic"
  by (simp_all add: is_Ret_def)

definition second :: int64 where "second = 1000000000"
definition minute :: int64 where "minute = 60 * second"
definition hour :: int64 where "hour = 60 * minute"

end
