(* ===== verification/Format.thy ===== *)
theory Format
  imports GoPrelude
begin

text \<open>
  \<open>common/format\<close>: the keys that name inbounds and users throughout the node, and the
  shadowsocks cipher whitelist. Decoding base64 is the standard library's, an argument
  \<open>b64\<close> of the validation.
\<close>

section \<open>Runtime keys and user tags\<close>

definition UserTag :: "string \<Rightarrow> string \<Rightarrow> string" where
  "UserTag tag uuid = tag @ ''|'' @ uuid"

definition RuntimeKey :: "string \<Rightarrow> string \<Rightarrow> string" where
  "RuntimeKey coreType logicalTag = coreType @ ''|'' @ logicalTag"

lemma UserTag_inj [simp]: "UserTag tag u = UserTag tag v \<longleftrightarrow> u = v"
  by (simp add: UserTag_def)

lemma UserTag_eq_RuntimeKey: "UserTag (RuntimeKey c l) u = RuntimeKey c (UserTag l u)"
  by (simp add: UserTag_def RuntimeKey_def)

lemma RuntimeKey_inj:
  assumes "CHR ''|'' \<notin> set c" "CHR ''|'' \<notin> set c'" "RuntimeKey c l = RuntimeKey c' l'"
  shows "c = c' \<and> l = l'"
proof -
  have "Cut (RuntimeKey c l) (CHR ''|'') = Some (c, l)"
    using assms(1) by (simp add: RuntimeKey_def Cut_append)
  moreover have "Cut (RuntimeKey c' l') (CHR ''|'') = Some (c', l')"
    using assms(2) by (simp add: RuntimeKey_def Cut_append)
  ultimately show ?thesis using assms(3) by (metis option.inject prod.inject)
qed

lemma UserTag_inj_uuid:
  assumes "CHR ''|'' \<notin> set u" "CHR ''|'' \<notin> set v" "UserTag t u = UserTag t' v"
  shows "t = t' \<and> u = v"
proof -
  from assms(3) have "rev u @ CHR ''|'' # rev t = rev v @ CHR ''|'' # rev t'"
    by (metis (no_types, lifting) UserTag_def append.assoc append_Cons append_Nil rev.simps(2)
        rev_append)
  moreover have "Cut (rev u @ CHR ''|'' # rev t) (CHR ''|'') = Some (rev u, rev t)"
    using assms(1) by (simp add: Cut_append)
  moreover have "Cut (rev v @ CHR ''|'' # rev t') (CHR ''|'') = Some (rev v, rev t')"
    using assms(2) by (simp add: Cut_append)
  ultimately have "rev u = rev v \<and> rev t = rev t'" by (metis option.inject prod.inject)
  then show ?thesis by simp
qed

section \<open>Shadowsocks ciphers\<close>

definition ShadowsocksAllowedCiphers :: "string list" where
  "ShadowsocksAllowedCiphers =
    [''aes-128-gcm'', ''aes-256-gcm'', ''chacha20-ietf-poly1305'',
     ''2022-blake3-aes-128-gcm'', ''2022-blake3-aes-256-gcm'', ''2022-blake3-chacha20-poly1305'']"

definition shadowsocks2022KeyLen :: "string \<Rightarrow> nat" where
  "shadowsocks2022KeyLen cipher =
    (if cipher = ''2022-blake3-aes-128-gcm'' then 16
     else if cipher = ''2022-blake3-aes-256-gcm'' \<or> cipher = ''2022-blake3-chacha20-poly1305'' then 32
     else 0)"

datatype cipher_error = CipherEmpty | CipherNotAllowed | KeyEmpty | KeyNotBase64 | KeyLength nat nat

text \<open>The loop over the whitelist stops at the first match.\<close>

fun cipher_allowed :: "string \<Rightarrow> string list \<Rightarrow> bool" where
  "cipher_allowed cipher [] = False"
| "cipher_allowed cipher (c # cs) = (if c = cipher then True else cipher_allowed cipher cs)"

definition ValidateShadowsocksCipher ::
  "(string \<Rightarrow> string option) \<Rightarrow> string \<Rightarrow> string \<Rightarrow> cipher_error option" where
  "ValidateShadowsocksCipher b64 cipher serverKey =
    (if cipher = '''' then Some CipherEmpty
     else if \<not> cipher_allowed cipher ShadowsocksAllowedCiphers then Some CipherNotAllowed
     else let want = shadowsocks2022KeyLen cipher in
       if want > 0 then
         if serverKey = '''' then Some KeyEmpty
         else (case b64 serverKey of
             None \<Rightarrow> Some KeyNotBase64
           | Some raw \<Rightarrow> if length raw \<noteq> want then Some (KeyLength want (length raw)) else None)
       else None)"

lemma cipher_allowed_iff: "cipher_allowed c cs \<longleftrightarrow> c \<in> set cs"
  by (induction cs) auto

lemma keylen_2022:
  "shadowsocks2022KeyLen c \<noteq> 0 \<Longrightarrow> c \<in> set ShadowsocksAllowedCiphers"
  by (auto simp: shadowsocks2022KeyLen_def ShadowsocksAllowedCiphers_def split: if_splits)

text \<open>A shadowsocks cipher and server key are accepted exactly when the cipher is on the
  whitelist and, for the three 2022 methods, the key is non-empty base64 that decodes to the 16
  or 32 bytes the method needs; every other combination is rejected.\<close>

lemma cipher_accepted_iff:
  "ValidateShadowsocksCipher b64 c k = None \<longleftrightarrow>
     c \<in> set ShadowsocksAllowedCiphers \<and>
     (shadowsocks2022KeyLen c = 0 \<or>
      (k \<noteq> '''' \<and> (\<exists>raw. b64 k = Some raw \<and> length raw = shadowsocks2022KeyLen c)))"
proof (cases "c \<in> set ShadowsocksAllowedCiphers")
  case True
  then have "c \<noteq> ''''" by (auto simp: ShadowsocksAllowedCiphers_def)
  with True show ?thesis
    by (cases "b64 k")
      (auto simp: ValidateShadowsocksCipher_def cipher_allowed_iff Let_def)
next
  case False
  then show ?thesis
    by (simp add: ValidateShadowsocksCipher_def cipher_allowed_iff)
qed

end
