(* ===== verification/Limiters.thy ===== *)
theory Limiters
  imports ConnLimits PanelTypes Format
begin

text \<open>
  \<open>limiter/\<close>: the alive-address store, the recently-online store, the per-inbound \<open>Limiter\<close> with
  its admission decision \<open>CheckLimit\<close>, and the process-wide registry of limiters keyed by runtime
  key. \<open>Limiter\<close> values are shared by pointer between the registry and the controllers, so they
  live in a heap: an address is an index of \<open>lw_heap\<close>. A token bucket of the rate library is the
  rate it was created with.
\<close>

section \<open>AliveStore\<close>

type_synonym AliveStore = "(int, int) gomap"

definition NewAliveStore :: "(int, int) gomap \<Rightarrow> AliveStore" where
  "NewAliveStore seed = foldl (\<lambda>m (k, v). mstore m k v) [] seed"

definition Alive_Get :: "AliveStore option \<Rightarrow> int \<Rightarrow> int" where
  "Alive_Get s uid = (case s of None \<Rightarrow> 0
     | Some m \<Rightarrow> (case mload m uid of Some v \<Rightarrow> v | None \<Rightarrow> 0))"

definition Alive_Replace :: "AliveStore option \<Rightarrow> (int, int) gomap \<Rightarrow> AliveStore option" where
  "Alive_Replace s nxt = (case s of None \<Rightarrow> None
     | Some _ \<Rightarrow> Some (foldl (\<lambda>m (k, v). mstore m k v) [] nxt))"

definition Alive_Delete :: "AliveStore option \<Rightarrow> int \<Rightarrow> AliveStore option" where
  "Alive_Delete s uid = (case s of None \<Rightarrow> None | Some m \<Rightarrow> Some (mdelete m uid))"

definition Alive_Len :: "AliveStore option \<Rightarrow> nat" where
  "Alive_Len s = (case s of None \<Rightarrow> 0 | Some m \<Rightarrow> length m)"

lemma copy_loop: "mwf m \<Longrightarrow> foldl (\<lambda>m (k, v). mstore m k v) [] m = m"
proof -
  have "mwf (a @ m) \<Longrightarrow> foldl (\<lambda>m (k, v). mstore m k v) a m = a @ m" for a m :: "('a, 'b) gomap"
  proof (induction m arbitrary: a)
    case (Cons p m)
    obtain k v where p: "p = (k, v)" by force
    with Cons.prems have "mload a k = None" by (auto simp: map_of_eq_None_iff)
    then show ?case using Cons p by (simp add: mstore_fresh)
  qed simp
  from this [of "[]" m] show "mwf m \<Longrightarrow> ?thesis" by simp
qed

section \<open>OldUserOnlineStore\<close>

record oldUserOnlineEntry =
  oe_uid :: int
  oe_insertedAt :: int

type_synonym OldUserOnlineStore = "(string, oldUserOnlineEntry) gomap"

definition oldUserOnlineTTL :: int where
  "oldUserOnlineTTL = 10 * 60 * 1000000000"

definition NewOldUserOnlineStore :: OldUserOnlineStore where
  "NewOldUserOnlineStore = []"

definition Old_Store :: "OldUserOnlineStore option \<Rightarrow> string \<Rightarrow> int \<Rightarrow> int \<Rightarrow> OldUserOnlineStore option" where
  "Old_Store s ip uid now = (case s of None \<Rightarrow> None
     | Some m \<Rightarrow> Some (mstore m ip \<lparr>oe_uid = uid, oe_insertedAt = now\<rparr>))"

definition Old_Load :: "OldUserOnlineStore option \<Rightarrow> string \<Rightarrow> int option" where
  "Old_Load s ip = (case s of None \<Rightarrow> None | Some m \<Rightarrow> map_option oe_uid (mload m ip))"

definition Old_Delete :: "OldUserOnlineStore option \<Rightarrow> string \<Rightarrow> OldUserOnlineStore option" where
  "Old_Delete s ip = (case s of None \<Rightarrow> None | Some m \<Rightarrow> Some (mdelete m ip))"

definition Old_Len :: "OldUserOnlineStore option \<Rightarrow> nat" where
  "Old_Len s = (case s of None \<Rightarrow> 0 | Some m \<Rightarrow> length m)"

text \<open>The sweep visits the entries one by one; an entry older than the cutoff is deleted and
  counted.\<close>

fun gc_loop :: "int \<Rightarrow> OldUserOnlineStore \<Rightarrow> OldUserOnlineStore \<Rightarrow> nat \<Rightarrow> OldUserOnlineStore \<times> nat" where
  "gc_loop cutoff [] m evicted = (m, evicted)"
| "gc_loop cutoff ((k, e) # visit) m evicted =
     (if oe_insertedAt e < cutoff then gc_loop cutoff visit (mdelete m k) (Suc evicted)
      else gc_loop cutoff visit m evicted)"

definition Old_GCStale :: "OldUserOnlineStore option \<Rightarrow> int \<Rightarrow> int \<Rightarrow> OldUserOnlineStore option \<times> nat" where
  "Old_GCStale s maxAge now = (case s of None \<Rightarrow> (None, 0)
     | Some m \<Rightarrow>
         if maxAge \<le> 0 then (Some m, 0)
         else (let (m', n) = gc_loop (now - maxAge) m m 0 in (Some m', n)))"

section \<open>Limiter\<close>

record UserLimitInfo =
  ul_UID :: int
  ul_SpeedLimit :: int
  ul_DeviceLimit :: int
  ul_DynamicSpeedLimit :: int
  ul_ExpireTime :: int
  ul_OverLimit :: bool

datatype Bucket = Bucket int

record Limiter =
  lm_SpeedLimit :: int
  lm_UserOnlineIP :: "(string, (string, int) gomap) gomap"
  lm_OldUserOnline :: "OldUserOnlineStore option"
  lm_UUIDtoUID :: "(string, int) gomap"
  lm_UserLimitInfo :: "(string, UserLimitInfo) gomap"
  lm_ConnLimiter :: ConnLimiter
  lm_SpeedLimiter :: "(string, Bucket) gomap"
  lm_AliveList :: "AliveStore option"

definition user_limit_info :: "UserInfo \<Rightarrow> UserLimitInfo" where
  "user_limit_info u = \<lparr>ul_UID = u_Id u,
     ul_SpeedLimit = (if u_SpeedLimit u \<noteq> 0 then u_SpeedLimit u else 0),
     ul_DeviceLimit = (if u_DeviceLimit u \<noteq> 0 then u_DeviceLimit u else 0),
     ul_DynamicSpeedLimit = 0, ul_ExpireTime = 0, ul_OverLimit = False\<rparr>"

text \<open>The loop of \<open>AddLimiter\<close> over the users fills both maps.\<close>

fun install_users :: "string \<Rightarrow> UserInfo list \<Rightarrow> Limiter \<Rightarrow> Limiter" where
  "install_users rk [] l = l"
| "install_users rk (u # us) l = install_users rk us
     (l\<lparr>lm_UUIDtoUID := mstore (lm_UUIDtoUID l) (u_Uuid u) (u_Id u),
        lm_UserLimitInfo := mstore (lm_UserLimitInfo l) (UserTag rk (u_Uuid u)) (user_limit_info u)\<rparr>)"

definition new_limiter :: "string \<Rightarrow> LimitConfig \<Rightarrow> UserInfo list \<Rightarrow> (int, int) gomap \<Rightarrow> Limiter" where
  "new_limiter rk l users aliveList = install_users rk users
     \<lparr>lm_SpeedLimit = lc_SpeedLimit l, lm_UserOnlineIP = [],
      lm_OldUserOnline = Some NewOldUserOnlineStore, lm_UUIDtoUID = [], lm_UserLimitInfo = [],
      lm_ConnLimiter = NewConnLimiter (lc_ConnLimit l) (lc_IPLimit l) (lc_EnableRealtime l),
      lm_SpeedLimiter = [], lm_AliveList = Some (NewAliveStore aliveList)\<rparr>"

fun update_deleted :: "string \<Rightarrow> UserInfo list \<Rightarrow> Limiter \<Rightarrow> Limiter" where
  "update_deleted rk [] l = l"
| "update_deleted rk (u # us) l = update_deleted rk us
     (l\<lparr>lm_UserLimitInfo := mdelete (lm_UserLimitInfo l) (UserTag rk (u_Uuid u)),
        lm_UserOnlineIP := mdelete (lm_UserOnlineIP l) (UserTag rk (u_Uuid u)),
        lm_SpeedLimiter := mdelete (lm_SpeedLimiter l) (UserTag rk (u_Uuid u)),
        lm_UUIDtoUID := mdelete (lm_UUIDtoUID l) (u_Uuid u),
        lm_AliveList := Alive_Delete (lm_AliveList l) (u_Id u)\<rparr>)"

fun update_added :: "string \<Rightarrow> UserInfo list \<Rightarrow> Limiter \<Rightarrow> Limiter" where
  "update_added rk [] l = l"
| "update_added rk (u # us) l = update_added rk us
     (l\<lparr>lm_UserLimitInfo := mstore (lm_UserLimitInfo l) (UserTag rk (u_Uuid u)) (user_limit_info u),
        lm_UUIDtoUID := mstore (lm_UUIDtoUID l) (u_Uuid u) (u_Id u)\<rparr>)"

definition UpdateUser :: "Limiter \<Rightarrow> string \<Rightarrow> UserInfo list \<Rightarrow> UserInfo list \<Rightarrow> Limiter" where
  "UpdateUser l runtimeKey added deleted = update_added runtimeKey added (update_deleted runtimeKey deleted l)"

text \<open>Expiry times are Unix seconds.\<close>

definition unix :: "int \<Rightarrow> int" where
  "unix now = now div 1000000000"

definition UpdateDynamicSpeedLimit ::
  "Limiter \<Rightarrow> string \<Rightarrow> string \<Rightarrow> int \<Rightarrow> int \<Rightarrow> Limiter \<times> unit outcome" where
  "UpdateDynamicSpeedLimit l runtimeKey uuid limit expire =
    (case mload (lm_UserLimitInfo l) (UserTag runtimeKey uuid) of
       Some info \<Rightarrow>
         (l\<lparr>lm_UserLimitInfo := mstore (lm_UserLimitInfo l) (UserTag runtimeKey uuid)
              (info\<lparr>ul_DynamicSpeedLimit := limit, ul_ExpireTime := unix expire\<rparr>)\<rparr>, Ret ())
     | None \<Rightarrow> (l, Fail ''not found''))"

definition AddDynamicSpeedLimit :: "Limiter \<Rightarrow> string \<Rightarrow> UserInfo \<Rightarrow> int \<Rightarrow> int \<Rightarrow> int \<Rightarrow> Limiter" where
  "AddDynamicSpeedLimit l runtimeKey userInfo limitNum expire now =
    l\<lparr>lm_UserLimitInfo := mstore (lm_UserLimitInfo l) (UserTag runtimeKey (u_Uuid userInfo))
        \<lparr>ul_UID = 0, ul_SpeedLimit = 0, ul_DeviceLimit = 0, ul_DynamicSpeedLimit = limitNum,
         ul_ExpireTime = unix (now + expire * 1000000000), ul_OverLimit = False\<rparr>\<rparr>"

definition determineSpeedLimit :: "int \<Rightarrow> int \<Rightarrow> int" where
  "determineSpeedLimit limit1 limit2 =
    (if limit1 = 0 \<or> limit2 = 0 then
       if limit1 > limit2 then limit1 else if limit1 < limit2 then limit2 else 0
     else if limit1 > limit2 then limit2 else if limit1 < limit2 then limit1 else limit1)"

subsection \<open>CheckLimit\<close>

text \<open>The user's own limits; the second case is an expired dynamic limit. \<open>None\<close> is the reject of
  an unknown user.\<close>

definition check_user :: "Limiter \<Rightarrow> string \<Rightarrow> int \<Rightarrow> (Limiter \<times> int \<times> int \<times> int) option" where
  "check_user l taguuid now =
    (case mload (lm_UserLimitInfo l) taguuid of
       None \<Rightarrow> None
     | Some u \<Rightarrow>
         if ul_ExpireTime u < unix now \<and> ul_ExpireTime u \<noteq> 0 then
           if ul_SpeedLimit u \<noteq> 0 then
             Some (l\<lparr>lm_UserLimitInfo := mstore (lm_UserLimitInfo l) taguuid
                       (u\<lparr>ul_DynamicSpeedLimit := 0, ul_ExpireTime := 0\<rparr>)\<rparr>,
                   ul_SpeedLimit u, ul_DeviceLimit u, ul_UID u)
           else
             Some (l\<lparr>lm_UserLimitInfo := mdelete (lm_UserLimitInfo l) taguuid\<rparr>,
                   0, ul_DeviceLimit u, ul_UID u)
         else
           Some (l, determineSpeedLimit (ul_SpeedLimit u) (ul_DynamicSpeedLimit u),
                 ul_DeviceLimit u, ul_UID u))"

text \<open>The device limit: the first component says whether the address is rejected.\<close>

definition check_device :: "Limiter \<Rightarrow> string \<Rightarrow> string \<Rightarrow> int \<Rightarrow> int \<Rightarrow> bool \<times> Limiter" where
  "check_device l taguuid ip uid deviceLimit =
    (let aliveIp = Alive_Get (lm_AliveList l) uid;
         over = deviceLimit > 0 \<and> deviceLimit \<le> aliveIp
     in case mload (lm_UserOnlineIP l) taguuid of
       Some ipMap \<Rightarrow>
         (case mload ipMap ip of
            Some _ \<Rightarrow> (False, l)
          | None \<Rightarrow>
              if over then (True, l)
              else (False, l\<lparr>lm_UserOnlineIP := mstore (lm_UserOnlineIP l) taguuid (mstore ipMap ip uid)\<rparr>))
     | None \<Rightarrow>
         (let l' = l\<lparr>lm_UserOnlineIP := mstore (lm_UserOnlineIP l) taguuid [(ip, uid)]\<rparr>
          in case Old_Load (lm_OldUserOnline l') ip of
            Some storedUid \<Rightarrow>
              if storedUid = uid
              then (False, l'\<lparr>lm_OldUserOnline := Old_Delete (lm_OldUserOnline l') ip\<rparr>)
              else (False, l')
          | None \<Rightarrow>
              if over then (True, l'\<lparr>lm_UserOnlineIP := mdelete (lm_UserOnlineIP l') taguuid\<rparr>)
              else (False, l')))"

text \<open>\<open>int64(...) * 1000000 / 8\<close>: the product wraps, the division truncates.\<close>

definition speed_bytes :: "int \<Rightarrow> int" where
  "speed_bytes mbps = go_quot (sint ((word_of_int mbps :: int64) * 1000000)) 8"

definition check_bucket :: "Limiter \<Rightarrow> string \<Rightarrow> int \<Rightarrow> Bucket option \<times> Limiter" where
  "check_bucket l taguuid userLimit =
    (let limit = speed_bytes (determineSpeedLimit (lm_SpeedLimit l) userLimit)
     in if limit > 0 then
          (case mload (lm_SpeedLimiter l) taguuid of
             Some b \<Rightarrow> (Some b, l)
           | None \<Rightarrow> (Some (Bucket limit),
                      l\<lparr>lm_SpeedLimiter := mstore (lm_SpeedLimiter l) taguuid (Bucket limit)\<rparr>))
        else (None, l))"

definition CheckLimit ::
  "Limiter \<Rightarrow> string \<Rightarrow> string \<Rightarrow> bool \<Rightarrow> bool \<Rightarrow> int \<Rightarrow> ((Bucket option \<times> bool) \<times> Limiter) option" where
  "CheckLimit l taguuid rawip isTcp noSSUDP now =
    (let ip = TrimPrefix rawip ''::ffff:''
     in case AddConnCount (lm_ConnLimiter l) taguuid ip isTcp now of
       None \<Rightarrow> None
     | Some (True, cl) \<Rightarrow> Some ((None, True), l\<lparr>lm_ConnLimiter := cl\<rparr>)
     | Some (False, cl) \<Rightarrow>
         (case check_user (l\<lparr>lm_ConnLimiter := cl\<rparr>) taguuid now of
            None \<Rightarrow> Some ((None, True), l\<lparr>lm_ConnLimiter := cl\<rparr>)
          | Some (l1, userLimit, deviceLimit, uid) \<Rightarrow>
              (case (if noSSUDP then check_device l1 taguuid ip uid deviceLimit else (False, l1)) of
                 (True, l2) \<Rightarrow> Some ((None, True), l2)
               | (False, l2) \<Rightarrow>
                   (case check_bucket l2 taguuid userLimit of
                      (b, l3) \<Rightarrow> Some ((b, False), l3)))))"

subsection \<open>GetOnlineDevice\<close>

fun online_ips :: "(string, int) gomap \<Rightarrow> int \<Rightarrow> OldUserOnlineStore option \<Rightarrow> OnlineUser list
    \<Rightarrow> OldUserOnlineStore option \<times> OnlineUser list" where
  "online_ips [] now old acc = (old, acc)"
| "online_ips ((ip, uid) # m) now old acc =
     online_ips m now (Old_Store old ip uid now) (acc @ [\<lparr>ou_UID = uid, ou_IP = ip\<rparr>])"

fun online_users :: "(string, (string, int) gomap) gomap \<Rightarrow> int \<Rightarrow> Limiter \<Rightarrow> OnlineUser list
    \<Rightarrow> Limiter \<times> OnlineUser list" where
  "online_users [] now l acc = (l, acc)"
| "online_users ((taguuid, ipMap) # m) now l acc =
     (case online_ips ipMap now (lm_OldUserOnline l) acc of
        (old, acc') \<Rightarrow> online_users m now
          (l\<lparr>lm_OldUserOnline := old, lm_UserOnlineIP := mdelete (lm_UserOnlineIP l) taguuid\<rparr>) acc')"

definition GetOnlineDevice :: "Limiter \<Rightarrow> int \<Rightarrow> Limiter \<times> OnlineUser list" where
  "GetOnlineDevice l now = online_users (lm_UserOnlineIP l) now l []"

section \<open>The registry of limiters\<close>

record limworld =
  lw_heap :: "Limiter list"
  lw_reg :: "(string, nat) gomap"

definition limiter_Init :: limworld where
  "limiter_Init = \<lparr>lw_heap = [], lw_reg = []\<rparr>"

definition AddLimiter ::
  "string \<Rightarrow> string \<Rightarrow> LimitConfig \<Rightarrow> UserInfo list \<Rightarrow> (int, int) gomap \<Rightarrow> limworld \<Rightarrow> nat \<times> limworld" where
  "AddLimiter coreType logicalTag l users aliveList w =
    (let rk = RuntimeKey coreType logicalTag; a = length (lw_heap w)
     in (a, w\<lparr>lw_heap := lw_heap w @ [new_limiter rk l users aliveList],
             lw_reg := mstore (lw_reg w) rk a\<rparr>))"

definition GetLimiterByRuntimeKey :: "limworld \<Rightarrow> string \<Rightarrow> nat outcome" where
  "GetLimiterByRuntimeKey w runtimeKey =
    (case mload (lw_reg w) runtimeKey of None \<Rightarrow> Fail ''not found'' | Some a \<Rightarrow> Ret a)"

definition DeleteLimiter :: "string \<Rightarrow> string \<Rightarrow> limworld \<Rightarrow> limworld" where
  "DeleteLimiter coreType logicalTag w =
    w\<lparr>lw_reg := mdelete (lw_reg w) (RuntimeKey coreType logicalTag)\<rparr>"

definition heap_update :: "nat \<Rightarrow> (Limiter \<Rightarrow> Limiter) \<Rightarrow> limworld \<Rightarrow> limworld" where
  "heap_update a f w = w\<lparr>lw_heap := (lw_heap w)[a := f (lw_heap w ! a)]\<rparr>"

text \<open>The periodic sweep over every registered limiter; the number is the evictions it logs.\<close>

definition sweep_limiter :: "int \<Rightarrow> Limiter \<Rightarrow> Limiter \<times> nat" where
  "sweep_limiter now l =
    (case Old_GCStale (lm_OldUserOnline l) oldUserOnlineTTL now of
       (old, n) \<Rightarrow> (l\<lparr>lm_ConnLimiter := ConnLimits.ClearOnlineIP (lm_ConnLimiter l) now,
                      lm_OldUserOnline := old\<rparr>, n))"

fun sweep_loop :: "int \<Rightarrow> (string, nat) gomap \<Rightarrow> limworld \<Rightarrow> nat \<Rightarrow> limworld \<times> nat" where
  "sweep_loop now [] w evicted = (w, evicted)"
| "sweep_loop now ((rk, a) # reg) w evicted =
     (case sweep_limiter now (lw_heap w ! a) of
        (l, n) \<Rightarrow> sweep_loop now reg (heap_update a (\<lambda>_. l) w) (evicted + n))"

definition ClearOnlineIP_all :: "int \<Rightarrow> limworld \<Rightarrow> limworld \<times> nat" where
  "ClearOnlineIP_all now w = sweep_loop now (lw_reg w) w 0"

end
