(* ===== verification/PortRegistry.thy ===== *)
theory PortRegistry
  imports PanelTypes
begin

text \<open>
  \<open>node/port_registry.go\<close>: which sockets a controller claims, the conservative conflict rule
  between two claims, and the registry all controllers of a process share. A reservation is atomic,
  what is reserved is pairwise free of conflicts, and a release undoes a reservation.
\<close>

section \<open>Listeners\<close>

record listenerSpec =
  ls_addr :: string
  ls_port :: uint16
  ls_transport :: string

record listenerOwner =
  lo_spec :: listenerSpec
  lo_runtimeKey :: string
  lo_logicalTag :: string

text \<open>\<open>logicalTags\<close> maps a tag to the runtime key that owns it; \<open>runtimeKeys\<close> is a set.\<close>

record portRegistry =
  pr_listeners :: "listenerOwner list"
  pr_logicalTags :: "(string, string) gomap"
  pr_runtimeKeys :: "(string, unit) gomap"

definition newPortRegistry :: portRegistry where
  "newPortRegistry = \<lparr>pr_listeners = [], pr_logicalTags = [], pr_runtimeKeys = []\<rparr>"

definition normalizeListenAddr :: "string \<Rightarrow> string" where
  "normalizeListenAddr addr = (if addr = '''' then ''0.0.0.0'' else addr)"

definition wild4 :: "string \<Rightarrow> bool" where "wild4 s \<longleftrightarrow> s = ''0.0.0.0''"
definition wild6 :: "string \<Rightarrow> bool" where "wild6 s \<longleftrightarrow> s = ''::''"
definition specificV4 :: "string \<Rightarrow> bool" where "specificV4 s \<longleftrightarrow> \<not> wild4 s \<and> \<not> wild6 s"

definition listenerConflict :: "listenerSpec \<Rightarrow> listenerSpec \<Rightarrow> bool" where
  "listenerConflict a b =
    (if ls_transport a \<noteq> ls_transport b \<or> ls_port a \<noteq> ls_port b then False
     else if ls_addr a = ls_addr b then True
     else if (wild4 (ls_addr a) \<and> specificV4 (ls_addr b)) \<or> (specificV4 (ls_addr a) \<and> wild4 (ls_addr b))
     then True
     else if (wild4 (ls_addr a) \<and> wild6 (ls_addr b)) \<or> (wild6 (ls_addr a) \<and> wild4 (ls_addr b)) then True
     else False)"

definition normalize_spec :: "listenerSpec \<Rightarrow> listenerSpec" where
  "normalize_spec s = s\<lparr>ls_addr := normalizeListenAddr (ls_addr s)\<rparr>"

text \<open>The two nested loops of the check, then the loop that appends.\<close>

fun first_conflict :: "listenerSpec \<Rightarrow> listenerOwner list \<Rightarrow> bool" where
  "first_conflict s [] = False"
| "first_conflict s (e # es) = (if listenerConflict s (lo_spec e) then True else first_conflict s es)"

fun any_conflict :: "listenerSpec list \<Rightarrow> listenerOwner list \<Rightarrow> bool" where
  "any_conflict [] es = False"
| "any_conflict (s # ss) es =
     (if first_conflict (normalize_spec s) es then True else any_conflict ss es)"

fun append_owners :: "string \<Rightarrow> string \<Rightarrow> listenerSpec list \<Rightarrow> listenerOwner list \<Rightarrow> listenerOwner list" where
  "append_owners rk tag [] es = es"
| "append_owners rk tag (s # ss) es = append_owners rk tag ss
     (es @ [\<lparr>lo_spec = normalize_spec s, lo_runtimeKey = rk, lo_logicalTag = tag\<rparr>])"

definition reserve ::
  "string \<Rightarrow> string \<Rightarrow> listenerSpec list \<Rightarrow> portRegistry \<Rightarrow> unit outcome \<times> portRegistry" where
  "reserve runtimeKey logicalTag specs r =
    (case mload (pr_runtimeKeys r) runtimeKey of
       Some _ \<Rightarrow> (Fail ''duplicate runtime key'', r)
     | None \<Rightarrow>
         (case mload (pr_logicalTags r) logicalTag of
            Some owner \<Rightarrow> (Fail ''duplicate logical tag'', r)
          | None \<Rightarrow>
              if any_conflict specs (pr_listeners r) then (Fail ''listener conflicts with existing'', r)
              else (Ret (), r\<lparr>pr_runtimeKeys := mstore (pr_runtimeKeys r) runtimeKey (),
                              pr_logicalTags := mstore (pr_logicalTags r) logicalTag runtimeKey,
                              pr_listeners := append_owners runtimeKey logicalTag specs (pr_listeners r)\<rparr>)))"

text \<open>The loop over \<open>logicalTags\<close> deletes the first tag owned by the key and breaks.\<close>

fun delete_first_tag :: "string \<Rightarrow> (string, string) gomap \<Rightarrow> (string, string) gomap \<Rightarrow> (string, string) gomap" where
  "delete_first_tag rk [] m = m"
| "delete_first_tag rk ((k, v) # visit) m =
     (if v = rk then mdelete m k else delete_first_tag rk visit m)"

definition release :: "string \<Rightarrow> portRegistry \<Rightarrow> portRegistry" where
  "release runtimeKey r =
    (case mload (pr_runtimeKeys r) runtimeKey of
       None \<Rightarrow> r
     | Some _ \<Rightarrow>
         r\<lparr>pr_runtimeKeys := mdelete (pr_runtimeKeys r) runtimeKey,
           pr_logicalTags := delete_first_tag runtimeKey (pr_logicalTags r) (pr_logicalTags r),
           pr_listeners := filter (\<lambda>e. lo_runtimeKey e \<noteq> runtimeKey) (pr_listeners r)\<rparr>)"

section \<open>What a node claims\<close>

definition protocolTransports :: "string \<Rightarrow> string list" where
  "protocolTransports proto =
    (if proto = ''shadowsocks'' then [''tcp'', ''udp'']
     else if proto \<in> {''hysteria'', ''hysteria2'', ''tuic''} then [''udp'']
     else if proto \<in> {''vless'', ''vmess'', ''trojan'', ''anytls''} then [''tcp'']
     else [])"

definition payload_port :: "int option \<Rightarrow> uint16 outcome" where
  "payload_port p = (case p of None \<Rightarrow> Fail ''missing payload'' | Some n \<Rightarrow> Ret (word_of_int n))"

definition protocolPort :: "NodeInfo \<Rightarrow> uint16 outcome" where
  "protocolPort node =
    (case ni_Common node of
       None \<Rightarrow> Fail ''no Common payload''
     | Some c \<Rightarrow>
         (let p = cn_Protocol c in
          if p = ''vless'' then payload_port (map_option vl_Port (cn_Vless c))
          else if p = ''vmess'' then payload_port (map_option vm_Port (cn_Vmess c))
          else if p = ''trojan'' then payload_port (map_option tr_Port (cn_Trojan c))
          else if p = ''shadowsocks'' then payload_port (map_option ss_Port (cn_Shadowsocks c))
          else if p = ''tuic'' then payload_port (map_option tu_Port (cn_Tuic c))
          else if p \<in> {''hysteria'', ''hysteria2''} then payload_port (map_option hy_Port (cn_Hysteria2 c))
          else if p = ''anytls'' then payload_port (map_option at_Port (cn_AnyTLS c))
          else Fail ''unsupported protocol for port lookup''))"

text \<open>The \<open>None\<close> of the inner case cannot occur: \<open>protocolPort\<close> failed before.\<close>

definition listenerSpecsFor :: "NodeInfo \<Rightarrow> string \<Rightarrow> listenerSpec list outcome" where
  "listenerSpecsFor node listenIP =
    (case protocolPort node of
       Fail e \<Rightarrow> Fail e
     | Panic \<Rightarrow> Panic
     | Ret port \<Rightarrow>
         (case ni_Common node of
            None \<Rightarrow> Panic
          | Some c \<Rightarrow>
              (let transports = protocolTransports (cn_Protocol c)
               in if transports = [] then Fail ''no transport mapping for protocol''
                  else Ret (map (\<lambda>t. \<lparr>ls_addr = listenIP, ls_port = port, ls_transport = t\<rparr>) transports))))"

section \<open>Facts\<close>

lemma listenerConflict_sym: "listenerConflict a b = listenerConflict b a"
  by (auto simp: listenerConflict_def)

lemma listenerConflict_refl: "listenerConflict a a"
  by (simp add: listenerConflict_def)

lemma first_conflict_iff: "first_conflict s es \<longleftrightarrow> (\<exists>e \<in> set es. listenerConflict s (lo_spec e))"
  by (induction es) auto

lemma any_conflict_iff:
  "any_conflict ss es \<longleftrightarrow> (\<exists>s \<in> set ss. \<exists>e \<in> set es. listenerConflict (normalize_spec s) (lo_spec e))"
  by (induction ss) (auto simp: first_conflict_iff)

definition owned :: "string \<Rightarrow> string \<Rightarrow> listenerSpec \<Rightarrow> listenerOwner" where
  "owned rk tag s = \<lparr>lo_spec = normalize_spec s, lo_runtimeKey = rk, lo_logicalTag = tag\<rparr>"

lemma owned_simps [simp]: "lo_spec (owned rk tag s) = normalize_spec s"
  "lo_runtimeKey (owned rk tag s) = rk" "lo_logicalTag (owned rk tag s) = tag"
  by (simp_all add: owned_def)

lemma append_owners_map: "append_owners rk tag ss es = es @ map (owned rk tag) ss"
  by (induction ss arbitrary: es) (simp_all add: owned_def)

text \<open>
  Well-formed registries: the tag map is a bijection onto the registered keys, and every listener
  belongs to a registered key under the tag this key owns.
\<close>

definition pr_wf :: "portRegistry \<Rightarrow> bool" where
  "pr_wf r \<longleftrightarrow> mwf (pr_runtimeKeys r) \<and> mwf (pr_logicalTags r) \<and>
     (\<forall>rk. mload (pr_runtimeKeys r) rk \<noteq> None \<longleftrightarrow> (\<exists>t. mload (pr_logicalTags r) t = Some rk)) \<and>
     (\<forall>t1 t2 rk. mload (pr_logicalTags r) t1 = Some rk \<and> mload (pr_logicalTags r) t2 = Some rk \<longrightarrow> t1 = t2) \<and>
     (\<forall>e \<in> set (pr_listeners r). mload (pr_logicalTags r) (lo_logicalTag e) = Some (lo_runtimeKey e))"

text \<open>Listeners of different owners never conflict.\<close>

definition pr_exclusive :: "portRegistry \<Rightarrow> bool" where
  "pr_exclusive r \<longleftrightarrow> (\<forall>e \<in> set (pr_listeners r). \<forall>f \<in> set (pr_listeners r).
     lo_runtimeKey e \<noteq> lo_runtimeKey f \<longrightarrow> \<not> listenerConflict (lo_spec e) (lo_spec f))"

lemma delete_first_tag_spec:
  assumes "mwf m" and "set visit \<subseteq> set m"
    and "\<And>t1 t2. (t1, rk) \<in> set m \<Longrightarrow> (t2, rk) \<in> set m \<Longrightarrow> t1 = t2"
    and "\<And>t. (t, rk) \<in> set m \<Longrightarrow> (t, rk) \<in> set visit"
  shows "delete_first_tag rk visit m = filter (\<lambda>(t, v). v \<noteq> rk) m"
  using assms(2,4)
proof (induction visit)
  case Nil
  then have "filter (\<lambda>(t, v). v \<noteq> rk) m = m" by (intro filter_True) auto
  then show ?case by simp
next
  case (Cons p visit)
  obtain k v where p: "p = (k, v)" by force
  show ?case
  proof (cases "v = rk")
    case True
    have kin: "(k, rk) \<in> set m" using Cons.prems(1) p True by simp
    have "fst x \<noteq> k \<longleftrightarrow> snd x \<noteq> rk" if "x \<in> set m" for x
    proof
      assume "fst x \<noteq> k" then show "snd x \<noteq> rk" using assms(3) [OF kin, of "fst x"] that
        by (metis prod.collapse)
    next
      assume "snd x \<noteq> rk" then show "fst x \<noteq> k" using kin that eq_key_imp_eq_value [OF assms(1)]
        by (metis prod.collapse)
    qed
    then have "mdelete m k = filter (\<lambda>(t, v). v \<noteq> rk) m"
      by (auto simp: AList.delete_eq case_prod_unfold intro!: filter_cong)
    then show ?thesis using p True by simp
  next
    case False
    have "\<And>t. (t, rk) \<in> set m \<Longrightarrow> (t, rk) \<in> set visit" using Cons.prems(2) p False by fastforce
    with Cons p False show ?thesis by simp
  qed
qed

lemma release_tags:
  assumes "pr_wf r"
  shows "delete_first_tag rk (pr_logicalTags r) (pr_logicalTags r) =
     filter (\<lambda>(t, v). v \<noteq> rk) (pr_logicalTags r)"
  using assms by (intro delete_first_tag_spec) (auto simp: pr_wf_def)

lemma pr_wfI:
  assumes "mwf (pr_runtimeKeys r)" and "mwf (pr_logicalTags r)"
    and "\<And>rk. mload (pr_runtimeKeys r) rk \<noteq> None \<longleftrightarrow> (\<exists>t. mload (pr_logicalTags r) t = Some rk)"
    and "\<And>t1 t2 rk. mload (pr_logicalTags r) t1 = Some rk \<Longrightarrow> mload (pr_logicalTags r) t2 = Some rk \<Longrightarrow> t1 = t2"
    and "\<And>e. e \<in> set (pr_listeners r) \<Longrightarrow> mload (pr_logicalTags r) (lo_logicalTag e) = Some (lo_runtimeKey e)"
  shows "pr_wf r"
  using assms unfolding pr_wf_def by blast

lemma pr_wf_new: "pr_wf newPortRegistry"
  by (simp add: pr_wf_def newPortRegistry_def)

lemma pr_exclusive_new: "pr_exclusive newPortRegistry"
  by (simp add: pr_exclusive_def newPortRegistry_def)

lemma reserve_Ret:
  "reserve rk tag ss r = (Ret (), r') \<longleftrightarrow> mload (pr_runtimeKeys r) rk = None \<and>
     mload (pr_logicalTags r) tag = None \<and> \<not> any_conflict ss (pr_listeners r) \<and>
     r' = r\<lparr>pr_runtimeKeys := mstore (pr_runtimeKeys r) rk (), pr_logicalTags := mstore (pr_logicalTags r) tag rk,
            pr_listeners := pr_listeners r @ map (owned rk tag) ss\<rparr>"
  by (auto simp: reserve_def append_owners_map split: option.splits if_splits)

lemma reserve_Fail: "reserve rk tag ss r = (Fail e, r') \<Longrightarrow> r' = r"
  by (auto simp: reserve_def split: option.splits if_splits)

lemma reserve_no_panic: "fst (reserve rk tag ss r) \<noteq> Panic"
  by (auto simp: reserve_def split: option.splits if_splits)

lemma pr_wf_tag: "pr_wf r \<Longrightarrow> mload (pr_logicalTags r) t = Some rk \<Longrightarrow> mload (pr_runtimeKeys r) rk \<noteq> None"
  by (metis pr_wf_def)

lemma reserve_wf:
  assumes wf: "pr_wf r" and ok: "reserve rk tag ss r = (Ret (), r')"
  shows "pr_wf r'"
proof -
  from ok have rk: "mload (pr_runtimeKeys r) rk = None" and tag: "mload (pr_logicalTags r) tag = None"
    and r': "r' = r\<lparr>pr_runtimeKeys := mstore (pr_runtimeKeys r) rk (), pr_logicalTags := mstore (pr_logicalTags r) tag rk,
            pr_listeners := pr_listeners r @ map (owned rk tag) ss\<rparr>"
    by (auto simp: reserve_Ret)
  have norev: "mload (pr_logicalTags r) t \<noteq> Some rk" for t
    using pr_wf_tag [OF wf, of t rk] rk by auto
  have keys: "mload (pr_runtimeKeys r') k \<noteq> None \<longleftrightarrow> (\<exists>t. mload (pr_logicalTags r') t = Some k)" for k
  proof -
    have "mload (pr_runtimeKeys r) k \<noteq> None \<longleftrightarrow> (\<exists>t. mload (pr_logicalTags r) t = Some k)"
      using wf by (simp add: pr_wf_def)
    moreover have "(\<exists>t. mload (pr_logicalTags r') t = Some k) \<longleftrightarrow>
        k = rk \<or> (\<exists>t. mload (pr_logicalTags r) t = Some k)"
      using tag norev by (simp add: r') (metis option.distinct(1))
    ultimately show ?thesis by (simp add: r')
  qed
  have uniq: "t1 = t2" if "mload (pr_logicalTags r') t1 = Some k" "mload (pr_logicalTags r') t2 = Some k" for t1 t2 k
  proof -
    have "mload (pr_logicalTags r) t1 = Some k \<Longrightarrow> mload (pr_logicalTags r) t2 = Some k \<Longrightarrow> t1 = t2"
      using wf unfolding pr_wf_def by blast
    then show ?thesis using that norev by (auto simp: r' split: if_splits)
  qed
  have lst: "mload (pr_logicalTags r') (lo_logicalTag e) = Some (lo_runtimeKey e)"
    if "e \<in> set (pr_listeners r')" for e
    using that wf tag by (auto simp: r' pr_wf_def)
  have "mwf (pr_runtimeKeys r')" "mwf (pr_logicalTags r')"
    using wf by (simp_all add: r' pr_wf_def)
  then show ?thesis using keys uniq lst unfolding pr_wf_def by blast
qed

lemma owner_key: "pr_wf r \<Longrightarrow> e \<in> set (pr_listeners r) \<Longrightarrow> mload (pr_runtimeKeys r) (lo_runtimeKey e) \<noteq> None"
  by (meson pr_wf_def)

lemma reserve_exclusive:
  assumes wf: "pr_wf r" and ex: "pr_exclusive r" and ok: "reserve rk tag ss r = (Ret (), r')"
  shows "pr_exclusive r'"
proof -
  from ok have free: "\<not> any_conflict ss (pr_listeners r)"
    and r': "pr_listeners r' = pr_listeners r @ map (owned rk tag) ss"
    by (auto simp: reserve_Ret)
  have new: "\<not> listenerConflict (lo_spec (owned rk tag s)) (lo_spec e)"
    if "s \<in> set ss" "e \<in> set (pr_listeners r)" for s e
    using free that by (auto simp: any_conflict_iff)
  show ?thesis
    using ex new by (auto simp: pr_exclusive_def r' listenerConflict_sym)
qed

lemma release_state:
  assumes "pr_wf r" and "mload (pr_runtimeKeys r) rk = Some y"
  shows "release rk r = r\<lparr>pr_runtimeKeys := mdelete (pr_runtimeKeys r) rk,
      pr_logicalTags := filter (\<lambda>(t, v). v \<noteq> rk) (pr_logicalTags r),
      pr_listeners := filter (\<lambda>e. lo_runtimeKey e \<noteq> rk) (pr_listeners r)\<rparr>"
  using assms(2) release_tags [OF assms(1), of rk] by (simp add: release_def)

lemma released_tags:
  "pr_wf r \<Longrightarrow> mload (filter (\<lambda>(t, v). v \<noteq> rk) (pr_logicalTags r)) t = Some k \<longleftrightarrow>
     k \<noteq> rk \<and> mload (pr_logicalTags r) t = Some k"
  by (cases "mload (pr_logicalTags r) t") (auto simp: pr_wf_def mload_filter)

lemma release_wf: "pr_wf r \<Longrightarrow> pr_wf (release rk r)"
proof (cases "mload (pr_runtimeKeys r) rk")
  case (Some y)
  assume wf: "pr_wf r"
  have keys: "mload (pr_runtimeKeys r) k \<noteq> None \<longleftrightarrow> (\<exists>t. mload (pr_logicalTags r) t = Some k)" for k
    using wf by (simp add: pr_wf_def)
  show ?thesis
    unfolding release_state [OF wf Some]
  proof (rule pr_wfI, goal_cases)
    case (3 k)
    show ?case using keys [of k] wf by (simp add: released_tags pr_wf_def)
  next
    case (4 t1 t2 k)
    with wf show ?case by (simp add: released_tags) (auto simp: pr_wf_def)
  qed (use wf in \<open>simp_all add: released_tags [OF wf] mwf_filter, simp_all add: pr_wf_def mwf_filter\<close>)
qed (simp add: release_def)

lemma release_exclusive: "pr_exclusive r \<Longrightarrow> pr_exclusive (release rk r)"
  by (auto simp: pr_exclusive_def release_def split: option.splits)

lemma release_reserve:
  assumes wf: "pr_wf r" and ok: "reserve rk tag ss r = (Ret (), r')"
  shows "release rk r' = r"
proof -
  from ok have rk: "mload (pr_runtimeKeys r) rk = None"
    and r': "r' = r\<lparr>pr_runtimeKeys := mstore (pr_runtimeKeys r) rk (), pr_logicalTags := mstore (pr_logicalTags r) tag rk,
            pr_listeners := pr_listeners r @ map (owned rk tag) ss\<rparr>"
    by (auto simp: reserve_Ret)
  have "filter (\<lambda>(t, v). v \<noteq> rk) (pr_logicalTags r) = pr_logicalTags r"
    using wf rk pr_wf_tag [OF wf] by (intro filter_True) (auto simp: pr_wf_def)
  moreover have "mload (pr_logicalTags r) tag = None" using ok by (simp add: reserve_Ret)
  ultimately have t: "filter (\<lambda>(t, v). v \<noteq> rk) (pr_logicalTags r') = pr_logicalTags r"
    by (simp add: r' mstore_fresh)
  have "filter (\<lambda>e. lo_runtimeKey e \<noteq> rk) (pr_listeners r) = pr_listeners r"
    using owner_key [OF wf] rk by (intro filter_True) auto
  then have l: "filter (\<lambda>e. lo_runtimeKey e \<noteq> rk) (pr_listeners r') = pr_listeners r" by (simp add: r')
  have k: "mload (pr_runtimeKeys r') rk = Some ()" "mdelete (pr_runtimeKeys r') rk = pr_runtimeKeys r"
    using rk by (simp_all add: r' mdelete_mstore_fresh)
  show ?thesis
    using k t l release_tags [OF reserve_wf [OF wf ok], of rk] by (simp add: release_def r')
qed

section \<open>The registry as a ledger of claims\<close>

definition claim_ports ::
  "string \<Rightarrow> (string \<times> listenerSpec list) \<Rightarrow> portRegistry \<Rightarrow> portRegistry option" where
  "claim_ports rk c r =
    (case reserve rk (fst c) (snd c) r of (Ret _, r') \<Rightarrow> Some r' | _ \<Rightarrow> None)"

lemma claim_ports_Some: "claim_ports rk c r = Some r' \<longleftrightarrow> reserve rk (fst c) (snd c) r = (Ret (), r')"
  by (auto simp: claim_ports_def split: prod.splits outcome.splits)

interpretation ports: claim_ledger claim_ports release "\<lambda>r. set (mkeys (pr_runtimeKeys r))"
    "\<lambda>r. pr_wf r \<and> pr_exclusive r"
proof unfold_locales
  fix r k c r' assume ok: "pr_wf r \<and> pr_exclusive r" and cl: "claim_ports k c r = Some r'"
  from cl have rs: "reserve k (fst c) (snd c) r = (Ret (), r')" by (simp add: claim_ports_Some)
  show "release k r' = r" by (rule release_reserve [OF conjunct1 [OF ok] rs])
  show "pr_wf r' \<and> pr_exclusive r'" using ok reserve_wf [OF _ rs] reserve_exclusive [OF _ _ rs] by blast
  show "k \<notin> set (mkeys (pr_runtimeKeys r)) \<and>
      set (mkeys (pr_runtimeKeys r')) = insert k (set (mkeys (pr_runtimeKeys r)))"
    using rs by (auto simp: reserve_Ret map_of_eq_None_iff dom_update)
next
  fix r k assume ok: "pr_wf r \<and> pr_exclusive r"
  then show "pr_wf (release k r) \<and> pr_exclusive (release k r)"
    using release_wf release_exclusive by blast
  show "set (mkeys (pr_runtimeKeys (release k r))) = set (mkeys (pr_runtimeKeys r)) - {k}"
  proof (cases "mload (pr_runtimeKeys r) k")
    case None
    then have "k \<notin> set (mkeys (pr_runtimeKeys r))" by (simp add: map_of_eq_None_iff)
    with None show ?thesis by (simp add: release_def del: set_map)
  next
    case (Some u)
    then show ?thesis by (simp add: release_def delete_keys del: set_map)
  qed
qed

section \<open>Properties\<close>

text \<open>C5: A reservation succeeds exactly when neither the runtime key nor the logical tag is
  taken and no requested listener, its empty address read as the wildcard, conflicts with a
  reserved one; otherwise it returns an error and changes nothing.\<close>

theorem reserve_iff_free:
  "\<exists>res r'. reserve rk tag specs r = (res, r') \<and>
     (res = Ret () \<longleftrightarrow> mload (pr_runtimeKeys r) rk = None \<and> mload (pr_logicalTags r) tag = None \<and>
        (\<forall>s \<in> set specs. \<forall>e \<in> set (pr_listeners r).
           \<not> listenerConflict (s\<lparr>ls_addr := normalizeListenAddr (ls_addr s)\<rparr>) (lo_spec e))) \<and>
     (res \<noteq> Ret () \<longrightarrow> (\<exists>e. res = Fail e) \<and> r' = r)"
  by (auto simp: reserve_def any_conflict_iff normalize_spec_def split: option.splits)

theorem reserve_iff_free_witness:
  "\<exists>e. reserve ''b'' ''u'' [\<lparr>ls_addr = ''192.0.2.1'', ls_port = 443, ls_transport = ''tcp''\<rparr>]
      (snd (reserve ''a'' ''t'' [\<lparr>ls_addr = '''', ls_port = 443, ls_transport = ''tcp''\<rparr>] newPortRegistry)) =
    (Fail e, snd (reserve ''a'' ''t'' [\<lparr>ls_addr = '''', ls_port = 443, ls_transport = ''tcp''\<rparr>] newPortRegistry))"
proof -
  let ?r = "snd (reserve ''a'' ''t'' [\<lparr>ls_addr = '''', ls_port = 443, ls_transport = ''tcp''\<rparr>] newPortRegistry)"
  let ?s = "[\<lparr>ls_addr = ''192.0.2.1'', ls_port = 443, ls_transport = ''tcp''\<rparr>]"
  have l: "pr_listeners ?r = [\<lparr>lo_spec = \<lparr>ls_addr = ''0.0.0.0'', ls_port = 443, ls_transport = ''tcp''\<rparr>,
      lo_runtimeKey = ''a'', lo_logicalTag = ''t''\<rparr>]"
    by (simp add: newPortRegistry_def reserve_def normalize_spec_def normalizeListenAddr_def)
  obtain res r' where "reserve ''b'' ''u'' ?s ?r = (res, r')" "res \<noteq> Ret ()" "res \<noteq> Ret () \<longrightarrow> (\<exists>e. res = Fail e) \<and> r' = ?r"
    using reserve_iff_free [of "''b''" "''u''" ?s ?r]
    by (auto simp: l listenerConflict_def normalizeListenAddr_def wild4_def wild6_def specificV4_def)
  then show ?thesis by blast
qed

text \<open>The registry as the controllers of a process drive it.\<close>

inductive registry_reach :: "portRegistry \<Rightarrow> bool" where
  registry_new: "registry_reach newPortRegistry"
| registry_reserve: "registry_reach r \<Longrightarrow> reserve rk tag specs r = (res, r') \<Longrightarrow> registry_reach r'"
| registry_release: "registry_reach r \<Longrightarrow> registry_reach (release rk r)"

lemma registry_reach_snd: "registry_reach r \<Longrightarrow> registry_reach (snd (reserve rk tag specs r))"
  by (erule registry_reserve) (rule surjective_pairing)

lemma registry_reach_inv: "registry_reach r \<Longrightarrow> pr_wf r \<and> pr_exclusive r"
proof (induction rule: registry_reach.induct)
  case registry_new
  show ?case by (simp add: pr_wf_new pr_exclusive_new)
next
  case (registry_reserve r rk tag specs res r')
  then show ?case
    using reserve_no_panic [of rk tag specs r]
    by (cases res) (auto dest: reserve_Fail reserve_wf reserve_exclusive)
next
  case (registry_release r rk)
  then show ?case by (simp add: release_wf release_exclusive)
qed

text \<open>C6: No two controllers hold conflicting sockets. In every registry reachable by reservations
  and releases, two listeners of different controllers with the same transport and port have
  different addresses, neither of which is the IPv4 wildcard; every listener belongs to the one
  controller that owns its logical tag.\<close>

theorem registry_exclusive:
  assumes "registry_reach r" and "e \<in> set (pr_listeners r)" and "f \<in> set (pr_listeners r)"
    and "lo_runtimeKey e \<noteq> lo_runtimeKey f"
    and "ls_transport (lo_spec e) = ls_transport (lo_spec f)" and "ls_port (lo_spec e) = ls_port (lo_spec f)"
  shows "ls_addr (lo_spec e) \<noteq> ls_addr (lo_spec f) \<and> ls_addr (lo_spec e) \<noteq> ''0.0.0.0'' \<and>
     ls_addr (lo_spec f) \<noteq> ''0.0.0.0'' \<and> lo_logicalTag e \<noteq> lo_logicalTag f \<and>
     mload (pr_logicalTags r) (lo_logicalTag e) = Some (lo_runtimeKey e)"
proof -
  have wf: "pr_wf r" and ex: "pr_exclusive r" using registry_reach_inv [OF assms(1)] by auto
  from ex assms have "\<not> listenerConflict (lo_spec e) (lo_spec f)" by (auto simp: pr_exclusive_def)
  then have 1: "ls_addr (lo_spec e) \<noteq> ls_addr (lo_spec f)" "ls_addr (lo_spec e) \<noteq> ''0.0.0.0''"
    "ls_addr (lo_spec f) \<noteq> ''0.0.0.0''"
    using assms by (auto simp: listenerConflict_def wild4_def wild6_def specificV4_def split: if_splits)
  have 2: "mload (pr_logicalTags r) (lo_logicalTag e) = Some (lo_runtimeKey e)"
    "mload (pr_logicalTags r) (lo_logicalTag f) = Some (lo_runtimeKey f)"
    using wf assms(2,3) by (auto simp: pr_wf_def)
  then have "lo_logicalTag e \<noteq> lo_logicalTag f" using assms(4) by auto
  with 1 2 show ?thesis by simp
qed

theorem registry_exclusive_witness:
  "\<exists>r e f. registry_reach r \<and> e \<in> set (pr_listeners r) \<and> f \<in> set (pr_listeners r) \<and>
     ls_port (lo_spec e) = ls_port (lo_spec f) \<and> lo_logicalTag e \<noteq> lo_logicalTag f"
proof -
  let ?s = "\<lambda>a. \<lparr>ls_addr = a, ls_port = 443, ls_transport = ''tcp''\<rparr>"
  let ?r1 = "snd (reserve ''a'' ''t'' [?s ''192.0.2.1''] newPortRegistry)"
  define r2 where "r2 = snd (reserve ''b'' ''u'' [?s ''192.0.2.2''] ?r1)"
  have reach: "registry_reach r2"
    unfolding r2_def by (intro registry_reach_snd registry_new)
  let ?e = "owned ''a'' ''t'' (?s ''192.0.2.1'')" and ?f = "owned ''b'' ''u'' (?s ''192.0.2.2'')"
  have mem: "?e \<in> set (pr_listeners r2)" "?f \<in> set (pr_listeners r2)"
    by (simp_all add: r2_def newPortRegistry_def reserve_def append_owners_map listenerConflict_def
        normalize_spec_def normalizeListenAddr_def wild4_def wild6_def specificV4_def)
  from registry_exclusive [OF reach mem] have "lo_logicalTag ?e \<noteq> lo_logicalTag ?f"
    by (simp add: normalize_spec_def)
  with reach mem show ?thesis by (intro exI [of _ r2] exI [of _ ?e] exI [of _ ?f]) (simp add: normalize_spec_def)
qed

text \<open>C7: Releasing undoes reserving, also for a whole start sequence. When controllers reserve
  one after the other and all are released in reverse order, the registry is the one before.\<close>

theorem reserve_release_roundtrip:
  assumes "registry_reach r" and "ports.claim_all claims r = Some r'"
  shows "foldr (\<lambda>(rk, c). release rk) claims r' = r \<and> distinct (map fst claims)"
  using ports.rollback [OF registry_reach_inv [OF assms(1)] assms(2)]
    ports.claim_all_held [OF registry_reach_inv [OF assms(1)] assms(2)] by simp

theorem reserve_release_roundtrip_witness:
  "\<exists>r'. ports.claim_all [(''a'', ''t'', [\<lparr>ls_addr = '''', ls_port = 443, ls_transport = ''tcp''\<rparr>])]
      newPortRegistry = Some r' \<and> release ''a'' r' = newPortRegistry"
proof -
  let ?c = "[(''a'', ''t'', [\<lparr>ls_addr = '''', ls_port = 443, ls_transport = ''tcp''\<rparr>])]"
  obtain r' where r': "ports.claim_all ?c newPortRegistry = Some r'"
    by (simp add: claim_ports_def newPortRegistry_def reserve_def)
  with reserve_release_roundtrip [OF registry_new r'] show ?thesis by simp
qed

lemma listenerSpecsFor_shape:
  "listenerSpecsFor node ip = Ret specs \<Longrightarrow> \<exists>c port. ni_Common node = Some c \<and> protocolPort node = Ret port \<and>
     specs = map (\<lambda>t. \<lparr>ls_addr = ip, ls_port = port, ls_transport = t\<rparr>) (protocolTransports (cn_Protocol c)) \<and>
     specs \<noteq> []"
  by (auto simp: listenerSpecsFor_def Let_def split: outcome.splits option.splits if_splits)

lemma conflict_addr:
  "listenerConflict \<lparr>ls_addr = a, ls_port = p, ls_transport = t\<rparr> \<lparr>ls_addr = b, ls_port = q, ls_transport = u\<rparr>
     \<longleftrightarrow> t = u \<and> p = q \<and> (a = b \<or> a = ''0.0.0.0'' \<or> b = ''0.0.0.0'')"
  by (auto simp: listenerConflict_def wild4_def wild6_def specificV4_def)

text \<open>When two nodes can share a host. After one node has reserved the listeners derived from
  its description, a second node with another tag can reserve its own exactly when the ports differ,
  the protocols use different transports, or both bind to different addresses neither of which is
  the IPv4 wildcard (an empty listen address is the wildcard).\<close>

lemma two_nodes_share:
  assumes "listenerSpecsFor n1 ip1 = Ret specs1" and "listenerSpecsFor n2 ip2 = Ret specs2"
    and "ni_Common n1 = Some c1" and "ni_Common n2 = Some c2"
    and "rk1 \<noteq> rk2" and "tag1 \<noteq> tag2"
  shows "\<exists>r. reserve rk1 tag1 specs1 newPortRegistry = (Ret (), r) \<and>
     (fst (reserve rk2 tag2 specs2 r) = Ret () \<longleftrightarrow>
        protocolPort n1 \<noteq> protocolPort n2 \<or>
        set (protocolTransports (cn_Protocol c1)) \<inter> set (protocolTransports (cn_Protocol c2)) = {} \<or>
        (normalizeListenAddr ip1 \<noteq> normalizeListenAddr ip2 \<and>
         normalizeListenAddr ip1 \<noteq> ''0.0.0.0'' \<and> normalizeListenAddr ip2 \<noteq> ''0.0.0.0''))"
proof -
  obtain p1 where p1: "protocolPort n1 = Ret p1"
    and s1: "specs1 = map (\<lambda>t. \<lparr>ls_addr = ip1, ls_port = p1, ls_transport = t\<rparr>) (protocolTransports (cn_Protocol c1))"
    using listenerSpecsFor_shape [OF assms(1)] assms(3) by auto
  obtain p2 where p2: "protocolPort n2 = Ret p2"
    and s2: "specs2 = map (\<lambda>t. \<lparr>ls_addr = ip2, ls_port = p2, ls_transport = t\<rparr>) (protocolTransports (cn_Protocol c2))"
    using listenerSpecsFor_shape [OF assms(2)] assms(4) by auto
  let ?r = "snd (reserve rk1 tag1 specs1 newPortRegistry)"
  have r: "reserve rk1 tag1 specs1 newPortRegistry = (Ret (), ?r)"
    by (simp add: reserve_def newPortRegistry_def any_conflict_iff)
  from r [unfolded reserve_Ret] have L: "pr_listeners ?r = map (owned rk1 tag1) specs1"
    and K: "mload (pr_runtimeKeys ?r) rk2 = None" "mload (pr_logicalTags ?r) tag2 = None"
    using assms(5,6) by (simp_all add: newPortRegistry_def)
  have "fst (reserve rk2 tag2 specs2 ?r) = Ret () \<longleftrightarrow> \<not> any_conflict specs2 (pr_listeners ?r)"
    using K by (simp add: reserve_def)
  also have "any_conflict specs2 (pr_listeners ?r) \<longleftrightarrow>
      (\<exists>t \<in> set (protocolTransports (cn_Protocol c2)). \<exists>u \<in> set (protocolTransports (cn_Protocol c1)).
        t = u \<and> p2 = p1 \<and> (normalizeListenAddr ip2 = normalizeListenAddr ip1 \<or>
          normalizeListenAddr ip2 = ''0.0.0.0'' \<or> normalizeListenAddr ip1 = ''0.0.0.0''))"
    unfolding any_conflict_iff L unfolding s1 s2 by (simp add: normalize_spec_def conflict_addr)
  finally show ?thesis using r by (intro exI [of _ ?r]) (auto simp: p1 p2)
qed

lemma two_nodes_share_example:
  "\<exists>r. reserve ''a'' ''t'' [\<lparr>ls_addr = '''', ls_port = 443, ls_transport = ''udp''\<rparr>] newPortRegistry = (Ret (), r) \<and>
     fst (reserve ''b'' ''u'' [\<lparr>ls_addr = '''', ls_port = 443, ls_transport = ''tcp''\<rparr>] r) = Ret ()"
proof -
  let ?n = "\<lambda>c. \<lparr>ni_Id = 1, ni_Type = '''', ni_PushInterval = 0, ni_PullInterval = 0, ni_Common = Some c\<rparr>"
  let ?c1 = "empty_common ''tuic''\<lparr>cn_Tuic := Some \<lparr>tu_Port = 443, tu_SecurityConfig = None\<rparr>\<rparr>"
  let ?c2 = "empty_common ''anytls''\<lparr>cn_AnyTLS := Some \<lparr>at_Port = 443, at_SecurityConfig = None, at_PaddingScheme = ''''\<rparr>\<rparr>"
  have 1: "listenerSpecsFor (?n ?c1) '''' = Ret [\<lparr>ls_addr = '''', ls_port = 443, ls_transport = ''udp''\<rparr>]"
    and 2: "listenerSpecsFor (?n ?c2) '''' = Ret [\<lparr>ls_addr = '''', ls_port = 443, ls_transport = ''tcp''\<rparr>]"
    by (simp_all add: listenerSpecsFor_def protocolPort_def payload_port_def protocolTransports_def empty_common_def)
  from two_nodes_share [OF 1 2, of ?c1 ?c2 "''a''" "''b''" "''t''" "''u''"] show ?thesis
    by (auto simp: protocolTransports_def empty_common_def)
qed

end
