(* ===== verification/CertManager.thy ===== *)
theory CertManager
  imports PanelTypes
begin

text \<open>
  \<open>node/cert_manager.go\<close>, \<open>node/cert.go\<close> and \<open>node/lego.go\<close>: the certificate lifecycle on disk. A file
  system maps paths to contents. Certificate parsing, key generation, the ACME client and the
  faults of single file operations are fields of \<open>cert_env\<close>; the current time is one too. An action
  is returned by the name the code gives it, an error as \<open>Fail\<close>.
\<close>

section \<open>Environment and state\<close>

record certificate =
  x_DNSNames :: "string list"
  x_CommonName :: string
  x_NotAfter :: int

datatype write_fault = WOk | WMkdir | WCreate | WWrite nat | WSync | WClose | WChmod | WRename

record cert_env =
  ce_now :: int
  ce_parse :: "string \<Rightarrow> certificate option"
  ce_unreadable :: "string \<Rightarrow> bool"
  ce_fault :: "string \<Rightarrow> write_fault"
  ce_tmp :: "string \<Rightarrow> string"
  ce_selfsign :: "string \<Rightarrow> int \<Rightarrow> (string \<times> string) option"
  ce_user_json :: "string \<Rightarrow> (string \<times> string) option"
  ce_pem :: "string \<Rightarrow> string option"
  ce_ec_key :: "string \<Rightarrow> bool"
  ce_register :: "string \<Rightarrow> string option"
  ce_client :: bool
  ce_dns_provider :: "string \<Rightarrow> bool"
  ce_challenge :: "string \<Rightarrow> bool"
  ce_obtain :: "string \<Rightarrow> (string \<times> string) option"
  ce_renew :: "string \<Rightarrow> string \<Rightarrow> (string \<times> string) option"

record certClaim =
  cl_domain :: string
  cl_keyFile :: string

type_synonym fs = "(string, string) gomap"

record cert_state =
  cs_fs :: fs
  cs_claims :: "(string, certClaim) gomap"
  cs_env :: "(string, string) gomap"

section \<open>Atomic file writes\<close>

text \<open>
  Every state the file system goes through; a crash leaves the process in one of them. A fault stops
  the sequence at that step, and the deferred function removes the temporary file.
\<close>

definition writeFileAtomic_states :: "write_fault \<Rightarrow> string \<Rightarrow> string \<Rightarrow> string \<Rightarrow> fs \<Rightarrow> fs list" where
  "writeFileAtomic_states f tmp p data s =
    (let created = mstore s tmp '''';
         removed = (\<lambda>t. mdelete t tmp);
         written = mstore s tmp data;
         renamed = mdelete (mstore s p data) tmp
     in case f of
       WMkdir \<Rightarrow> [s]
     | WCreate \<Rightarrow> [s]
     | WWrite n \<Rightarrow> [s, created, mstore s tmp (take n data), removed (mstore s tmp (take n data))]
     | WSync \<Rightarrow> [s, created, written, removed written]
     | WClose \<Rightarrow> [s, created, written, removed written]
     | WChmod \<Rightarrow> [s, created, written, removed written]
     | WRename \<Rightarrow> [s, created, written, removed written]
     | WOk \<Rightarrow> [s, created, written, renamed])"

definition writeFileAtomic :: "cert_env \<Rightarrow> string \<Rightarrow> string \<Rightarrow> cert_state \<Rightarrow> unit outcome \<times> cert_state" where
  "writeFileAtomic E p data st =
    (let states = writeFileAtomic_states (ce_fault E p) (ce_tmp E p) p data (cs_fs st)
     in (if ce_fault E p = WOk then Ret () else Fail ''write'', st\<lparr>cs_fs := last states\<rparr>))"

section \<open>Reading certificates\<close>

datatype parsed = NotExist | BadCert | Parsed certificate

definition parseDiskCert :: "cert_env \<Rightarrow> string \<Rightarrow> fs \<Rightarrow> parsed" where
  "parseDiskCert E p s =
    (case mload s p of
       None \<Rightarrow> NotExist
     | Some data \<Rightarrow>
         if ce_unreadable E p then BadCert
         else (case ce_parse E data of None \<Rightarrow> BadCert | Some c \<Rightarrow> Parsed c))"

fun any_name :: "string list \<Rightarrow> string \<Rightarrow> bool" where
  "any_name [] d = False"
| "any_name (n # ns) d = (if n = d then True else any_name ns d)"

definition certCoversDomain :: "certificate \<Rightarrow> string \<Rightarrow> bool" where
  "certCoversDomain cert domain =
    (if domain = '''' then True
     else if any_name (x_DNSNames cert) domain then True
     else x_CommonName cert = domain)"

definition fileExists :: "string \<Rightarrow> fs \<Rightarrow> bool" where
  "fileExists p s \<longleftrightarrow> mload s p \<noteq> None"

definition DefaultRenewBeforeDays :: int where "DefaultRenewBeforeDays = 30"

definition renewBefore :: "CertConfig \<Rightarrow> int" where
  "renewBefore cfg =
    (let d = (if cc_RenewBeforeDays cfg \<le> 0 then DefaultRenewBeforeDays else cc_RenewBeforeDays cfg)
     in sint ((word_of_int d :: int64) * 24 * hour))"

section \<open>The claim table\<close>

definition claimCertFiles :: "string \<Rightarrow> string \<Rightarrow> string \<Rightarrow> cert_state \<Rightarrow> unit outcome \<times> cert_state" where
  "claimCertFiles certFile keyFile domain st =
    (let store = st\<lparr>cs_claims := mstore (mstore (cs_claims st) certFile \<lparr>cl_domain = domain, cl_keyFile = keyFile\<rparr>)
                       keyFile \<lparr>cl_domain = domain, cl_keyFile = keyFile\<rparr>\<rparr>;
         check_key = (case mload (cs_claims st) keyFile of
            Some e \<Rightarrow> if cl_domain e \<noteq> domain then (Fail ''KeyFile is already claimed'', st) else (Ret (), store)
          | None \<Rightarrow> (Ret (), store))
     in case mload (cs_claims st) certFile of
          Some e \<Rightarrow>
            if cl_domain e \<noteq> domain then (Fail ''CertFile is already claimed'', st)
            else if cl_keyFile e \<noteq> keyFile then (Fail ''CertFile is paired with another KeyFile'', st)
            else check_key
        | None \<Rightarrow> check_key)"

section \<open>Writing certificates\<close>

definition write_pair :: "cert_env \<Rightarrow> string \<Rightarrow> string \<Rightarrow> string \<times> string \<Rightarrow> cert_state \<Rightarrow> unit outcome \<times> cert_state" where
  "write_pair E certPath keyPath ck st =
    (case writeFileAtomic E certPath (fst ck) st of
       (Ret _, st1) \<Rightarrow> writeFileAtomic E keyPath (snd ck) st1
     | (e, st1) \<Rightarrow> (e, st1))"

definition writeSelfSignedCert :: "cert_env \<Rightarrow> string \<Rightarrow> string \<Rightarrow> string \<Rightarrow> cert_state \<Rightarrow> unit outcome \<times> cert_state" where
  "writeSelfSignedCert E domain certPath keyPath st =
    (case ce_selfsign E domain (ce_now E) of
       None \<Rightarrow> (Fail ''create self-signed cert'', st)
     | Some ck \<Rightarrow> write_pair E certPath keyPath ck st)"

text \<open>\<open>strings.NewReplacer\<close> with the two placeholders: one pass over the string, from the left.\<close>

function replace_params :: "string \<Rightarrow> string \<Rightarrow> string \<Rightarrow> string" where
  "replace_params domain email [] = []"
| "replace_params domain email (c # s) =
     (if HasPrefix (c # s) ''{domain}'' then domain @ replace_params domain email (drop 8 (c # s))
      else if HasPrefix (c # s) ''{email}'' then email @ replace_params domain email (drop 7 (c # s))
      else c # replace_params domain email s)"
  by pat_completeness auto

termination by (relation "measure (\<lambda>(d, e, s). length s)") auto

definition parseParams :: "CertConfig \<Rightarrow> string \<Rightarrow> string" where
  "parseParams cfg p = replace_params (cc_CertDomain cfg) (cc_Email cfg) p"

definition writeCert :: "cert_env \<Rightarrow> CertConfig \<Rightarrow> string \<times> string \<Rightarrow> cert_state \<Rightarrow> unit outcome \<times> cert_state" where
  "writeCert E cfg res st = write_pair E (parseParams cfg (cc_CertFile cfg)) (parseParams cfg (cc_KeyFile cfg)) res st"

section \<open>The ACME client\<close>

text \<open>The directory part of \<open>path.Dir\<close> is left to the caller's parameter \<open>userPath\<close>.\<close>

definition registerUser :: "cert_env \<Rightarrow> string \<Rightarrow> string \<Rightarrow> cert_state \<Rightarrow> unit outcome \<times> cert_state" where
  "registerUser E email userPath st =
    (case ce_register E email of
       None \<Rightarrow> (Fail ''register'', st)
     | Some data \<Rightarrow> writeFileAtomic E userPath data st)"

text \<open>The key of a stored account: \<open>pem.Decode\<close> gives nil on a text without a block, which is dereferenced.\<close>

definition DecodePrivate :: "cert_env \<Rightarrow> string \<Rightarrow> unit outcome" where
  "DecodePrivate E pemEncodedPriv =
    (case ce_pem E pemEncodedPriv of
       None \<Rightarrow> Panic
     | Some b \<Rightarrow> if ce_ec_key E b then Ret () else Fail ''decode private key error'')"

text \<open>The email of the stored account.\<close>

definition User_Load :: "cert_env \<Rightarrow> string \<Rightarrow> fs \<Rightarrow> string outcome" where
  "User_Load E path s =
    (case mload s path of
       None \<Rightarrow> Fail ''open file error''
     | Some data \<Rightarrow>
         if ce_unreadable E path then Fail ''open file error''
         else (case ce_user_json E data of
            None \<Rightarrow> Fail ''unmarshal json error''
          | Some (email, key) \<Rightarrow>
              (case DecodePrivate E key of Ret _ \<Rightarrow> Ret email | Fail e \<Rightarrow> Fail e | Panic \<Rightarrow> Panic)))"

definition NewLegoUser :: "cert_env \<Rightarrow> string \<Rightarrow> string \<Rightarrow> cert_state \<Rightarrow> unit outcome \<times> cert_state" where
  "NewLegoUser E userPath email st =
    (if fileExists userPath (cs_fs st) then
       (case User_Load E userPath (cs_fs st) of
          Ret e \<Rightarrow> if e \<noteq> email then registerUser E email userPath st else (Ret (), st)
        | Fail e \<Rightarrow> (Fail e, st)
        | Panic \<Rightarrow> (Panic, st))
     else registerUser E email userPath st)"

definition SetProvider :: "cert_env \<Rightarrow> CertConfig \<Rightarrow> cert_state \<Rightarrow> unit outcome \<times> cert_state" where
  "SetProvider E cfg st =
    (if cc_CertMode cfg = ''http'' then
       (if ce_challenge E ''http'' then (Ret (), st) else (Fail ''set http provider'', st))
     else if cc_CertMode cfg = ''dns'' then
       (let st1 = st\<lparr>cs_env := foldl (\<lambda>m (k, v). mstore m k v) (cs_env st)
              (case cc_DNSEnv cfg of None \<Rightarrow> [] | Some m \<Rightarrow> m)\<rparr>
        in if \<not> ce_dns_provider E (cc_Provider cfg) then (Fail ''create dns challenge provider error'', st1)
           else if \<not> ce_challenge E ''dns'' then (Fail ''set dns provider error'', st1)
           else (Ret (), st1))
     else (Ret (), st))"

definition NewLego :: "cert_env \<Rightarrow> CertConfig \<Rightarrow> string \<Rightarrow> cert_state \<Rightarrow> unit outcome \<times> cert_state" where
  "NewLego E cfg userPath st =
    (case NewLegoUser E userPath (cc_Email cfg) st of
       (Ret _, st1) \<Rightarrow> if \<not> ce_client E then (Fail ''new client'', st1) else SetProvider E cfg st1
     | (Fail e, st1) \<Rightarrow> (Fail ''create user error'', st1)
     | (Panic, st1) \<Rightarrow> (Panic, st1))"

definition Obtain :: "cert_env \<Rightarrow> CertConfig \<Rightarrow> cert_state \<Rightarrow> unit outcome \<times> cert_state" where
  "Obtain E cfg st =
    (case ce_obtain E (cc_CertDomain cfg) of
       None \<Rightarrow> (Fail ''obtain certificate error'', st)
     | Some res \<Rightarrow> writeCert E cfg res st)"

definition Renew :: "cert_env \<Rightarrow> CertConfig \<Rightarrow> cert_state \<Rightarrow> unit outcome \<times> cert_state" where
  "Renew E cfg st =
    (case mload (cs_fs st) (cc_CertFile cfg) of
       None \<Rightarrow> (Fail ''read cert file error'', st)
     | Some pemBytes \<Rightarrow>
         if ce_unreadable E (cc_CertFile cfg) then (Fail ''read cert file error'', st)
         else (case ce_renew E (cc_CertDomain cfg) pemBytes of
            None \<Rightarrow> (Fail ''renew'', st)
          | Some res \<Rightarrow> writeCert E cfg res st))"

section \<open>The lifecycle\<close>

definition acquire :: "cert_env \<Rightarrow> CertConfig \<Rightarrow> string \<Rightarrow> string \<Rightarrow> cert_state \<Rightarrow> string outcome \<times> cert_state" where
  "acquire E cfg userPath action st =
    (if cc_CertMode cfg = ''self'' then
       (case writeSelfSignedCert E (cc_CertDomain cfg) (cc_CertFile cfg) (cc_KeyFile cfg) st of
          (Ret _, st1) \<Rightarrow> (Ret action, st1)
        | (_, st1) \<Rightarrow> (Fail ''self'', st1))
     else (case NewLego E cfg userPath st of
        (Ret _, st1) \<Rightarrow>
          if action = ''renew'' then
            (case Renew E cfg st1 of
               (Ret _, st2) \<Rightarrow> (Ret action, st2)
             | (_, st2) \<Rightarrow>
                 (case Obtain E cfg st2 of
                    (Ret _, st3) \<Rightarrow> (Ret action, st3)
                  | (_, st3) \<Rightarrow> (Fail ''obtain after renew failure'', st3)))
          else
            (case Obtain E cfg st1 of
               (Ret _, st2) \<Rightarrow> (Ret action, st2)
             | (_, st2) \<Rightarrow> (Fail ''obtain'', st2))
      | (Fail e, st1) \<Rightarrow> (Fail ''create lego'', st1)
      | (Panic, st1) \<Rightarrow> (Panic, st1)))"

definition ensureFileMode :: "cert_env \<Rightarrow> CertConfig \<Rightarrow> cert_state \<Rightarrow> string outcome" where
  "ensureFileMode E cfg st =
    (if cc_CertFile cfg = '''' \<or> cc_KeyFile cfg = '''' then Fail ''file mode requires CertFile and KeyFile''
     else if \<not> fileExists (cc_CertFile cfg) (cs_fs st) \<or> \<not> fileExists (cc_KeyFile cfg) (cs_fs st)
       then Fail ''file mode: cert/key not found''
     else case parseDiskCert E (cc_CertFile cfg) (cs_fs st) of
       Parsed cert \<Rightarrow> if \<not> certCoversDomain cert (cc_CertDomain cfg) then Fail ''file mode: cert does not cover domain''
                      else Ret ''reuse''
     | _ \<Rightarrow> Fail ''file mode: cert unparseable'')"

definition ensureLifecycle :: "cert_env \<Rightarrow> CertConfig \<Rightarrow> string \<Rightarrow> cert_state \<Rightarrow> string outcome \<times> cert_state" where
  "ensureLifecycle E cfg userPath st =
    (case parseDiskCert E (cc_CertFile cfg) (cs_fs st) of
       NotExist \<Rightarrow> acquire E cfg userPath ''issue'' st
     | BadCert \<Rightarrow> acquire E cfg userPath ''reissue'' st
     | Parsed cert \<Rightarrow>
         if \<not> certCoversDomain cert (cc_CertDomain cfg) then (Fail ''cert does not cover domain'', st)
         else let remaining = x_NotAfter cert - ce_now E
           in if remaining \<le> 0 then acquire E cfg userPath ''renew'' st
              else if remaining < renewBefore cfg then acquire E cfg userPath ''renew'' st
              else (Ret ''reuse'', st))"

definition EnsureCertificate ::
  "cert_env \<Rightarrow> CertConfig option \<Rightarrow> string \<Rightarrow> cert_state \<Rightarrow> string outcome \<times> cert_state" where
  "EnsureCertificate E cfgo userPath st =
    (case cfgo of
       None \<Rightarrow> (Fail ''nil CertConfig'', st)
     | Some cfg \<Rightarrow>
         if cc_CertMode cfg = '''' \<or> cc_CertMode cfg = ''none'' then (Ret '''', st)
         else if cc_CertMode cfg = ''file'' then (ensureFileMode E cfg st, st)
         else if cc_CertMode cfg \<notin> {''self'', ''http'', ''dns''} then (Fail ''unsupported CertMode'', st)
         else if cc_CertFile cfg = '''' \<or> cc_KeyFile cfg = '''' then (Fail ''CertFile and KeyFile must be set'', st)
         else if cc_CertDomain cfg = '''' then (Fail ''CertDomain must be set'', st)
         else case claimCertFiles (cc_CertFile cfg) (cc_KeyFile cfg) (cc_CertDomain cfg) st of
           (Ret _, st1) \<Rightarrow> ensureLifecycle E cfg userPath st1
         | (Fail e, st1) \<Rightarrow> (Fail e, st1)
         | (Panic, st1) \<Rightarrow> (Panic, st1))"

end
