(* ===== verification/GoText.thy ===== *)
theory GoText
  imports GoPrelude
begin

text \<open>
  \<open>strconv.Atoi\<close>, which reads an optionally signed decimal number into an \<open>int\<close>: the value and
  whether it reports an error. On a syntax error the value is 0, on a range error it is the
  bound that was exceeded. Printing a number and reading it back gives the number.
\<close>

definition digit_val :: "char \<Rightarrow> nat option" where
  "digit_val c = (let n = (of_char c :: nat) in if 48 \<le> n \<and> n \<le> 57 then Some (n - 48) else None)"

fun read_digits :: "nat \<Rightarrow> string \<Rightarrow> nat option" where
  "read_digits acc [] = Some acc"
| "read_digits acc (c # cs) = (case digit_val c of None \<Rightarrow> None | Some d \<Rightarrow> read_digits (10 * acc + d) cs)"

definition Atoi :: "string \<Rightarrow> int \<times> bool" where
  "Atoi s =
    (let neg = (s \<noteq> [] \<and> hd s = CHR ''-'');
         ds = (if s \<noteq> [] \<and> (hd s = CHR ''-'' \<or> hd s = CHR ''+'') then tl s else s)
     in if ds = [] then (0, True)
        else case read_digits 0 ds of
          None \<Rightarrow> (0, True)
        | Some n \<Rightarrow>
            if neg then (if int n > 2 ^ 63 then (- (2 ^ 63), True) else (- int n, False))
            else (if int n \<ge> 2 ^ 63 then (2 ^ 63 - 1, True) else (int n, False)))"

lemma digit_val_digit: "n < 10 \<Longrightarrow> digit_val (digit n) = Some n"
proof -
  assume "n < 10"
  then have "n \<in> set [0..<10]" by simp
  moreover have "\<forall>n \<in> set [0..<10]. digit_val (digit n) = Some n" by code_simp
  ultimately show ?thesis by blast
qed

lemma read_digits_append:
  "read_digits acc (xs @ [c]) = (case read_digits acc xs of None \<Rightarrow> None
     | Some n \<Rightarrow> (case digit_val c of None \<Rightarrow> None | Some d \<Rightarrow> Some (10 * n + d)))"
  by (induction acc xs rule: read_digits.induct) (auto split: option.splits)

lemma read_digits_show: "read_digits 0 (show_nat n) = Some n"
proof (induction n rule: show_nat.induct)
  case (1 n)
  show ?case
  proof (cases "n < 10")
    case True
    then show ?thesis by (simp add: show_nat_lt10 digit_val_digit)
  next
    case False
    with 1 show ?thesis by (simp add: show_nat_ge10 read_digits_append digit_val_digit)
  qed
qed

lemma hd_show_nat: "hd (show_nat n) \<noteq> CHR ''-'' \<and> hd (show_nat n) \<noteq> CHR ''+''"
proof -
  have "hd (show_nat n) \<in> digits_set"
    using show_nat_digits [of n] hd_in_set [OF show_nat_nonempty, of n] by blast
  then show ?thesis by (auto simp: digits_set_def)
qed

lemma Atoi_Itoa: "- (2 ^ 63) \<le> i \<Longrightarrow> i < 2 ^ 63 \<Longrightarrow> Atoi (Itoa i) = (i, False)"
  using hd_show_nat [of "nat i"]
  by (simp add: Atoi_def Itoa_def read_digits_show Let_def)

end
