(* ===== verification/PanelClient.thy ===== *)
theory PanelClient
  imports PanelTypes GoText
begin

text \<open>
  \<open>api/panel/\<close>: the client of the management panel. A request is answered by a function from the
  \<open>If-None-Match\<close> header it carries to a reply; the JSON decoders and SHA-256 are parameters. The
  client remembers two ETags and the hash of the last node description it has seen. A \<open>nil\<close> result
  without an error, which the callers read as "unchanged", is \<open>Ret None\<close>.
\<close>

section \<open>State and replies\<close>

text \<open>\<open>rs_raw\<close>: the transport produced a response at all; without one the status is 0.\<close>

record Client =
  pc_APIHost :: string
  pc_NodeType :: string
  pc_NodeId :: int
  pc_nodeEtag :: string
  pc_userEtag :: string
  pc_hash :: string
  pc_AliveMap :: "(int, int) gomap"

record http_resp =
  rs_err :: bool
  rs_raw :: bool
  rs_status :: nat
  rs_body :: string
  rs_etag :: string

record decoders =
  dec_common :: "string \<Rightarrow> (string \<times> BasicConfig option \<times> string) option"
  dec_vless :: "string \<Rightarrow> VlessNode option"
  dec_vmess :: "string \<Rightarrow> VmessNode option"
  dec_trojan :: "string \<Rightarrow> TrojanNode option"
  dec_ss :: "string \<Rightarrow> ShadowsocksNode option"
  dec_tuic :: "string \<Rightarrow> TuicNode option"
  dec_hy2 :: "string \<Rightarrow> Hysteria2Node option"
  dec_anytls :: "string \<Rightarrow> AnyTLSNode option"
  dec_alive :: "string \<Rightarrow> (int, int) gomap option option"

definition checkResponse :: "http_resp \<Rightarrow> unit outcome" where
  "checkResponse r =
    (if rs_err r then Fail ''request failed''
     else if rs_status r \<ge> 400 then Fail ''request failed'' else Ret ())"

section \<open>Construction\<close>

definition normalize_node_type :: "string \<Rightarrow> string outcome" where
  "normalize_node_type t =
    (let t = ToLower t
     in if t = ''v2ray'' then Ret ''vmess''
        else if t \<in> {''vmess'', ''trojan'', ''shadowsocks'', ''tuic'', ''hysteria2'', ''anytls'', ''vless''} then Ret t
        else Fail ''unsupported Node type'')"

definition Client_New :: "string \<Rightarrow> string \<Rightarrow> int \<Rightarrow> Client outcome" where
  "Client_New host nodeType nodeId =
    (case normalize_node_type nodeType of
       Ret t \<Rightarrow> Ret \<lparr>pc_APIHost = host, pc_NodeType = t, pc_NodeId = nodeId, pc_nodeEtag = '''',
                     pc_userEtag = '''', pc_hash = '''', pc_AliveMap = []\<rparr>
     | Fail e \<Rightarrow> Fail e | Panic \<Rightarrow> Panic)"

section \<open>The node description\<close>

text \<open>\<open>reflect.TypeOf(nil).Kind()\<close> and \<open>reflect.Value.Int\<close> of a non-integer panic: \<open>None\<close>.\<close>

definition intervalToTime :: "any \<Rightarrow> int64 option" where
  "intervalToTime i = (case i of
     AnyNil \<Rightarrow> None
   | AnyInt n \<Rightarrow> Some (word_of_int n * second)
   | AnyString s \<Rightarrow> Some (word_of_int (fst (Atoi s)) * second)
   | AnyFloat n d \<Rightarrow> Some (word_of_int (go_quot n (int d)) * second)
   | AnyInt64 n \<Rightarrow> Some (word_of_int n * second)
   | AnyOther \<Rightarrow> None)"

definition opt_err :: "('a \<Rightarrow> CommonNode) \<Rightarrow> 'a option \<Rightarrow> CommonNode outcome" where
  "opt_err f x = (case x of None \<Rightarrow> Fail ''decode node config error'' | Some v \<Rightarrow> Ret (f v))"

definition decode_config :: "decoders \<Rightarrow> string \<Rightarrow> CommonNode \<Rightarrow> CommonNode outcome" where
  "decode_config D cfg c =
    (let p = cn_Protocol c in
     if p = ''vless'' then opt_err (\<lambda>x. c\<lparr>cn_Vless := Some x\<rparr>) (dec_vless D cfg)
     else if p = ''vmess'' then opt_err (\<lambda>x. c\<lparr>cn_Vmess := Some x\<rparr>) (dec_vmess D cfg)
     else if p = ''trojan'' then opt_err (\<lambda>x. c\<lparr>cn_Trojan := Some x\<rparr>) (dec_trojan D cfg)
     else if p = ''shadowsocks'' then opt_err (\<lambda>x. c\<lparr>cn_Shadowsocks := Some x\<rparr>) (dec_ss D cfg)
     else if p = ''tuic'' then opt_err (\<lambda>x. c\<lparr>cn_Tuic := Some x\<rparr>) (dec_tuic D cfg)
     else if p \<in> {''hysteria'', ''hysteria2''} then opt_err (\<lambda>x. c\<lparr>cn_Hysteria2 := Some x\<rparr>) (dec_hy2 D cfg)
     else if p = ''anytls'' then opt_err (\<lambda>x. c\<lparr>cn_AnyTLS := Some x\<rparr>) (dec_anytls D cfg)
     else Fail ''decode node config error'')"

definition decode_node :: "decoders \<Rightarrow> Client \<Rightarrow> string \<Rightarrow> NodeInfo outcome" where
  "decode_node D c body =
    (case dec_common D body of
       None \<Rightarrow> Fail ''decode node params error''
     | Some (p, basic, cfg) \<Rightarrow>
         (case basic of
            None \<Rightarrow> Panic
          | Some b \<Rightarrow>
              (case (intervalToTime (bc_PushInterval b), intervalToTime (bc_PullInterval b)) of
                 (Some push, Some pull) \<Rightarrow>
                   (case decode_config D cfg ((empty_common p)\<lparr>cn_Basic := basic\<rparr>) of
                      Ret cn \<Rightarrow> Ret \<lparr>ni_Id = pc_NodeId c, ni_Type = pc_NodeType c, ni_PushInterval = push,
                                   ni_PullInterval = pull, ni_Common = Some cn\<rparr>
                    | Fail e \<Rightarrow> Fail e | Panic \<Rightarrow> Panic)
               | _ \<Rightarrow> Panic)))"

definition GetNodeInfo ::
  "(string \<Rightarrow> string) \<Rightarrow> decoders \<Rightarrow> (string \<Rightarrow> http_resp) \<Rightarrow> Client \<Rightarrow> NodeInfo option outcome \<times> Client" where
  "GetNodeInfo sha D get c =
    (let r = get (pc_nodeEtag c)
     in if rs_status r = 304 then (Ret None, c)
        else let newBodyHash = sha (rs_body r)
          in if pc_hash c = newBodyHash then (Ret None, c)
             else let c' = c\<lparr>pc_hash := newBodyHash, pc_nodeEtag := rs_etag r\<rparr>
               in (case checkResponse r of
                     Ret _ \<Rightarrow> (case decode_node D c' (rs_body r) of
                        Ret n \<Rightarrow> (Ret (Some n), c') | Fail e \<Rightarrow> (Fail e, c') | Panic \<Rightarrow> (Panic, c'))
                   | Fail e \<Rightarrow> (Fail e, c') | Panic \<Rightarrow> (Panic, c')))"

section \<open>The user list\<close>

text \<open>
  What is left of the reply's token stream: a string, the start or end of an array, another token,
  or, where a value is read, the result of decoding it (\<open>JVal None\<close> is a value that is no user).
  A read past the end, or of a token where a value should be, is an error.
\<close>

datatype jitem = JString string | JOpen | JClose | JOther | JVal "UserInfo option"

fun find_users :: "jitem list \<Rightarrow> jitem list option" where
  "find_users [] = None"
| "find_users (t # ts) = (if t = JString ''users'' then Some ts else find_users ts)"

fun read_user_values :: "jitem list \<Rightarrow> UserInfo list \<Rightarrow> UserInfo list option" where
  "read_user_values [] acc = None"
| "read_user_values (t # ts) acc = (case t of
     JClose \<Rightarrow> Some acc
   | JVal (Some u) \<Rightarrow> read_user_values ts (acc @ [u])
   | _ \<Rightarrow> None)"

definition decode_users :: "jitem list \<Rightarrow> UserInfo list outcome" where
  "decode_users ts =
    (case find_users ts of
       None \<Rightarrow> Fail ''decode user list error''
     | Some [] \<Rightarrow> Fail ''decode user list error''
     | Some (t # ts') \<Rightarrow>
         if t \<noteq> JOpen then Fail ''decode user list error''
         else case read_user_values ts' [] of None \<Rightarrow> Fail ''decode user list error'' | Some us \<Rightarrow> Ret us)"

text \<open>The slice is \<open>nil\<close> for an unchanged list and for an empty one alike: both are \<open>[]\<close>.\<close>

definition GetUserList ::
  "(string \<Rightarrow> http_resp \<times> jitem list) \<Rightarrow> Client \<Rightarrow> UserInfo list outcome \<times> Client" where
  "GetUserList get c =
    (case get (pc_userEtag c) of (r, ts) \<Rightarrow>
       if \<not> rs_raw r then (Fail ''received nil response'', c)
       else if rs_status r = 304 then (Ret [], c)
       else case checkResponse r of
         Fail e \<Rightarrow> (Fail e, c) | Panic \<Rightarrow> (Panic, c)
       | Ret _ \<Rightarrow> (case decode_users ts of
            Ret us \<Rightarrow> (Ret us, c\<lparr>pc_userEtag := rs_etag r\<rparr>) | Fail e \<Rightarrow> (Fail e, c) | Panic \<Rightarrow> (Panic, c)))"

section \<open>The alive map and the reports\<close>

definition GetUserAlive :: "decoders \<Rightarrow> http_resp \<Rightarrow> Client \<Rightarrow> (int, int) gomap \<times> Client" where
  "GetUserAlive D r c =
    (let c0 = c\<lparr>pc_AliveMap := []\<rparr>
     in if rs_err r then ([], c0)
        else if rs_status r = 304 then ([], c0)
        else if rs_status r \<ge> 400 then ([], c0)
        else case dec_alive D (rs_body r) of
          None \<Rightarrow> ([], c0)
        | Some None \<Rightarrow> ([], c0)
        | Some (Some m) \<Rightarrow> (m, c\<lparr>pc_AliveMap := m\<rparr>))"

fun copy_traffic :: "UserTraffic list \<Rightarrow> UserTraffic list \<Rightarrow> UserTraffic list" where
  "copy_traffic [] acc = acc"
| "copy_traffic (t # ts) acc = copy_traffic ts
     (acc @ [\<lparr>ut_UID = ut_UID t, ut_Upload = ut_Upload t, ut_Download = ut_Download t\<rparr>])"

definition ReportUserTraffic :: "(UserTraffic list \<Rightarrow> http_resp) \<Rightarrow> UserTraffic list \<Rightarrow> unit outcome" where
  "ReportUserTraffic post userTraffic = checkResponse (post (copy_traffic userTraffic []))"

definition ReportNodeOnlineUsers :: "(OnlineUser list \<Rightarrow> http_resp) \<Rightarrow> OnlineUser list \<Rightarrow> unit outcome" where
  "ReportNodeOnlineUsers post users =
    (case checkResponse (post users) of Fail _ \<Rightarrow> Ret () | Ret _ \<Rightarrow> Ret () | Panic \<Rightarrow> Panic)"

section \<open>Facts\<close>

lemma opt_errD: "opt_err f x = Ret y \<Longrightarrow> \<exists>v. y = f v"
  by (auto simp: opt_err_def split: option.splits)

lemma decode_config_frame:
  "decode_config D cfg c = Ret cn \<Longrightarrow> cn_Protocol cn = cn_Protocol c \<and> cn_Basic cn = cn_Basic c"
  unfolding decode_config_def Let_def by (auto dest!: opt_errD split: if_split_asm)

lemma copy_traffic_id: "copy_traffic ts acc = acc @ ts"
  by (induction ts acc rule: copy_traffic.induct) simp_all

lemma find_users_prefix:
  "JString ''users'' \<notin> set pre \<Longrightarrow> find_users (pre @ JString ''users'' # ts) = Some ts"
  by (induction pre) auto

lemma read_user_values_map:
  "read_user_values (map (JVal \<circ> Some) us @ JClose # ts) acc = Some (acc @ us)"
  by (induction us arbitrary: acc) simp_all

lemma read_user_values_error:
  "\<exists>t \<in> set mid. t \<noteq> JClose \<and> (\<forall>u. t \<noteq> JVal (Some u)) \<Longrightarrow> JClose \<notin> set mid \<Longrightarrow>
     read_user_values (mid @ ts) acc = None"
proof (induction mid arbitrary: acc)
  case (Cons t mid)
  then show ?case by (cases t) (auto split: option.splits)
qed simp

section \<open>Properties\<close>

lemma GetNodeInfo_state:
  "snd (GetNodeInfo sha D get c) =
     (let r = get (pc_nodeEtag c) in
      if rs_status r = 304 \<or> pc_hash c = sha (rs_body r) then c
      else c\<lparr>pc_hash := sha (rs_body r), pc_nodeEtag := rs_etag r\<rparr>)"
  by (auto simp: GetNodeInfo_def Let_def split: outcome.splits)

text \<open>The client looks at a reply once. Whatever a poll of the node description made of the
  reply (unchanged, delivered, rejected with an error, or a panic), a server that keeps giving that
  reply is answered with "unchanged" by every later poll, and the client's state stays put.\<close>

lemma GetNodeInfo_once:
  "let (res, c') = GetNodeInfo sha D (\<lambda>_. r) c
   in GetNodeInfo sha D (\<lambda>_. r) c' = (Ret None, c')"
proof -
  have "snd (GetNodeInfo sha D (\<lambda>_. r) c) =
      (if rs_status r = 304 \<or> pc_hash c = sha (rs_body r) then c
       else c\<lparr>pc_hash := sha (rs_body r), pc_nodeEtag := rs_etag r\<rparr>)"
    by (simp add: GetNodeInfo_state)
  then have "GetNodeInfo sha D (\<lambda>_. r) (snd (GetNodeInfo sha D (\<lambda>_. r) c)) =
      (Ret None, snd (GetNodeInfo sha D (\<lambda>_. r) c))"
    by (auto simp: GetNodeInfo_def Let_def)
  then show ?thesis by (simp add: case_prod_unfold)
qed

text \<open>A new node description is delivered. When the reply is not 304, its body's hash differs from
  the last one seen, and the body decodes, the poll returns the description with the client's node
  id and type, the panel's intervals and the decoded payload, and remembers the reply's ETag and hash.\<close>

lemma GetNodeInfo_delivers:
  assumes "get (pc_nodeEtag c) = \<lparr>rs_err = False, rs_raw = True, rs_status = 200, rs_body = body, rs_etag = etag\<rparr>"
    and "sha body \<noteq> pc_hash c"
    and "dec_common D body = Some (p, Some b, cfg)"
    and "intervalToTime (bc_PushInterval b) = Some push" and "intervalToTime (bc_PullInterval b) = Some pull"
    and "decode_config D cfg ((empty_common p)\<lparr>cn_Basic := Some b\<rparr>) = Ret cn"
  shows "GetNodeInfo sha D get c =
     (Ret (Some \<lparr>ni_Id = pc_NodeId c, ni_Type = pc_NodeType c, ni_PushInterval = push, ni_PullInterval = pull,
        ni_Common = Some cn\<rparr>), c\<lparr>pc_hash := sha body, pc_nodeEtag := etag\<rparr>)
    \<and> cn_Protocol cn = p \<and> cn_Basic cn = Some b"
proof -
  have "cn_Protocol cn = p \<and> cn_Basic cn = Some b"
    using decode_config_frame [OF assms(6)] by (simp add: empty_common_def)
  then show ?thesis
    using assms by (simp add: GetNodeInfo_def checkResponse_def decode_node_def)
qed

definition demo_decoders :: decoders where
  "demo_decoders = \<lparr>dec_common = (\<lambda>b. if b = ''ok'' then Some (''tuic'', Some
       \<lparr>bc_PushInterval = AnyFloat 30 1, bc_PullInterval = AnyString ''15'', bc_TrafficReportThreshold = 0\<rparr>, ''cfg'')
       else None),
     dec_vless = (\<lambda>_. None), dec_vmess = (\<lambda>_. None), dec_trojan = (\<lambda>_. None), dec_ss = (\<lambda>_. None),
     dec_tuic = (\<lambda>s. if s = ''cfg'' then Some \<lparr>tu_Port = 443, tu_SecurityConfig = None\<rparr> else None),
     dec_hy2 = (\<lambda>_. None), dec_anytls = (\<lambda>_. None), dec_alive = (\<lambda>_. None)\<rparr>"

definition demo_client :: Client where
  "demo_client = \<lparr>pc_APIHost = ''h'', pc_NodeType = ''tuic'', pc_NodeId = 1, pc_nodeEtag = '''',
     pc_userEtag = '''', pc_hash = '''', pc_AliveMap = []\<rparr>"

theorem GetNodeInfo_delivers_witness:
  "\<exists>n c'. GetNodeInfo (\<lambda>s. s) demo_decoders
      (\<lambda>_. \<lparr>rs_err = False, rs_raw = True, rs_status = 200, rs_body = ''ok'', rs_etag = ''e''\<rparr>) demo_client = (Ret (Some n), c')
    \<and> ni_PullInterval n = 15 * second \<and> pc_nodeEtag c' = ''e''"
proof -
  let ?get = "\<lambda>_ :: string. \<lparr>rs_err = False, rs_raw = True, rs_status = 200, rs_body = ''ok'', rs_etag = ''e''\<rparr>"
  let ?b = "\<lparr>bc_PushInterval = AnyFloat 30 1, bc_PullInterval = AnyString ''15'', bc_TrafficReportThreshold = 0\<rparr>"
  let ?cn = "(empty_common ''tuic'')\<lparr>cn_Basic := Some ?b, cn_Tuic := Some \<lparr>tu_Port = 443, tu_SecurityConfig = None\<rparr>\<rparr>"
  have atoi: "Atoi ''15'' = (15, False)" by code_simp
  have "GetNodeInfo (\<lambda>s. s) demo_decoders ?get demo_client =
     (Ret (Some \<lparr>ni_Id = pc_NodeId demo_client, ni_Type = pc_NodeType demo_client, ni_PushInterval = 30 * second,
        ni_PullInterval = 15 * second, ni_Common = Some ?cn\<rparr>),
      demo_client\<lparr>pc_hash := ''ok'', pc_nodeEtag := ''e''\<rparr>) \<and> cn_Protocol ?cn = ''tuic'' \<and> cn_Basic ?cn = Some ?b"
    by (rule GetNodeInfo_delivers [where cfg = "''cfg''"])
      (simp_all add: demo_client_def demo_decoders_def intervalToTime_def atoi go_quot_def decode_config_def
        opt_err_def empty_common_def)
  then show ?thesis by (intro exI conjI) (auto simp: demo_client_def)
qed

text \<open>The user list is read as sent. A reply whose token stream has, after other tokens, the string
  \<open>users\<close> and an array of user objects yields exactly those users in order and remembers the reply's
  ETag; a reply that breaks off or holds something that is no user is an error and leaves the
  remembered ETag alone, so that the next poll asks again.\<close>

lemma GetUserList_reads:
  assumes "rs_raw r" and "rs_status r \<noteq> 304" and "checkResponse r = Ret ()" and "JString ''users'' \<notin> set pre"
  shows "GetUserList (\<lambda>_. (r, pre @ JString ''users'' # JOpen # map (JVal \<circ> Some) us @ JClose # rest)) c =
      (Ret us, c\<lparr>pc_userEtag := rs_etag r\<rparr>)
    \<and> (bad \<noteq> JClose \<and> (\<forall>u. bad \<noteq> JVal (Some u)) \<longrightarrow>
       (\<exists>e. GetUserList (\<lambda>_. (r, pre @ JString ''users'' # JOpen # map (JVal \<circ> Some) us @ bad # rest)) c = (Fail e, c)))
    \<and> (\<exists>e. GetUserList (\<lambda>_. (r, pre @ JString ''users'' # JOpen # map (JVal \<circ> Some) us)) c = (Fail e, c))"
proof -
  have bad: "read_user_values (map (JVal \<circ> Some) us @ bad # rest) acc = None"
    if "bad \<noteq> JClose" "\<forall>u. bad \<noteq> JVal (Some u)" for acc
    using that by (induction us arbitrary: acc) (auto split: jitem.splits option.splits)
  have short: "read_user_values (map (JVal \<circ> Some) us) acc = None" for acc
    by (induction us arbitrary: acc) simp_all
  show ?thesis
    using assms bad short
    by (simp add: GetUserList_def decode_users_def find_users_prefix read_user_values_map)
qed

lemma GetUserList_reads_example:
  "GetUserList (\<lambda>_. (\<lparr>rs_err = False, rs_raw = True, rs_status = 200, rs_body = '''', rs_etag = ''e''\<rparr>,
      [JOther, JString ''users'', JOpen, JVal (Some \<lparr>u_Id = 1, u_Uuid = ''a'', u_SpeedLimit = 0, u_DeviceLimit = 0\<rparr>), JClose]))
      demo_client =
    (Ret [\<lparr>u_Id = 1, u_Uuid = ''a'', u_SpeedLimit = 0, u_DeviceLimit = 0\<rparr>], demo_client\<lparr>pc_userEtag := ''e''\<rparr>)"
  using GetUserList_reads [of "\<lparr>rs_err = False, rs_raw = True, rs_status = 200, rs_body = '''', rs_etag = ''e''\<rparr>"
      "[JOther]" "[\<lparr>u_Id = 1, u_Uuid = ''a'', u_SpeedLimit = 0, u_DeviceLimit = 0\<rparr>]" "[]" demo_client JOther]
  by (simp add: checkResponse_def)

end
