(* ===== verification/TaskSched.thy ===== *)
theory TaskSched
  imports PanelTypes
begin

text \<open>
  \<open>common/task/task.go\<close>: a periodic task. Its mutex is not reentrant and is held while the task's
  function runs; an operation that finds it held by its own goroutine never returns, which is the
  result \<open>None\<close>. Below, the interleavings of timers, fired callbacks, \<open>Start\<close> and \<open>Close\<close> are
  the steps of a relation.
\<close>

section \<open>Operations of one goroutine\<close>

record Task =
  tk_Interval :: int64
  tk_locked :: bool
  tk_timer :: bool
  tk_running :: bool

definition new_task :: "int64 \<Rightarrow> Task" where
  "new_task i = \<lparr>tk_Interval = i, tk_locked = False, tk_timer = False, tk_running = False\<rparr>"

definition hasClosed :: "Task \<Rightarrow> bool option" where
  "hasClosed t = (if tk_locked t then None else Some (\<not> tk_running t))"

text \<open>
  The function sees the state and the task itself, locked; it reports whether it failed. The result
  of \<open>checkedExecute\<close> is whether it returned an error.
\<close>

type_synonym 's execute = "'s \<times> Task \<Rightarrow> (bool \<times> 's \<times> Task) option"

definition checkedExecute :: "bool \<Rightarrow> 's execute \<Rightarrow> 's \<times> Task \<Rightarrow> (bool \<times> 's \<times> Task) option" where
  "checkedExecute first exec st =
    (case st of (s, t) \<Rightarrow>
      (case hasClosed t of
         None \<Rightarrow> None
       | Some True \<Rightarrow> Some (False, s, t)
       | Some False \<Rightarrow>
           (let t1 = t\<lparr>tk_locked := True\<rparr>;
                arm = (\<lambda>s t. if \<not> tk_running t then (False, s, t\<lparr>tk_locked := False\<rparr>)
                             else (False, s, t\<lparr>tk_timer := True, tk_locked := False\<rparr>))
            in if first then
                 (case exec (s, t1) of
                    None \<Rightarrow> None
                  | Some (True, s', t') \<Rightarrow> Some (True, s', t'\<lparr>tk_running := False, tk_locked := False\<rparr>)
                  | Some (False, s', t') \<Rightarrow> Some (arm s' t'))
               else Some (arm s t1))))"

definition Task_Start :: "bool \<Rightarrow> 's execute \<Rightarrow> 's \<times> Task \<Rightarrow> (bool \<times> 's \<times> Task) option" where
  "Task_Start first exec st =
    (case st of (s, t) \<Rightarrow>
       if tk_locked t then None
       else if tk_running t then Some (False, s, t)
       else (case checkedExecute first exec (s, t\<lparr>tk_running := True\<rparr>) of
               None \<Rightarrow> None
             | Some (True, s', t') \<Rightarrow> if tk_locked t' then None else Some (True, s', t'\<lparr>tk_running := False\<rparr>)
             | Some (False, s', t') \<Rightarrow> Some (False, s', t')))"

definition Task_Close :: "Task \<Rightarrow> Task option" where
  "Task_Close t = (if tk_locked t then None else Some (t\<lparr>tk_running := False, tk_timer := False\<rparr>))"

text \<open>A timer that fires runs \<open>checkedExecute(true)\<close>.\<close>

definition timer_fires :: "'s execute \<Rightarrow> 's \<times> Task \<Rightarrow> (bool \<times> 's \<times> Task) option" where
  "timer_fires exec st = (case st of (s, t) \<Rightarrow> checkedExecute True exec (s, t\<lparr>tk_timer := False\<rparr>))"

lemma Start_false:
  "\<not> tk_locked t \<Longrightarrow> Task_Start False exec (s, t) =
     Some (False, s, if tk_running t then t else t\<lparr>tk_running := True, tk_timer := True\<rparr>)"
  by (simp add: Task_Start_def checkedExecute_def hasClosed_def)

section \<open>Interleavings\<close>

text \<open>
  The goroutines of a task between their critical sections. \<open>running\<close> is the flag; \<open>pending\<close> counts
  the timers that have not fired, of which the \<open>timer\<close> field can know one (\<open>known\<close>); \<open>fired\<close> the
  callbacks that have not passed \<open>hasClosed\<close>, \<open>entered\<close> those that have and will run the function once
  they get the lock; \<open>starting\<close> the \<open>Start(false)\<close> calls that have set the flag and not armed yet.
  With \<open>restarts\<close> a task may be started while something of an earlier life is still around.
\<close>

record sched =
  sd_running :: bool
  sd_pending :: nat
  sd_known :: bool
  sd_fired :: nat
  sd_entered :: nat
  sd_starting :: nat

definition sched_init :: sched where
  "sched_init = \<lparr>sd_running = False, sd_pending = 0, sd_known = False, sd_fired = 0, sd_entered = 0, sd_starting = 0\<rparr>"

text \<open>The periodic chains of a task: each timer, callback and starting call carries one on.\<close>

definition chains :: "sched \<Rightarrow> nat" where
  "chains s = sd_pending s + sd_fired s + sd_entered s + sd_starting s"

definition arm :: "sched \<Rightarrow> sched" where
  "arm s = (if sd_running s then s\<lparr>sd_pending := Suc (sd_pending s), sd_known := True\<rparr> else s)"

inductive sched_step :: "bool \<Rightarrow> sched \<Rightarrow> sched \<Rightarrow> bool" for restarts where
  sd_start: "\<not> sd_running s \<Longrightarrow> restarts \<or> chains s = 0 \<Longrightarrow>
     sched_step restarts s (s\<lparr>sd_running := True, sd_starting := Suc (sd_starting s)\<rparr>)"
| sd_arm: "sd_starting s = Suc n \<Longrightarrow> sched_step restarts s (arm (s\<lparr>sd_starting := n\<rparr>))"
| sd_close: "sched_step restarts s (s\<lparr>sd_running := False,
     sd_pending := (if sd_known s then sd_pending s - 1 else sd_pending s), sd_known := False\<rparr>)"
| sd_fire_known: "sd_known s \<Longrightarrow> sd_pending s = Suc n \<Longrightarrow>
     sched_step restarts s (s\<lparr>sd_pending := n, sd_known := False, sd_fired := Suc (sd_fired s)\<rparr>)"
| sd_fire_other: "sd_pending s = Suc n \<Longrightarrow> sd_known s \<longrightarrow> 0 < n \<Longrightarrow>
     sched_step restarts s (s\<lparr>sd_pending := n, sd_fired := Suc (sd_fired s)\<rparr>)"
| sd_enter: "sd_fired s = Suc n \<Longrightarrow> sd_running s \<Longrightarrow>
     sched_step restarts s (s\<lparr>sd_fired := n, sd_entered := Suc (sd_entered s)\<rparr>)"
| sd_skip: "sd_fired s = Suc n \<Longrightarrow> \<not> sd_running s \<Longrightarrow> sched_step restarts s (s\<lparr>sd_fired := n\<rparr>)"
| sd_run: "sd_entered s = Suc n \<Longrightarrow> sched_step restarts s (arm (s\<lparr>sd_entered := n\<rparr>))"

inductive sched_reach :: "bool \<Rightarrow> sched \<Rightarrow> bool" for restarts where
  sd_init: "sched_reach restarts sched_init"
| sd_step: "sched_reach restarts s \<Longrightarrow> sched_step restarts s s' \<Longrightarrow> sched_reach restarts s'"

inductive_cases sched_stepE: "sched_step r s s'"

lemma sched_running_chain: "sched_reach r s \<Longrightarrow> (sd_known s \<longrightarrow> 0 < sd_pending s) \<and> (sd_running s \<longrightarrow> 0 < chains s)"
proof (induction rule: sched_reach.induct)
  case (sd_step s s')
  from sd_step.hyps(2) sd_step.IH show ?case
    by (elim sched_stepE) (auto simp: chains_def arm_def)
qed (simp add: sched_init_def)

lemma sched_single_chain: "sched_reach False s \<Longrightarrow> chains s \<le> 1"
proof (induction rule: sched_reach.induct)
  case (sd_step s s')
  from sd_step.hyps(2) sd_step.IH show ?case
    by (elim sched_stepE) (auto simp: chains_def arm_def)
qed (simp add: sched_init_def chains_def)

text \<open>C14: A running task has a live chain of timers, so it never silently stops; and as long as it is
  only started when nothing of an earlier life is left, it has exactly one, so its function is not
  run twice per interval.\<close>

theorem running_task_alive:
  "(sched_reach r s \<longrightarrow> sd_running s \<longrightarrow> 1 \<le> chains s) \<and>
   (sched_reach False s \<longrightarrow> sd_running s \<longrightarrow> chains s = 1)"
  using sched_running_chain [of r s] sched_running_chain [of False s] sched_single_chain [of s] by force

theorem running_task_alive_witness:
  "chains (sched_init\<lparr>sd_running := True, sd_starting := 1\<rparr>) = 1"
proof -
  let ?s = "sched_init\<lparr>sd_running := True, sd_starting := 1\<rparr>"
  have "sched_step False sched_init ?s"
    using sd_start [of sched_init False] by (simp add: sched_init_def chains_def)
  then have "sched_reach False ?s" by (rule sd_step [OF sd_init])
  with running_task_alive [of False ?s] show ?thesis by simp
qed

text \<open>Restarting a task multiplies it. When \<open>Close\<close> and \<open>Start\<close> come between the firing of a timer
  and its callback, the callback joins the new life of the task: for every number a running task can
  have that many chains, each of them running the function once per interval.\<close>

lemma restart_multiplies_chains:
  "\<exists>s. sched_reach True s \<and> sd_running s \<and> chains s = Suc n"
proof -
  have "\<exists>s. sched_reach True s \<and> sd_running s \<and> sd_known s \<and> sd_pending s = 1 \<and> sd_fired s = n \<and>
      sd_entered s = 0 \<and> sd_starting s = 0"
  proof (induction n)
    case 0
    have 1: "sched_reach True (sched_init\<lparr>sd_running := True, sd_starting := 1\<rparr>)"
      using sd_step [OF sd_init sd_start [of sched_init True]] by (simp add: sched_init_def)
    have "sched_reach True (arm (sched_init\<lparr>sd_running := True, sd_starting := 1\<rparr>\<lparr>sd_starting := 0\<rparr>))"
      by (rule sd_step [OF 1 sd_arm]) simp
    then show ?case by (intro exI conjI) (auto simp: arm_def sched_init_def)
  next
    case (Suc n)
    then obtain s where s: "sched_reach True s" "sd_running s" "sd_known s" "sd_pending s = Suc 0" "sd_fired s = n"
      "sd_entered s = 0" "sd_starting s = 0" by auto
    let ?a = "s\<lparr>sd_pending := 0, sd_known := False, sd_fired := Suc n\<rparr>"
    have a: "sched_reach True ?a" using sd_step [OF s(1) sd_fire_known [OF s(3,4)]] s(5) by simp
    let ?b = "?a\<lparr>sd_running := False, sd_pending := 0, sd_known := False\<rparr>"
    have b: "sched_reach True ?b" using sd_step [OF a sd_close] by simp
    let ?c = "?b\<lparr>sd_running := True, sd_starting := 1\<rparr>"
    have c: "sched_reach True ?c" using sd_step [OF b sd_start] s(7) by simp
    have "sched_reach True (arm (?c\<lparr>sd_starting := 0\<rparr>))" by (rule sd_step [OF c sd_arm]) simp
    then show ?case using s by (intro exI [of _ "arm (?c\<lparr>sd_starting := 0\<rparr>)"]) (simp add: arm_def)
  qed
  then obtain s where "sched_reach True s" "sd_running s" "sd_pending s = 1" "sd_fired s = n"
    "sd_entered s = 0" "sd_starting s = 0" by blast
  then show ?thesis by (intro exI [of _ s]) (simp add: chains_def)
qed

end
