(* ===== verification/Counters.thy ===== *)
theory Counters
  imports PanelTypes
begin

text \<open>
  \<open>common/counter/\<close> and \<open>node/traffic_store.go\<close>: the per-user byte counters of an inbound, the
  connection wrappers that feed them, and the accumulator behind the dynamic speed limit. Counters
  are \<open>int64\<close> and wrap. A connection keeps a pointer to the storage it was given, which stays
  valid after the entry was deleted; storages therefore live in a heap, and the map holds addresses.
\<close>

section \<open>TrafficCounter\<close>

record TrafficStorage =
  ts_Up :: int64
  ts_Down :: int64

record TrafficCounter =
  tc_heap :: "TrafficStorage list"
  tc_Counters :: "(string, nat) gomap"

definition empty_storage :: TrafficStorage where
  "empty_storage = \<lparr>ts_Up = 0, ts_Down = 0\<rparr>"

definition NewTrafficCounter :: TrafficCounter where
  "NewTrafficCounter = \<lparr>tc_heap = [], tc_Counters = []\<rparr>"

definition storage_update :: "nat \<Rightarrow> (TrafficStorage \<Rightarrow> TrafficStorage) \<Rightarrow> TrafficCounter \<Rightarrow> TrafficCounter" where
  "storage_update a f c = c\<lparr>tc_heap := (tc_heap c)[a := f (tc_heap c ! a)]\<rparr>"

definition GetCounter :: "TrafficCounter \<Rightarrow> string \<Rightarrow> nat \<times> TrafficCounter" where
  "GetCounter c uuid = (case mload (tc_Counters c) uuid of
     Some a \<Rightarrow> (a, c)
   | None \<Rightarrow> (length (tc_heap c),
              c\<lparr>tc_heap := tc_heap c @ [empty_storage],
                tc_Counters := mstore (tc_Counters c) uuid (length (tc_heap c))\<rparr>))"

definition GetUpCount :: "TrafficCounter \<Rightarrow> string \<Rightarrow> int64" where
  "GetUpCount c uuid = (case mload (tc_Counters c) uuid of Some a \<Rightarrow> ts_Up (tc_heap c ! a) | None \<Rightarrow> 0)"

definition GetDownCount :: "TrafficCounter \<Rightarrow> string \<Rightarrow> int64" where
  "GetDownCount c uuid = (case mload (tc_Counters c) uuid of Some a \<Rightarrow> ts_Down (tc_heap c ! a) | None \<Rightarrow> 0)"

definition TC_Len :: "TrafficCounter \<Rightarrow> nat" where
  "TC_Len c = length (tc_Counters c)"

definition TC_Reset :: "TrafficCounter \<Rightarrow> string \<Rightarrow> TrafficCounter" where
  "TC_Reset c uuid = (case mload (tc_Counters c) uuid of
     Some a \<Rightarrow> storage_update a (\<lambda>s. s\<lparr>ts_Up := 0, ts_Down := 0\<rparr>) c | None \<Rightarrow> c)"

definition TC_Delete :: "TrafficCounter \<Rightarrow> string \<Rightarrow> TrafficCounter" where
  "TC_Delete c uuid = c\<lparr>tc_Counters := mdelete (tc_Counters c) uuid\<rparr>"

definition Rx :: "TrafficCounter \<Rightarrow> string \<Rightarrow> int \<Rightarrow> TrafficCounter" where
  "Rx c uuid n = (case GetCounter c uuid of
     (a, c') \<Rightarrow> storage_update a (\<lambda>s. s\<lparr>ts_Down := ts_Down s + word_of_int n\<rparr>) c')"

definition Tx :: "TrafficCounter \<Rightarrow> string \<Rightarrow> int \<Rightarrow> TrafficCounter" where
  "Tx c uuid n = (case GetCounter c uuid of
     (a, c') \<Rightarrow> storage_update a (\<lambda>s. s\<lparr>ts_Up := ts_Up s + word_of_int n\<rparr>) c')"

section \<open>Connection wrappers\<close>

text \<open>
  What a wrapped connection does to its storage. The wrapped connection is outside: the number of
  bytes it moved and whether it failed are arguments. \<open>Read\<close> and \<open>Write\<close> of \<open>ConnCounter\<close> store the
  last byte count, also on an error; every other path adds.
\<close>

definition up_add :: "int \<Rightarrow> TrafficStorage \<Rightarrow> TrafficStorage" where
  "up_add n s = s\<lparr>ts_Up := ts_Up s + word_of_int n\<rparr>"

definition down_add :: "int \<Rightarrow> TrafficStorage \<Rightarrow> TrafficStorage" where
  "down_add n s = s\<lparr>ts_Down := ts_Down s + word_of_int n\<rparr>"

definition ConnCounter_Read :: "int \<Rightarrow> TrafficStorage \<Rightarrow> TrafficStorage" where
  "ConnCounter_Read n s = s\<lparr>ts_Up := word_of_int n\<rparr>"

definition ConnCounter_Write :: "int \<Rightarrow> TrafficStorage \<Rightarrow> TrafficStorage" where
  "ConnCounter_Write n s = s\<lparr>ts_Down := word_of_int n\<rparr>"

definition ConnCounter_ReadBuffer :: "bool \<Rightarrow> int \<Rightarrow> TrafficStorage \<Rightarrow> TrafficStorage" where
  "ConnCounter_ReadBuffer err bufLen s = (if err then s else if bufLen > 0 then up_add bufLen s else s)"

definition ConnCounter_WriteBuffer :: "bool \<Rightarrow> int \<Rightarrow> TrafficStorage \<Rightarrow> TrafficStorage" where
  "ConnCounter_WriteBuffer err dataLen s = (if err then s else if dataLen > 0 then down_add dataLen s else s)"

definition PacketConnCounter_ReadPacket :: "bool \<Rightarrow> int \<Rightarrow> TrafficStorage \<Rightarrow> TrafficStorage" where
  "PacketConnCounter_ReadPacket err bufLen s = (if err then s else up_add bufLen s)"

definition PacketConnCounter_WritePacket :: "bool \<Rightarrow> int \<Rightarrow> TrafficStorage \<Rightarrow> TrafficStorage" where
  "PacketConnCounter_WritePacket err n s = (if err then s else if n > 0 then down_add n s else s)"

definition XrayTrafficCounter_Set :: "int64 \<Rightarrow> int64 \<Rightarrow> int64 \<times> int64" where
  "XrayTrafficCounter_Set v newValue = (v, newValue)"

definition XrayTrafficCounter_Add :: "int64 \<Rightarrow> int64 \<Rightarrow> int64 \<times> int64" where
  "XrayTrafficCounter_Add v delta = (v + delta, v + delta)"

datatype conn_op =
    OpRead int | OpWrite int
  | OpReadBuffer bool int | OpWriteBuffer bool int
  | OpReadPacket bool int | OpWritePacket bool int
  | OpCountUp int | OpCountDown int

text \<open>\<open>OpCountUp\<close> and \<open>OpCountDown\<close> are the functions \<open>UnwrapReader\<close> and \<open>UnwrapWriter\<close> hand out.\<close>

fun conn_step :: "TrafficStorage \<Rightarrow> conn_op \<Rightarrow> TrafficStorage" where
  "conn_step s (OpRead n) = ConnCounter_Read n s"
| "conn_step s (OpWrite n) = ConnCounter_Write n s"
| "conn_step s (OpReadBuffer e n) = ConnCounter_ReadBuffer e n s"
| "conn_step s (OpWriteBuffer e n) = ConnCounter_WriteBuffer e n s"
| "conn_step s (OpReadPacket e n) = PacketConnCounter_ReadPacket e n s"
| "conn_step s (OpWritePacket e n) = PacketConnCounter_WritePacket e n s"
| "conn_step s (OpCountUp n) = up_add n s"
| "conn_step s (OpCountDown n) = down_add n s"

section \<open>trafficStore\<close>

type_synonym trafficStore = "(string, int64) gomap"

definition newTrafficStore :: trafficStore where
  "newTrafficStore = []"

definition TS_Add :: "trafficStore option \<Rightarrow> string \<Rightarrow> int64 \<Rightarrow> trafficStore option" where
  "TS_Add s uuid n = (case s of None \<Rightarrow> None
     | Some m \<Rightarrow> Some (mstore m uuid ((case mload m uuid of Some v \<Rightarrow> v | None \<Rightarrow> 0) + n)))"

definition TS_Delete :: "trafficStore option \<Rightarrow> string \<Rightarrow> trafficStore option" where
  "TS_Delete s uuid = (case s of None \<Rightarrow> None | Some m \<Rightarrow> Some (mdelete m uuid))"

definition TS_Reset :: "trafficStore option \<Rightarrow> trafficStore option" where
  "TS_Reset s = (case s of None \<Rightarrow> None | Some _ \<Rightarrow> Some [])"

fun drain_loop :: "int64 \<Rightarrow> trafficStore \<Rightarrow> trafficStore \<Rightarrow> string list \<Rightarrow> trafficStore \<times> string list" where
  "drain_loop threshold [] m out = (m, out)"
| "drain_loop threshold ((uuid, t) # visit) m out =
     (if sint t \<ge> sint threshold then drain_loop threshold visit (mdelete m uuid) (out @ [uuid])
      else drain_loop threshold visit m out)"

definition TS_Drain :: "trafficStore option \<Rightarrow> int64 \<Rightarrow> trafficStore option \<times> string list" where
  "TS_Drain s threshold = (case s of None \<Rightarrow> (None, [])
     | Some m \<Rightarrow>
         if sint threshold \<le> 0 then (Some m, [])
         else (case drain_loop threshold m m [] of (m', out) \<Rightarrow> (Some m', out)))"

definition TS_Get :: "trafficStore option \<Rightarrow> string \<Rightarrow> int64" where
  "TS_Get s uuid = (case s of None \<Rightarrow> 0 | Some m \<Rightarrow> (case mload m uuid of Some v \<Rightarrow> v | None \<Rightarrow> 0))"

definition TS_Len :: "trafficStore option \<Rightarrow> nat" where
  "TS_Len s = (case s of None \<Rightarrow> 0 | Some m \<Rightarrow> length m)"

section \<open>Facts\<close>

text \<open>Addresses are valid and no two users share a storage.\<close>

definition tc_wf :: "TrafficCounter \<Rightarrow> bool" where
  "tc_wf c \<longleftrightarrow> mwf (tc_Counters c) \<and> distinct (map snd (tc_Counters c)) \<and>
     (\<forall>a \<in> set (map snd (tc_Counters c)). a < length (tc_heap c))"

lemma tc_wf_new: "tc_wf NewTrafficCounter"
  by (simp add: tc_wf_def NewTrafficCounter_def)

lemma tc_wf_addr: "tc_wf c \<Longrightarrow> mload (tc_Counters c) k = Some a \<Longrightarrow> a < length (tc_heap c)"
  by (force simp: tc_wf_def dest: map_of_SomeD)

lemma tc_wf_inj:
  "tc_wf c \<Longrightarrow> mload (tc_Counters c) k = Some a \<Longrightarrow> mload (tc_Counters c) k' = Some a \<Longrightarrow> k = k'"
  by (fastforce simp: tc_wf_def distinct_map inj_on_def dest!: map_of_SomeD)

lemma storage_update_wf [simp]: "tc_wf (storage_update a f c) = tc_wf c"
  by (simp add: tc_wf_def storage_update_def)

lemma tc_wf_GetCounter: "tc_wf c \<Longrightarrow> tc_wf (snd (GetCounter c k))"
proof (cases "mload (tc_Counters c) k")
  case None
  assume wf: "tc_wf c"
  from None have "GetCounter c k = (length (tc_heap c), c\<lparr>tc_heap := tc_heap c @ [empty_storage],
      tc_Counters := tc_Counters c @ [(k, length (tc_heap c))]\<rparr>)"
    by (simp add: GetCounter_def mstore_fresh)
  with wf None show ?thesis by (fastforce simp: tc_wf_def map_of_eq_None_iff less_Suc_eq)
qed (simp add: GetCounter_def)

lemma tc_wf_Delete: "tc_wf c \<Longrightarrow> tc_wf (TC_Delete c k)"
  by (auto simp: tc_wf_def TC_Delete_def AList.delete_eq distinct_map_filter)

text \<open>The bytes counted for a user.\<close>

definition counted :: "TrafficCounter \<Rightarrow> string \<Rightarrow> int64 \<times> int64" where
  "counted c k = (GetUpCount c k, GetDownCount c k)"

lemma counted_simp: "counted c k = (case mload (tc_Counters c) k of
     Some a \<Rightarrow> (ts_Up (tc_heap c ! a), ts_Down (tc_heap c ! a)) | None \<Rightarrow> (0, 0))"
  by (simp add: counted_def GetUpCount_def GetDownCount_def split: option.splits)

lemma counted_update:
  assumes "tc_wf c" and "mload (tc_Counters c) k = Some a"
  shows "counted (storage_update a f c) k' =
     (if k' = k then (ts_Up (f (tc_heap c ! a)), ts_Down (f (tc_heap c ! a))) else counted c k')"
proof (cases "k' = k")
  case True
  with assms tc_wf_addr [OF assms] show ?thesis
    by (simp add: counted_simp storage_update_def)
next
  case False
  with tc_wf_inj [OF assms] have "mload (tc_Counters c) k' \<noteq> Some a" by blast
  with False show ?thesis by (auto simp: counted_simp storage_update_def split: option.splits)
qed

lemma GetCounter_load: "GetCounter c k = (a, c') \<Longrightarrow> mload (tc_Counters c') k = Some a"
  by (auto simp: GetCounter_def split: option.splits)

lemma GetCounter_counted: "tc_wf c \<Longrightarrow> counted (snd (GetCounter c k)) k' = counted c k'"
  by (auto simp: GetCounter_def counted_simp nth_append empty_storage_def dest: tc_wf_addr split: option.splits)

lemma drain_loop_spec:
  "mwf visit \<Longrightarrow> drain_loop th visit m out =
     (foldl mdelete m (map fst (filter (\<lambda>(k, t). sint t \<ge> sint th) visit)),
      out @ map fst (filter (\<lambda>(k, t). sint t \<ge> sint th) visit))"
  by (induction th visit m out rule: drain_loop.induct) auto

section \<open>Properties\<close>

text \<open>The bytes an operation accounts for; plain reads and writes account for none, they overwrite.\<close>

fun moved_up :: "conn_op \<Rightarrow> int" where
  "moved_up (OpReadBuffer e n) = (if e then 0 else max 0 n)"
| "moved_up (OpReadPacket e n) = (if e then 0 else n)"
| "moved_up (OpCountUp n) = n"
| "moved_up _ = 0"

fun moved_down :: "conn_op \<Rightarrow> int" where
  "moved_down (OpWriteBuffer e n) = (if e then 0 else max 0 n)"
| "moved_down (OpWritePacket e n) = (if e then 0 else max 0 n)"
| "moved_down (OpCountDown n) = n"
| "moved_down _ = 0"

fun plain_io :: "conn_op \<Rightarrow> bool" where
  "plain_io (OpRead n) = True"
| "plain_io (OpWrite n) = True"
| "plain_io _ = False"

lemmas conn_defs = ConnCounter_Read_def ConnCounter_Write_def ConnCounter_ReadBuffer_def
  ConnCounter_WriteBuffer_def PacketConnCounter_ReadPacket_def PacketConnCounter_WritePacket_def
  up_add_def down_add_def

lemma conn_step_adds:
  "\<not> plain_io op \<Longrightarrow> ts_Up (conn_step s op) = ts_Up s + word_of_int (moved_up op) \<and>
     ts_Down (conn_step s op) = ts_Down s + word_of_int (moved_down op)"
  by (cases op) (auto simp: conn_defs)

lemma conn_steps_add:
  "\<forall>op \<in> set ops. \<not> plain_io op \<Longrightarrow>
     ts_Up (foldl conn_step s ops) = ts_Up s + word_of_int (sum_list (map moved_up ops)) \<and>
     ts_Down (foldl conn_step s ops) = ts_Down s + word_of_int (sum_list (map moved_down ops))"
  by (induction ops arbitrary: s) (simp_all add: conn_step_adds)

text \<open>What a counted connection leaves in its storage. Buffered reads and writes, packets and
  the counting functions handed out for zero-copy add up: both counters grow by the bytes moved
  without an error, modulo \<open>2^64\<close>. A plain \<open>Read\<close> overwrites: whatever was counted before, the
  upload counter restarts at the size of that read.\<close>

lemma conn_counter_accounting:
  assumes "\<forall>op \<in> set ops. \<not> plain_io op"
  shows "ts_Up (foldl conn_step s ops) = ts_Up s + word_of_int (sum_list (map moved_up ops))
    \<and> ts_Down (foldl conn_step s ops) = ts_Down s + word_of_int (sum_list (map moved_down ops))
    \<and> ts_Up (foldl conn_step s (before @ OpRead n # ops)) = word_of_int (n + sum_list (map moved_up ops))
    \<and> ts_Down (foldl conn_step s (before @ OpWrite n # ops)) = word_of_int (n + sum_list (map moved_down ops))"
  using conn_steps_add [OF assms] by (simp add: conn_defs)

theorem conn_counter_accounting_witness:
  "ts_Up (foldl conn_step empty_storage [OpReadBuffer False 1000, OpRead 10, OpReadBuffer False 5]) = 15"
proof -
  have "\<forall>op \<in> set [OpReadBuffer False 5]. \<not> plain_io op" by simp
  from conn_counter_accounting [OF this, of empty_storage "[OpReadBuffer False 1000]" 10]
  show ?thesis by simp
qed

lemma drain_none:
  assumes "mwf m" and "\<And>k t. mload m k = Some t \<Longrightarrow> \<not> sint th \<le> sint t"
  shows "TS_Drain (Some m) th = (Some m, [])"
proof -
  have "filter (\<lambda>(k, t). sint t \<ge> sint th) m = []"
    using assms(2) mem_mload [OF assms(1)] by (simp only: filter_empty_conv) fast
  then show ?thesis by (simp add: TS_Drain_def drain_loop_spec [OF assms(1)])
qed

lemma distinct_singleton: "distinct xs \<Longrightarrow> set xs = {a} \<Longrightarrow> xs = [a]"
  by (cases xs) (auto simp: subset_singleton_iff)

text \<open>Draining the accumulator of the dynamic speed limit. With a positive threshold it returns,
  once each, exactly the users at or above the threshold, and removes them, and leaves every other
  user's bytes alone; with a non-positive threshold it does nothing. A user drained once is not
  returned again before bytes are added.\<close>

lemma drain_at_threshold:
  assumes "mwf m"
  shows "\<exists>m' out. TS_Drain (Some m) threshold = (Some m', out) \<and> distinct out \<and>
     set out = {u. 0 < sint threshold \<and> (\<exists>n. mload m u = Some n \<and> sint threshold \<le> sint n)} \<and>
     (\<forall>u. mload m' u = (if u \<in> set out then None else mload m u)) \<and>
     TS_Drain (Some m') threshold = (Some m', [])"
proof (cases "0 < sint threshold")
  case False
  then show ?thesis by (simp add: TS_Drain_def)
next
  case True
  let ?out = "map fst (filter (\<lambda>(k, t). sint t \<ge> sint threshold) m)"
  let ?m = "foldl mdelete m ?out"
  have d: "TS_Drain (Some m) threshold = (Some ?m, ?out)"
    using True by (simp add: TS_Drain_def drain_loop_spec [OF assms])
  have out: "set ?out = {u. 0 < sint threshold \<and> (\<exists>n. mload m u = Some n \<and> sint threshold \<le> sint n)}"
  proof -
    have "set ?out = {u. \<exists>n. (u, n) \<in> set m \<and> sint threshold \<le> sint n}" by force
    then show ?thesis using True unfolding mem_mload [OF assms] by simp
  qed
  have load: "mload ?m u = (if u \<in> set ?out then None else mload m u)" for u
    using gm.load_del_all [of m ?out u] by (simp add: gm.del_all_def)
  have wf: "mwf ?m" using gm.wf_del_all [OF assms, of ?out] by (simp add: gm.del_all_def)
  have "TS_Drain (Some ?m) threshold = (Some ?m, [])"
  proof (rule drain_none [OF wf])
    fix k t assume "mload ?m k = Some t"
    then have "k \<notin> set ?out" and l: "mload m k = Some t" using load [of k] by (metis option.distinct(1))+
    then have "\<not> (0 < sint threshold \<and> (\<exists>n. mload m k = Some n \<and> sint threshold \<le> sint n))"
      unfolding out by simp
    with l True show "\<not> sint threshold \<le> sint t" by simp
  qed
  moreover have "distinct ?out" using mwf_filter [OF assms] .
  ultimately show ?thesis using d out load by blast
qed

end
