(* ===== verification/TrafficSlices.thy ===== *)
theory TrafficSlices
  imports Counters
begin

text \<open>
  The traffic interface between a core and the report loop: \<open>GetUserTrafficSlice\<close> drains the
  per-user counters of an inbound into a slice keyed by user id, \<open>AddUserTrafficSlice\<close> puts a slice
  back. Xray keys its counters by \<open>runtimeKey|uuid\<close>, sing by \<open>uuid\<close>; the two copies in
  \<open>core/xray/user.go\<close> and \<open>core/sing/user.go\<close> are otherwise the same code.
\<close>

section \<open>Operations\<close>

record UserMaps =
  um_uidMap :: "(string, int) gomap"
  um_Counter :: "(string, TrafficCounter) gomap"

definition clear_storage :: "TrafficStorage \<Rightarrow> TrafficStorage" where
  "clear_storage s = s\<lparr>ts_Up := 0, ts_Down := 0\<rparr>"

text \<open>The \<open>Range\<close> callback. A user without an entry in \<open>uidMap\<close> is reported with id 0.\<close>

fun range_traffic :: "(string, int) gomap \<Rightarrow> bool \<Rightarrow> (string, nat) gomap \<Rightarrow> TrafficCounter \<Rightarrow> UserTraffic list
    \<Rightarrow> TrafficCounter \<times> UserTraffic list" where
  "range_traffic uidMap reset [] c acc = (c, acc)"
| "range_traffic uidMap reset ((email, a) # visit) c acc =
     (let s = tc_heap c ! a
      in if sint (ts_Up s + ts_Down s) > 0
         then range_traffic uidMap reset visit (if reset then storage_update a clear_storage c else c)
                (acc @ [\<lparr>ut_UID = (case mload uidMap email of Some i \<Rightarrow> i | None \<Rightarrow> 0),
                         ut_Upload = ts_Up s, ut_Download = ts_Down s\<rparr>])
         else range_traffic uidMap reset visit c acc)"

definition GetUserTrafficSlice :: "UserMaps \<Rightarrow> string \<Rightarrow> bool \<Rightarrow> UserTraffic list \<times> UserMaps" where
  "GetUserTrafficSlice x tag reset =
    (case mload (um_Counter x) tag of
       None \<Rightarrow> ([], x)
     | Some c \<Rightarrow>
         (case range_traffic (um_uidMap x) reset (tc_Counters c) c [] of
            (c', sl) \<Rightarrow> (sl, x\<lparr>um_Counter := mstore (um_Counter x) tag c'\<rparr>)))"

definition reverse_map :: "(string, int) gomap \<Rightarrow> (int, string) gomap" where
  "reverse_map uidMap = foldl (\<lambda>m (email, uid). mstore m uid email) [] uidMap"

definition add_entry :: "(int, string) gomap \<Rightarrow> TrafficCounter \<Rightarrow> UserTraffic \<Rightarrow> TrafficCounter" where
  "add_entry rmap c t =
    (case mload rmap (ut_UID t) of
       None \<Rightarrow> c
     | Some email \<Rightarrow>
         (case mload (tc_Counters c) email of
            None \<Rightarrow> c
          | Some a \<Rightarrow> storage_update a
              (\<lambda>s. s\<lparr>ts_Up := ts_Up s + ut_Upload t, ts_Down := ts_Down s + ut_Download t\<rparr>) c))"

definition AddUserTrafficSlice :: "UserMaps \<Rightarrow> string \<Rightarrow> UserTraffic list \<Rightarrow> unit outcome \<times> UserMaps" where
  "AddUserTrafficSlice x tag traffic =
    (if traffic = [] then (Ret (), x)
     else case mload (um_Counter x) tag of
       None \<Rightarrow> (Fail ''counter for tag not found'', x)
     | Some c \<Rightarrow> (Ret (), x\<lparr>um_Counter := mstore (um_Counter x) tag
                             (foldl (add_entry (reverse_map (um_uidMap x))) c traffic)\<rparr>))"

section \<open>Amounts\<close>

datatype dir = Up | Down

fun part :: "dir \<Rightarrow> UserTraffic \<Rightarrow> int64" where
  "part Up t = ut_Upload t"
| "part Down t = ut_Download t"

fun stored :: "dir \<Rightarrow> TrafficStorage \<Rightarrow> int64" where
  "stored Up s = ts_Up s"
| "stored Down s = ts_Down s"

text \<open>The bytes a slice holds for a user id.\<close>

definition amount :: "dir \<Rightarrow> UserTraffic list \<Rightarrow> int \<Rightarrow> int64" where
  "amount d sl uid = sum_list (map (part d) (filter (\<lambda>t. ut_UID t = uid) sl))"

lemma amount_Nil [simp]: "amount d [] uid = 0"
  by (simp add: amount_def)

lemma amount_Cons [simp]: "amount d (t # sl) uid = (if ut_UID t = uid then part d t else 0) + amount d sl uid"
  by (simp add: amount_def)

lemma amount_append [simp]: "amount d (xs @ ys) uid = amount d xs uid + amount d ys uid"
  by (simp add: amount_def)

section \<open>The contract of a core's traffic interface\<close>

text \<open>
  What the report loop needs of a core for one inbound: draining hands over exactly what was owed
  to each user, and giving back a slice owes it again, for the users the core still knows.
\<close>

locale traffic_core =
  fixes drain :: "'s \<Rightarrow> UserTraffic list \<times> 's"
    and refund :: "UserTraffic list \<Rightarrow> 's \<Rightarrow> 's"
    and owed :: "'s \<Rightarrow> dir \<Rightarrow> int \<Rightarrow> int64"
    and ok :: "'s \<Rightarrow> bool"
    and knows :: "'s \<Rightarrow> int \<Rightarrow> bool"
  assumes drain_owed: "ok s \<Longrightarrow> drain s = (sl, s') \<Longrightarrow> owed s' d u + amount d sl u = owed s d u"
    and drain_ok: "ok s \<Longrightarrow> drain s = (sl, s') \<Longrightarrow> ok s' \<and> knows s' = knows s"
    and drain_knows: "ok s \<Longrightarrow> drain s = (sl, s') \<Longrightarrow> t \<in> set sl \<Longrightarrow> knows s (ut_UID t)"
    and refund_owed: "ok s \<Longrightarrow> (\<And>t. t \<in> set sl \<Longrightarrow> knows s (ut_UID t)) \<Longrightarrow>
      owed (refund sl s) d u = owed s d u + amount d sl u"
    and refund_ok: "ok s \<Longrightarrow> ok (refund sl s) \<and> knows (refund sl s) = knows s"
begin

lemma drain_refund:
  assumes "ok s" and "drain s = (sl, s')" and "set give \<subseteq> set sl"
  shows "owed (refund give s') d u = owed s' d u + amount d give u"
  using assms drain_ok [OF assms(1,2)] drain_knows [OF assms(1,2)] by (intro refund_owed) auto

lemma conservation:
  assumes "ok s" and "drain s = (sl, s')" and "\<And>d u. amount d sl u = amount d kept u + amount d back u"
    and "set back \<subseteq> set sl"
  shows "owed (refund back s') d u + amount d kept u = owed s d u"
  using drain_refund [OF assms(1,2,4), of d u] drain_owed [OF assms(1,2), of d u] assms(3) [of d u]
  by (simp add: ac_simps)

lemma drain_and_refund:
  assumes "ok s" and "drain s = (sl, s')"
  shows "owed (refund sl s') d u = owed s d u"
  using conservation [OF assms, of "[]" sl] by simp

end

section \<open>The counters satisfy the contract\<close>

text \<open>The bytes counted for a user id: every counter of the inbound whose name maps to the id.\<close>

definition uid_of :: "(string, int) gomap \<Rightarrow> string \<Rightarrow> int" where
  "uid_of uidMap email = (case mload uidMap email of Some i \<Rightarrow> i | None \<Rightarrow> 0)"

definition owed_of :: "(string, int) gomap \<Rightarrow> TrafficCounter \<Rightarrow> dir \<Rightarrow> int \<Rightarrow> int64" where
  "owed_of uidMap c d u =
    sum_list (map (\<lambda>(k, a). stored d (tc_heap c ! a)) (filter (\<lambda>(k, a). uid_of uidMap k = u) (tc_Counters c)))"

definition owed_users :: "string \<Rightarrow> UserMaps \<Rightarrow> dir \<Rightarrow> int \<Rightarrow> int64" where
  "owed_users tag x d u = (case mload (um_Counter x) tag of None \<Rightarrow> 0 | Some c \<Rightarrow> owed_of (um_uidMap x) c d u)"

definition knows_users :: "string \<Rightarrow> UserMaps \<Rightarrow> int \<Rightarrow> bool" where
  "knows_users tag x u = (case mload (um_Counter x) tag of None \<Rightarrow> False
     | Some c \<Rightarrow> (case mload (reverse_map (um_uidMap x)) u of None \<Rightarrow> False
        | Some email \<Rightarrow> mload (tc_Counters c) email \<noteq> None))"

text \<open>No user id belongs to two names, and every counted name has a user id.\<close>

definition users_ok :: "string \<Rightarrow> UserMaps \<Rightarrow> bool" where
  "users_ok tag x \<longleftrightarrow> mwf (um_uidMap x) \<and> inj_on (uid_of (um_uidMap x)) (set (mkeys (um_uidMap x))) \<and>
     (\<forall>c. mload (um_Counter x) tag = Some c \<longrightarrow> tc_wf c \<and> set (mkeys (tc_Counters c)) \<subseteq> set (mkeys (um_uidMap x)))"

lemma reverse_map_load:
  assumes "mload (reverse_map m) u = Some email"
  shows "(email, u) \<in> set m"
proof -
  have "mload (foldl (\<lambda>m (email, uid). mstore m uid email) acc m) u = Some email \<Longrightarrow>
      (email, u) \<in> set m \<or> mload acc u = Some email" for acc
  proof (induction m arbitrary: acc)
    case (Cons p m)
    obtain e v where p: "p = (e, v)" by force
    from Cons.IH [of "mstore acc v e"] Cons.prems p show ?case by (auto split: if_splits)
  qed simp
  from this [of "[]"] assms show ?thesis by (simp add: reverse_map_def)
qed

lemma reverse_map_total:
  assumes "(email, u) \<in> set m"
  shows "mload (reverse_map m) u \<noteq> None"
proof -
  have "(mload acc u \<noteq> None \<or> (\<exists>e. (e, u) \<in> set m)) \<Longrightarrow>
      mload (foldl (\<lambda>m (email, uid). mstore m uid email) acc m) u \<noteq> None" for acc
  proof (induction m arbitrary: acc)
    case (Cons p m)
    obtain e v where p: "p = (e, v)" by force
    have "mload (mstore acc v e) u \<noteq> None \<or> (\<exists>e. (e, u) \<in> set m)" using Cons.prems p by auto
    from Cons.IH [OF this] show ?case using p by simp
  qed simp
  with assms show ?thesis unfolding reverse_map_def by blast
qed

lemma reverse_map_inverse:
  assumes "users_ok tag x" and "email \<in> set (mkeys (um_uidMap x))"
  shows "mload (reverse_map (um_uidMap x)) (uid_of (um_uidMap x) email) = Some email"
proof -
  have wf: "mwf (um_uidMap x)" and inj: "inj_on (uid_of (um_uidMap x)) (set (mkeys (um_uidMap x)))"
    using assms(1) by (auto simp: users_ok_def)
  have u: "(e, v) \<in> set (um_uidMap x) \<Longrightarrow> uid_of (um_uidMap x) e = v" for e v
    by (simp add: uid_of_def mem_mload [OF wf] split: option.splits)
  from assms(2) obtain v where v: "(email, v) \<in> set (um_uidMap x)" by auto
  then obtain e where e: "mload (reverse_map (um_uidMap x)) v = Some e" using reverse_map_total by fast
  from reverse_map_load [OF e] have m: "(e, v) \<in> set (um_uidMap x)" .
  then have "uid_of (um_uidMap x) e = uid_of (um_uidMap x) email" "e \<in> set (mkeys (um_uidMap x))"
    using u [OF m] u [OF v] by (auto intro: rev_image_eqI)
  with inj assms(2) have "e = email" by (auto dest: inj_onD)
  with e u [OF v] show ?thesis by simp
qed

lemma sum_update:
  assumes "distinct (map snd L)" and "(k, a) \<in> set L" and "\<forall>b \<in> set (map snd L). b < length h"
  shows "sum_list (map (\<lambda>(k, b). stored d (h[a := s] ! b)) (filter (\<lambda>(k, b). P k) L)) =
     sum_list (map (\<lambda>(k, b). stored d (h ! b)) (filter (\<lambda>(k, b). P k) L)) +
     (if P k then stored d s - stored d (h ! a) else 0)"
  using assms
proof (induction L)
  case (Cons p L)
  obtain k1 b1 where p: "p = (k1, b1)" by force
  have same: "sum_list (map (\<lambda>(k, b). stored d (h[a := s] ! b)) (filter (\<lambda>(k, b). P k) L)) =
      sum_list (map (\<lambda>(k, b). stored d (h ! b)) (filter (\<lambda>(k, b). P k) L))" if "a \<notin> set (map snd L)"
  proof -
    have "map (\<lambda>(k, b). stored d (h[a := s] ! b)) (filter (\<lambda>(k, b). P k) L) =
        map (\<lambda>(k, b). stored d (h ! b)) (filter (\<lambda>(k, b). P k) L)"
      using that 
    proof (intro map_cong refl)
      fix q assume "q \<in> set (filter (\<lambda>(k, b). P k) L)"
      then have "snd q \<noteq> a" using that by auto
      then show "(case q of (k, b) \<Rightarrow> stored d (h[a := s] ! b)) = (case q of (k, b) \<Rightarrow> stored d (h ! b))"
        by (simp add: case_prod_unfold)
    qed
    then show ?thesis by (rule arg_cong)
  qed
  show ?case
  proof (cases "b1 = a")
    case True
    then have "a \<notin> set (map snd L)" using Cons.prems(1) p by simp
    moreover from this have "k1 = k" using Cons.prems(2) p True by force
    ultimately show ?thesis using same Cons.prems(3) p True by auto
  next
    case False
    then have "(k, a) \<in> set L" using Cons.prems(2) p by simp
    then show ?thesis using Cons p False by auto
  qed
qed simp

lemma owed_of_update:
  assumes "tc_wf c" and "mload (tc_Counters c) k = Some a"
  shows "owed_of m (storage_update a f c) d u = owed_of m c d u +
     (if uid_of m k = u then stored d (f (tc_heap c ! a)) - stored d (tc_heap c ! a) else 0)"
proof -
  have "(k, a) \<in> set (tc_Counters c)" using assms(2) by (rule map_of_SomeD)
  with assms(1) show ?thesis
    by (simp add: owed_of_def storage_update_def tc_wf_def sum_update [where P = "\<lambda>k. uid_of m k = u"])
qed

lemma storage_update_Counters [simp]: "tc_Counters (storage_update a f c) = tc_Counters c"
  by (simp add: storage_update_def)

lemma storage_update_other: "b \<noteq> a \<Longrightarrow> tc_heap (storage_update a f c) ! b = tc_heap c ! b"
  by (simp add: storage_update_def)

lemma range_traffic_Counters:
  "tc_Counters (fst (range_traffic m reset visit c acc)) = tc_Counters c"
  by (induction m reset visit c acc rule: range_traffic.induct) (simp_all add: Let_def)

lemma range_traffic_wf: "tc_wf c \<Longrightarrow> tc_wf (fst (range_traffic m reset visit c acc))"
  by (induction m reset visit c acc rule: range_traffic.induct) (simp_all add: Let_def)

lemma range_traffic_owed:
  "tc_wf c \<Longrightarrow> (\<And>k a. (k, a) \<in> set visit \<Longrightarrow> mload (tc_Counters c) k = Some a) \<Longrightarrow>
     range_traffic m True visit c acc = (c', sl) \<Longrightarrow>
     owed_of m c' d u + amount d sl u = owed_of m c d u + amount d acc u"
proof (induction m True visit c acc arbitrary: c' sl rule: range_traffic.induct)
  case (2 m email a visit c acc)
  have l: "mload (tc_Counters c) email = Some a" using 2(4) by simp
  have clr: "stored d (clear_storage s) = 0" for s by (cases d) (simp_all add: clear_storage_def)
  have pt: "part d \<lparr>ut_UID = i, ut_Upload = ts_Up s, ut_Download = ts_Down s\<rparr> = stored d s" for i s
    by (cases d) simp_all
  show ?case
  proof (cases "sint (ts_Up (tc_heap c ! a) + ts_Down (tc_heap c ! a)) > 0")
    case True
    from 2(1) [OF refl True _ _ _] 2(3,4,5) True
    have "owed_of m c' d u + amount d sl u = owed_of m (storage_update a clear_storage c) d u +
        amount d (acc @ [\<lparr>ut_UID = uid_of m email, ut_Upload = ts_Up (tc_heap c ! a),
          ut_Download = ts_Down (tc_heap c ! a)\<rparr>]) u"
      by (simp add: uid_of_def Let_def)
    then show ?thesis by (simp add: owed_of_update [OF 2(3) l] clr pt)
  next
    case False
    with 2 show ?thesis by (simp add: Let_def)
  qed
qed simp

lemma range_traffic_uids:
  "t \<in> set (snd (range_traffic m reset visit c acc)) \<Longrightarrow>
     t \<in> set acc \<or> (\<exists>k \<in> set (mkeys visit). ut_UID t = uid_of m k)"
  by (induction m reset visit c acc rule: range_traffic.induct)
    (auto simp: Let_def uid_of_def split: if_splits)

definition drain_users :: "string \<Rightarrow> UserMaps \<Rightarrow> UserTraffic list \<times> UserMaps" where
  "drain_users tag x = GetUserTrafficSlice x tag True"

definition refund_users :: "string \<Rightarrow> UserTraffic list \<Rightarrow> UserMaps \<Rightarrow> UserMaps" where
  "refund_users tag sl x = snd (AddUserTrafficSlice x tag sl)"

lemma add_entry_frame: "tc_Counters (add_entry rmap c t) = tc_Counters c" "tc_wf (add_entry rmap c t) = tc_wf c"
  by (auto simp: add_entry_def split: option.splits)

lemma add_entries_frame:
  "tc_Counters (foldl (add_entry rmap) c sl) = tc_Counters c" "tc_wf (foldl (add_entry rmap) c sl) = tc_wf c"
  by (induction sl arbitrary: c) (simp_all add: add_entry_frame)

lemma add_entry_owed:
  assumes "tc_wf c" and "mload rmap (ut_UID t) = Some email" and "mload (tc_Counters c) email = Some a"
    and "uid_of m email = ut_UID t"
  shows "owed_of m (add_entry rmap c t) d u = owed_of m c d u + amount d [t] u"
  using assms by (cases d) (simp_all add: add_entry_def owed_of_update)

lemma add_entries_owed:
  assumes "tc_wf c"
    and "\<And>t. t \<in> set sl \<Longrightarrow> \<exists>email. mload rmap (ut_UID t) = Some email \<and>
      mload (tc_Counters c) email \<noteq> None \<and> uid_of m email = ut_UID t"
  shows "owed_of m (foldl (add_entry rmap) c sl) d u = owed_of m c d u + amount d sl u"
  using assms
proof (induction sl arbitrary: c)
  case (Cons t sl)
  from Cons.prems(2) [of t] obtain email a where e: "mload rmap (ut_UID t) = Some email"
    "mload (tc_Counters c) email = Some a" "uid_of m email = ut_UID t" by auto
  have "owed_of m (foldl (add_entry rmap) (add_entry rmap c t) sl) d u =
      owed_of m (add_entry rmap c t) d u + amount d sl u"
    using Cons.prems by (intro Cons.IH) (auto simp: add_entry_frame)
  also have "\<dots> = owed_of m c d u + amount d [t] u + amount d sl u"
    by (simp only: add_entry_owed [OF Cons.prems(1) e])
  finally show ?case by simp
qed simp

lemma drain_users_cases:
  "drain_users tag x = (sl, x') \<Longrightarrow>
     (mload (um_Counter x) tag = None \<and> sl = [] \<and> x' = x) \<or>
     (\<exists>c c'. mload (um_Counter x) tag = Some c \<and>
        range_traffic (um_uidMap x) True (tc_Counters c) c [] = (c', sl) \<and>
        x' = x\<lparr>um_Counter := mstore (um_Counter x) tag c'\<rparr>)"
  by (auto simp: drain_users_def GetUserTrafficSlice_def split: option.splits prod.splits)

lemma refund_users_cases:
  "(mload (um_Counter x) tag = None \<and> refund_users tag sl x = x) \<or> (sl = [] \<and> refund_users tag sl x = x) \<or>
   (\<exists>c. mload (um_Counter x) tag = Some c \<and> refund_users tag sl x = x\<lparr>um_Counter :=
      mstore (um_Counter x) tag (foldl (add_entry (reverse_map (um_uidMap x))) c sl)\<rparr>)"
  by (auto simp: refund_users_def AddUserTrafficSlice_def split: option.splits)

lemma knows_users_store:
  "mload (um_Counter x) tag = Some c \<Longrightarrow> tc_Counters c' = tc_Counters c \<Longrightarrow>
     knows_users tag (x\<lparr>um_Counter := mstore (um_Counter x) tag c'\<rparr>) = knows_users tag x"
  by (rule ext) (simp add: knows_users_def split: option.splits)

lemma knows_users_counted:
  assumes ok: "users_ok tag x" and c: "mload (um_Counter x) tag = Some c" and k: "k \<in> set (mkeys (tc_Counters c))"
  shows "knows_users tag x (uid_of (um_uidMap x) k)"
proof -
  have "k \<in> set (mkeys (um_uidMap x))" using ok c k by (auto simp: users_ok_def)
  from reverse_map_inverse [OF ok this] c k show ?thesis
    by (simp add: knows_users_def mkeys_mload del: set_map)
qed

lemma knows_usersD:
  assumes ok: "users_ok tag x" and c: "mload (um_Counter x) tag = Some c" and k: "knows_users tag x u"
  shows "\<exists>email. mload (reverse_map (um_uidMap x)) u = Some email \<and> mload (tc_Counters c) email \<noteq> None \<and>
     uid_of (um_uidMap x) email = u"
proof -
  from k c obtain email where e: "mload (reverse_map (um_uidMap x)) u = Some email"
    "mload (tc_Counters c) email \<noteq> None"
    by (auto simp: knows_users_def split: option.splits)
  from reverse_map_load [OF e(1)] have "(email, u) \<in> set (um_uidMap x)" .
  moreover have "mwf (um_uidMap x)" using ok by (simp add: users_ok_def)
  ultimately have "mload (um_uidMap x) email = Some u" by (simp only: mem_mload)
  then have "uid_of (um_uidMap x) email = u" by (simp only: uid_of_def option.case)
  with e show ?thesis by blast
qed

lemma users_ok_store:
  "users_ok tag x \<Longrightarrow> mload (um_Counter x) tag = Some c \<Longrightarrow> tc_Counters c' = tc_Counters c \<Longrightarrow> tc_wf c' \<Longrightarrow>
     users_ok tag (x\<lparr>um_Counter := mstore (um_Counter x) tag c'\<rparr>)"
  by (simp add: users_ok_def)

lemma users_ok_wf: "users_ok tag x \<Longrightarrow> mload (um_Counter x) tag = Some c \<Longrightarrow> tc_wf c"
  by (simp add: users_ok_def)

interpretation tr: traffic_core "drain_users tag" "refund_users tag" "owed_users tag" "users_ok tag"
    "knows_users tag" for tag
proof unfold_locales
  fix x sl x' d u assume ok: "users_ok tag x" and dr: "drain_users tag x = (sl, x')"
  from drain_users_cases [OF dr] show "owed_users tag x' d u + amount d sl u = owed_users tag x d u"
  proof (elim disjE exE conjE)
    fix c c' assume c: "mload (um_Counter x) tag = Some c"
      and r: "range_traffic (um_uidMap x) True (tc_Counters c) c [] = (c', sl)"
      and x': "x' = x\<lparr>um_Counter := mstore (um_Counter x) tag c'\<rparr>"
    have wf: "tc_wf c" using users_ok_wf [OF ok c] .
    have "owed_of (um_uidMap x) c' d u + amount d sl u = owed_of (um_uidMap x) c d u + amount d [] u"
      by (rule range_traffic_owed [OF wf _ r]) (use wf in \<open>simp add: tc_wf_def\<close>)
    then show ?thesis by (simp add: owed_users_def c x')
  qed simp
next
  fix x sl x' assume ok: "users_ok tag x" and dr: "drain_users tag x = (sl, x')"
  from drain_users_cases [OF dr] show "users_ok tag x' \<and> knows_users tag x' = knows_users tag x"
  proof (elim disjE exE conjE)
    fix c c' assume c: "mload (um_Counter x) tag = Some c"
      and r: "range_traffic (um_uidMap x) True (tc_Counters c) c [] = (c', sl)"
      and x': "x' = x\<lparr>um_Counter := mstore (um_Counter x) tag c'\<rparr>"
    have "tc_Counters c' = tc_Counters c" "tc_wf c'"
      using range_traffic_Counters [of "um_uidMap x" True "tc_Counters c" c "[]"]
        range_traffic_wf [OF users_ok_wf [OF ok c], of "um_uidMap x" True "tc_Counters c" "[]"] r by simp_all
    then show ?thesis using users_ok_store [OF ok c] knows_users_store [OF c] x' by simp
  qed (simp add: ok)
next
  fix x sl x' t assume ok: "users_ok tag x" and dr: "drain_users tag x = (sl, x')" and t: "t \<in> set sl"
  from drain_users_cases [OF dr] t obtain c c' where c: "mload (um_Counter x) tag = Some c"
      and r: "range_traffic (um_uidMap x) True (tc_Counters c) c [] = (c', sl)" by auto
  from range_traffic_uids [of t "um_uidMap x" True "tc_Counters c" c "[]"] r t
  obtain k where "k \<in> set (mkeys (tc_Counters c))" "ut_UID t = uid_of (um_uidMap x) k" by auto
  with knows_users_counted [OF ok c] show "knows_users tag x (ut_UID t)" by simp
next
  fix x and sl :: "UserTraffic list" and d u
  assume ok: "users_ok tag x" and kn: "\<And>t. t \<in> set sl \<Longrightarrow> knows_users tag x (ut_UID t)"
  show "owed_users tag (refund_users tag sl x) d u = owed_users tag x d u + amount d sl u"
  proof (cases "mload (um_Counter x) tag")
    case None
    with kn have "sl = []" by (cases sl) (auto simp: knows_users_def)
    then show ?thesis by (simp add: refund_users_def AddUserTrafficSlice_def)
  next
    case (Some c)
    have "owed_of (um_uidMap x) (foldl (add_entry (reverse_map (um_uidMap x))) c sl) d u =
        owed_of (um_uidMap x) c d u + amount d sl u"
      using knows_usersD [OF ok Some kn] by (intro add_entries_owed users_ok_wf [OF ok Some])
    then show ?thesis
      using Some by (cases sl) (simp_all add: refund_users_def AddUserTrafficSlice_def owed_users_def)
  qed
next
  fix x and sl :: "UserTraffic list" assume ok: "users_ok tag x"
  show "users_ok tag (refund_users tag sl x) \<and> knows_users tag (refund_users tag sl x) = knows_users tag x"
    using refund_users_cases [of x tag sl]
  proof (elim disjE exE conjE)
    fix c assume c: "mload (um_Counter x) tag = Some c" and r: "refund_users tag sl x = x\<lparr>um_Counter :=
      mstore (um_Counter x) tag (foldl (add_entry (reverse_map (um_uidMap x))) c sl)\<rparr>"
    then show ?thesis
      using users_ok_store [OF ok c] knows_users_store [OF c] users_ok_wf [OF ok c]
      by (simp add: add_entries_frame)
  qed (simp_all add: ok)
qed

section \<open>Properties\<close>

text \<open>No byte is lost between core and report loop. When no user id has two names, draining an
  inbound hands over exactly what its counters held for each user id, in both directions, and giving
  back any part of the drained slice, without an error, owes exactly that part again.\<close>

lemma drain_refund_conserves:
  assumes "users_ok tag x" and "GetUserTrafficSlice x tag True = (sl, x')" and "set back \<subseteq> set sl"
  shows "owed_users tag x' d u + amount d sl u = owed_users tag x d u \<and>
     (\<exists>x''. AddUserTrafficSlice x' tag back = (Ret (), x'') \<and>
        owed_users tag x'' d u = owed_users tag x' d u + amount d back u)"
proof -
  have dr: "drain_users tag x = (sl, x')" using assms(2) by (simp add: drain_users_def)
  have "fst (AddUserTrafficSlice x' tag back) = Ret ()"
    using drain_users_cases [OF dr] assms(3) by (auto simp: AddUserTrafficSlice_def)
  then have "AddUserTrafficSlice x' tag back = (Ret (), refund_users tag back x')"
    by (simp add: refund_users_def prod_eq_iff)
  with tr.drain_owed [OF assms(1) dr, of d u] tr.drain_refund [OF assms(1) dr assms(3), of d u]
  show ?thesis by simp
qed

definition demo_users :: UserMaps where
  "demo_users = \<lparr>um_uidMap = [(''xray|n|a'', 7)],
     um_Counter = [(''xray|n'', \<lparr>tc_heap = [\<lparr>ts_Up = 3, ts_Down = 4\<rparr>], tc_Counters = [(''xray|n|a'', 0)]\<rparr>)]\<rparr>"

lemma drain_refund_conserves_example:
  "\<exists>x'. GetUserTrafficSlice demo_users ''xray|n'' True =
      ([\<lparr>ut_UID = 7, ut_Upload = 3, ut_Download = 4\<rparr>], x') \<and> owed_users ''xray|n'' x' Up 7 = 0 \<and>
     owed_users ''xray|n'' (snd (AddUserTrafficSlice x' ''xray|n''
       [\<lparr>ut_UID = 7, ut_Upload = 3, ut_Download = 4\<rparr>])) Up 7 = 3"
proof -
  have ok: "users_ok ''xray|n'' demo_users"
    by (auto simp: users_ok_def demo_users_def uid_of_def tc_wf_def)
  let ?sl = "[\<lparr>ut_UID = 7, ut_Upload = 3, ut_Download = 4\<rparr>] :: UserTraffic list"
  obtain x' where x': "GetUserTrafficSlice demo_users ''xray|n'' True = (?sl, x')"
    by (simp add: GetUserTrafficSlice_def demo_users_def)
  have o: "owed_users ''xray|n'' demo_users Up 7 = 3"
    by (simp add: owed_users_def owed_of_def demo_users_def uid_of_def)
  from drain_refund_conserves [OF ok x', of ?sl Up 7] o x' show ?thesis by auto
qed

text \<open>What happens to a user with two inbounds on one core. \<open>uidMap\<close> is shared by all inbounds of
  the core and reversed to find a user's counter; when the name it picks for the user id belongs to
  another inbound, putting the traffic back reports success and drops every byte of it.\<close>

lemma refund_dropped_for_shared_uid:
  assumes "mload (um_Counter x) tag = Some c"
    and "mload (reverse_map (um_uidMap x)) u = Some email" and "mload (tc_Counters c) email = None"
    and "\<forall>t \<in> set sl. ut_UID t = u"
  shows "\<exists>x'. AddUserTrafficSlice x tag sl = (Ret (), x') \<and> mload (um_Counter x') tag = Some c \<and>
     owed_users tag x' d v = owed_users tag x d v"
proof -
  have "foldl (add_entry (reverse_map (um_uidMap x))) c sl = c"
    using assms(2,3,4) by (induction sl) (auto simp: add_entry_def)
  then show ?thesis using assms(1) by (auto simp: AddUserTrafficSlice_def owed_users_def)
qed

definition two_inbounds :: UserMaps where
  "two_inbounds = \<lparr>um_uidMap = [(''xray|n|a'', 7), (''xray|m|a'', 7)],
     um_Counter = [(''xray|n'', \<lparr>tc_heap = [\<lparr>ts_Up = 3, ts_Down = 4\<rparr>], tc_Counters = [(''xray|n|a'', 0)]\<rparr>)]\<rparr>"

lemma refund_dropped_for_shared_uid_example:
  "\<exists>sl x' x''. GetUserTrafficSlice two_inbounds ''xray|n'' True = (sl, x') \<and> amount Up sl 7 = 3 \<and>
     AddUserTrafficSlice x' ''xray|n'' sl = (Ret (), x'') \<and> owed_users ''xray|n'' x'' Up 7 = 0"
proof -
  let ?sl = "[\<lparr>ut_UID = 7, ut_Upload = 3, ut_Download = 4\<rparr>] :: UserTraffic list"
  let ?c = "\<lparr>tc_heap = [\<lparr>ts_Up = 0, ts_Down = 0\<rparr>], tc_Counters = [(''xray|n|a'', 0)]\<rparr>"
  let ?x = "two_inbounds\<lparr>um_Counter := [(''xray|n'', ?c)]\<rparr>"
  have g: "GetUserTrafficSlice two_inbounds ''xray|n'' True = (?sl, ?x)"
    by (simp add: GetUserTrafficSlice_def two_inbounds_def storage_update_def clear_storage_def)
  have o: "owed_users ''xray|n'' ?x Up 7 = 0"
    by (simp add: owed_users_def owed_of_def two_inbounds_def uid_of_def)
  have "mload (reverse_map (um_uidMap ?x)) 7 = Some ''xray|m|a''"
    by (simp add: two_inbounds_def reverse_map_def)
  from refund_dropped_for_shared_uid [OF _ this, of "''xray|n''" ?c ?sl Up 7] o g show ?thesis by auto
qed

end
