(* ===== verification/Controllers.thy ===== *)
theory Controllers
  imports Limiters PortRegistry CertManager PanelClient TaskSched TrafficSlices
begin

text \<open>
  \<open>node/controller.go\<close> and \<open>startTasks\<close> of \<open>node/task.go\<close>: one controller wires one panel node into one
  core. A core is the interface of \<open>core/interface.go\<close>, a record of operations on the core's state.
  The process-wide state (core, limiters, port registry, certificates) is a \<open>world\<close>; what the panel,
  the ACME server and the clock answer is an \<open>env\<close>.
\<close>

section \<open>Sequencing\<close>

definition bindO :: "('s \<Rightarrow> 'a outcome \<times> 's) \<Rightarrow> ('a \<Rightarrow> 's \<Rightarrow> 'b outcome \<times> 's) \<Rightarrow> 's \<Rightarrow> 'b outcome \<times> 's" where
  "bindO m f s = (case m s of (Ret x, s') \<Rightarrow> f x s' | (Fail e, s') \<Rightarrow> (Fail e, s') | (Panic, s') \<Rightarrow> (Panic, s'))"

section \<open>State\<close>

record 'c Core =
  co_AddNode :: "string \<Rightarrow> NodeInfo \<Rightarrow> Options \<Rightarrow> 'c \<Rightarrow> unit outcome \<times> Options \<times> 'c"
  co_DelNode :: "string \<Rightarrow> 'c \<Rightarrow> unit outcome \<times> 'c"
  co_AddUsers :: "string \<Rightarrow> UserInfo list \<Rightarrow> NodeInfo \<Rightarrow> 'c \<Rightarrow> nat outcome \<times> 'c"
  co_GetUserTrafficSlice :: "string \<Rightarrow> bool \<Rightarrow> 'c \<Rightarrow> UserTraffic list outcome \<times> 'c"
  co_AddUserTrafficSlice :: "string \<Rightarrow> UserTraffic list \<Rightarrow> 'c \<Rightarrow> unit outcome \<times> 'c"
  co_DelUsers :: "UserInfo list \<Rightarrow> string \<Rightarrow> 'c \<Rightarrow> unit outcome \<times> 'c"
  co_Protocols :: "'c \<Rightarrow> string list"
  co_Type :: "'c \<Rightarrow> string"

record 'c world =
  wd_core :: 'c
  wd_lim :: limworld
  wd_reg :: portRegistry
  wd_cert :: cert_state

record Controller =
  ct_coreType :: string
  ct_logicalTag :: string
  ct_runtimeKey :: string
  ct_limiter :: "nat option"
  ct_hasRegistry :: bool
  ct_traffic :: "trafficStore option"
  ct_reportFailures :: int
  ct_userList :: "UserInfo list"
  ct_aliveMap :: "(int, int) gomap"
  ct_info :: "NodeInfo option"
  ct_monitor :: "Task option"
  ct_report :: "Task option"
  ct_renew :: "Task option"
  ct_dynamic :: "Task option"
  ct_options :: Options
  ct_api :: Client

record 'c env =
  ev_core :: "'c Core"
  ev_cert :: cert_env
  ev_userPath :: string
  ev_sha :: "string \<Rightarrow> string"
  ev_dec :: decoders
  ev_now :: int
  ev_node :: "string \<Rightarrow> http_resp"
  ev_users :: "string \<Rightarrow> http_resp \<times> jitem list"
  ev_alive :: http_resp
  ev_push :: "UserTraffic list \<Rightarrow> http_resp"
  ev_online :: "OnlineUser list \<Rightarrow> http_resp"

definition NewController :: "string \<Rightarrow> Client \<Rightarrow> Options \<Rightarrow> bool \<Rightarrow> Controller" where
  "NewController coreType api config registry =
    \<lparr>ct_coreType = coreType, ct_logicalTag = '''', ct_runtimeKey = '''', ct_limiter = None,
     ct_hasRegistry = registry, ct_traffic = None, ct_reportFailures = 0, ct_userList = [],
     ct_aliveMap = [], ct_info = None, ct_monitor = None, ct_report = None, ct_renew = None,
     ct_dynamic = None, ct_options = config, ct_api = api\<rparr>"

definition buildNodeTag :: "Client \<Rightarrow> NodeInfo \<Rightarrow> string" where
  "buildNodeTag api node = ''['' @ pc_APIHost api @ '']-'' @ ni_Type node @ '':'' @ Itoa (ni_Id node)"

text \<open>A node without \<open>Common\<close> is a nil dereference: \<open>Panic\<close>.\<close>

definition protocolSecurity :: "NodeInfo \<Rightarrow> string outcome" where
  "protocolSecurity node = (case ni_Common node of
     None \<Rightarrow> Panic
   | Some c \<Rightarrow> Ret (let p = cn_Protocol c in
       if p = ''vless'' then (case cn_Vless c of Some v \<Rightarrow> vl_Security v | None \<Rightarrow> '''')
       else if p = ''vmess'' then (case cn_Vmess c of Some v \<Rightarrow> vm_Security v | None \<Rightarrow> '''')
       else if p = ''trojan'' then (case cn_Trojan c of Some v \<Rightarrow> tr_Security v | None \<Rightarrow> '''')
       else if p \<in> {''tuic'', ''hysteria'', ''hysteria2'', ''anytls''} then ''tls''
       else ''''))"

definition needsCert :: "string \<Rightarrow> bool" where
  "needsCert security \<longleftrightarrow> security = ''tls''"

section \<open>Tasks\<close>

text \<open>\<open>Start(false)\<close> does not call the task's function.\<close>

definition start_timer :: "Task \<Rightarrow> Task outcome" where
  "start_timer t = (case Task_Start False (\<lambda>_. None) ((), t) of
     Some (False, _, t') \<Rightarrow> Ret t' | Some (True, _, t') \<Rightarrow> Fail ''start task'' | None \<Rightarrow> Panic)"

definition renewCertTask :: "'c env \<Rightarrow> Controller \<Rightarrow> 'c world \<Rightarrow> 'c world" where
  "renewCertTask E c w =
    w\<lparr>wd_cert := snd (EnsureCertificate (ev_cert E) (op_CertConfig (ct_options c)) (ev_userPath E) (wd_cert w))\<rparr>"

type_synonym 'c cstate = "'c world \<times> Controller"

text \<open>A panic of the first run leaves the task marked as running, without a timer.\<close>

definition renew_panics :: "'c env \<Rightarrow> Controller \<Rightarrow> 'c world \<Rightarrow> bool" where
  "renew_panics E c w \<longleftrightarrow> fst (EnsureCertificate (ev_cert E) (op_CertConfig (ct_options c)) (ev_userPath E) (wd_cert w)) = Panic"

definition start_renew :: "'c env \<Rightarrow> 'c cstate \<Rightarrow> unit outcome \<times> 'c cstate" where
  "start_renew E s = (case s of (w, c) \<Rightarrow>
     if renew_panics E c w then (Panic, renewCertTask E c w, c\<lparr>ct_renew := Some ((new_task (24 * hour))\<lparr>tk_running := True\<rparr>)\<rparr>)
     else (case Task_Start True (\<lambda>(w, t). Some (False, renewCertTask E c w, t)) (w, new_task (24 * hour)) of
        Some (False, w', t') \<Rightarrow> (Ret (), w', c\<lparr>ct_renew := Some t'\<rparr>)
      | Some (True, w', t') \<Rightarrow> (Fail ''start renewCert task'', w', c\<lparr>ct_renew := Some t'\<rparr>)
      | None \<Rightarrow> (Panic, w, c)))"

definition start_dynamic :: "'c cstate \<Rightarrow> unit outcome \<times> 'c cstate" where
  "start_dynamic s = (case s of (w, c) \<Rightarrow>
     (let lc = op_LimitConfig (ct_options c) in
      if lc_EnableDynamicSpeedLimit lc then
        (case lc_DynamicSpeedLimitConfig lc of
           None \<Rightarrow> (Fail ''EnableDynamicSpeedLimit set but DynamicSpeedLimitConfig is nil'', w, c)
         | Some d \<Rightarrow>
             (case start_timer (new_task (word_of_int (dc_Periodic d) * second)) of
                Ret t \<Rightarrow> (Ret (), w, c\<lparr>ct_traffic := Some newTrafficStore, ct_dynamic := Some t\<rparr>)
              | Fail e \<Rightarrow> (Fail e, w, c\<lparr>ct_traffic := Some newTrafficStore\<rparr>)
              | Panic \<Rightarrow> (Panic, w, c\<lparr>ct_traffic := Some newTrafficStore\<rparr>)))
      else (Ret (), w, c)))"

definition start_monitor :: "NodeInfo \<Rightarrow> 'c cstate \<Rightarrow> unit outcome \<times> 'c cstate" where
  "start_monitor node s = (case s of (w, c) \<Rightarrow>
     (case start_timer (new_task (ni_PullInterval node)) of
        Ret t \<Rightarrow> (Ret (), w, c\<lparr>ct_monitor := Some t\<rparr>)
      | Fail e \<Rightarrow> (Fail e, w, c) | Panic \<Rightarrow> (Panic, w, c)))"

definition start_report :: "NodeInfo \<Rightarrow> 'c cstate \<Rightarrow> unit outcome \<times> 'c cstate" where
  "start_report node s = (case s of (w, c) \<Rightarrow>
     (case start_timer (new_task (ni_PushInterval node)) of
        Ret t \<Rightarrow> (Ret (), w, c\<lparr>ct_report := Some t\<rparr>)
      | Fail e \<Rightarrow> (Fail e, w, c) | Panic \<Rightarrow> (Panic, w, c)))"

definition acme_mode :: "CertConfig option \<Rightarrow> bool" where
  "acme_mode cfg = (case cfg of None \<Rightarrow> False | Some c \<Rightarrow> cc_CertMode c \<notin> {''none'', '''', ''file'', ''self''})"

definition startTasks :: "'c env \<Rightarrow> NodeInfo \<Rightarrow> 'c cstate \<Rightarrow> unit outcome \<times> 'c cstate" where
  "startTasks E node =
    bindO (start_monitor node) (\<lambda>_. bindO (start_report node) (\<lambda>_ s.
      (case protocolSecurity node of
         Ret sec \<Rightarrow>
           if needsCert sec \<and> acme_mode (op_CertConfig (ct_options (snd s)))
           then bindO (start_renew E) (\<lambda>_. start_dynamic) s
           else start_dynamic s
       | Fail e \<Rightarrow> (Fail e, s)
       | Panic \<Rightarrow> (Panic, s))))"

section \<open>Start\<close>

record start_flags =
  sf_listener :: bool
  sf_limiter :: bool
  sf_node :: bool

type_synonym 'c start_state = "start_flags \<times> 'c world \<times> Controller"

definition start_fetch_node :: "'c env \<Rightarrow> 'c start_state \<Rightarrow> NodeInfo option outcome \<times> 'c start_state" where
  "start_fetch_node E s = (case s of (fl, w, c) \<Rightarrow>
     (case GetNodeInfo (ev_sha E) (ev_dec E) (ev_node E) (ct_api c) of (r, api) \<Rightarrow> (r, fl, w, c\<lparr>ct_api := api\<rparr>)))"

definition start_fetch_users :: "'c env \<Rightarrow> 'c start_state \<Rightarrow> unit outcome \<times> 'c start_state" where
  "start_fetch_users E s = (case s of (fl, w, c) \<Rightarrow>
     (case GetUserList (ev_users E) (ct_api c) of
        (Ret us, api) \<Rightarrow> (Ret (), fl, w, c\<lparr>ct_api := api, ct_userList := us\<rparr>)
      | (Fail e, api) \<Rightarrow> (Fail e, fl, w, c\<lparr>ct_api := api, ct_userList := []\<rparr>)
      | (Panic, api) \<Rightarrow> (Panic, fl, w, c\<lparr>ct_api := api\<rparr>)))"

definition start_fetch_alive :: "'c env \<Rightarrow> 'c start_state \<Rightarrow> unit outcome \<times> 'c start_state" where
  "start_fetch_alive E s = (case s of (fl, w, c) \<Rightarrow>
     (case GetUserAlive (ev_dec E) (ev_alive E) (ct_api c) of
        (m, api) \<Rightarrow> (Ret (), fl, w, c\<lparr>ct_api := api, ct_aliveMap := m\<rparr>)))"

text \<open>A nil node, which the client returns for an unchanged description, is dereferenced here at the
  latest when the protocol is needed.\<close>

definition start_identify :: "NodeInfo option \<Rightarrow> 'c start_state \<Rightarrow> NodeInfo outcome \<times> 'c start_state" where
  "start_identify nodeo s = (case s of (fl, w, c) \<Rightarrow>
     (let named = (\<lambda>tag. c\<lparr>ct_logicalTag := tag, ct_runtimeKey := RuntimeKey (ct_coreType c) tag\<rparr>) in
      if op_Name (ct_options c) = '''' then
        (case nodeo of None \<Rightarrow> (Panic, fl, w, c)
         | Some node \<Rightarrow> (Ret node, fl, w, named (buildNodeTag (ct_api c) node)))
      else
        (case nodeo of None \<Rightarrow> (Panic, fl, w, named (op_Name (ct_options c)))
         | Some node \<Rightarrow> (Ret node, fl, w, named (op_Name (ct_options c))))))"

definition start_reserve :: "NodeInfo \<Rightarrow> 'c start_state \<Rightarrow> unit outcome \<times> 'c start_state" where
  "start_reserve node s = (case s of (fl, w, c) \<Rightarrow>
     if \<not> ct_hasRegistry c then (Ret (), s)
     else (case listenerSpecsFor node (op_ListenIP (ct_options c)) of
        Fail e \<Rightarrow> (Fail e, s)
      | Panic \<Rightarrow> (Panic, s)
      | Ret specs \<Rightarrow>
          (case reserve (ct_runtimeKey c) (ct_logicalTag c) specs (wd_reg w) of
             (Ret _, r) \<Rightarrow> (Ret (), fl\<lparr>sf_listener := True\<rparr>, w\<lparr>wd_reg := r\<rparr>, c)
           | (Fail e, r) \<Rightarrow> (Fail e, fl, w\<lparr>wd_reg := r\<rparr>, c)
           | (Panic, r) \<Rightarrow> (Panic, fl, w\<lparr>wd_reg := r\<rparr>, c))))"

definition start_cert :: "'c env \<Rightarrow> NodeInfo \<Rightarrow> 'c start_state \<Rightarrow> unit outcome \<times> 'c start_state" where
  "start_cert E node s = (case s of (fl, w, c) \<Rightarrow>
     (case protocolSecurity node of
        Panic \<Rightarrow> (Panic, s) | Fail e \<Rightarrow> (Fail e, s)
      | Ret sec \<Rightarrow>
          if needsCert sec then
            (case EnsureCertificate (ev_cert E) (op_CertConfig (ct_options c)) (ev_userPath E) (wd_cert w) of
               (Ret _, st) \<Rightarrow> (Ret (), fl, w\<lparr>wd_cert := st\<rparr>, c)
             | (Fail e, st) \<Rightarrow> (Fail e, fl, w\<lparr>wd_cert := st\<rparr>, c)
             | (Panic, st) \<Rightarrow> (Panic, fl, w\<lparr>wd_cert := st\<rparr>, c))
          else (Ret (), s)))"

definition start_limiter :: "'c start_state \<Rightarrow> unit outcome \<times> 'c start_state" where
  "start_limiter s = (case s of (fl, w, c) \<Rightarrow>
     (case AddLimiter (ct_coreType c) (ct_logicalTag c) (op_LimitConfig (ct_options c)) (ct_userList c)
             (ct_aliveMap c) (wd_lim w) of
        (a, lw) \<Rightarrow> (Ret (), fl\<lparr>sf_limiter := True\<rparr>, w\<lparr>wd_lim := lw\<rparr>, c\<lparr>ct_limiter := Some a\<rparr>)))"

definition start_node :: "'c env \<Rightarrow> NodeInfo \<Rightarrow> 'c start_state \<Rightarrow> unit outcome \<times> 'c start_state" where
  "start_node E node s = (case s of (fl, w, c) \<Rightarrow>
     (case co_AddNode (ev_core E) (ct_runtimeKey c) node (ct_options c) (wd_core w) of
        (Ret _, opt, k) \<Rightarrow> (Ret (), fl\<lparr>sf_node := True\<rparr>, w\<lparr>wd_core := k\<rparr>, c\<lparr>ct_options := opt\<rparr>)
      | (Fail e, opt, k) \<Rightarrow> (Fail e, fl, w\<lparr>wd_core := k\<rparr>, c\<lparr>ct_options := opt\<rparr>)
      | (Panic, opt, k) \<Rightarrow> (Panic, fl, w\<lparr>wd_core := k\<rparr>, c\<lparr>ct_options := opt\<rparr>)))"

definition start_users :: "'c env \<Rightarrow> NodeInfo \<Rightarrow> 'c start_state \<Rightarrow> unit outcome \<times> 'c start_state" where
  "start_users E node s = (case s of (fl, w, c) \<Rightarrow>
     if ct_userList c = [] then (Ret (), s)
     else (case co_AddUsers (ev_core E) (ct_runtimeKey c) (ct_userList c) node (wd_core w) of
        (Ret _, k) \<Rightarrow> (Ret (), fl, w\<lparr>wd_core := k\<rparr>, c)
      | (Fail e, k) \<Rightarrow> (Fail e, fl, w\<lparr>wd_core := k\<rparr>, c)
      | (Panic, k) \<Rightarrow> (Panic, fl, w\<lparr>wd_core := k\<rparr>, c)))"

definition start_tasks :: "'c env \<Rightarrow> NodeInfo \<Rightarrow> 'c start_state \<Rightarrow> unit outcome \<times> 'c start_state" where
  "start_tasks E node s = (case s of (fl, w, c) \<Rightarrow>
     (case startTasks E node (w, c\<lparr>ct_info := Some node\<rparr>) of (r, w', c') \<Rightarrow> (r, fl, w', c')))"

definition start_body :: "'c env \<Rightarrow> 'c start_state \<Rightarrow> unit outcome \<times> 'c start_state" where
  "start_body E =
    bindO (start_fetch_node E) (\<lambda>nodeo.
    bindO (start_fetch_users E) (\<lambda>_.
    bindO (start_fetch_alive E) (\<lambda>_.
    bindO (start_identify nodeo) (\<lambda>node.
    bindO (start_reserve node) (\<lambda>_.
    bindO (start_cert E node) (\<lambda>_.
    bindO start_limiter (\<lambda>_.
    bindO (start_node E node) (\<lambda>_.
    bindO (start_users E node) (\<lambda>_.
    start_tasks E node)))))))))"

text \<open>The deferred function: undo the flagged steps in reverse order; a panic becomes an error.\<close>

definition start_rollback :: "'c env \<Rightarrow> 'c start_state \<Rightarrow> 'c cstate" where
  "start_rollback E s = (case s of (fl, w, c) \<Rightarrow>
     (let w1 = (if sf_node fl then w\<lparr>wd_core := snd (co_DelNode (ev_core E) (ct_runtimeKey c) (wd_core w))\<rparr> else w);
          w2 = (if sf_limiter fl then w1\<lparr>wd_lim := DeleteLimiter (ct_coreType c) (ct_logicalTag c) (wd_lim w1)\<rparr> else w1);
          c2 = (if sf_limiter fl then c\<lparr>ct_limiter := None\<rparr> else c);
          w3 = (if sf_listener fl \<and> ct_hasRegistry c
                then w2\<lparr>wd_reg := release (ct_runtimeKey c) (wd_reg w2)\<rparr> else w2)
      in (w3, c2)))"

definition Controller_Start :: "'c env \<Rightarrow> 'c cstate \<Rightarrow> unit outcome \<times> 'c cstate" where
  "Controller_Start E s = (case s of (w, c) \<Rightarrow>
     (case start_body E (\<lparr>sf_listener = False, sf_limiter = False, sf_node = False\<rparr>, w, c) of
        (Ret _, fl, w', c') \<Rightarrow> (Ret (), w', c')
      | (Fail e, fs) \<Rightarrow> (Fail e, start_rollback E fs)
      | (Panic, fs) \<Rightarrow> (Fail ''controller.Start panicked'', start_rollback E fs)))"

section \<open>Close\<close>

definition close_task :: "Task option \<Rightarrow> Task option option" where
  "close_task t = (case t of None \<Rightarrow> Some None
     | Some t \<Rightarrow> (case Task_Close t of None \<Rightarrow> None | Some t' \<Rightarrow> Some (Some t')))"

text \<open>\<open>None\<close>: one of the tasks is executing on this goroutine and \<open>Close\<close> never returns.\<close>

definition Controller_Close :: "'c env \<Rightarrow> 'c cstate \<Rightarrow> (unit outcome \<times> 'c cstate) option" where
  "Controller_Close E s = (case s of (w, c) \<Rightarrow>
     (let w1 = (if ct_runtimeKey c \<noteq> '''' then w\<lparr>wd_lim := DeleteLimiter (ct_coreType c) (ct_logicalTag c) (wd_lim w)\<rparr> else w)
      in case (close_task (ct_monitor c), close_task (ct_report c), close_task (ct_renew c), close_task (ct_dynamic c)) of
           (Some m, Some r, Some n, Some d) \<Rightarrow>
             (let c1 = c\<lparr>ct_monitor := m, ct_report := r, ct_renew := n, ct_dynamic := d\<rparr>
              in if ct_runtimeKey c = '''' then Some (Ret (), w1, c1)
                 else (case co_DelNode (ev_core E) (ct_runtimeKey c) (wd_core w1) of
                   (delErr, k) \<Rightarrow>
                     (let w2 = w1\<lparr>wd_core := k\<rparr>;
                          w3 = (if ct_hasRegistry c then w2\<lparr>wd_reg := release (ct_runtimeKey c) (wd_reg w2)\<rparr> else w2)
                      in Some (case delErr of Ret _ \<Rightarrow> Ret () | Fail e \<Rightarrow> Fail e | Panic \<Rightarrow> Panic, w3, c1))))
         | _ \<Rightarrow> None))"

end
