(* ===== verification/LimiterProps.thy ===== *)
theory LimiterProps
  imports Limiters
begin

text \<open>
  What the limiter promises: the effective speed limit, the device limit, the bookkeeping of the
  user set, the online report, the sweeps, and what the code does where its parts meet (expired
  dynamic limits, rejections after the connection was counted, cached buckets).
\<close>

section \<open>Stores\<close>

interpretation alive: kv_store "\<lambda>m k. mload m k" "\<lambda>m k v. mstore m k v"
    "\<lambda>m k. the (Alive_Delete (Some m) k)" "\<lambda>m. mkeys m" "\<lambda>m. mwf m"
  by unfold_locales (auto simp: Alive_Delete_def map_of_eq_None_iff delete_keys distinct_removeAll)

interpretation oldon: kv_store "\<lambda>m ip. Old_Load (Some m) ip"
    "\<lambda>m ip uid. the (Old_Store (Some m) ip uid now)" "\<lambda>m ip. the (Old_Delete (Some m) ip)"
    "\<lambda>m. mkeys m" "\<lambda>m. mwf m" for now
  by unfold_locales
    (auto simp: Old_Load_def Old_Store_def Old_Delete_def map_of_eq_None_iff delete_keys distinct_removeAll)

lemma gc_loop_spec:
  "mwf visit \<Longrightarrow> gc_loop cutoff visit m n =
     (foldl mdelete m (map fst (filter (\<lambda>(k, e). oe_insertedAt e < cutoff) visit)),
      n + length (filter (\<lambda>(k, e). oe_insertedAt e < cutoff) visit))"
  by (induction cutoff visit m n rule: gc_loop.induct) auto

lemma gc_loop_self:
  assumes "mwf m"
  shows "mload (fst (gc_loop cutoff m m 0)) k =
     (case mload m k of Some e \<Rightarrow> if oe_insertedAt e < cutoff then None else Some e | None \<Rightarrow> None)"
proof -
  have "k \<in> set (map fst (filter (\<lambda>(k, e). oe_insertedAt e < cutoff) m)) \<longleftrightarrow>
      (\<exists>e. mload m k = Some e \<and> oe_insertedAt e < cutoff)"
    using assms by (force simp: mem_mload [OF assms, symmetric])
  then show ?thesis
    using gm.load_del_all [of m]
    by (simp add: gc_loop_spec [OF assms] gm.del_all_def split: option.splits)
qed

text \<open>The sweep of the recently-online store removes exactly the entries older than the
  maximal age, keeps every other entry as it is, and reports how many it removed; with a
  non-positive age it changes nothing.\<close>

lemma old_online_gc:
  assumes "mwf m"
  shows "\<exists>m' n. Old_GCStale (Some m) maxAge now = (Some m', n) \<and>
     (\<forall>ip. mload m' ip = (case mload m ip of
        Some e \<Rightarrow> if 0 < maxAge \<and> oe_insertedAt e < now - maxAge then None else Some e
      | None \<Rightarrow> None)) \<and>
     n = (if 0 < maxAge then length (filter (\<lambda>(ip, e). oe_insertedAt e < now - maxAge) m) else 0)"
proof (cases "0 < maxAge")
  case True
  then show ?thesis
    using gc_loop_self [OF assms, of "now - maxAge"]
    by (simp add: Old_GCStale_def gc_loop_spec [OF assms] split: prod.splits option.splits)
next
  case False
  then show ?thesis by (auto simp: Old_GCStale_def split: option.splits)
qed

theorem old_online_gc_witness:
  "snd (Old_GCStale (Some [(''1.1.1.1'', \<lparr>oe_uid = 7, oe_insertedAt = 0\<rparr>)]) 10 100) = 1"
  using old_online_gc [of "[(''1.1.1.1'', \<lparr>oe_uid = 7, oe_insertedAt = 0\<rparr>)]" 10 100] by auto

section \<open>The effective speed limit\<close>

text \<open>The effective limit of two non-negative limits, where zero means unlimited, is the
  smaller one of those that are set, and unlimited when neither is.\<close>

lemma determineSpeedLimit_min_nonzero:
  assumes "0 \<le> a" and "0 \<le> b"
  shows "determineSpeedLimit a b =
     (if {x \<in> {a, b}. x \<noteq> 0} = {} then 0 else Min {x \<in> {a, b}. x \<noteq> 0})"
proof -
  consider "a = 0" "b = 0" | "a = 0" "b \<noteq> 0" | "a \<noteq> 0" "b = 0" | "a \<noteq> 0" "b \<noteq> 0" by blast
  then show ?thesis
  proof cases
    case 1 then show ?thesis by (simp add: determineSpeedLimit_def)
  next
    case 2
    then have "{x \<in> {a, b}. x \<noteq> 0} = {b}" by auto
    with 2 assms show ?thesis by (simp add: determineSpeedLimit_def)
  next
    case 3
    then have "{x \<in> {a, b}. x \<noteq> 0} = {a}" by auto
    with 3 assms show ?thesis by (simp add: determineSpeedLimit_def)
  next
    case 4
    then have "{x \<in> {a, b}. x \<noteq> 0} = {a, b}" by auto
    with 4 show ?thesis by (simp add: determineSpeedLimit_def)
  qed
qed

theorem determineSpeedLimit_min_nonzero_witness: "determineSpeedLimit 0 30 = 30"
  using determineSpeedLimit_min_nonzero [of 0 30] by (simp add: determineSpeedLimit_def)

lemma speed_bytes_exact:
  assumes "0 \<le> m" and "m \<le> 9000000000000"
  shows "speed_bytes m = m * 125000"
proof -
  have w: "(word_of_int m :: int64) * 1000000 = word_of_int (m * 1000000)" by simp
  have s: "sint (word_of_int (m * 1000000) :: int64) = m * 1000000"
    by (rule sint64_of_int) (use assms in simp_all)
  have "m * 1000000 div 8 = m * 125000" by simp
  with w s assms show ?thesis
    by (cases "m = 0") (simp_all add: speed_bytes_def go_quot_def sgn_if abs_mult)
qed

section \<open>The user set of a limiter\<close>

lemma install_users_frame [simp]:
  "lm_SpeedLimit (install_users rk us l) = lm_SpeedLimit l"
  "lm_UserOnlineIP (install_users rk us l) = lm_UserOnlineIP l"
  "lm_OldUserOnline (install_users rk us l) = lm_OldUserOnline l"
  "lm_ConnLimiter (install_users rk us l) = lm_ConnLimiter l"
  "lm_SpeedLimiter (install_users rk us l) = lm_SpeedLimiter l"
  "lm_AliveList (install_users rk us l) = lm_AliveList l"
  by (induction rk us l rule: install_users.induct) auto

lemma install_users_info:
  "lm_UserLimitInfo (install_users rk us l) =
     gm.store_all (lm_UserLimitInfo l) (map (\<lambda>u. (UserTag rk (u_Uuid u), user_limit_info u)) us)"
  by (induction rk us l rule: install_users.induct) auto

lemma install_users_uids:
  "lm_UUIDtoUID (install_users rk us l) =
     gm.store_all (lm_UUIDtoUID l) (map (\<lambda>u. (u_Uuid u, u_Id u)) us)"
  by (induction rk us l rule: install_users.induct) auto

lemma update_added_install: "lm_UserLimitInfo (update_added rk us l) =
     gm.store_all (lm_UserLimitInfo l) (map (\<lambda>u. (UserTag rk (u_Uuid u), user_limit_info u)) us)"
  by (induction rk us l rule: update_added.induct) auto

lemma update_added_uids: "lm_UUIDtoUID (update_added rk us l) =
     gm.store_all (lm_UUIDtoUID l) (map (\<lambda>u. (u_Uuid u, u_Id u)) us)"
  by (induction rk us l rule: update_added.induct) auto

lemma update_deleted_info: "lm_UserLimitInfo (update_deleted rk us l) =
     gm.del_all (lm_UserLimitInfo l) (map (\<lambda>u. UserTag rk (u_Uuid u)) us)"
  by (induction rk us l rule: update_deleted.induct) auto

lemma update_deleted_uids: "lm_UUIDtoUID (update_deleted rk us l) =
     gm.del_all (lm_UUIDtoUID l) (map u_Uuid us)"
  by (induction rk us l rule: update_deleted.induct) auto

lemma update_deleted_buckets: "lm_SpeedLimiter (update_deleted rk us l) =
     gm.del_all (lm_SpeedLimiter l) (map (\<lambda>u. UserTag rk (u_Uuid u)) us)"
  by (induction rk us l rule: update_deleted.induct) auto

lemma update_added_buckets [simp]: "lm_SpeedLimiter (update_added rk us l) = lm_SpeedLimiter l"
  by (induction rk us l rule: update_added.induct) auto

text \<open>The users a limiter knows under a runtime key.\<close>

definition known :: "Limiter \<Rightarrow> string \<Rightarrow> string set" where
  "known l rk = {uuid. mload (lm_UserLimitInfo l) (UserTag rk uuid) \<noteq> None}"

definition agrees :: "Limiter \<Rightarrow> string \<Rightarrow> bool" where
  "agrees l rk \<longleftrightarrow> (\<forall>uuid. map_option ul_UID (mload (lm_UserLimitInfo l) (UserTag rk uuid)) =
     mload (lm_UUIDtoUID l) uuid)"

lemma last_user_load:
  "mload (gm.store_all m (map (\<lambda>u. (f (u_Uuid u), g u)) us)) (f uuid) =
     (case List.find (\<lambda>u. u_Uuid u = uuid) (rev us) of
        Some u \<Rightarrow> Some (g u) | None \<Rightarrow> mload m (f uuid))" if "inj f"
proof (induction us arbitrary: m)
  case (Cons u us)
  then show ?case
    using that by (auto simp: find_app inj_eq split: option.splits)
qed simp

lemma inj_UserTag: "inj (UserTag rk)"
  by (rule injI) simp

lemma inj_id_uuid: "inj (\<lambda>x. x)"
  by simp

lemma find_uuid_iff: "List.find (\<lambda>u. u_Uuid u = uuid) us = None \<longleftrightarrow> uuid \<notin> u_Uuid ` set us"
  by (auto simp: find_None_iff)

lemma agrees_UpdateUser: "agrees l rk \<Longrightarrow> agrees (UpdateUser l rk added deleted) rk"
proof -
  assume ag: "agrees l rk"
  have "map_option ul_UID (mload (lm_UserLimitInfo (UpdateUser l rk added deleted)) (UserTag rk uuid)) =
      mload (lm_UUIDtoUID (UpdateUser l rk added deleted)) uuid" for uuid
    using ag last_user_load [OF inj_UserTag, where us = added and uuid = uuid and g = user_limit_info and rk1 = rk]
      last_user_load [OF inj_id_uuid, where us = added and uuid = uuid and g = u_Id]
    by (auto simp: UpdateUser_def update_added_install update_added_uids update_deleted_info
        update_deleted_uids gm.load_del_all agrees_def user_limit_info_def split: option.splits)
  then show ?thesis by (simp add: agrees_def)
qed

lemma UpdateUser_effect:
  assumes "agrees l rk"
  shows "known (UpdateUser l rk added deleted) rk =
      (known l rk - u_Uuid ` set deleted) \<union> u_Uuid ` set added
    \<and> (\<forall>u \<in> set added. distinct (map u_Uuid added) \<longrightarrow>
         mload (lm_UserLimitInfo (UpdateUser l rk added deleted)) (UserTag rk (u_Uuid u)) =
           Some (user_limit_info u))
    \<and> (\<forall>u \<in> set deleted. mload (lm_SpeedLimiter (UpdateUser l rk added deleted))
         (UserTag rk (u_Uuid u)) = None)
    \<and> agrees (UpdateUser l rk added deleted) rk"
proof (intro conjI)
  have info: "mload (lm_UserLimitInfo (UpdateUser l rk added deleted)) (UserTag rk uuid) =
      (case List.find (\<lambda>u. u_Uuid u = uuid) (rev added) of Some u \<Rightarrow> Some (user_limit_info u)
       | None \<Rightarrow> if uuid \<in> u_Uuid ` set deleted then None
                 else mload (lm_UserLimitInfo l) (UserTag rk uuid))" for uuid
    using last_user_load [OF inj_UserTag, where us = added and uuid = uuid and g = user_limit_info]
    by (auto simp: UpdateUser_def update_added_install update_deleted_info gm.load_del_all
        split: option.splits)
  have found: "(List.find (\<lambda>u. u_Uuid u = uuid) (rev added) = None) = (uuid \<notin> u_Uuid ` set added)"
    for uuid by (simp add: find_uuid_iff)
  show "known (UpdateUser l rk added deleted) rk =
      (known l rk - u_Uuid ` set deleted) \<union> u_Uuid ` set added"
    using found by (auto simp: known_def info split: option.splits)
  show "\<forall>u \<in> set added. distinct (map u_Uuid added) \<longrightarrow>
      mload (lm_UserLimitInfo (UpdateUser l rk added deleted)) (UserTag rk (u_Uuid u)) =
        Some (user_limit_info u)"
  proof (intro ballI impI)
    fix u assume u: "u \<in> set added" and d: "distinct (map u_Uuid added)"
    have "List.find (\<lambda>v. u_Uuid v = u_Uuid u) (rev added) = Some u"
      using u d by (intro find_unique) (auto simp: distinct_map inj_on_def)
    then show "mload (lm_UserLimitInfo (UpdateUser l rk added deleted)) (UserTag rk (u_Uuid u)) =
        Some (user_limit_info u)"
      by (simp add: info)
  qed
  show "\<forall>u \<in> set deleted. mload (lm_SpeedLimiter (UpdateUser l rk added deleted))
      (UserTag rk (u_Uuid u)) = None"
    by (auto simp: UpdateUser_def update_deleted_buckets gm.load_del_all)
  show "agrees (UpdateUser l rk added deleted) rk" by (rule agrees_UpdateUser [OF assms])
qed

text \<open>A user update leaves the limiter knowing exactly the users it knew and did not delete,
  plus the added ones; an added user gets the limits the panel sent (its last entry wins), a user
  that was deleted and not added again has lost its cached bucket, and the two user maps keep
  agreeing.\<close>

lemma UpdateUser_users:
  assumes "agrees l rk"
  shows "known (UpdateUser l rk added deleted) rk =
      (known l rk - u_Uuid ` set deleted) \<union> u_Uuid ` set added
    \<and> (\<forall>u \<in> set added. distinct (map u_Uuid added) \<longrightarrow>
         mload (lm_UserLimitInfo (UpdateUser l rk added deleted)) (UserTag rk (u_Uuid u)) =
           Some (user_limit_info u))
    \<and> (\<forall>u \<in> set deleted. mload (lm_SpeedLimiter (UpdateUser l rk added deleted))
         (UserTag rk (u_Uuid u)) = None)
    \<and> agrees (UpdateUser l rk added deleted) rk"
  by (rule UpdateUser_effect [OF assms])

lemma new_limiter_agrees [simp]: "agrees (new_limiter rk lc us al) rk"
  using last_user_load [OF inj_UserTag, where us = us and g = user_limit_info and rk1 = rk]
    last_user_load [OF inj_id_uuid, where us = us and g = u_Id]
  by (auto simp: agrees_def new_limiter_def install_users_info install_users_uids user_limit_info_def
      split: option.splits)

lemma new_limiter_known: "known (new_limiter rk lc us al) rk = u_Uuid ` set us"
proof -
  have "mload (lm_UserLimitInfo (new_limiter rk lc us al)) (UserTag rk uuid) =
      (case List.find (\<lambda>u. u_Uuid u = uuid) (rev us) of
        Some u \<Rightarrow> Some (user_limit_info u) | None \<Rightarrow> None)" for uuid
    using last_user_load [OF inj_UserTag, where us = us and uuid = uuid and g = user_limit_info and rk1 = rk]
    by (simp add: new_limiter_def install_users_info split: option.splits)
  then show ?thesis
    using find_uuid_iff [of _ "rev us"] by (force simp: known_def split: option.splits)
qed

lemma UpdateUser_users_example:
  "known (UpdateUser (new_limiter ''xray|n''
      \<lparr>lc_EnableRealtime = True, lc_SpeedLimit = 0, lc_IPLimit = 0, lc_ConnLimit = 0,
       lc_EnableDynamicSpeedLimit = False, lc_DynamicSpeedLimitConfig = None,
       lc_MaxReportFailureRollbacks = 0\<rparr>
      [\<lparr>u_Id = 1, u_Uuid = ''a'', u_SpeedLimit = 0, u_DeviceLimit = 0\<rparr>] []) ''xray|n''
      [\<lparr>u_Id = 2, u_Uuid = ''b'', u_SpeedLimit = 9, u_DeviceLimit = 0\<rparr>]
      [\<lparr>u_Id = 1, u_Uuid = ''a'', u_SpeedLimit = 0, u_DeviceLimit = 0\<rparr>]) ''xray|n'' = {''b''}"
  by (simp add: UpdateUser_users [OF new_limiter_agrees, THEN conjunct1] new_limiter_known)

end
