(* ===== verification/ControllerProps.thy ===== *)
theory ControllerProps
  imports Controllers LimiterProps
begin

text \<open>
  What starting and closing a controller does to the process: a start that fails, at whatever step
  and also by a panic, takes its claims in the port registry, the limiter registry and the core
  back; a start followed by a close is neutral; after a start the limiter knows the panel's users.
\<close>

section \<open>Sequencing\<close>

lemma bindO_cases:
  assumes "bindO m f s = (r, s')"
  shows "(\<exists>x s1. m s = (Ret x, s1) \<and> f x s1 = (r, s')) \<or>
     (\<exists>e. m s = (Fail e, s') \<and> r = Fail e) \<or> (m s = (Panic, s') \<and> r = Panic)"
proof -
  obtain o1 s1 where "m s = (o1, s1)" by force
  with assms show ?thesis by (cases o1) (auto simp: bindO_def)
qed

lemma bindO_state:
  assumes "bindO m f s = (r, s')" and "\<And>o1 s1. m s = (o1, s1) \<Longrightarrow> P s1"
    and "\<And>x s1. P s1 \<Longrightarrow> f x s1 = (r, s') \<Longrightarrow> Q" and "P s' \<Longrightarrow> r \<noteq> Ret () \<Longrightarrow> Q"
  shows Q
  using bindO_cases [OF assms(1)] assms(2,3,4) by auto

lemma bindO_Ret: "bindO m f s = (Ret y, s') \<longleftrightarrow> (\<exists>x s1. m s = (Ret x, s1) \<and> f x s1 = (Ret y, s'))"
  by (auto simp: bindO_def split: prod.splits outcome.splits)

section \<open>Coherent worlds and lawful cores\<close>

text \<open>
  What a controller relies on of its core, \<open>up\<close> being the inbounds the core serves: a successful
  \<open>AddNode\<close> adds its tag, a failing one adds nothing, \<open>DelNode\<close> removes the tag, user calls change
  no inbound.
\<close>

definition core_laws :: "'c Core \<Rightarrow> ('c \<Rightarrow> string set) \<Rightarrow> bool" where
  "core_laws K up \<longleftrightarrow>
     (\<forall>t n opt k r opt' k'. co_AddNode K t n opt k = (r, opt', k') \<longrightarrow>
        up k' = (if r = Ret () then insert t (up k) else up k)) \<and>
     (\<forall>t k r k'. co_DelNode K t k = (r, k') \<longrightarrow> up k' = up k - {t}) \<and>
     (\<forall>t us n k r k'. co_AddUsers K t us n k = (r, k') \<longrightarrow> up k' = up k)"

lemma core_AddNode:
  assumes "core_laws K up" and "co_AddNode K t n opt k = (r, opt', k')"
  shows "up k' = (if r = Ret () then insert t (up k) else up k)"
  by (rule assms(1) [unfolded core_laws_def, THEN conjunct1, rule_format, OF assms(2)])

lemma core_DelNode:
  assumes "core_laws K up" and "co_DelNode K t k = (r, k')"
  shows "up k' = up k - {t}"
  by (rule assms(1) [unfolded core_laws_def, THEN conjunct2, THEN conjunct1, rule_format, OF assms(2)])

lemma core_AddUsers:
  assumes "core_laws K up" and "co_AddUsers K t us n k = (r, k')"
  shows "up k' = up k"
  by (rule assms(1) [unfolded core_laws_def, THEN conjunct2, THEN conjunct2, rule_format, OF assms(2)])

text \<open>Everything a controller can hold in the process is held under a reserved runtime key.\<close>

definition coherent :: "('c \<Rightarrow> string set) \<Rightarrow> 'c world \<Rightarrow> bool" where
  "coherent up w \<longleftrightarrow> pr_wf (wd_reg w) \<and> mwf (lw_reg (wd_lim w)) \<and>
     set (mkeys (lw_reg (wd_lim w))) \<union> up (wd_core w) \<subseteq> set (mkeys (pr_runtimeKeys (wd_reg w)))"

definition same_claims :: "('c \<Rightarrow> string set) \<Rightarrow> 'c world \<Rightarrow> 'c world \<Rightarrow> bool" where
  "same_claims up w w' \<longleftrightarrow> wd_reg w' = wd_reg w \<and> lw_reg (wd_lim w') = lw_reg (wd_lim w) \<and>
     up (wd_core w') = up (wd_core w)"

lemma same_claims_refl [simp]: "same_claims up w w"
  by (simp add: same_claims_def)

section \<open>The steps of a start\<close>

definition no_flags :: "start_flags \<Rightarrow> bool" where
  "no_flags fl \<longleftrightarrow> \<not> sf_listener fl \<and> \<not> sf_limiter fl \<and> \<not> sf_node fl"

text \<open>Before the reservation nothing is claimed; afterwards every claim is flagged.\<close>

definition unclaimed :: "('c \<Rightarrow> string set) \<Rightarrow> 'c world \<Rightarrow> 'c start_state \<Rightarrow> bool" where
  "unclaimed up w0 s \<longleftrightarrow> (case s of (fl, w, c) \<Rightarrow> no_flags fl \<and> same_claims up w0 w \<and> ct_hasRegistry c)"

definition port_claim :: "string \<Rightarrow> string \<Rightarrow> portRegistry \<Rightarrow> portRegistry \<Rightarrow> bool" where
  "port_claim rk tag r r' \<longleftrightarrow> (\<exists>specs. reserve rk tag specs r = (Ret (), r'))"

definition lim_claim :: "bool \<Rightarrow> string \<Rightarrow> (string, nat) gomap \<Rightarrow> (string, nat) gomap \<Rightarrow> bool" where
  "lim_claim b rk m m' \<longleftrightarrow> (if b then \<exists>a. m' = mstore m rk a else m' = m)"

definition up_claim :: "bool \<Rightarrow> string \<Rightarrow> string set \<Rightarrow> string set \<Rightarrow> bool" where
  "up_claim b rk u u' \<longleftrightarrow> u' = (if b then insert rk u else u)"

definition claimed :: "('c \<Rightarrow> string set) \<Rightarrow> 'c world \<Rightarrow> 'c start_state \<Rightarrow> bool" where
  "claimed up w0 s \<longleftrightarrow> (case s of (fl, w, c) \<Rightarrow> ct_hasRegistry c \<and> sf_listener fl \<and>
     ct_runtimeKey c = RuntimeKey (ct_coreType c) (ct_logicalTag c) \<and>
     port_claim (ct_runtimeKey c) (ct_logicalTag c) (wd_reg w0) (wd_reg w) \<and>
     lim_claim (sf_limiter fl) (ct_runtimeKey c) (lw_reg (wd_lim w0)) (lw_reg (wd_lim w)) \<and>
     up_claim (sf_node fl) (ct_runtimeKey c) (up (wd_core w0)) (up (wd_core w)))"

lemma fetch_node_unclaimed: "unclaimed up w0 s \<Longrightarrow> start_fetch_node E s = (r, s') \<Longrightarrow> unclaimed up w0 s'"
  by (auto simp: unclaimed_def start_fetch_node_def split: prod.splits)

lemma fetch_users_unclaimed: "unclaimed up w0 s \<Longrightarrow> start_fetch_users E s = (r, s') \<Longrightarrow> unclaimed up w0 s'"
  by (auto simp: unclaimed_def start_fetch_users_def split: prod.splits outcome.splits)

lemma fetch_alive_unclaimed: "unclaimed up w0 s \<Longrightarrow> start_fetch_alive E s = (r, s') \<Longrightarrow> unclaimed up w0 s'"
  by (auto simp: unclaimed_def start_fetch_alive_def split: prod.splits)

lemma identify_unclaimed:
  "unclaimed up w0 s \<Longrightarrow> start_identify nodeo s = (r, s') \<Longrightarrow> unclaimed up w0 s' \<and>
     (\<forall>n. r = Ret n \<longrightarrow> nodeo = Some n \<and>
        ct_runtimeKey (snd (snd s')) = RuntimeKey (ct_coreType (snd (snd s'))) (ct_logicalTag (snd (snd s'))))"
  by (auto simp: unclaimed_def start_identify_def Let_def split: option.splits if_splits)

lemma reserve_atomic: "reserve rk tag specs r = (res, r') \<Longrightarrow> res \<noteq> Ret () \<Longrightarrow> r' = r"
  by (auto simp: reserve_def split: option.splits if_splits)

lemma reserve_claimed:
  assumes un: "unclaimed up w0 s" and st: "start_reserve node s = (r, s')"
    and key: "ct_runtimeKey (snd (snd s)) = RuntimeKey (ct_coreType (snd (snd s))) (ct_logicalTag (snd (snd s)))"
  shows "if r = Ret () then claimed up w0 s' else unclaimed up w0 s'"
proof -
  obtain fl w c where s: "s = (fl, w, c)" by (cases s)
  have h: "ct_hasRegistry c" "same_claims up w0 w" "no_flags fl" using un by (simp_all add: s unclaimed_def)
  show ?thesis
  proof (cases "listenerSpecsFor node (op_ListenIP (ct_options c))")
    case (Ret specs)
    obtain r1 p where rs: "reserve (ct_runtimeKey c) (ct_logicalTag c) specs (wd_reg w) = (r1, p)" by force
    have e: "(r, s') = (r1, if r1 = Ret () then fl\<lparr>sf_listener := True\<rparr> else fl, w\<lparr>wd_reg := p\<rparr>, c)"
      using st h(1) Ret rs by (cases r1) (auto simp: s start_reserve_def)
    show ?thesis
    proof (cases "r1 = Ret ()")
      case True
      with rs have "port_claim (ct_runtimeKey c) (ct_logicalTag c) (wd_reg w0) p"
        using h(2) unfolding port_claim_def same_claims_def by auto
      with True e h key show ?thesis
        by (simp add: s claimed_def lim_claim_def up_claim_def same_claims_def no_flags_def)
    next
      case False
      with rs have "p = wd_reg w" by (rule reserve_atomic)
      with False e h show ?thesis by (simp add: unclaimed_def same_claims_def)
    qed
  qed (use st un h in \<open>auto simp: s start_reserve_def\<close>)
qed

lemma claimed_cong:
  assumes "claimed up w0 (fl, w, c)" and "wd_reg w' = wd_reg w" and "wd_lim w' = wd_lim w"
    and "up (wd_core w') = up (wd_core w)" and "ct_hasRegistry c' = ct_hasRegistry c"
    and "ct_runtimeKey c' = ct_runtimeKey c" and "ct_coreType c' = ct_coreType c"
    and "ct_logicalTag c' = ct_logicalTag c"
  shows "claimed up w0 (fl, w', c')"
  using assms unfolding claimed_def by auto

lemma cert_claimed: "claimed up w0 s \<Longrightarrow> start_cert E node s = (r, s') \<Longrightarrow> claimed up w0 s'"
proof -
  assume cl: "claimed up w0 s" and st: "start_cert E node s = (r, s')"
  obtain fl w c where s: "s = (fl, w, c)" by (cases s)
  from st have "\<exists>x. s' = (fl, w\<lparr>wd_cert := x\<rparr>, c) \<or> s' = s"
    unfolding s start_cert_def prod.case by (auto split: outcome.splits prod.splits if_split_asm)
  then show ?thesis using cl by (auto simp: s intro: claimed_cong)
qed

lemma limiter_claimed: "claimed up w0 s \<Longrightarrow> \<not> sf_limiter (fst s) \<Longrightarrow> start_limiter s = (r, s') \<Longrightarrow> claimed up w0 s'"
  by (auto simp: claimed_def lim_claim_def start_limiter_def AddLimiter_def Let_def)

lemma node_claimed:
  assumes laws: "core_laws (ev_core E) up" and cl: "claimed up w0 s" and nf: "\<not> sf_node (fst s)"
    and st: "start_node E node s = (r, s')"
  shows "claimed up w0 s'"
proof -
  obtain fl w c where s: "s = (fl, w, c)" by (cases s)
  obtain r1 opt k where a: "co_AddNode (ev_core E) (ct_runtimeKey c) node (ct_options c) (wd_core w) = (r1, opt, k)"
    by (metis prod_cases3)
  have up: "up k = (if r1 = Ret () then insert (ct_runtimeKey c) (up (wd_core w)) else up (wd_core w))"
    by (rule core_AddNode [OF laws a])
  have "s' = (if r1 = Ret () then fl\<lparr>sf_node := True\<rparr> else fl, w\<lparr>wd_core := k\<rparr>, c\<lparr>ct_options := opt\<rparr>)"
    using st a by (cases r1) (auto simp: s start_node_def)
  then show ?thesis using cl nf up by (auto simp: s claimed_def up_claim_def)
qed

lemma users_claimed:
  assumes laws: "core_laws (ev_core E) up" and cl: "claimed up w0 s" and st: "start_users E node s = (r, s')"
  shows "claimed up w0 s'"
proof -
  obtain fl w c where s: "s = (fl, w, c)" by (cases s)
  obtain r1 k where a: "co_AddUsers (ev_core E) (ct_runtimeKey c) (ct_userList c) node (wd_core w) = (r1, k)" by force
  have up: "up k = up (wd_core w)" by (rule core_AddUsers [OF laws a])
  have "s' = s \<or> s' = (fl, w\<lparr>wd_core := k\<rparr>, c)"
    using st a by (cases r1) (auto simp: s start_users_def split: if_splits)
  then show ?thesis using cl up by (auto simp: s intro: claimed_cong)
qed

text \<open>The tasks touch the certificates only, and of the controller only its own fields.\<close>

definition tasks_frame :: "'c cstate \<Rightarrow> 'c cstate \<Rightarrow> bool" where
  "tasks_frame s s' \<longleftrightarrow> wd_core (fst s') = wd_core (fst s) \<and> wd_lim (fst s') = wd_lim (fst s) \<and>
     wd_reg (fst s') = wd_reg (fst s) \<and> ct_coreType (snd s') = ct_coreType (snd s) \<and>
     ct_logicalTag (snd s') = ct_logicalTag (snd s) \<and> ct_runtimeKey (snd s') = ct_runtimeKey (snd s) \<and>
     ct_hasRegistry (snd s') = ct_hasRegistry (snd s) \<and> ct_limiter (snd s') = ct_limiter (snd s) \<and>
     ct_userList (snd s') = ct_userList (snd s) \<and> ct_info (snd s') = ct_info (snd s) \<and>
     ct_options (snd s') = ct_options (snd s)"

lemma start_timer_new: "start_timer (new_task i) = Ret \<lparr>tk_Interval = i, tk_locked = False, tk_timer = True, tk_running = True\<rparr>"
  by (simp add: start_timer_def Start_false new_task_def)

lemma start_monitor_eq: "start_monitor node (w, c) = (Ret (), w, c\<lparr>ct_monitor := Some
    \<lparr>tk_Interval = ni_PullInterval node, tk_locked = False, tk_timer = True, tk_running = True\<rparr>\<rparr>)"
  by (simp add: start_monitor_def start_timer_new)

lemma start_report_eq: "start_report node (w, c) = (Ret (), w, c\<lparr>ct_report := Some
    \<lparr>tk_Interval = ni_PushInterval node, tk_locked = False, tk_timer = True, tk_running = True\<rparr>\<rparr>)"
  by (simp add: start_report_def start_timer_new)

lemma start_renew_eq: "start_renew E (w, c) = (if renew_panics E c w then Panic else Ret (), renewCertTask E c w, c\<lparr>ct_renew := Some
    \<lparr>tk_Interval = 24 * hour, tk_locked = False, tk_timer = \<not> renew_panics E c w, tk_running = True\<rparr>\<rparr>)"
  by (simp add: start_renew_def Task_Start_def checkedExecute_def hasClosed_def new_task_def Let_def)

lemma start_dynamic_frame: "start_dynamic s = (r, s') \<Longrightarrow> tasks_frame s s'"
  by (auto simp: start_dynamic_def tasks_frame_def start_timer_new Let_def split: prod.splits option.splits if_splits)

lemma startTasks_frame: "startTasks E node (w, c) = (r, s') \<Longrightarrow> tasks_frame (w, c) s'"
  by (auto simp: startTasks_def bindO_def start_monitor_eq start_report_eq start_renew_eq tasks_frame_def
      renewCertTask_def dest!: start_dynamic_frame split: outcome.splits if_splits)

lemma tasks_claimed:
  assumes cl: "claimed up w0 s" and st: "start_tasks E node s = (r, s')"
  shows "claimed up w0 s'"
proof -
  obtain fl w c where s: "s = (fl, w, c)" by (cases s)
  obtain w' c' where t: "startTasks E node (w, c\<lparr>ct_info := Some node\<rparr>) = (r, w', c')" and s': "s' = (fl, w', c')"
    using st by (auto simp: s start_tasks_def split: prod.splits)
  from startTasks_frame [OF t] cl show ?thesis
    unfolding s s' by (elim claimed_cong) (simp_all add: tasks_frame_def)
qed

section \<open>A failed start\<close>

definition claimedF :: "('c \<Rightarrow> string set) \<Rightarrow> 'c world \<Rightarrow> bool \<Rightarrow> bool \<Rightarrow> 'c start_state \<Rightarrow> bool" where
  "claimedF up w0 L N s \<longleftrightarrow> claimed up w0 s \<and> sf_limiter (fst s) = L \<and> sf_node (fst s) = N"

lemma reserve_F:
  assumes "unclaimed up w0 s" and "start_reserve node s = (Ret (), s')"
    and "ct_runtimeKey (snd (snd s)) = RuntimeKey (ct_coreType (snd (snd s))) (ct_logicalTag (snd (snd s)))"
  shows "claimedF up w0 False False s'"
  using reserve_claimed [OF assms] assms(1,2)
  by (auto simp: claimedF_def unclaimed_def no_flags_def start_reserve_def split: prod.splits outcome.splits if_splits)

lemma cert_F: "claimedF up w0 L N s \<Longrightarrow> start_cert E node s = (r, s') \<Longrightarrow> claimedF up w0 L N s'"
  using cert_claimed [of up w0 s E node r s']
  by (auto simp: claimedF_def start_cert_def split: prod.splits outcome.splits if_splits)

lemma limiter_F: "claimedF up w0 False N s \<Longrightarrow> start_limiter s = (r, s') \<Longrightarrow> r = Ret () \<and> claimedF up w0 True N s'"
  using limiter_claimed [of up w0 s r s']
  by (auto simp: claimedF_def start_limiter_def split: prod.splits)

lemma node_F:
  "core_laws (ev_core E) up \<Longrightarrow> claimedF up w0 L False s \<Longrightarrow> start_node E node s = (r, s') \<Longrightarrow>
     claimedF up w0 L (r = Ret ()) s'"
  using node_claimed [of E up w0 s node r s']
  by (auto simp: claimedF_def start_node_def split: prod.splits outcome.splits)

lemma users_F:
  "core_laws (ev_core E) up \<Longrightarrow> claimedF up w0 L N s \<Longrightarrow> start_users E node s = (r, s') \<Longrightarrow> claimedF up w0 L N s'"
  using users_claimed [of E up w0 s node r s']
  by (auto simp: claimedF_def start_users_def split: prod.splits outcome.splits if_splits)

lemma tasks_F: "claimedF up w0 L N s \<Longrightarrow> start_tasks E node s = (r, s') \<Longrightarrow> claimedF up w0 L N s'"
  using tasks_claimed [of up w0 s E node r s']
  by (auto simp: claimedF_def start_tasks_def split: prod.splits)

lemma claimedF_claimed: "claimedF up w0 L N s \<Longrightarrow> claimed up w0 s"
  by (simp add: claimedF_def)

definition start_of :: "'c world \<Rightarrow> Controller \<Rightarrow> 'c start_state" where
  "start_of w c = (\<lparr>sf_listener = False, sf_limiter = False, sf_node = False\<rparr>, w, c)"

lemma start_claims_tail:
  assumes laws: "core_laws (ev_core E) up" and un: "unclaimed up w s"
    and key: "ct_runtimeKey (snd (snd s)) = RuntimeKey (ct_coreType (snd (snd s))) (ct_logicalTag (snd (snd s)))"
    and b: "bindO (start_reserve node) (\<lambda>_. bindO (start_cert E node) (\<lambda>_. bindO start_limiter (\<lambda>_.
      bindO (start_node E node) (\<lambda>_. bindO (start_users E node) (\<lambda>_. start_tasks E node))))) s = (r, s')"
  shows "if r = Ret () then claimedF up w True True s' else unclaimed up w s' \<or> claimed up w s'"
  using bindO_cases [OF b]
proof (elim disjE exE conjE)
  fix x s1 assume rs: "start_reserve node s = (Ret x, s1)" and b: "bindO (start_cert E node) (\<lambda>_. bindO start_limiter (\<lambda>_.
    bindO (start_node E node) (\<lambda>_. bindO (start_users E node) (\<lambda>_. start_tasks E node)))) s1 = (r, s')"
  from rs have f1: "claimedF up w False False s1" using reserve_F [OF un _ key] by simp
  from b show ?thesis
  proof (rule bindO_state)
    fix o1 s2 assume "start_cert E node s1 = (o1, s2)"
    then show "claimedF up w False False s2" by (rule cert_F [OF f1])
  next
    fix x s2 assume f2: "claimedF up w False False s2" and b: "bindO start_limiter (\<lambda>_.
      bindO (start_node E node) (\<lambda>_. bindO (start_users E node) (\<lambda>_. start_tasks E node))) s2 = (r, s')"
    from b show ?thesis
    proof (rule bindO_state)
      fix o1 s3 assume "start_limiter s2 = (o1, s3)"
      then show "claimedF up w True False s3" using limiter_F [OF f2] by blast
    next
      fix x s3 assume f3: "claimedF up w True False s3" and b: "bindO (start_node E node) (\<lambda>_.
        bindO (start_users E node) (\<lambda>_. start_tasks E node)) s3 = (r, s')"
      from bindO_cases [OF b] show ?thesis
      proof (elim disjE exE conjE)
        fix x s4 assume n: "start_node E node s3 = (Ret x, s4)"
          and b: "bindO (start_users E node) (\<lambda>_. start_tasks E node) s4 = (r, s')"
        have f4: "claimedF up w True True s4" using node_F [OF laws f3 n] by simp
        from b show ?thesis
        proof (rule bindO_state)
          fix o1 s5 assume "start_users E node s4 = (o1, s5)"
          then show "claimedF up w True True s5" by (rule users_F [OF laws f4])
        next
          fix x s5 assume "claimedF up w True True s5" and "start_tasks E node s5 = (r, s')"
          then have "claimedF up w True True s'" by (rule tasks_F)
          then show ?thesis by (simp add: claimedF_claimed)
        qed (simp add: claimedF_claimed)
      qed (auto dest!: node_F [OF laws f3] claimedF_claimed)
    qed (simp add: claimedF_claimed)
  qed (simp add: claimedF_claimed)
qed (use reserve_claimed [OF un _ key] in auto)

lemma start_body_claims:
  assumes laws: "core_laws (ev_core E) up" and reg: "ct_hasRegistry c"
    and body: "start_body E (start_of w c) = (r, s')"
  shows "if r = Ret () then claimedF up w True True s' else unclaimed up w s' \<or> claimed up w s'"
proof -
  have u0: "unclaimed up w (start_of w c)" using reg by (simp add: unclaimed_def no_flags_def start_of_def)
  show ?thesis
    using body unfolding start_body_def
  proof (rule bindO_state)
    fix o1 s1 assume "start_fetch_node E (start_of w c) = (o1, s1)"
    then show "unclaimed up w s1" by (rule fetch_node_unclaimed [OF u0])
  next
    fix nodeo s1 assume u1: "unclaimed up w s1" and b: "bindO (start_fetch_users E) (\<lambda>_. bindO (start_fetch_alive E) (\<lambda>_.
      bindO (start_identify nodeo) (\<lambda>node. bindO (start_reserve node) (\<lambda>_. bindO (start_cert E node) (\<lambda>_.
      bindO start_limiter (\<lambda>_. bindO (start_node E node) (\<lambda>_. bindO (start_users E node) (\<lambda>_. start_tasks E node)))))))) s1 = (r, s')"
    from b show ?thesis
    proof (rule bindO_state)
      fix o1 s2 assume "start_fetch_users E s1 = (o1, s2)"
      then show "unclaimed up w s2" by (rule fetch_users_unclaimed [OF u1])
    next
      fix x s2 assume u2: "unclaimed up w s2" and b: "bindO (start_fetch_alive E) (\<lambda>_.
        bindO (start_identify nodeo) (\<lambda>node. bindO (start_reserve node) (\<lambda>_. bindO (start_cert E node) (\<lambda>_.
        bindO start_limiter (\<lambda>_. bindO (start_node E node) (\<lambda>_. bindO (start_users E node) (\<lambda>_. start_tasks E node))))))) s2 = (r, s')"
      from b show ?thesis
      proof (rule bindO_state)
        fix o1 s3 assume "start_fetch_alive E s2 = (o1, s3)"
        then show "unclaimed up w s3" by (rule fetch_alive_unclaimed [OF u2])
      next
        fix x s3 assume u3: "unclaimed up w s3" and b: "bindO (start_identify nodeo) (\<lambda>node. bindO (start_reserve node) (\<lambda>_.
          bindO (start_cert E node) (\<lambda>_. bindO start_limiter (\<lambda>_. bindO (start_node E node) (\<lambda>_.
          bindO (start_users E node) (\<lambda>_. start_tasks E node)))))) s3 = (r, s')"
        from bindO_cases [OF b] show ?thesis
        proof (elim disjE exE conjE)
          fix node s4 assume id: "start_identify nodeo s3 = (Ret node, s4)" and b: "bindO (start_reserve node) (\<lambda>_.
            bindO (start_cert E node) (\<lambda>_. bindO start_limiter (\<lambda>_. bindO (start_node E node) (\<lambda>_.
            bindO (start_users E node) (\<lambda>_. start_tasks E node))))) s4 = (r, s')"
          note u4 = identify_unclaimed [OF u3 id]
          from start_claims_tail [OF laws conjunct1 [OF u4] _ b] u4 show ?thesis by simp
        qed (use identify_unclaimed [OF u3] in auto)
      qed simp
    qed simp
  qed simp
qed

lemma rollback_claimed:
  assumes laws: "core_laws (ev_core E) up" and coh: "coherent up w0" and cl: "claimed up w0 s"
  shows "same_claims up w0 (fst (start_rollback E s))"
proof -
  obtain fl w c where s: "s = (fl, w, c)" by (cases s)
  let ?rk = "ct_runtimeKey c"
  obtain specs where rs: "reserve ?rk (ct_logicalTag c) specs (wd_reg w0) = (Ret (), wd_reg w)"
    using cl by (auto simp: s claimed_def port_claim_def)
  have h: "ct_hasRegistry c" "sf_listener fl" "?rk = RuntimeKey (ct_coreType c) (ct_logicalTag c)"
    "lim_claim (sf_limiter fl) ?rk (lw_reg (wd_lim w0)) (lw_reg (wd_lim w))"
    "up_claim (sf_node fl) ?rk (up (wd_core w0)) (up (wd_core w))"
    using cl by (auto simp: s claimed_def)
  have "?rk \<notin> set (mkeys (pr_runtimeKeys (wd_reg w0)))"
    using rs by (simp add: reserve_Ret map_of_eq_None_iff)
  then have fresh: "mload (lw_reg (wd_lim w0)) ?rk = None" "?rk \<notin> up (wd_core w0)"
    using coh by (auto simp: coherent_def map_of_eq_None_iff)
  have reg: "release ?rk (wd_reg w) = wd_reg w0"
    by (rule release_reserve [OF _ rs]) (use coh in \<open>simp add: coherent_def\<close>)
  have lim: "sf_limiter fl \<Longrightarrow> mdelete (lw_reg (wd_lim w)) ?rk = lw_reg (wd_lim w0)"
    "\<not> sf_limiter fl \<Longrightarrow> lw_reg (wd_lim w) = lw_reg (wd_lim w0)"
    using h(4) fresh(1) by (auto simp: lim_claim_def mdelete_mstore_fresh)
  have core: "sf_node fl \<Longrightarrow> up (snd (co_DelNode (ev_core E) ?rk (wd_core w))) = up (wd_core w0)"
    "\<not> sf_node fl \<Longrightarrow> up (wd_core w) = up (wd_core w0)"
    using h(5) fresh(2) core_DelNode [OF laws prod.collapse [symmetric], of ?rk "wd_core w"]
    by (auto simp: up_claim_def)
  show ?thesis
    using h(1,2) reg lim core
    by (cases "sf_limiter fl"; cases "sf_node fl")
      (simp_all add: s start_rollback_def Let_def same_claims_def DeleteLimiter_def h(3) [symmetric])
qed

lemma rollback_unclaimed: "unclaimed up w0 s \<Longrightarrow> same_claims up w0 (fst (start_rollback E s))"
  by (auto simp: unclaimed_def no_flags_def start_rollback_def Let_def)

lemma failed_start_same:
  assumes "core_laws (ev_core E) up" and "coherent up w" and "ct_hasRegistry c"
    and "Controller_Start E (w, c) = (r, w', c')" and "r \<noteq> Ret ()"
  shows "same_claims up w w'"
proof -
  obtain r1 s1 where b: "start_body E (start_of w c) = (r1, s1)" by (meson surj_pair)
  have n: "r1 \<noteq> Ret ()" and e: "(w', c') = start_rollback E s1"
    using assms(4,5) b by (auto simp: Controller_Start_def start_of_def split: outcome.splits prod.splits)
  from start_body_claims [OF assms(1,3) b] n have "unclaimed up w s1 \<or> claimed up w s1" by simp
  then have "same_claims up w (fst (start_rollback E s1))"
    using rollback_unclaimed rollback_claimed [OF assms(1,2)] by blast
  then show ?thesis by (simp add: e [symmetric])
qed


definition demo_core :: "string list Core" where
  "demo_core = \<lparr>
     co_AddNode = (\<lambda>t n opt k. if t \<in> set k then (Fail ''exists'', opt, k) else (Ret (), opt, t # k)),
     co_DelNode = (\<lambda>t k. (Ret (), removeAll t k)),
     co_AddUsers = (\<lambda>t us n k. if t \<in> set k then (Ret (length us), k) else (Fail ''no inbound'', k)),
     co_GetUserTrafficSlice = (\<lambda>t reset k. (Ret [], k)),
     co_AddUserTrafficSlice = (\<lambda>t sl k. (Ret (), k)),
     co_DelUsers = (\<lambda>us t k. (Ret (), k)),
     co_Protocols = (\<lambda>_. [''tuic'']), co_Type = (\<lambda>_. ''sing'')\<rparr>"

lemma demo_core_laws: "core_laws demo_core set"
  by (auto simp: core_laws_def demo_core_def)

definition demo_env :: "string list env" where
  "demo_env = \<lparr>ev_core = demo_core,
     ev_cert = \<lparr>ce_now = 0, ce_parse = (\<lambda>_. None), ce_unreadable = (\<lambda>_. False), ce_fault = (\<lambda>_. WOk),
       ce_tmp = (\<lambda>p. p), ce_selfsign = (\<lambda>_ _. Some (''c'', ''k'')), ce_user_json = (\<lambda>_. None), ce_pem = (\<lambda>_. None), ce_ec_key = (\<lambda>_. False),
       ce_register = (\<lambda>_. None), ce_client = True, ce_dns_provider = (\<lambda>_. True), ce_challenge = (\<lambda>_. True),
       ce_obtain = (\<lambda>_. None), ce_renew = (\<lambda>_ _. None)\<rparr>,
     ev_userPath = ''u'', ev_sha = (\<lambda>s. ''#'' @ s), ev_dec = demo_decoders, ev_now = 0,
     ev_node = (\<lambda>_. \<lparr>rs_err = False, rs_raw = True, rs_status = 200, rs_body = ''ok'', rs_etag = ''e''\<rparr>),
     ev_users = (\<lambda>_. (\<lparr>rs_err = False, rs_raw = True, rs_status = 200, rs_body = '''', rs_etag = ''e''\<rparr>,
       [JString ''users'', JOpen, JVal (Some \<lparr>u_Id = 1, u_Uuid = ''a'', u_SpeedLimit = 0, u_DeviceLimit = 0\<rparr>), JClose])),
     ev_alive = \<lparr>rs_err = True, rs_raw = False, rs_status = 0, rs_body = '''', rs_etag = ''''\<rparr>,
     ev_push = (\<lambda>_. \<lparr>rs_err = False, rs_raw = True, rs_status = 200, rs_body = '''', rs_etag = ''''\<rparr>),
     ev_online = (\<lambda>_. \<lparr>rs_err = False, rs_raw = True, rs_status = 200, rs_body = '''', rs_etag = ''''\<rparr>)\<rparr>"

definition demo_options :: Options where
  "demo_options = \<lparr>op_Name = ''n'', op_Core = ''sing'', op_CoreName = '''', op_ListenIP = ''::'', op_SendIP = '''',
     op_DeviceOnlineMinTraffic = 0,
     op_LimitConfig = \<lparr>lc_EnableRealtime = True, lc_SpeedLimit = 0, lc_IPLimit = 0, lc_ConnLimit = 0,
       lc_EnableDynamicSpeedLimit = False, lc_DynamicSpeedLimitConfig = None, lc_MaxReportFailureRollbacks = 0\<rparr>,
     op_RawOptions = '''', op_XrayOptions = None, op_SingOptions = None,
     op_CertConfig = Some \<lparr>cc_CertMode = ''none'', cc_RejectUnknownSni = False, cc_CertDomain = '''', cc_CertFile = '''',
       cc_KeyFile = '''', cc_Provider = '''', cc_Email = '''', cc_DNSEnv = None, cc_RenewBeforeDays = 0\<rparr>\<rparr>"

definition demo_world :: "string list world" where
  "demo_world = \<lparr>wd_core = [], wd_lim = limiter_Init, wd_reg = newPortRegistry,
     wd_cert = \<lparr>cs_fs = [], cs_claims = [], cs_env = []\<rparr>\<rparr>"

definition demo_controller :: Controller where
  "demo_controller = NewController ''sing'' demo_client demo_options True"

lemma demo_coherent: "coherent set demo_world"
  by (simp add: coherent_def demo_world_def limiter_Init_def newPortRegistry_def pr_wf_def)


section \<open>A successful start\<close>

definition ct_tasks :: "Controller \<Rightarrow> Task option list" where
  "ct_tasks c = [ct_monitor c, ct_report c, ct_renew c, ct_dynamic c]"

definition tasks_free :: "Controller \<Rightarrow> bool" where
  "tasks_free c \<longleftrightarrow> (\<forall>t \<in> set (ct_tasks c). case t of None \<Rightarrow> True | Some t \<Rightarrow> \<not> tk_locked t)"

definition tasks_stopped :: "Controller \<Rightarrow> bool" where
  "tasks_stopped c \<longleftrightarrow>
     (\<forall>t \<in> set (ct_tasks c). case t of None \<Rightarrow> True | Some t \<Rightarrow> \<not> tk_running t \<and> \<not> tk_timer t)"

abbreviation st_tasks :: "'c start_state \<Rightarrow> Task option list" where
  "st_tasks s \<equiv> ct_tasks (snd (snd s))"

lemma start_steps_tasks:
  "start_fetch_node E s = (r1, s') \<Longrightarrow> st_tasks s' = st_tasks s"
  "start_fetch_users E s = (r2, s') \<Longrightarrow> st_tasks s' = st_tasks s"
  "start_fetch_alive E s = (r2, s') \<Longrightarrow> st_tasks s' = st_tasks s"
  "start_identify no s = (r3, s') \<Longrightarrow> st_tasks s' = st_tasks s"
  "start_reserve n s = (r2, s') \<Longrightarrow> st_tasks s' = st_tasks s"
  "start_cert E n s = (r2, s') \<Longrightarrow> st_tasks s' = st_tasks s"
  "start_limiter s = (r2, s') \<Longrightarrow> st_tasks s' = st_tasks s"
  "start_node E n s = (r2, s') \<Longrightarrow> st_tasks s' = st_tasks s"
  "start_users E n s = (r2, s') \<Longrightarrow> st_tasks s' = st_tasks s"
          apply (auto simp: ct_tasks_def start_fetch_node_def split: prod.splits)[1]
         apply (auto simp: ct_tasks_def start_fetch_users_def split: prod.splits outcome.splits)[1]
        apply (auto simp: ct_tasks_def start_fetch_alive_def split: prod.splits)[1]
       apply (auto simp: ct_tasks_def start_identify_def Let_def split: prod.splits option.splits if_splits)[1]
      apply (auto simp: ct_tasks_def start_reserve_def split: prod.splits outcome.splits if_splits)[1]
     apply (auto simp: ct_tasks_def start_cert_def split: prod.splits outcome.splits if_splits)[1]
    apply (auto simp: ct_tasks_def start_limiter_def split: prod.splits)[1]
   apply (auto simp: ct_tasks_def start_node_def split: prod.splits outcome.splits)[1]
  apply (auto simp: ct_tasks_def start_users_def split: prod.splits outcome.splits if_splits)[1]
  done

abbreviation free_task :: "Task option \<Rightarrow> bool" where
  "free_task t \<equiv> (case t of None \<Rightarrow> True | Some t \<Rightarrow> \<not> tk_locked t)"

lemma tasks_free_iff: "tasks_free c \<longleftrightarrow> free_task (ct_monitor c) \<and> free_task (ct_report c) \<and>
    free_task (ct_renew c) \<and> free_task (ct_dynamic c)"
  by (simp add: tasks_free_def ct_tasks_def)

lemma tasks_free_update [simp]:
  "tasks_free c \<Longrightarrow> tasks_free (c\<lparr>ct_traffic := x\<rparr>)"
  "tasks_free c \<Longrightarrow> free_task t \<Longrightarrow> tasks_free (c\<lparr>ct_dynamic := t\<rparr>)"
  "tasks_free c \<Longrightarrow> free_task t \<Longrightarrow> tasks_free (c\<lparr>ct_monitor := t\<rparr>)"
  "tasks_free c \<Longrightarrow> free_task t \<Longrightarrow> tasks_free (c\<lparr>ct_report := t\<rparr>)"
  "tasks_free c \<Longrightarrow> free_task t \<Longrightarrow> tasks_free (c\<lparr>ct_renew := t\<rparr>)"
  by (simp_all add: tasks_free_iff)

lemma start_dynamic_free:
  assumes "tasks_free (snd s)" and "start_dynamic s = (r, s')"
  shows "tasks_free (snd s')"
proof -
  let ?lc = "op_LimitConfig (ct_options (snd s))"
  show ?thesis
    using assms by (cases s; cases "lc_EnableDynamicSpeedLimit ?lc"; cases "lc_DynamicSpeedLimitConfig ?lc")
      (auto simp: start_dynamic_def start_timer_new)
qed

lemma startTasks_free:
  assumes free: "tasks_free c" and st: "startTasks E n (w, c) = (r, s')"
  shows "tasks_free (snd s')"
proof -
  let ?c = "c\<lparr>ct_monitor := Some \<lparr>tk_Interval = ni_PullInterval n, tk_locked = False, tk_timer = True, tk_running = True\<rparr>,
    ct_report := Some \<lparr>tk_Interval = ni_PushInterval n, tk_locked = False, tk_timer = True, tk_running = True\<rparr>\<rparr>"
  let ?t = "\<lambda>b. Some \<lparr>tk_Interval = 24 * hour, tk_locked = False, tk_timer = b, tk_running = True\<rparr>"
  let ?p = "renew_panics E ?c w"
  have f: "tasks_free ?c" "\<And>b. tasks_free (?c\<lparr>ct_renew := ?t b\<rparr>)" using free by simp_all
  have "startTasks E n (w, c) = (case protocolSecurity n of
      Ret sec \<Rightarrow> if needsCert sec \<and> acme_mode (op_CertConfig (ct_options c))
        then (if ?p then (Panic, renewCertTask E ?c w, ?c\<lparr>ct_renew := ?t False\<rparr>)
              else start_dynamic (renewCertTask E ?c w, ?c\<lparr>ct_renew := ?t True\<rparr>)) else start_dynamic (w, ?c)
      | Fail e \<Rightarrow> (Fail e, w, ?c) | Panic \<Rightarrow> (Panic, w, ?c))"
    by (cases "protocolSecurity n") (simp_all add: startTasks_def bindO_def start_monitor_eq start_report_eq start_renew_eq)
  with st have "(\<exists>e. (r, s') = (e, w, ?c)) \<or> (r, s') = start_dynamic (w, ?c) \<or>
      (r, s') = start_dynamic (renewCertTask E ?c w, ?c\<lparr>ct_renew := ?t True\<rparr>) \<or>
      (r, s') = (Panic, renewCertTask E ?c w, ?c\<lparr>ct_renew := ?t False\<rparr>)"
    by (cases "protocolSecurity n") (simp_all split: if_split_asm)
  then show ?thesis
  proof (elim disjE exE)
    fix e assume "(r, s') = (e, w, ?c)" then show ?thesis using f(1) by simp
  next
    assume "(r, s') = start_dynamic (w, ?c)"
    from start_dynamic_free [OF _ this [symmetric]] f(1) show ?thesis by simp
  next
    assume "(r, s') = start_dynamic (renewCertTask E ?c w, ?c\<lparr>ct_renew := ?t True\<rparr>)"
    from start_dynamic_free [OF _ this [symmetric]] f(2) show ?thesis by simp
  next
    assume "(r, s') = (Panic, renewCertTask E ?c w, ?c\<lparr>ct_renew := ?t False\<rparr>)"
    then show ?thesis using f(2) by simp
  qed
qed

lemma start_tasks_free:
  assumes "tasks_free (snd (snd s))" and "start_tasks E n s = (r, s')"
  shows "tasks_free (snd (snd s'))"
proof -
  obtain fl w c where s: "s = (fl, w, c)" by (cases s)
  obtain w' c' where t: "startTasks E n (w, c\<lparr>ct_info := Some n\<rparr>) = (r, w', c')" and s': "s' = (fl, w', c')"
    using assms(2) by (auto simp: s start_tasks_def split: prod.splits)
  from startTasks_free [OF _ t] assms(1) show ?thesis by (simp add: s s' tasks_free_iff)
qed

text \<open>What the limiter step leaves, and the later steps keep.\<close>

definition limiter_kept :: "'c start_state \<Rightarrow> bool" where
  "limiter_kept s \<longleftrightarrow> (case s of (fl, w, c) \<Rightarrow> \<exists>a. ct_limiter c = Some a \<and> a < length (lw_heap (wd_lim w)) \<and>
     mload (lw_reg (wd_lim w)) (RuntimeKey (ct_coreType c) (ct_logicalTag c)) = Some a \<and>
     known (lw_heap (wd_lim w) ! a) (RuntimeKey (ct_coreType c) (ct_logicalTag c)) = u_Uuid ` set (ct_userList c) \<and>
     agrees (lw_heap (wd_lim w) ! a) (RuntimeKey (ct_coreType c) (ct_logicalTag c)))"

lemma limiter_sets: "start_limiter s = (r, s') \<Longrightarrow> limiter_kept s'"
  by (auto simp: start_limiter_def AddLimiter_def limiter_kept_def Let_def new_limiter_known split: prod.splits)

lemma limiter_keeps:
  "limiter_kept s \<Longrightarrow> start_node E n s = (r, s') \<Longrightarrow> limiter_kept s'"
  "limiter_kept s \<Longrightarrow> start_users E n s = (r, s') \<Longrightarrow> limiter_kept s'"
  by (auto simp: start_node_def start_users_def limiter_kept_def split: prod.splits outcome.splits if_splits)

lemma limiter_keeps_tasks: "limiter_kept s \<Longrightarrow> start_tasks E n s = (r, s') \<Longrightarrow> limiter_kept s'"
  by (auto simp: start_tasks_def limiter_kept_def tasks_frame_def dest!: startTasks_frame split: prod.splits)

lemma start_success:
  assumes "Controller_Start E (w, c) = (Ret (), w', c')" and "tasks_free c"
  shows "\<exists>fl. start_body E (start_of w c) = (Ret (), fl, w', c') \<and> limiter_kept (fl, w', c') \<and> tasks_free c' \<and>
     ct_info c' \<noteq> None"
proof -
  obtain fl where b: "start_body E (start_of w c) = (Ret (), fl, w', c')"
    using assms(1) by (auto simp: Controller_Start_def start_of_def split: prod.splits outcome.splits)
  from b [unfolded start_body_def bindO_Ret] obtain no n s1 s2 s3 s4 s5 s6 s7 s8 s9 where
    s: "start_fetch_node E (start_of w c) = (Ret no, s1)" "start_fetch_users E s1 = (Ret (), s2)"
    "start_fetch_alive E s2 = (Ret (), s3)" "start_identify no s3 = (Ret n, s4)" "start_reserve n s4 = (Ret (), s5)"
    "start_cert E n s5 = (Ret (), s6)" "start_limiter s6 = (Ret (), s7)" "start_node E n s7 = (Ret (), s8)"
    "start_users E n s8 = (Ret (), s9)" "start_tasks E n s9 = (Ret (), fl, w', c')"
    by auto
  have "limiter_kept (fl, w', c')"
    using limiter_keeps_tasks [OF limiter_keeps(2) [OF limiter_keeps(1) [OF limiter_sets [OF s(7)] s(8)] s(9)] s(10)] .
  moreover have "st_tasks s9 = ct_tasks c"
    using start_steps_tasks(1) [OF s(1)] start_steps_tasks(2) [OF s(2)] start_steps_tasks(3) [OF s(3)]
      start_steps_tasks(4) [OF s(4)] start_steps_tasks(5) [OF s(5)] start_steps_tasks(6) [OF s(6)]
      start_steps_tasks(7) [OF s(7)] start_steps_tasks(8) [OF s(8)] start_steps_tasks(9) [OF s(9)]
    by (simp add: start_of_def)
  then have "tasks_free (snd (snd s9))" using assms(2) by (simp add: tasks_free_def)
  from start_tasks_free [OF this s(10)] have "tasks_free c'" by simp
  moreover have "ct_info c' = Some n"
  proof -
    obtain fl9 w9 c9 where e: "s9 = (fl9, w9, c9)" by (cases s9)
    with s(10) have "startTasks E n (w9, c9\<lparr>ct_info := Some n\<rparr>) = (Ret (), w', c')"
      by (auto simp: start_tasks_def split: prod.splits)
    from startTasks_frame [OF this] show ?thesis by (simp add: tasks_frame_def)
  qed
  ultimately show ?thesis using b by auto
qed

section \<open>A concrete start\<close>

lemma demo_start_ret: "fst (Controller_Start demo_env (demo_world, demo_controller)) = Ret ()"
  by code_simp

lemma demo_start: "\<exists>w c. Controller_Start demo_env (demo_world, demo_controller) = (Ret (), w, c)"
  using demo_start_ret by (metis fst_conv surj_pair)

lemma demo_free: "ct_hasRegistry demo_controller" "tasks_free demo_controller" "core_laws (ev_core demo_env) set"
  by (simp_all add: demo_controller_def NewController_def tasks_free_iff demo_env_def demo_core_laws)

section \<open>Start, then close\<close>

lemma close_task_free: "free_task t \<Longrightarrow> close_task t = Some (map_option (\<lambda>t. t\<lparr>tk_running := False, tk_timer := False\<rparr>) t)"
  by (cases t) (simp_all add: close_task_def Task_Close_def)

lemma close_claimed:
  assumes laws: "core_laws (ev_core E) up" and coh: "coherent up w0" and cl: "claimedF up w0 True True (fl, w, c)"
    and free: "tasks_free c"
  shows "\<exists>r w' c'. Controller_Close E (w, c) = Some (r, w', c') \<and> same_claims up w0 w' \<and> tasks_stopped c'"
proof -
  let ?rk = "ct_runtimeKey c"
  have cl': "claimed up w0 (fl, w, c)" "sf_limiter fl" "sf_node fl" using cl by (simp_all add: claimedF_def)
  have hr: "ct_hasRegistry c" "sf_listener fl" using cl'(1) by (simp_all add: claimed_def)
  have rk: "?rk \<noteq> ''''" and key: "?rk = RuntimeKey (ct_coreType c) (ct_logicalTag c)"
    using cl'(1) by (simp_all add: claimed_def RuntimeKey_def)
  let ?stop = "map_option (\<lambda>t. t\<lparr>tk_running := False, tk_timer := False\<rparr>)"
  let ?c = "c\<lparr>ct_monitor := ?stop (ct_monitor c), ct_report := ?stop (ct_report c),
    ct_renew := ?stop (ct_renew c), ct_dynamic := ?stop (ct_dynamic c)\<rparr>"
  let ?w1 = "w\<lparr>wd_lim := DeleteLimiter (ct_coreType c) (ct_logicalTag c) (wd_lim w)\<rparr>"
  obtain dr k where d: "co_DelNode (ev_core E) ?rk (wd_core w) = (dr, k)" by force
  let ?w3 = "?w1\<lparr>wd_core := k, wd_reg := release ?rk (wd_reg w)\<rparr>"
  have "\<exists>r. Controller_Close E (w, c) = Some (r, ?w3, ?c)"
    using free rk hr d by (simp add: Controller_Close_def tasks_free_iff close_task_free Let_def)
  moreover have "same_claims up w0 ?w3"
    using rollback_claimed [OF laws coh cl'(1)] cl'(2,3) hr d
    by (simp add: start_rollback_def same_claims_def DeleteLimiter_def)
  moreover have "tasks_stopped ?c" by (simp add: tasks_stopped_def ct_tasks_def split: option.split)
  ultimately show ?thesis by blast
qed

text \<open>C16: Start then close is neutral. After a successful start, a close that no running task blocks
  returns, gives the port registry and the limiter registry back exactly as they were before the
  start, leaves the core with the same inbounds and no periodic task running or armed.\<close>

theorem start_then_close_neutral:
  assumes "core_laws (ev_core E) up" and "coherent up w" and "ct_hasRegistry c" and "tasks_free c"
    and "Controller_Start E (w, c) = (Ret (), w1, c1)"
  shows "\<exists>r w2 c2. Controller_Close E (w1, c1) = Some (r, w2, c2) \<and> wd_reg w2 = wd_reg w \<and>
     lw_reg (wd_lim w2) = lw_reg (wd_lim w) \<and> up (wd_core w2) = up (wd_core w) \<and> tasks_stopped c2"
proof -
  obtain fl where b: "start_body E (start_of w c) = (Ret (), fl, w1, c1)" and free: "tasks_free c1"
    using start_success [OF assms(5,4)] by auto
  have "claimedF up w True True (fl, w1, c1)" using start_body_claims [OF assms(1,3) b] by simp
  from close_claimed [OF assms(1,2) this free] show ?thesis by (auto simp: same_claims_def)
qed

theorem start_then_close_neutral_witness:
  "\<exists>w1 c1 r w2 c2. Controller_Start demo_env (demo_world, demo_controller) = (Ret (), w1, c1) \<and>
     Controller_Close demo_env (w1, c1) = Some (r, w2, c2) \<and> wd_reg w2 = newPortRegistry"
proof -
  obtain w1 c1 where s: "Controller_Start demo_env (demo_world, demo_controller) = (Ret (), w1, c1)"
    using demo_start by blast
  from start_then_close_neutral [OF demo_free(3) demo_coherent demo_free(1,2) s] s show ?thesis
    by (auto simp: demo_world_def)
qed

text \<open>C17: What a started controller enforces. After a successful start the controller's limiter is
  the one registered under its runtime key, it knows exactly the users of the panel's list, and its
  two user tables agree.\<close>

theorem started_limiter_knows_users:
  assumes "Controller_Start E (w, c) = (Ret (), w1, c1)" and "tasks_free c"
  shows "\<exists>a. ct_limiter c1 = Some a \<and>
     GetLimiterByRuntimeKey (wd_lim w1) (RuntimeKey (ct_coreType c1) (ct_logicalTag c1)) = Ret a \<and>
     known (lw_heap (wd_lim w1) ! a) (RuntimeKey (ct_coreType c1) (ct_logicalTag c1)) = u_Uuid ` set (ct_userList c1) \<and>
     agrees (lw_heap (wd_lim w1) ! a) (RuntimeKey (ct_coreType c1) (ct_logicalTag c1))"
  using start_success [OF assms] by (auto simp: limiter_kept_def GetLimiterByRuntimeKey_def)

theorem started_limiter_knows_users_witness:
  "\<exists>w1 c1 a. Controller_Start demo_env (demo_world, demo_controller) = (Ret (), w1, c1) \<and> ct_limiter c1 = Some a"
proof -
  obtain w1 c1 where s: "Controller_Start demo_env (demo_world, demo_controller) = (Ret (), w1, c1)"
    using demo_start by blast
  from started_limiter_knows_users [OF s demo_free(2)] s show ?thesis by blast
qed

section \<open>A failure of the last step\<close>

text \<open>Timers outlive a failed start. When the last step of a start, \<open>startTasks\<close>, fails (a dynamic
  limit without its configuration), the two periodic tasks it had already started stay armed, and the
  rollback clears the limiter they use.\<close>

lemma failed_tasks_leave_timers:
  assumes "start_tasks E node (fl, w, c) = (Fail e, s')" and "sf_limiter fl"
  shows "case start_rollback E s' of (w', c') \<Rightarrow> ct_limiter c' = None \<and>
     (\<exists>m. ct_monitor c' = Some m \<and> tk_running m \<and> tk_timer m) \<and>
     (\<exists>t. ct_report c' = Some t \<and> tk_running t \<and> tk_timer t)"
proof -
  obtain w1 c1 where t: "startTasks E node (w, c\<lparr>ct_info := Some node\<rparr>) = (Fail e, w1, c1)" and s': "s' = (fl, w1, c1)"
    using assms(1) by (auto simp: start_tasks_def split: prod.splits)
  have dyn: "start_dynamic (w0, c0) = (Fail e, w1, c1) \<Longrightarrow> ct_monitor c1 = ct_monitor c0 \<and> ct_report c1 = ct_report c0"
    for w0 :: "'a world" and c0
    by (cases "lc_EnableDynamicSpeedLimit (op_LimitConfig (ct_options c0))";
        cases "lc_DynamicSpeedLimitConfig (op_LimitConfig (ct_options c0))")
      (auto simp: start_dynamic_def start_timer_new)
  have "(\<exists>m. ct_monitor c1 = Some m \<and> tk_running m \<and> tk_timer m) \<and>
     (\<exists>t. ct_report c1 = Some t \<and> tk_running t \<and> tk_timer t)"
    using t by (cases "protocolSecurity node")
      (auto simp: startTasks_def bindO_def start_monitor_eq start_report_eq start_renew_eq dest!: dyn split: if_split_asm)
  then show ?thesis using assms(2) by (simp add: s' start_rollback_def Let_def)
qed

lemma failed_tasks_leave_timers_example:
  "\<exists>s'. start_tasks demo_env \<lparr>ni_Id = 1, ni_Type = ''tuic'', ni_PushInterval = 30 * second, ni_PullInterval = 15 * second,
      ni_Common = Some (empty_common ''shadowsocks'')\<rparr>
      (\<lparr>sf_listener = True, sf_limiter = True, sf_node = True\<rparr>, demo_world, demo_controller\<lparr>ct_options :=
        demo_options\<lparr>op_LimitConfig := (op_LimitConfig demo_options)\<lparr>lc_EnableDynamicSpeedLimit := True\<rparr>\<rparr>\<rparr>) =
    (Fail ''EnableDynamicSpeedLimit set but DynamicSpeedLimitConfig is nil'', s') \<and>
    ct_limiter (snd (start_rollback demo_env s')) = None"
proof -
  let ?n = "\<lparr>ni_Id = 1, ni_Type = ''tuic'', ni_PushInterval = 30 * second, ni_PullInterval = 15 * second,
      ni_Common = Some (empty_common ''shadowsocks'')\<rparr>"
  let ?c = "demo_controller\<lparr>ct_options :=
        demo_options\<lparr>op_LimitConfig := (op_LimitConfig demo_options)\<lparr>lc_EnableDynamicSpeedLimit := True\<rparr>\<rparr>\<rparr>"
  let ?s = "(\<lparr>sf_listener = True, sf_limiter = True, sf_node = True\<rparr>, demo_world, ?c)"
  obtain s' where s: "start_tasks demo_env ?n ?s = (Fail ''EnableDynamicSpeedLimit set but DynamicSpeedLimitConfig is nil'', s')"
    by (simp add: start_tasks_def startTasks_def bindO_def start_monitor_eq start_report_eq protocolSecurity_def
        needsCert_def start_dynamic_def demo_options_def empty_common_def)
  from failed_tasks_leave_timers [OF s] s show ?thesis by (auto split: prod.splits)
qed

end
