(* ===== verification/ConnGate.thy ===== *)
theory ConnGate
  imports ConnLimits
begin

text \<open>
  Correctness of the admission gate of \<open>limiter/conn.go\<close>: what \<open>AddConnCount\<close> decides, that a
  rejected attempt claims nothing, and the behaviour of a whole run in realtime mode. A run is a
  sequence of admissions, packets, closes and sweeps; beside the limiter it keeps the list of TCP
  connections that are open, which is what the counters are meant to count.
\<close>

section \<open>What an attempt decides\<close>

definition over_conn_cap :: "ConnLimiter \<Rightarrow> string \<Rightarrow> bool" where
  "over_conn_cap c u \<longleftrightarrow> cl_connLimit c \<noteq> 0 \<and>
     (\<exists>v. mload (cl_count c) u = Some v \<and> cl_connLimit c \<le> v)"

definition over_ip_cap :: "ConnLimiter \<Rightarrow> string \<Rightarrow> string \<Rightarrow> bool" where
  "over_ip_cap c u i \<longleftrightarrow> 0 < cl_ipLimit c \<and>
     (\<exists>ips. mload (cl_ip c) u = Some ips \<and> i \<notin> set (mkeys ips) \<and> cl_ipLimit c \<le> int (length ips))"

lemma conn_full_iff: "conn_full c u \<longleftrightarrow> over_conn_cap c u"
  by (auto simp: conn_full_def over_conn_cap_def split: option.splits)

lemma ip_full_iff: "0 \<le> cl_ipLimit c \<Longrightarrow> ip_full c u i \<longleftrightarrow> over_ip_cap c u i"
  by (cases "mload (cl_ip c) u")
    (auto simp: ip_full_def over_ip_cap_def existing_ips_def range_count_full
      map_of_eq_None_iff [of _ i])

lemma AddConnCount_decides:
  assumes "cl_wf c" and "0 \<le> cl_ipLimit c"
  shows "\<exists>c'. AddConnCount c u i isTcp now = Some (over_conn_cap c u \<or> over_ip_cap c u i, c') \<and>
     (over_conn_cap c u \<or> over_ip_cap c u i \<longrightarrow> c' = c)"
proof (cases "over_conn_cap c u \<or> over_ip_cap c u i")
  case True
  then show ?thesis
    using assms(2) by (auto simp: AddConnCount_def conn_full_iff ip_full_iff)
next
  case False
  have "claim_ip (bump_count c u isTcp) u i isTcp now \<noteq> None"
    by (rule claim_ip_total [OF bump_count_wf [OF assms(1)]])
  with False show ?thesis
    using assms(2) by (auto simp: AddConnCount_def conn_full_iff ip_full_iff)
qed

text \<open>C1: Admission is transactional. On a well-formed limiter the attempt never panics; it is
  rejected exactly when the user is at the TCP connection cap, or comes from a new address while
  already online from as many addresses as the cap allows; and a rejected attempt leaves every
  counter as it was.\<close>

theorem admission_transactional:
  assumes "cl_wf c" and "0 \<le> cl_ipLimit c"
  shows "\<exists>c'. AddConnCount c u i isTcp now = Some (over_conn_cap c u \<or> over_ip_cap c u i, c') \<and>
     (over_conn_cap c u \<or> over_ip_cap c u i \<longrightarrow> c' = c)"
  by (rule AddConnCount_decides [OF assms])

theorem admission_transactional_witness:
  "\<exists>c'. AddConnCount (NewConnLimiter 2 1 True) ''u'' ''1.1.1.1'' True 0 = Some (False, c')"
  using admission_transactional [of "NewConnLimiter 2 1 True" "''u''" "''1.1.1.1''" True 0]
  by (auto simp: NewConnLimiter_def cl_wf_def over_conn_cap_def over_ip_cap_def)

section \<open>Opening and closing a connection\<close>

lemma AddConnCount_admit:
  "AddConnCount c u i t now = Some (False, c') \<longleftrightarrow>
     \<not> conn_full c u \<and> \<not> ip_full c u i \<and> claim_ip (bump_count c u t) u i t now = Some c'"
  by (auto simp: AddConnCount_def split: option.splits)

lemma AddConnCount_frame:
  "AddConnCount c u i t now = Some (r, c') \<Longrightarrow> cl_realtime c' = cl_realtime c \<and>
     cl_ipLimit c' = cl_ipLimit c \<and> cl_connLimit c' = cl_connLimit c"
  by (auto simp: AddConnCount_def dest!: claim_ip_frame split: if_splits option.splits)

lemma AddConnCount_count:
  "AddConnCount c u i t now = Some (False, c') \<Longrightarrow>
     mload (cl_count c') v =
       (if v = u \<and> t \<and> cl_connLimit c \<noteq> 0
        then Some (case mload (cl_count c) u of Some n \<Rightarrow> n + 1 | None \<Rightarrow> 1)
        else mload (cl_count c) v)"
  by (auto simp: AddConnCount_admit bump_count_def dest!: claim_ip_frame split: option.splits)

lemma slot_of_set_ips:
  "slot_of (set_ips c u ips) v i = (if v = u then mload ips i else slot_of c v i)"
  by (simp add: slot_of_def)

lemma slot_of_bump [simp]: "slot_of (bump_count c u t) v i = slot_of c v i"
  by (simp add: slot_of_def)

lemma slot_of_drop_count [simp]: "slot_of (drop_count c u) v i = slot_of c v i"
  by (simp add: slot_of_def)

lemma slot_of_realtime:
  "cl_wf c \<Longrightarrow> slot_of c u i = Some s \<Longrightarrow> cl_realtime c \<Longrightarrow> \<exists>n. s = SlotInt n \<and> 1 \<le> n"
  by (auto simp: slot_of_def slot_ok_def dest!: cl_wf_slot split: option.splits ip_slot.splits)

definition claimed_slot :: "bool \<Rightarrow> ip_slot option \<Rightarrow> ip_slot option" where
  "claimed_slot t old = (case old of
       None \<Rightarrow> Some (SlotInt (if t then 2 else 1))
     | Some (SlotInt n) \<Rightarrow> Some (SlotInt (if t then n + 2 else n))
     | Some s \<Rightarrow> Some s)"

definition released_slot :: "ip_slot option \<Rightarrow> ip_slot option" where
  "released_slot old = (case old of
       Some (SlotInt n) \<Rightarrow> if n \<le> 2 then None else Some (SlotInt (n - 2))
     | s \<Rightarrow> s)"

lemma claim_ip_slot:
  "claim_ip c u i t now = Some c' \<Longrightarrow> cl_realtime c \<Longrightarrow>
     slot_of c' v j = (if v = u \<and> j = i \<and> cl_ipLimit c \<noteq> 0
                       then claimed_slot t (slot_of c u i) else slot_of c v j)"
  by (auto simp: claim_ip_def existing_ips_def storeIPSlot_def claimed_slot_def slot_of_def
      split: option.splits ip_slot.splits if_splits)

lemma AddConnCount_slot:
  "AddConnCount c u i t now = Some (False, c') \<Longrightarrow> cl_realtime c \<Longrightarrow>
     slot_of c' v j = (if v = u \<and> j = i \<and> cl_ipLimit c \<noteq> 0
                       then claimed_slot t (slot_of c u i) else slot_of c v j)"
  using claim_ip_slot [of "bump_count c u t" u i t now c' v j] by (simp add: AddConnCount_admit)

lemma drop_ip_slot:
  "drop_ip c u i = Some c' \<Longrightarrow> cl_realtime c \<Longrightarrow>
     slot_of c' v j = (if v = u \<and> j = i \<and> cl_ipLimit c \<noteq> 0
                       then released_slot (slot_of c u i) else slot_of c v j)"
  by (auto simp: drop_ip_def Let_def slot_of_def released_slot_def set_ips_def
      split: option.splits ip_slot.splits if_splits)
    (metis map_of_delete map_of.simps(1))+

lemma DelConnCount_slot:
  "DelConnCount c u i = Some c' \<Longrightarrow> cl_realtime c \<Longrightarrow>
     slot_of c' v j = (if v = u \<and> j = i \<and> cl_ipLimit c \<noteq> 0
                       then released_slot (slot_of c u i) else slot_of c v j)"
  using drop_ip_slot [of "drop_count c u" u i c' v j] by (simp add: DelConnCount_def)

lemma DelConnCount_frame:
  "DelConnCount c u i = Some c' \<Longrightarrow> cl_realtime c' = cl_realtime c \<and>
     cl_ipLimit c' = cl_ipLimit c \<and> cl_connLimit c' = cl_connLimit c"
  by (auto simp: DelConnCount_def dest!: drop_ip_frame)

lemma DelConnCount_count:
  "DelConnCount c u i = Some c' \<Longrightarrow>
     mload (cl_count c') v =
       (if v = u \<and> cl_connLimit c \<noteq> 0
        then (case mload (cl_count c) u of Some n \<Rightarrow> if n \<le> 1 then None else Some (n - 1) | None \<Rightarrow> None)
        else mload (cl_count c) v)"
  by (auto simp: DelConnCount_def drop_count_def dest!: drop_ip_frame split: option.splits)

text \<open>A TCP connection that is admitted and then closed leaves no trace in realtime mode:
  the user's connection count and every address slot read as they did before.\<close>

lemma open_close_restores:
  assumes "cl_wf c" and "cl_realtime c" and pos: "\<forall>v n. mload (cl_count c) v = Some n \<longrightarrow> 1 \<le> n"
    and add: "AddConnCount c u i True now = Some (False, c1)"
  shows "\<exists>c2. DelConnCount c1 u i = Some c2 \<and>
     mload (cl_count c2) = mload (cl_count c) \<and> slot_of c2 = slot_of c"
proof -
  have wf1: "cl_wf c1" by (rule AddConnCount_wf [OF assms(1) add])
  then obtain c2 where del: "DelConnCount c1 u i = Some c2" using DelConnCount_total by blast
  note fr = AddConnCount_frame [OF add]
  have "mload (cl_count c2) v = mload (cl_count c) v" for v
  proof (cases "mload (cl_count c) v")
    case None
    then show ?thesis
      using DelConnCount_count [OF del, of v] AddConnCount_count [OF add, of v] fr by auto
  next
    case (Some n)
    with pos have "1 \<le> n" by blast
    with Some show ?thesis
      using DelConnCount_count [OF del, of v] AddConnCount_count [OF add, of v] fr by auto
  qed
  moreover have "slot_of c2 v j = slot_of c v j" for v j
  proof -
    have "slot_of c u i = None \<or> (\<exists>n. slot_of c u i = Some (SlotInt n) \<and> 1 \<le> n)"
      using assms(2) slot_of_realtime [OF assms(1)] by (cases "slot_of c u i") auto
    then show ?thesis
      using DelConnCount_slot [OF del, of v j] AddConnCount_slot [OF add] assms(2) fr
      by (auto simp: claimed_slot_def released_slot_def)
  qed
  ultimately show ?thesis using del by blast
qed

lemma open_close_restores_example:
  "\<exists>c1 c2. AddConnCount (NewConnLimiter 2 1 True) ''u'' ''1.1.1.1'' True 0 = Some (False, c1) \<and>
     DelConnCount c1 ''u'' ''1.1.1.1'' = Some c2 \<and>
     slot_of c2 = slot_of (NewConnLimiter 2 1 True)"
proof -
  let ?c = "NewConnLimiter 2 1 True"
  obtain c1 where c1: "AddConnCount ?c ''u'' ''1.1.1.1'' True 0 = Some (False, c1)"
    by (simp add: NewConnLimiter_def AddConnCount_def conn_full_def ip_full_def existing_ips_def
        claim_ip_def bump_count_def)
  have "cl_wf ?c" "cl_realtime ?c" "\<forall>v n. mload (cl_count ?c) v = Some n \<longrightarrow> 1 \<le> n"
    by (simp_all add: NewConnLimiter_def cl_wf_def)
  from open_close_restores [OF this c1] c1 show ?thesis by blast
qed

section \<open>Runs of the gate in realtime mode\<close>

record gate_sys =
  gs_lim :: ConnLimiter
  gs_open :: "(string \<times> string) list"

definition gate_init :: "int \<Rightarrow> int \<Rightarrow> gate_sys" where
  "gate_init conn ip = \<lparr>gs_lim = NewConnLimiter conn ip True, gs_open = []\<rparr>"

inductive gate_step :: "gate_sys \<Rightarrow> gate_sys \<Rightarrow> bool" where
  admit_tcp: "AddConnCount (gs_lim s) u i True now = Some (False, l') \<Longrightarrow>
     gate_step s \<lparr>gs_lim = l', gs_open = (u, i) # gs_open s\<rparr>"
| reject_tcp: "AddConnCount (gs_lim s) u i True now = Some (True, l') \<Longrightarrow>
     gate_step s \<lparr>gs_lim = l', gs_open = gs_open s\<rparr>"
| packet: "AddConnCount (gs_lim s) u i False now = Some (r, l') \<Longrightarrow>
     gate_step s \<lparr>gs_lim = l', gs_open = gs_open s\<rparr>"
| close_tcp: "(u, i) \<in> set (gs_open s) \<Longrightarrow> DelConnCount (gs_lim s) u i = Some l' \<Longrightarrow>
     gate_step s \<lparr>gs_lim = l', gs_open = remove1 (u, i) (gs_open s)\<rparr>"
| sweep: "gate_step s \<lparr>gs_lim = ClearOnlineIP (gs_lim s) now, gs_open = gs_open s\<rparr>"

inductive gate_reach :: "int \<Rightarrow> int \<Rightarrow> gate_sys \<Rightarrow> bool" for conn ip where
  start: "gate_reach conn ip (gate_init conn ip)"
| step: "gate_reach conn ip s \<Longrightarrow> gate_step s t \<Longrightarrow> gate_reach conn ip t"

definition open_of :: "(string \<times> string) list \<Rightarrow> string \<Rightarrow> nat" where
  "open_of xs u = length (filter (\<lambda>p. fst p = u) xs)"

lemma open_of_simps [simp]:
  "open_of [] u = 0" "open_of ((v, i) # xs) u = (if v = u then Suc (open_of xs u) else open_of xs u)"
  by (auto simp: open_of_def)

lemma open_of_pos: "(u, i) \<in> set xs \<Longrightarrow> 0 < open_of xs u"
  by (force simp: open_of_def filter_empty_conv)

lemma open_of_remove1:
  "(v, i) \<in> set xs \<Longrightarrow>
     open_of (remove1 (v, i) xs) u = (if u = v then open_of xs u - 1 else open_of xs u)"
proof (induction xs)
  case (Cons p xs)
  then show ?case using open_of_pos [of v i xs] by (cases p) auto
qed simp

text \<open>How the slot of a user's address reads the number of its open connections.\<close>

definition slot_counts :: "ip_slot option \<Rightarrow> nat \<Rightarrow> bool" where
  "slot_counts s k \<longleftrightarrow> (case s of
       None \<Rightarrow> k = 0
     | Some (SlotInt n) \<Rightarrow> 1 \<le> n \<and> n div 2 = int k
     | Some (SlotTime _) \<Rightarrow> False)"

lemma slot_counts_claim:
  "slot_counts s k \<Longrightarrow> slot_counts (claimed_slot t s) (if t then Suc k else k)"
  by (auto simp: slot_counts_def claimed_slot_def split: option.splits ip_slot.splits)

lemma slot_counts_release:
  "slot_counts s k \<Longrightarrow> 0 < k \<Longrightarrow> slot_counts (released_slot s) (k - 1)"
  by (auto simp: slot_counts_def released_slot_def split: option.splits ip_slot.splits)

definition gate_inv :: "gate_sys \<Rightarrow> bool" where
  "gate_inv s \<longleftrightarrow> cl_wf (gs_lim s) \<and> cl_realtime (gs_lim s) \<and>
     (cl_connLimit (gs_lim s) \<noteq> 0 \<longrightarrow>
        (\<forall>u. mload (cl_count (gs_lim s)) u =
           (if open_of (gs_open s) u = 0 then None else Some (int (open_of (gs_open s) u))))) \<and>
     (cl_ipLimit (gs_lim s) \<noteq> 0 \<longrightarrow>
        (\<forall>u i. slot_counts (slot_of (gs_lim s) u i) (count_list (gs_open s) (u, i))))"

lemma gate_inv_init: "gate_inv (gate_init conn ip)"
  by (auto simp: gate_inv_def gate_init_def NewConnLimiter_def cl_wf_def slot_of_def slot_counts_def)

lemma count_list_remove1:
  "count_list (remove1 x xs) y = (if x = y then count_list xs y - 1 else count_list xs y)"
  by (induction xs) (auto simp: count_list_0_iff)

lemma sweep_slot:
  assumes "cl_wf c" "cl_realtime c"
  shows "slot_of (ClearOnlineIP c now) u i =
    (case slot_of c u i of Some (SlotInt n) \<Rightarrow> if n = 1 then None else Some (SlotInt n) | s \<Rightarrow> s)"
proof (cases "mload (cl_ip c) u")
  case None
  then show ?thesis by (simp add: slot_of_def ClearOnlineIP_load [OF assms(1)])
next
  case (Some ips)
  from cl_wf_ips [OF assms(1) Some] have w: "mwf ips" by (simp add: ips_ok_def)
  have "\<And>s. mload ips i = Some s \<Longrightarrow> \<exists>n. s = SlotInt n"
    using cl_wf_slot [OF assms(1) Some] assms(2) by (fastforce simp: slot_ok_def split: ip_slot.splits)
  then show ?thesis
    using Some w
    by (auto simp: slot_of_def ClearOnlineIP_load [OF assms(1)] sweep_user_def mload_filter
        sweep_entry_def simp del: map_of_eq_Some_iff split: option.splits ip_slot.splits)
qed

lemma slot_counts_sweep:
  "slot_counts s k \<Longrightarrow>
     slot_counts (case s of Some (SlotInt n) \<Rightarrow> if n = 1 then None else Some (SlotInt n) | s \<Rightarrow> s) k"
  by (auto simp: slot_counts_def split: option.splits ip_slot.splits)

lemma gate_inv_claim:
  assumes inv: "gate_inv s" and add: "AddConnCount (gs_lim s) u i t now = Some (False, l')"
  shows "gate_inv \<lparr>gs_lim = l', gs_open = (if t then (u, i) # gs_open s else gs_open s)\<rparr>"
proof -
  note fr = AddConnCount_frame [OF add]
  have wf: "cl_wf l'" using inv add by (auto simp: gate_inv_def intro: AddConnCount_wf)
  have rt: "cl_realtime (gs_lim s)" using inv by (simp add: gate_inv_def)
  have sl: "slot_of l' v j = (if v = u \<and> j = i \<and> cl_ipLimit (gs_lim s) \<noteq> 0
      then claimed_slot t (slot_of (gs_lim s) u i) else slot_of (gs_lim s) v j)" for v j
    by (rule AddConnCount_slot [OF add rt])
  have "slot_counts (slot_of l' v j) (count_list (if t then (u, i) # gs_open s else gs_open s) (v, j))"
    if "cl_ipLimit (gs_lim s) \<noteq> 0" for v j
    using inv that slot_counts_claim [of "slot_of (gs_lim s) u i" "count_list (gs_open s) (u, i)" t]
    by (auto simp: sl gate_inv_def)
  with inv wf rt fr show ?thesis
    by (auto simp: gate_inv_def AddConnCount_count [OF add] split: option.splits)
qed

lemma sweep_frame [simp]:
  "cl_realtime (ClearOnlineIP c now) = cl_realtime c"
  "cl_ipLimit (ClearOnlineIP c now) = cl_ipLimit c"
  "cl_connLimit (ClearOnlineIP c now) = cl_connLimit c"
  "cl_count (ClearOnlineIP c now) = cl_count c"
  by (simp_all add: ClearOnlineIP_def)

text \<open>A property that admissions, closings and sweeps keep is kept by every step: a rejection leaves the
  limiter as it is, and a packet is an admission that opens nothing.\<close>

lemma gate_step_keeps:
  assumes step: "gate_step s t" and P: "P s"
    and admit: "\<And>u i tcp now l'. AddConnCount (gs_lim s) u i tcp now = Some (False, l') \<Longrightarrow>
      P \<lparr>gs_lim = l', gs_open = (if tcp then (u, i) # gs_open s else gs_open s)\<rparr>"
    and close: "\<And>u i l'. (u, i) \<in> set (gs_open s) \<Longrightarrow> DelConnCount (gs_lim s) u i = Some l' \<Longrightarrow>
      P \<lparr>gs_lim = l', gs_open = remove1 (u, i) (gs_open s)\<rparr>"
    and sweep: "\<And>now. P \<lparr>gs_lim = ClearOnlineIP (gs_lim s) now, gs_open = gs_open s\<rparr>"
  shows "P t"
proof -
  have rej: "P \<lparr>gs_lim = l', gs_open = gs_open s\<rparr>" if "AddConnCount (gs_lim s) u i tcp now = Some (True, l')" for u i tcp now l'
  proof -
    from that have "l' = gs_lim s" by (auto simp: AddConnCount_def split: if_splits option.splits)
    with P show ?thesis by (cases s) simp
  qed
  show ?thesis
    using step
  proof cases
    case (admit_tcp u i now l')
    with admit [OF admit_tcp(2)] show ?thesis by simp
  next
    case (packet u i now r l')
    with admit [of u i False now l'] rej [of u i False now l'] show ?thesis by (cases r) simp_all
  qed (use rej close sweep in auto)
qed

lemma gate_inv_close:
  assumes inv: "gate_inv s" and op: "(u, i) \<in> set (gs_open s)" and del: "DelConnCount (gs_lim s) u i = Some l'"
  shows "gate_inv \<lparr>gs_lim = l', gs_open = remove1 (u, i) (gs_open s)\<rparr>"
proof -
  let ?l = "gs_lim s"
  have rt: "cl_realtime ?l" and wf: "cl_wf ?l" using inv by (simp_all add: gate_inv_def)
  have k: "0 < count_list (gs_open s) (u, i)" using op by (simp add: count_list_0_iff neq0_conv [symmetric])
  have "slot_counts (slot_of l' v j) (count_list (remove1 (u, i) (gs_open s)) (v, j))"
    if "cl_ipLimit ?l \<noteq> 0" for v j
    using inv that slot_counts_release [OF _ k, of "slot_of ?l u i"]
    by (auto simp: DelConnCount_slot [OF del rt] gate_inv_def count_list_remove1)
  moreover have "mload (cl_count l') v =
      (if open_of (remove1 (u, i) (gs_open s)) v = 0 then None
       else Some (int (open_of (remove1 (u, i) (gs_open s)) v)))" if "cl_connLimit ?l \<noteq> 0" for v
    using inv that open_of_pos [OF op]
    by (auto simp: DelConnCount_count [OF del] gate_inv_def open_of_remove1 [OF op])
  ultimately show ?thesis
    using DelConnCount_frame [OF del] rt DelConnCount_wf [OF wf del] by (simp add: gate_inv_def)
qed

lemma gate_inv_sweep: "gate_inv s \<Longrightarrow> gate_inv \<lparr>gs_lim = ClearOnlineIP (gs_lim s) now, gs_open = gs_open s\<rparr>"
  by (auto simp: gate_inv_def sweep_slot intro: ClearOnlineIP_wf slot_counts_sweep)

lemma gate_step_inv: "gate_step s t \<Longrightarrow> gate_inv s \<Longrightarrow> gate_inv t"
  by (rule gate_step_keeps [where P = gate_inv]) (assumption | rule gate_inv_claim gate_inv_close gate_inv_sweep)+

lemma gate_reach_inv: "gate_reach conn ip s \<Longrightarrow> gate_inv s"
  by (induction rule: gate_reach.induct) (auto intro: gate_inv_init gate_step_inv)

section \<open>The caps hold in every run\<close>

definition gate_caps :: "gate_sys \<Rightarrow> bool" where
  "gate_caps s \<longleftrightarrow>
     (0 < cl_connLimit (gs_lim s) \<longrightarrow>
        (\<forall>u. int (open_of (gs_open s) u) \<le> cl_connLimit (gs_lim s))) \<and>
     (0 < cl_ipLimit (gs_lim s) \<longrightarrow>
        (\<forall>u ips. mload (cl_ip (gs_lim s)) u = Some ips \<longrightarrow> int (length ips) \<le> cl_ipLimit (gs_lim s)))"

lemma length_storeIPSlot:
  "mwf ips \<Longrightarrow> length (storeIPSlot c ips i t now) =
     (if mload ips i = None then Suc (length ips) else length ips)"
  by (cases "mload ips i") (simp_all add: storeIPSlot_def length_mstore)

lemma AddConnCount_lengths:
  assumes wf: "cl_wf c" and pos: "0 < cl_ipLimit c"
    and cap: "\<forall>v ips. mload (cl_ip c) v = Some ips \<longrightarrow> int (length ips) \<le> cl_ipLimit c"
    and add: "AddConnCount c u i t now = Some (False, c')"
  shows "mload (cl_ip c') v = Some ips' \<Longrightarrow> int (length ips') \<le> cl_ipLimit c"
proof -
  assume v: "mload (cl_ip c') v = Some ips'"
  have nf: "\<not> over_ip_cap c u i" and cl: "claim_ip (bump_count c u t) u i t now = Some c'"
    using add pos by (simp_all add: AddConnCount_admit ip_full_iff)
  show ?thesis
  proof (cases "mload (cl_ip c) u")
    case None
    with cl pos v cap show ?thesis
      by (auto simp: claim_ip_def existing_ips_def storeIPSlot_def split: if_splits)
  next
    case (Some ips)
    have w: "mwf ips" using cl_wf_ips [OF wf Some] by (simp add: ips_ok_def)
    have le: "int (length ips) \<le> cl_ipLimit c" using cap Some by blast
    have "mload ips i = None \<Longrightarrow> int (length ips) < cl_ipLimit c"
      using nf pos Some by (auto simp: over_ip_cap_def map_of_eq_None_iff)
    with cl pos v cap Some le w show ?thesis
      by (auto simp: claim_ip_def existing_ips_def length_storeIPSlot length_mstore
          simp del: map_of_eq_Some_iff split: if_splits option.splits ip_slot.splits)
  qed
qed

lemma DelConnCount_lengths:
  assumes wf: "cl_wf c" and del: "DelConnCount c u i = Some c'" and v: "mload (cl_ip c') v = Some ips'"
  shows "\<exists>ips. mload (cl_ip c) v = Some ips \<and> length ips' \<le> length ips"
proof -
  have st: "\<And>ips n. mload (cl_ip c) u = Some ips \<Longrightarrow> mload ips i = Some (SlotInt n) \<Longrightarrow>
      length (mstore ips i (SlotInt (n - 2))) = length ips"
    using cl_wf_ips [OF wf] by (simp add: ips_ok_def length_mstore del: map_of_eq_Some_iff)
  show ?thesis
    using del v st
    by (auto simp: DelConnCount_def drop_ip_def Let_def set_ips_def length_delete_le
        split: if_splits option.splits ip_slot.splits)
qed

lemma sweep_lengths:
  assumes "cl_wf c" "mload (cl_ip (ClearOnlineIP c now)) v = Some ips'"
  shows "\<exists>ips. mload (cl_ip c) v = Some ips \<and> length ips' \<le> length ips"
  using assms by (auto simp: ClearOnlineIP_load sweep_user_def split: option.splits if_splits)

lemma gate_caps_claim:
  assumes inv: "gate_inv s" and caps: "gate_caps s"
    and add: "AddConnCount (gs_lim s) u i t now = Some (False, l')"
  shows "gate_caps \<lparr>gs_lim = l', gs_open = (if t then (u, i) # gs_open s else gs_open s)\<rparr>"
proof -
  note fr = AddConnCount_frame [OF add]
  have "int (open_of (gs_open s) u) < cl_connLimit (gs_lim s)" if "0 < cl_connLimit (gs_lim s)"
    using add that inv
    by (auto simp: AddConnCount_admit conn_full_iff over_conn_cap_def gate_inv_def split: if_splits)
  moreover have "int (length ips) \<le> cl_ipLimit l'" if "mload (cl_ip l') v = Some ips" "0 < cl_ipLimit l'"
    for v ips
    using AddConnCount_lengths [OF _ _ _ add that(1)] inv caps that(2) fr
    by (simp add: gate_inv_def gate_caps_def)
  ultimately show ?thesis using caps fr by (auto simp: gate_caps_def)
qed

lemma gate_caps_close:
  assumes inv: "gate_inv s" and caps: "gate_caps s"
    and op: "(u, i) \<in> set (gs_open s)" and del: "DelConnCount (gs_lim s) u i = Some l'"
  shows "gate_caps \<lparr>gs_lim = l', gs_open = remove1 (u, i) (gs_open s)\<rparr>"
proof -
  have wf: "cl_wf (gs_lim s)" using inv by (simp add: gate_inv_def)
  have "int (open_of (remove1 (u, i) (gs_open s)) v) \<le> cl_connLimit (gs_lim s)"
    if "0 < cl_connLimit (gs_lim s)" for v
  proof -
    have "int (open_of (gs_open s) v) \<le> cl_connLimit (gs_lim s)" using caps that by (simp add: gate_caps_def)
    moreover have "open_of (remove1 (u, i) (gs_open s)) v \<le> open_of (gs_open s) v" by (simp add: open_of_remove1 [OF op])
    ultimately show ?thesis by linarith
  qed
  moreover have "int (length ips') \<le> cl_ipLimit (gs_lim s)"
    if "mload (cl_ip l') v = Some ips'" "0 < cl_ipLimit (gs_lim s)" for v ips'
    using DelConnCount_lengths [OF wf del that(1)] caps that(2)
    unfolding gate_caps_def by (meson of_nat_le_iff order_trans)
  ultimately show ?thesis using DelConnCount_frame [OF del] by (simp add: gate_caps_def)
qed

lemma gate_caps_sweep:
  assumes inv: "gate_inv s" and caps: "gate_caps s"
  shows "gate_caps \<lparr>gs_lim = ClearOnlineIP (gs_lim s) now, gs_open = gs_open s\<rparr>"
proof -
  have wf: "cl_wf (gs_lim s)" using inv by (simp add: gate_inv_def)
  have "int (length ips') \<le> cl_ipLimit (gs_lim s)"
    if "mload (cl_ip (ClearOnlineIP (gs_lim s) now)) v = Some ips'" "0 < cl_ipLimit (gs_lim s)" for v ips'
    using sweep_lengths [OF wf that(1)] caps that(2)
    unfolding gate_caps_def by (meson of_nat_le_iff order_trans)
  with caps show ?thesis by (simp add: gate_caps_def)
qed

lemma gate_step_caps: "gate_step s t \<Longrightarrow> gate_inv s \<Longrightarrow> gate_caps s \<Longrightarrow> gate_caps t"
  by (rule gate_step_keeps [where P = gate_caps]) (assumption | rule gate_caps_claim gate_caps_close gate_caps_sweep)+

lemma gate_reach_caps: "gate_reach conn ip s \<Longrightarrow> gate_caps s"
proof (induction rule: gate_reach.induct)
  case start
  show ?case by (simp add: gate_caps_def gate_init_def NewConnLimiter_def)
next
  case (step s t)
  then show ?case by (blast intro: gate_step_caps gate_reach_inv)
qed

lemma gate_step_config:
  "gate_step s t \<Longrightarrow> cl_connLimit (gs_lim t) = cl_connLimit (gs_lim s) \<and>
     cl_ipLimit (gs_lim t) = cl_ipLimit (gs_lim s)"
  by (induction rule: gate_step.induct) (auto dest: AddConnCount_frame DelConnCount_frame)

lemma gate_reach_config:
  "gate_reach conn ip s \<Longrightarrow> cl_connLimit (gs_lim s) = conn \<and> cl_ipLimit (gs_lim s) = ip"
  by (induction rule: gate_reach.induct)
    (auto simp: gate_init_def NewConnLimiter_def dest: gate_step_config)



text \<open>Closing a session makes room for another one of the same user and address.\<close>

lemma room_after_close:
  assumes reach: "gate_reach conn ip s" and "0 < ip" and op: "(u, i) \<in> set (gs_open s)"
    and del: "DelConnCount (gs_lim s) u i = Some l'" and lim: "cl_ipLimit l' = ip"
  shows "\<not> over_ip_cap l' u i"
proof
  let ?c = "gs_lim s"
  have inv: "gate_inv s" and caps: "gate_caps s" and cf: "cl_ipLimit ?c = ip"
    using gate_reach_inv gate_reach_caps gate_reach_config reach by auto
  assume ov: "over_ip_cap l' u i"
  then obtain ips' where ips': "mload (cl_ip l') u = Some ips'" "i \<notin> set (mkeys ips')"
    "ip \<le> int (length ips')" using lim by (auto simp: over_ip_cap_def)
  have "slot_of ?c u i \<noteq> None"
    using inv cf assms(2) op by (auto simp: gate_inv_def slot_counts_def count_list_0_iff split: option.splits)
  then obtain ips where ips: "mload (cl_ip ?c) u = Some ips" "mload ips i \<noteq> None"
    by (auto simp: slot_of_def split: option.splits)
  have "length (mdelete ips i) < length ips" by (rule length_mdelete [OF ips(2)])
  then have "length ips' < length ips"
    using del ips ips' cf assms(2)
    by (auto simp: DelConnCount_def drop_ip_def Let_def set_ips_def dom_update
        split: if_splits option.splits ip_slot.splits)
  moreover have "int (length ips) \<le> ip" using caps cf assms(2) ips(1) by (simp add: gate_caps_def)
  ultimately show False using ips'(3) by linarith
qed

text \<open>In every run in realtime mode the gate is never stuck and never wedged: an open
  connection can always be closed without a panic, and once it is closed the same user is admitted
  again from the same address, even if the user was at its caps before.\<close>

lemma gate_slot_reusable:
  assumes "gate_reach conn ip s" and "0 < conn" and "0 < ip" and op: "(u, i) \<in> set (gs_open s)"
  shows "\<exists>l' l''. DelConnCount (gs_lim s) u i = Some l' \<and>
     AddConnCount l' u i True now = Some (False, l'')"
proof -
  let ?c = "gs_lim s"
  have caps: "gate_caps s" and wf: "cl_wf ?c" and cf: "cl_connLimit ?c = conn"
    using gate_reach_inv gate_reach_caps gate_reach_config assms(1) by (auto simp: gate_inv_def)
  obtain l' where del: "DelConnCount ?c u i = Some l'" using DelConnCount_total [OF wf] by blast
  have wf': "cl_wf l'" by (rule DelConnCount_wf [OF wf del])
  have reach: "gate_reach conn ip \<lparr>gs_lim = l', gs_open = remove1 (u, i) (gs_open s)\<rparr>"
    by (rule gate_reach.step [OF assms(1) gate_step.close_tcp [OF op del]])
  have lim: "cl_connLimit l' = conn" "cl_ipLimit l' = ip" using gate_reach_config [OF reach] by auto
  have "int (open_of (gs_open s) u) \<le> conn" "0 < open_of (gs_open s) u"
    using caps cf assms(2) open_of_pos [OF op] by (auto simp: gate_caps_def)
  then have "int (open_of (remove1 (u, i) (gs_open s)) u) < conn" by (simp add: open_of_remove1 [OF op])
  then have "\<not> over_conn_cap l' u"
    using gate_reach_inv [OF reach] lim assms(2) by (auto simp: over_conn_cap_def gate_inv_def split: if_splits)
  with room_after_close [OF assms(1,3) op del lim(2)] show ?thesis
    using AddConnCount_decides [OF wf', of u i True now] lim assms(3) del by auto
qed

lemma gate_slot_reusable_example:
  "\<exists>l l' l''. AddConnCount (NewConnLimiter 1 1 True) ''u'' ''1.1.1.1'' True 0 = Some (False, l) \<and>
     DelConnCount l ''u'' ''1.1.1.1'' = Some l' \<and>
     AddConnCount l' ''u'' ''1.1.1.1'' True 9 = Some (False, l'')"
proof -
  obtain l where l: "AddConnCount (gs_lim (gate_init 1 1)) ''u'' ''1.1.1.1'' True 0 = Some (False, l)"
    by (simp add: gate_init_def NewConnLimiter_def AddConnCount_def conn_full_def ip_full_def
        existing_ips_def claim_ip_def bump_count_def)
  have "gate_reach 1 1 \<lparr>gs_lim = l, gs_open = (''u'', ''1.1.1.1'') # gs_open (gate_init 1 1)\<rparr>"
    by (rule gate_reach.step [OF gate_reach.start gate_step.admit_tcp [OF l]])
  from gate_slot_reusable [OF this, of "''u''" "''1.1.1.1''" 9] l show ?thesis
    by (simp add: gate_init_def)
qed

end
