(* ===== verification/CheckLimits.thy ===== *)
theory CheckLimits
  imports LimiterProps ConnGate
begin

text \<open>
  The admission decision of \<open>Limiter.CheckLimit\<close> as a whole, the online report drawn from it, and
  the interplay of its parts: which rejections leave a claimed connection behind, what an expired
  dynamic limit does, and what a release with an untrimmed address does.
\<close>

section \<open>The decision\<close>

definition device_blocked :: "Limiter \<Rightarrow> string \<Rightarrow> string \<Rightarrow> UserLimitInfo \<Rightarrow> bool" where
  "device_blocked l t ip u \<longleftrightarrow>
     0 < ul_DeviceLimit u \<and> ul_DeviceLimit u \<le> Alive_Get (lm_AliveList l) (ul_UID u) \<and>
     (case mload (lm_UserOnlineIP l) t of
        Some ipMap \<Rightarrow> mload ipMap ip = None
      | None \<Rightarrow> Old_Load (lm_OldUserOnline l) ip = None)"

definition trimmed :: "string \<Rightarrow> string" where
  "trimmed raw = TrimPrefix raw ''::ffff:''"

lemma check_user_None: "check_user l t now = None \<longleftrightarrow> mload (lm_UserLimitInfo l) t = None"
  by (auto simp: check_user_def split: option.splits)

lemma check_user_Some:
  "check_user l t now = Some (l1, ulim, dev, uid) \<Longrightarrow> \<exists>u. mload (lm_UserLimitInfo l) t = Some u \<and>
     dev = ul_DeviceLimit u \<and> uid = ul_UID u \<and> lm_AliveList l1 = lm_AliveList l \<and>
     lm_UserOnlineIP l1 = lm_UserOnlineIP l \<and> lm_OldUserOnline l1 = lm_OldUserOnline l \<and>
     lm_SpeedLimiter l1 = lm_SpeedLimiter l \<and> lm_SpeedLimit l1 = lm_SpeedLimit l \<and>
     lm_ConnLimiter l1 = lm_ConnLimiter l"
  by (auto simp: check_user_def split: option.splits if_splits)

lemma check_device_reject:
  "fst (check_device l t ip (ul_UID u) (ul_DeviceLimit u)) \<longleftrightarrow> device_blocked l t ip u"
  by (auto simp: check_device_def device_blocked_def Let_def split: option.splits)

lemma check_device_frame:
  "check_device l t ip uid dev = (r, l') \<Longrightarrow> lm_UserLimitInfo l' = lm_UserLimitInfo l \<and>
     lm_SpeedLimiter l' = lm_SpeedLimiter l \<and> lm_SpeedLimit l' = lm_SpeedLimit l \<and>
     lm_ConnLimiter l' = lm_ConnLimiter l"
  by (auto simp: check_device_def Let_def split: option.splits if_splits)

lemma check_bucket_frame:
  "check_bucket l t ulim = (b, l') \<Longrightarrow> lm_UserLimitInfo l' = lm_UserLimitInfo l \<and>
     lm_ConnLimiter l' = lm_ConnLimiter l \<and> lm_UserOnlineIP l' = lm_UserOnlineIP l"
  by (auto simp: check_bucket_def Let_def split: option.splits if_splits)

lemma device_blocked_cong:
  "lm_AliveList l1 = lm_AliveList l \<Longrightarrow> lm_UserOnlineIP l1 = lm_UserOnlineIP l \<Longrightarrow>
     lm_OldUserOnline l1 = lm_OldUserOnline l \<Longrightarrow> device_blocked l1 t ip u = device_blocked l t ip u"
  by (simp add: device_blocked_def split: option.splits)

lemma CheckLimit_decides:
  assumes wf: "cl_wf (lm_ConnLimiter l)" and ipl: "0 \<le> cl_ipLimit (lm_ConnLimiter l)"
  shows "\<exists>b r l'. CheckLimit l t raw isTcp noSSUDP now = Some ((b, r), l') \<and>
    (r \<longleftrightarrow> over_conn_cap (lm_ConnLimiter l) t \<or> over_ip_cap (lm_ConnLimiter l) t (trimmed raw) \<or>
      (case mload (lm_UserLimitInfo l) t of
         None \<Rightarrow> True
       | Some u \<Rightarrow> noSSUDP \<and> device_blocked l t (trimmed raw) u))"
proof -
  let ?c = "lm_ConnLimiter l" and ?ip = "TrimPrefix raw ''::ffff:''"
  let ?over = "over_conn_cap ?c t \<or> over_ip_cap ?c t ?ip"
  obtain cl where add: "AddConnCount ?c t ?ip isTcp now = Some (?over, cl)"
    using AddConnCount_decides [OF wf ipl, of t ?ip isTcp now] by blast
  show ?thesis
  proof (cases ?over)
    case True
    with add have "AddConnCount ?c t ?ip isTcp now = Some (True, cl)" by simp
    then have "CheckLimit l t raw isTcp noSSUDP now = Some ((None, True), l\<lparr>lm_ConnLimiter := cl\<rparr>)"
      by (simp add: CheckLimit_def)
    with True show ?thesis unfolding trimmed_def by blast
  next
    case False
    with add have add': "AddConnCount ?c t ?ip isTcp now = Some (False, cl)" by simp
    let ?l = "l\<lparr>lm_ConnLimiter := cl\<rparr>"
    show ?thesis
    proof (cases "check_user ?l t now")
      case None
      then have "mload (lm_UserLimitInfo l) t = None" by (simp add: check_user_None)
      then show ?thesis using add' None False by (auto simp: CheckLimit_def trimmed_def)
    next
      case (Some r)
      obtain l1 ulim dev uid where r: "r = (l1, ulim, dev, uid)" by (metis prod_cases4)
      from check_user_Some [OF Some [unfolded r]] obtain u
        where u: "mload (lm_UserLimitInfo l) t = Some u" "dev = ul_DeviceLimit u" "uid = ul_UID u"
          and fr: "lm_AliveList l1 = lm_AliveList l" "lm_UserOnlineIP l1 = lm_UserOnlineIP l"
            "lm_OldUserOnline l1 = lm_OldUserOnline l"
        by auto
      have db: "fst (check_device l1 t ?ip uid dev) = device_blocked l t ?ip u"
        using check_device_reject [of l1 t ?ip u] device_blocked_cong [OF fr] u by simp
      show ?thesis
        using add' Some r u db False
        by (cases "check_device l1 t ?ip uid dev"; cases "fst (check_device l1 t ?ip uid dev)"; cases noSSUDP)
          (auto simp: CheckLimit_def trimmed_def split: prod.splits)
    qed
  qed
qed

text \<open>C3: Whether a connection is admitted. \<open>CheckLimit\<close> never panics on a well-formed limiter and
  rejects exactly when the user is at its TCP connection cap, is at its address cap from a new
  address, is not in the limiter's user list, or (for a session with a source address to check) is
  at its device limit from an address it is not known to be online from. The address that counts
  is the one without the IPv4-mapped prefix.\<close>

theorem CheckLimit_rejects_iff:
  assumes wf: "cl_wf (lm_ConnLimiter l)" and ipl: "0 \<le> cl_ipLimit (lm_ConnLimiter l)"
  shows "\<exists>b r l'. CheckLimit l t raw isTcp noSSUDP now = Some ((b, r), l') \<and>
    (r \<longleftrightarrow> over_conn_cap (lm_ConnLimiter l) t \<or> over_ip_cap (lm_ConnLimiter l) t (trimmed raw) \<or>
      (case mload (lm_UserLimitInfo l) t of
         None \<Rightarrow> True
       | Some u \<Rightarrow> noSSUDP \<and> device_blocked l t (trimmed raw) u))"
  by (rule CheckLimit_decides [OF assms])

definition demo_config :: LimitConfig where
  "demo_config = \<lparr>lc_EnableRealtime = True, lc_SpeedLimit = 0, lc_IPLimit = 2, lc_ConnLimit = 2,
     lc_EnableDynamicSpeedLimit = False, lc_DynamicSpeedLimitConfig = None,
     lc_MaxReportFailureRollbacks = 0\<rparr>"

definition demo_limiter :: Limiter where
  "demo_limiter = new_limiter ''xray|n'' demo_config
     [\<lparr>u_Id = 1, u_Uuid = ''a'', u_SpeedLimit = 8, u_DeviceLimit = 1\<rparr>] [(1, 1)]"

lemma demo_limiter_conn [simp]: "lm_ConnLimiter demo_limiter = NewConnLimiter 2 2 True"
  by (simp add: demo_limiter_def new_limiter_def demo_config_def)

theorem CheckLimit_rejects_iff_witness:
  "\<exists>b l'. CheckLimit demo_limiter ''xray|n|b'' ''1.1.1.1'' True True 0 = Some ((b, True), l')"
  using CheckLimit_rejects_iff [of demo_limiter "''xray|n|b''" "''1.1.1.1''" True True 0]
  by (auto simp: demo_limiter_def new_limiter_def demo_config_def NewConnLimiter_def
      cl_wf_def UserTag_def)

section \<open>The bucket\<close>

lemma CheckLimit_admitD:
  assumes "CheckLimit l t raw isTcp noSSUDP now = Some ((b, False), l')"
  shows "\<exists>cl l1 ulim dev uid l2.
     AddConnCount (lm_ConnLimiter l) t (TrimPrefix raw ''::ffff:'') isTcp now = Some (False, cl) \<and>
     check_user (l\<lparr>lm_ConnLimiter := cl\<rparr>) t now = Some (l1, ulim, dev, uid) \<and>
     (if noSSUDP then check_device l1 t (TrimPrefix raw ''::ffff:'') uid dev = (False, l2) else l2 = l1) \<and>
     check_bucket l2 t ulim = (b, l')"
  using assms
  by (auto simp: CheckLimit_def Let_def split: option.splits prod.splits bool.splits if_splits)

text \<open>The speed limit an admitted connection gets. When the user's entry has not expired and
  no bucket is cached for it, the bucket has the smaller non-zero one of the node limit and the
  user's own limits, in bytes per second (125000 per Mbit), and none is created when nothing limits
  the user; the bucket is cached. A bucket cached earlier is returned unchanged, whatever the limits
  say by then.\<close>

lemma CheckLimit_bucket:
  assumes adm: "CheckLimit l t raw isTcp noSSUDP now = Some ((b, False), l')"
    and u: "mload (lm_UserLimitInfo l) t = Some u"
    and live: "ul_ExpireTime u = 0 \<or> unix now \<le> ul_ExpireTime u"
  shows "let d = determineSpeedLimit (lm_SpeedLimit l)
               (determineSpeedLimit (ul_SpeedLimit u) (ul_DynamicSpeedLimit u))
         in (0 \<le> d \<and> d \<le> 9000000000000 \<longrightarrow>
               b = (if d = 0 then None
                    else case mload (lm_SpeedLimiter l) t of
                        None \<Rightarrow> Some (Bucket (d * 125000)) | Some old \<Rightarrow> Some old))
          \<and> (b \<noteq> None \<longrightarrow> mload (lm_SpeedLimiter l') t = b)"
proof -
  from CheckLimit_admitD [OF adm] obtain cl l1 ulim dev uid l2
    where cu: "check_user (l\<lparr>lm_ConnLimiter := cl\<rparr>) t now = Some (l1, ulim, dev, uid)"
      and cd: "if noSSUDP then check_device l1 t (TrimPrefix raw ''::ffff:'') uid dev = (False, l2)
        else l2 = l1"
      and cb: "check_bucket l2 t ulim = (b, l')"
    by blast
  have ulim: "ulim = determineSpeedLimit (ul_SpeedLimit u) (ul_DynamicSpeedLimit u)"
    using cu u live by (auto simp: check_user_def split: if_splits)
  have fr: "lm_SpeedLimiter l2 = lm_SpeedLimiter l" "lm_SpeedLimit l2 = lm_SpeedLimit l"
    using cd check_device_frame check_user_Some [OF cu] by (fastforce split: if_splits)+
  have cb': "check_bucket l2 t ulim = (b, l')" by (rule cb)
  show ?thesis
  proof (cases "mload (lm_SpeedLimiter l) t")
    case None
    with cb' show ?thesis
      by (auto simp: check_bucket_def Let_def fr ulim speed_bytes_exact split: if_splits)
  next
    case (Some old)
    with cb' fr have "l' = l2" by (auto simp: check_bucket_def Let_def split: if_splits)
    with cb' Some show ?thesis
      by (auto simp: check_bucket_def Let_def fr ulim speed_bytes_exact split: if_splits)
  qed
qed

lemma CheckLimit_bucket_example:
  "\<exists>l'. CheckLimit demo_limiter ''xray|n|a'' ''1.1.1.1'' True False 0
     = Some ((Some (Bucket 1000000), False), l')"
proof -
  let ?u = "\<lparr>ul_UID = 1, ul_SpeedLimit = 8, ul_DeviceLimit = 1, ul_DynamicSpeedLimit = 0,
     ul_ExpireTime = 0, ul_OverLimit = False\<rparr>"
  have u: "mload (lm_UserLimitInfo demo_limiter) ''xray|n|a'' = Some ?u"
    by (simp add: demo_limiter_def new_limiter_def demo_config_def UserTag_def user_limit_info_def)
  have "cl_wf (lm_ConnLimiter demo_limiter)" "0 \<le> cl_ipLimit (lm_ConnLimiter demo_limiter)"
    by (simp_all add: NewConnLimiter_def cl_wf_def)
  from CheckLimit_decides [OF this, of "''xray|n|a''" "''1.1.1.1''" True False 0] u
  obtain b l' where r: "CheckLimit demo_limiter ''xray|n|a'' ''1.1.1.1'' True False 0 = Some ((b, False), l')"
    by (auto simp: over_conn_cap_def over_ip_cap_def NewConnLimiter_def)
  have "lm_SpeedLimit demo_limiter = 0" "lm_SpeedLimiter demo_limiter = []"
    by (simp_all add: demo_limiter_def new_limiter_def demo_config_def)
  with CheckLimit_bucket [OF r u] have "b = Some (Bucket 1000000)"
    by (simp add: determineSpeedLimit_def)
  with r show ?thesis by blast
qed

section \<open>Where the parts meet\<close>

text \<open>An expired dynamic limit of a user without a limit of its own removes the user. The
  first connection after the expiry is admitted, without any limit from the user's entry, and drops
  the entry; from then on every connection of the user is rejected until a user update adds it
  again.\<close>

lemma expired_dynamic_limit_locks_out:
  assumes adm: "CheckLimit l t raw isTcp noSSUDP now = Some ((b, False), l')"
    and u: "mload (lm_UserLimitInfo l) t = Some u"
    and exp: "ul_ExpireTime u \<noteq> 0" "ul_ExpireTime u < unix now" and "ul_SpeedLimit u = 0"
    and later: "CheckLimit l' t raw' isTcp' noSSUDP' now' = Some ((b', r'), l'')"
  shows "r' \<and> b' = None"
proof -
  from CheckLimit_admitD [OF adm] obtain cl l1 ulim dev uid l2
    where cu: "check_user (l\<lparr>lm_ConnLimiter := cl\<rparr>) t now = Some (l1, ulim, dev, uid)"
      and cd: "if noSSUDP then check_device l1 t (TrimPrefix raw ''::ffff:'') uid dev = (False, l2)
        else l2 = l1"
      and cb: "check_bucket l2 t ulim = (b, l')"
    by blast
  have "mload (lm_UserLimitInfo l1) t = None"
    using cu u exp assms(5) by (auto simp: check_user_def)
  then have "mload (lm_UserLimitInfo l') t = None"
    using cd check_device_frame check_bucket_frame [OF cb] by (fastforce split: if_splits)
  then have none: "check_user (l'\<lparr>lm_ConnLimiter := cl'\<rparr>) t now' = None" for cl'
    by (simp add: check_user_None)
  show ?thesis
    using later by (auto simp: CheckLimit_def Let_def none split: option.splits prod.splits bool.splits)
qed

definition throttled_limiter :: Limiter where
  "throttled_limiter = fst (UpdateDynamicSpeedLimit
     (new_limiter ''xray|n'' demo_config [\<lparr>u_Id = 1, u_Uuid = ''a'', u_SpeedLimit = 0, u_DeviceLimit = 0\<rparr>] [])
     ''xray|n'' ''a'' 5 60000000000)"

lemma expired_dynamic_limit_locks_out_example:
  "\<exists>b l1 b' l2. CheckLimit throttled_limiter ''xray|n|a'' ''1.1.1.1'' True True 120000000000
       = Some ((b, False), l1) \<and>
     CheckLimit l1 ''xray|n|a'' ''1.1.1.1'' True True 120000000000 = Some ((b', True), l2)"
proof -
  let ?u = "\<lparr>ul_UID = 1, ul_SpeedLimit = 0, ul_DeviceLimit = 0, ul_DynamicSpeedLimit = 5,
     ul_ExpireTime = 60, ul_OverLimit = False\<rparr>"
  let ?n = "120000000000 :: int"
  have u: "mload (lm_UserLimitInfo throttled_limiter) ''xray|n|a'' = Some ?u"
    by (simp add: throttled_limiter_def UpdateDynamicSpeedLimit_def new_limiter_def demo_config_def
        UserTag_def user_limit_info_def unix_def)
  have c: "lm_ConnLimiter throttled_limiter = NewConnLimiter 2 2 True"
    by (simp add: throttled_limiter_def UpdateDynamicSpeedLimit_def new_limiter_def demo_config_def
        UserTag_def)
  have wf: "cl_wf (lm_ConnLimiter throttled_limiter)" "0 \<le> cl_ipLimit (lm_ConnLimiter throttled_limiter)"
    by (simp_all add: c NewConnLimiter_def cl_wf_def)
  from CheckLimit_decides [OF wf, of "''xray|n|a''" "''1.1.1.1''" True True ?n] u
  obtain b l1 where r1: "CheckLimit throttled_limiter ''xray|n|a'' ''1.1.1.1'' True True ?n
      = Some ((b, False), l1)"
    by (auto simp: c over_conn_cap_def over_ip_cap_def NewConnLimiter_def device_blocked_def)
  from CheckLimit_admitD [OF r1] obtain cl where
    a: "AddConnCount (lm_ConnLimiter throttled_limiter) ''xray|n|a'' (TrimPrefix ''1.1.1.1'' ''::ffff:'')
      True ?n = Some (False, cl)" and "lm_ConnLimiter l1 = cl"
    using check_user_Some check_device_frame check_bucket_frame by fastforce
  with wf have wf1: "cl_wf (lm_ConnLimiter l1)" "0 \<le> cl_ipLimit (lm_ConnLimiter l1)"
    using AddConnCount_wf [OF wf(1) a] AddConnCount_frame [OF a] by simp_all
  from CheckLimit_decides [OF wf1, of "''xray|n|a''" "''1.1.1.1''" True True ?n]
  obtain b' r' l2 where r2: "CheckLimit l1 ''xray|n|a'' ''1.1.1.1'' True True ?n = Some ((b', r'), l2)"
    by blast
  from expired_dynamic_limit_locks_out [OF r1 u _ _ _ r2] have r' by (simp add: unix_def)
  with r2 have "CheckLimit l1 ''xray|n|a'' ''1.1.1.1'' True True ?n = Some ((b', True), l2)" by simp
  with r1 show ?thesis by blast
qed

end
