(* ===== verification/Reload.thy ===== *)
theory Reload
  imports ControllerProps CheckLimits
begin

text \<open>
  \<open>node/reload.go\<close>, and of \<open>node/user.go\<close> and \<open>node/task.go\<close> what the periodic node monitor runs: the
  comparison of user lists, the incremental user update, the reload of a changed node description
  with its rollback, the adjustment of the two poll intervals, and the speed checker.
\<close>

section \<open>Comparing user lists\<close>

definition userKey :: "UserInfo \<Rightarrow> string" where
  "userKey u = u_Uuid u @ ''|'' @ Itoa (u_SpeedLimit u) @ ''|'' @ Itoa (u_DeviceLimit u)"

fun index_users :: "UserInfo list \<Rightarrow> nat \<Rightarrow> (string, nat) gomap \<Rightarrow> (string, nat) gomap" where
  "index_users [] i m = m"
| "index_users (u # us) i m = index_users us (Suc i) (mstore m (userKey u) i)"

fun match_users :: "UserInfo list \<Rightarrow> (string, nat) gomap \<Rightarrow> UserInfo list \<Rightarrow> (string, nat) gomap \<times> UserInfo list" where
  "match_users [] m added = (m, added)"
| "match_users (u # us) m added =
     (if mload m (userKey u) = None then match_users us m (added @ [u])
      else match_users us (mdelete m (userKey u)) added)"

text \<open>The result is \<open>(deleted, added)\<close>.\<close>

definition compareUserList :: "UserInfo list \<Rightarrow> UserInfo list \<Rightarrow> UserInfo list \<times> UserInfo list" where
  "compareUserList old new =
    (case match_users new (index_users old 0 []) [] of
       (m, added) \<Rightarrow> (map (\<lambda>(k, idx). old ! idx) m, added))"

section \<open>Reloading\<close>

record controllerSnapshot =
  sn_runtimeKey :: string
  sn_logicalTag :: string
  sn_info :: "NodeInfo option"
  sn_userList :: "UserInfo list"
  sn_aliveMap :: "(int, int) gomap"
  sn_limiter :: "nat option"

definition snapshot :: "Controller \<Rightarrow> controllerSnapshot" where
  "snapshot c = \<lparr>sn_runtimeKey = ct_runtimeKey c, sn_logicalTag = ct_logicalTag c, sn_info = ct_info c,
     sn_userList = ct_userList c, sn_aliveMap = ct_aliveMap c, sn_limiter = ct_limiter c\<rparr>"

text \<open>The tag and the runtime key the new description will run under.\<close>

definition reload_ids :: "Controller \<Rightarrow> NodeInfo \<Rightarrow> string \<times> string" where
  "reload_ids c newN =
    (if op_Name (ct_options c) = ''''
     then (let tag = buildNodeTag (ct_api c) newN in (tag, RuntimeKey (ct_coreType c) tag))
     else (ct_logicalTag c, ct_runtimeKey c))"

text \<open>Layer 1. The result is whether the reload goes on.\<close>

definition reload_prevalidate :: "'c env \<Rightarrow> NodeInfo \<Rightarrow> 'c cstate \<Rightarrow> bool outcome \<times> 'c cstate" where
  "reload_prevalidate E newN s = (case s of (w, c) \<Rightarrow>
     (let specs = (\<lambda>w. case listenerSpecsFor newN (op_ListenIP (ct_options c)) of
            Ret _ \<Rightarrow> (Ret True, w, c) | Fail _ \<Rightarrow> (Ret False, w, c) | Panic \<Rightarrow> (Panic, w, c))
      in case protocolSecurity newN of
           Panic \<Rightarrow> (Panic, s) | Fail e \<Rightarrow> (Fail e, s)
         | Ret sec \<Rightarrow>
             if needsCert sec \<and> op_CertConfig (ct_options c) \<noteq> None then
               (case EnsureCertificate (ev_cert E) (op_CertConfig (ct_options c)) (ev_userPath E) (wd_cert w) of
                  (Ret _, st) \<Rightarrow> specs (w\<lparr>wd_cert := st\<rparr>)
                | (Fail _, st) \<Rightarrow> (Ret False, w\<lparr>wd_cert := st\<rparr>, c)
                | (Panic, st) \<Rightarrow> (Panic, w\<lparr>wd_cert := st\<rparr>, c))
             else specs w))"

text \<open>The limiter registry entry moves only when the tag changes.\<close>

definition reload_limiter ::
  "string \<Rightarrow> controllerSnapshot \<Rightarrow> UserInfo list \<Rightarrow> (int, int) gomap \<Rightarrow> 'c cstate \<Rightarrow> nat option \<times> 'c world" where
  "reload_limiter newTag old newU newA s = (case s of (w, c) \<Rightarrow>
     if newTag \<noteq> sn_logicalTag old then
       (case AddLimiter (ct_coreType c) newTag (op_LimitConfig (ct_options c)) newU newA
              (DeleteLimiter (ct_coreType c) (sn_logicalTag old) (wd_lim w)) of
          (a, lw) \<Rightarrow> (Some a, w\<lparr>wd_lim := lw\<rparr>))
     else (sn_limiter old, w))"

text \<open>The rollback closure. A nil \<open>info\<close> is dereferenced by the core.\<close>

definition reload_rollback :: "'c env \<Rightarrow> controllerSnapshot \<Rightarrow> string \<Rightarrow> 'c cstate \<Rightarrow> unit outcome \<times> 'c cstate" where
  "reload_rollback E old newTag s = (case s of (w0, c0) \<Rightarrow>
     (let (w, c) = (if newTag \<noteq> sn_logicalTag old then
            (case AddLimiter (ct_coreType c0) (sn_logicalTag old) (op_LimitConfig (ct_options c0))
                   (sn_userList old) (sn_aliveMap old) (DeleteLimiter (ct_coreType c0) newTag (wd_lim w0)) of
               (a, lw) \<Rightarrow> (w0\<lparr>wd_lim := lw\<rparr>, c0\<lparr>ct_limiter := Some a\<rparr>))
          else (w0, c0\<lparr>ct_limiter := sn_limiter old\<rparr>))
      in case sn_info old of
           None \<Rightarrow> (Panic, w, c)
         | Some info \<Rightarrow>
             (case co_AddNode (ev_core E) (sn_runtimeKey old) info (ct_options c) (wd_core w) of
                (Panic, opt, k) \<Rightarrow> (Panic, w\<lparr>wd_core := k\<rparr>, c\<lparr>ct_options := opt\<rparr>)
              | (Fail _, opt, k) \<Rightarrow> (Ret (), w\<lparr>wd_core := k\<rparr>, c\<lparr>ct_options := opt\<rparr>)
              | (Ret _, opt, k) \<Rightarrow>
                  if sn_userList old = [] then (Ret (), w\<lparr>wd_core := k\<rparr>, c\<lparr>ct_options := opt\<rparr>)
                  else (case co_AddUsers (ev_core E) (sn_runtimeKey old) (sn_userList old) info k of
                     (Panic, k') \<Rightarrow> (Panic, w\<lparr>wd_core := k'\<rparr>, c\<lparr>ct_options := opt\<rparr>)
                   | (_, k') \<Rightarrow> (Ret (), w\<lparr>wd_core := k'\<rparr>, c\<lparr>ct_options := opt\<rparr>)))))"

definition reload_commit ::
  "NodeInfo \<Rightarrow> UserInfo list \<Rightarrow> (int, int) gomap \<Rightarrow> string \<times> string \<Rightarrow> nat option \<Rightarrow> 'c cstate \<Rightarrow> unit outcome \<times> 'c cstate" where
  "reload_commit newN newU newA ids newLimiter s = (case s of (w, c) \<Rightarrow>
     (let c1 = c\<lparr>ct_info := Some newN, ct_userList := newU, ct_aliveMap := newA, ct_runtimeKey := snd ids,
                 ct_logicalTag := fst ids, ct_limiter := newLimiter, ct_traffic := TS_Reset (ct_traffic c)\<rparr>
      in case newLimiter of
           None \<Rightarrow> (Panic, w, c1)
         | Some a \<Rightarrow>
             (Ret (), w\<lparr>wd_lim := heap_update a (\<lambda>l. l\<lparr>lm_AliveList := Alive_Replace (lm_AliveList l) newA\<rparr>) (wd_lim w)\<rparr>, c1)))"

text \<open>Layer 2 after the old inbound is gone: bring up the new one or roll back.\<close>

definition reload_bringup ::
  "'c env \<Rightarrow> controllerSnapshot \<Rightarrow> NodeInfo \<Rightarrow> UserInfo list \<Rightarrow> (int, int) gomap \<Rightarrow> string \<times> string \<Rightarrow> nat option
     \<Rightarrow> 'c cstate \<Rightarrow> unit outcome \<times> 'c cstate" where
  "reload_bringup E old newN newU newA ids newLimiter s = (case s of (w, c) \<Rightarrow>
     (case co_AddNode (ev_core E) (snd ids) newN (ct_options c) (wd_core w) of
        (Panic, opt, k) \<Rightarrow> (Panic, w\<lparr>wd_core := k\<rparr>, c\<lparr>ct_options := opt\<rparr>)
      | (Fail _, opt, k) \<Rightarrow> reload_rollback E old (fst ids) (w\<lparr>wd_core := k\<rparr>, c\<lparr>ct_options := opt\<rparr>)
      | (Ret _, opt, k) \<Rightarrow>
          (let s1 = (\<lambda>k. (w\<lparr>wd_core := k\<rparr>, c\<lparr>ct_options := opt\<rparr>)) in
           if newU = [] then reload_commit newN newU newA ids newLimiter (s1 k)
           else (case co_AddUsers (ev_core E) (snd ids) newU newN k of
              (Panic, k') \<Rightarrow> (Panic, s1 k')
            | (Ret _, k') \<Rightarrow> reload_commit newN newU newA ids newLimiter (s1 k')
            | (Fail _, k') \<Rightarrow>
                (case co_DelNode (ev_core E) (snd ids) k' of
                   (Panic, k'') \<Rightarrow> (Panic, s1 k'')
                 | (_, k'') \<Rightarrow> reload_rollback E old (fst ids) (s1 k''))))))"

definition reloadNodeConfig ::
  "'c env \<Rightarrow> NodeInfo \<Rightarrow> UserInfo list \<Rightarrow> (int, int) gomap \<Rightarrow> 'c cstate \<Rightarrow> unit outcome \<times> 'c cstate" where
  "reloadNodeConfig E newN newU newA s =
    (let old = snapshot (snd s); ids = reload_ids (snd s) newN in
     case reload_prevalidate E newN s of
       (Panic, s1) \<Rightarrow> (Panic, s1) | (Fail e, s1) \<Rightarrow> (Fail e, s1)
     | (Ret False, s1) \<Rightarrow> (Ret (), s1)
     | (Ret True, w, c) \<Rightarrow>
         (case co_DelNode (ev_core E) (sn_runtimeKey old) (wd_core w) of
            (Panic, k) \<Rightarrow> (Panic, w\<lparr>wd_core := k\<rparr>, c)
          | (Fail _, k) \<Rightarrow> (Ret (), w\<lparr>wd_core := k\<rparr>, c)
          | (Ret _, k) \<Rightarrow>
              (case reload_limiter (fst ids) old newU newA (w\<lparr>wd_core := k\<rparr>, c) of
                 (newLimiter, w2) \<Rightarrow> reload_bringup E old newN newU newA ids newLimiter (w2, c))))"

section \<open>A reload keeps the node in service\<close>

text \<open>
  In service: the core serves the controller's inbound, and the limiter registered under its runtime
  key is the controller's own.
\<close>

definition limiting :: "'c world \<Rightarrow> Controller \<Rightarrow> bool" where
  "limiting w c \<longleftrightarrow> (\<exists>a. ct_limiter c = Some a \<and> a < length (lw_heap (wd_lim w)) \<and>
     mload (lw_reg (wd_lim w)) (ct_runtimeKey c) = Some a)"

definition serving :: "('c \<Rightarrow> string set) \<Rightarrow> 'c world \<Rightarrow> Controller \<Rightarrow> bool" where
  "serving up w c \<longleftrightarrow> ct_runtimeKey c = RuntimeKey (ct_coreType c) (ct_logicalTag c) \<and>
     ct_runtimeKey c \<in> up (wd_core w) \<and> limiting w c"

text \<open>A core that never panics, always can take down an inbound it serves, and always can bring up again the
  description it was serving under \<open>rk\<close>.\<close>

definition steady :: "'c Core \<Rightarrow> ('c \<Rightarrow> string set) \<Rightarrow> string \<Rightarrow> NodeInfo \<Rightarrow> bool" where
  "steady K up rk info \<longleftrightarrow>
     (\<forall>t n opt k. fst (co_AddNode K t n opt k) \<noteq> Panic) \<and> (\<forall>t us n k. fst (co_AddUsers K t us n k) \<noteq> Panic) \<and>
     (\<forall>t k. t \<in> up k \<longrightarrow> fst (co_DelNode K t k) = Ret ()) \<and> (\<forall>opt k. rk \<notin> up k \<longrightarrow> fst (co_AddNode K rk info opt k) = Ret ())"

lemma steady_cases:
  assumes "steady K up rk info"
  shows "co_AddNode K t n opt k = (Panic, x) \<Longrightarrow> False" and "co_AddUsers K t us n k = (Panic, k') \<Longrightarrow> False"
    and "co_DelNode K t k = (r, k') \<Longrightarrow> t \<in> up k \<Longrightarrow> r = Ret ()" and "co_AddNode K rk info opt k = (r', x') \<Longrightarrow> rk \<notin> up k \<Longrightarrow> r' = Ret ()"
  using assms unfolding steady_def by (metis fst_conv)+

text \<open>Getting a certificate panics on one thing only, a stored ACME account whose key is no PEM block.\<close>

definition account_ok :: "cert_env \<Rightarrow> string \<Rightarrow> cert_state \<Rightarrow> bool" where
  "account_ok E userPath st \<longleftrightarrow> User_Load E userPath (cs_fs st) \<noteq> Panic"

lemma writeFileAtomic_no_panic: "fst (writeFileAtomic E p d st) \<noteq> Panic"
  by (simp add: writeFileAtomic_def Let_def)

lemma registerUser_no_panic: "fst (registerUser E e up st) \<noteq> Panic"
  by (simp add: registerUser_def writeFileAtomic_no_panic split: option.split)

lemma SetProvider_no_panic: "fst (SetProvider E cfg st) \<noteq> Panic"
  by (simp add: SetProvider_def Let_def)

lemma NewLego_no_panic: "account_ok E up st \<Longrightarrow> fst (NewLego E cfg up st) \<noteq> Panic"
  using registerUser_no_panic [of E "cc_Email cfg" up st]
  by (auto simp: NewLego_def NewLegoUser_def account_ok_def SetProvider_no_panic split: prod.split outcome.split)

lemma acquire_no_panic: "account_ok E up st \<Longrightarrow> fst (acquire E cfg up a st) \<noteq> Panic"
  using NewLego_no_panic [of E up st cfg] unfolding acquire_def by (auto split: prod.split outcome.split)

lemma ensureFileMode_no_panic: "ensureFileMode E cfg st \<noteq> Panic"
  unfolding ensureFileMode_def by (simp split: parsed.split)

lemma ensureLifecycle_no_panic: "account_ok E up st \<Longrightarrow> fst (ensureLifecycle E cfg up st) \<noteq> Panic"
  unfolding ensureLifecycle_def by (simp add: acquire_no_panic Let_def split: parsed.split)

lemma claimCertFiles_no_panic: "fst (claimCertFiles cf kf d st) \<noteq> Panic"
  unfolding claimCertFiles_def by (simp add: Let_def split: option.split)

lemma claimCertFiles_account: "claimCertFiles cf kf d st = (r, st') \<Longrightarrow> account_ok E up st' = account_ok E up st"
  by (auto simp: claimCertFiles_def account_ok_def Let_def split: option.splits if_splits)

lemma ensure_no_panic:
  assumes "account_ok E up st"
  shows "fst (EnsureCertificate E cfg up st) \<noteq> Panic"
proof (cases cfg)
  case (Some cf)
  obtain r st1 where c: "claimCertFiles (cc_CertFile cf) (cc_KeyFile cf) (cc_CertDomain cf) st = (r, st1)" by force
  with claimCertFiles_no_panic have "r \<noteq> Panic" by (metis fst_conv)
  with Some c assms claimCertFiles_account [OF c, of E up] show ?thesis
    by (cases r) (simp_all add: EnsureCertificate_def ensureFileMode_no_panic ensureLifecycle_no_panic)
qed (simp add: EnsureCertificate_def)

text \<open>A damaged account stops the agent. When a certificate is due and the file of the ACME account holds a
  key without a PEM block, asking for the certificate panics: in the renewal task and in a reload
  nothing recovers it.\<close>

lemma damaged_account_panics:
  assumes "cc_CertMode cfg \<in> {''http'', ''dns''}" and "cc_CertFile cfg \<noteq> ''''" and "cc_KeyFile cfg \<noteq> ''''" and "cc_CertDomain cfg \<noteq> ''''"
    and "claimCertFiles (cc_CertFile cfg) (cc_KeyFile cfg) (cc_CertDomain cfg) st = (Ret (), st1)"
    and "mload (cs_fs st) (cc_CertFile cfg) = None" and "\<not> account_ok E up st"
  shows "fst (EnsureCertificate E (Some cfg) up st) = Panic"
proof -
  have fs: "cs_fs st1 = cs_fs st" using assms(5) by (auto simp: claimCertFiles_def Let_def split: option.splits if_splits)
  have "fileExists up (cs_fs st)" using assms(7) by (auto simp: account_ok_def User_Load_def fileExists_def split: option.splits)
  then have "NewLego E cfg up st1 = (Panic, st1)" using assms(7) by (simp add: NewLego_def NewLegoUser_def account_ok_def fs)
  then show ?thesis using assms
    by (auto simp: EnsureCertificate_def ensureLifecycle_def parseDiskCert_def fs acquire_def)
qed

lemma protocolSecurity_Ret: "ni_Common n = Some cn \<Longrightarrow> \<exists>s. protocolSecurity n = Ret s"
  by (simp add: protocolSecurity_def)

lemma protocolPort_no_panic: "protocolPort n \<noteq> Panic"
proof -
  have "payload_port x \<noteq> Panic" for x by (simp add: payload_port_def split: option.split)
  then show ?thesis by (cases "ni_Common n") (simp_all add: protocolPort_def Let_def)
qed

lemma listenerSpecsFor_no_panic: "ni_Common n = Some cn \<Longrightarrow> listenerSpecsFor n ip \<noteq> Panic"
  using protocolPort_no_panic [of n] by (cases "protocolPort n") (simp_all add: listenerSpecsFor_def Let_def)

lemma ex_same_cert: "\<exists>x. w = w\<lparr>wd_cert := x\<rparr>"
  by (rule exI [of _ "wd_cert w"]) simp

lemma prevalidate_frame:
  assumes "reload_prevalidate E newN (w, c) = (r, w1, c1)" and "ni_Common newN = Some cn"
  shows "((\<exists>b. r = Ret b) \<or> r = Panic \<and> \<not> account_ok (ev_cert E) (ev_userPath E) (wd_cert w)) \<and> c1 = c \<and> (\<exists>x. w1 = w\<lparr>wd_cert := x\<rparr>)"
proof -
  obtain sec where sec: "protocolSecurity newN = Ret sec" using protocolSecurity_Ret [OF assms(2)] by blast
  obtain er st where e: "EnsureCertificate (ev_cert E) (op_CertConfig (ct_options c)) (ev_userPath E) (wd_cert w) = (er, st)"
    by force
  with ensure_no_panic have "er \<noteq> Panic \<or> \<not> account_ok (ev_cert E) (ev_userPath E) (wd_cert w)" by (metis fst_conv)
  then show ?thesis
    using assms(1) sec e listenerSpecsFor_no_panic [OF assms(2), of "op_ListenIP (ct_options c)"]
    unfolding reload_prevalidate_def
    by (cases er; cases "listenerSpecsFor newN (op_ListenIP (ct_options c))") (auto simp: Let_def ex_same_cert split: if_split_asm)
qed

definition same_node :: "Controller \<Rightarrow> Controller \<Rightarrow> bool" where
  "same_node c c' \<longleftrightarrow> ct_runtimeKey c' = ct_runtimeKey c \<and> ct_logicalTag c' = ct_logicalTag c \<and>
     ct_coreType c' = ct_coreType c \<and> ct_info c' = ct_info c \<and> ct_userList c' = ct_userList c"

lemma reload_limiter_limiting:
  assumes "reload_limiter newTag old newU newA (w, c) = (l, w')"
    and "newTag = sn_logicalTag old \<Longrightarrow> limiting w (c\<lparr>ct_limiter := sn_limiter old, ct_runtimeKey := rk\<rparr>)"
    and "newTag \<noteq> sn_logicalTag old \<Longrightarrow> rk = RuntimeKey (ct_coreType c) newTag"
  shows "limiting w' (c\<lparr>ct_limiter := l, ct_runtimeKey := rk\<rparr>) \<and> wd_core w' = wd_core w \<and>
     (newTag = sn_logicalTag old \<longrightarrow> w' = w \<and> l = sn_limiter old)"
  using assms by (auto simp: reload_limiter_def limiting_def AddLimiter_def DeleteLimiter_def Let_def split: if_split_asm)

lemma limiting_cong:
  "limiting w c \<Longrightarrow> wd_lim w' = wd_lim w \<Longrightarrow> ct_limiter c' = ct_limiter c \<Longrightarrow> ct_runtimeKey c' = ct_runtimeKey c \<Longrightarrow>
     limiting w' c'"
  by (simp add: limiting_def)

lemma serving_cong: "serving up w c \<Longrightarrow> wd_lim w' = wd_lim w \<Longrightarrow> wd_core w' = wd_core w \<Longrightarrow> serving up w' c"
  using limiting_cong [of w c w' c] by (auto simp: serving_def)

lemma rollback_core:
  assumes laws: "core_laws K up" and st: "steady K up rk info" and new: "rk \<notin> up k"
    and "(case co_AddNode K rk info opt k of (Panic, opt, k) \<Rightarrow> (Panic, w\<lparr>wd_core := k\<rparr>, c\<lparr>ct_options := opt\<rparr>)
        | (Fail e, opt, k) \<Rightarrow> (Ret (), w\<lparr>wd_core := k\<rparr>, c\<lparr>ct_options := opt\<rparr>)
        | (Ret x, opt, k) \<Rightarrow>
            if us = [] then (Ret (), w\<lparr>wd_core := k\<rparr>, c\<lparr>ct_options := opt\<rparr>)
            else (case co_AddUsers K rk us info k of
               (Panic, k') \<Rightarrow> (Panic, w\<lparr>wd_core := k'\<rparr>, c\<lparr>ct_options := opt\<rparr>)
             | (_, k') \<Rightarrow> (Ret (), w\<lparr>wd_core := k'\<rparr>, c\<lparr>ct_options := opt\<rparr>))) = (r, w', c')"
  shows "r = Ret () \<and> (\<exists>k' opt'. w' = w\<lparr>wd_core := k'\<rparr> \<and> c' = c\<lparr>ct_options := opt'\<rparr> \<and> up k' = insert rk (up k))"
proof -
  obtain r1 opt1 k1 where a: "co_AddNode K rk info opt k = (r1, opt1, k1)" by (metis prod_cases3)
  have r1: "r1 = Ret ()" using steady_cases(4) [OF st a new] .
  have u1: "up k1 = insert rk (up k)" using core_AddNode [OF laws a] r1 by simp
  obtain r2 k2 where b: "co_AddUsers K rk us info k1 = (r2, k2)" by force
  have u2: "up k2 = up k1" by (rule core_AddUsers [OF laws b])
  have r2: "r2 \<noteq> Panic" using steady_cases(2) [OF st] b by blast
  show ?thesis using assms(4) a r1 b r2 u1 u2 by (cases r2) (auto split: if_split_asm)
qed

lemma rollback_serves:
  assumes laws: "core_laws (ev_core E) up" and st: "steady (ev_core E) up (sn_runtimeKey old) info"
    and new: "sn_runtimeKey old \<notin> up (wd_core w)"
    and old: "sn_runtimeKey old = RuntimeKey (ct_coreType c) (sn_logicalTag old)" "sn_info old = Some info"
      "ct_runtimeKey c = sn_runtimeKey old" "ct_logicalTag c = sn_logicalTag old"
    and lim: "newTag = sn_logicalTag old \<Longrightarrow> limiting w (c\<lparr>ct_limiter := sn_limiter old\<rparr>)"
    and eq: "reload_rollback E old newTag (w, c) = (r, w', c')"
  shows "r = Ret () \<and> serving up w' c' \<and> up (wd_core w') = insert (sn_runtimeKey old) (up (wd_core w)) \<and> same_node c c'"
proof -
  define wc where "wc = (if newTag \<noteq> sn_logicalTag old then
            (case AddLimiter (ct_coreType c) (sn_logicalTag old) (op_LimitConfig (ct_options c))
                   (sn_userList old) (sn_aliveMap old) (DeleteLimiter (ct_coreType c) newTag (wd_lim w)) of
               (a, lw) \<Rightarrow> (w\<lparr>wd_lim := lw\<rparr>, c\<lparr>ct_limiter := Some a\<rparr>))
          else (w, c\<lparr>ct_limiter := sn_limiter old\<rparr>))"
  obtain w1 c1 where wc: "wc = (w1, c1)" by (cases wc)
  have l1: "limiting w1 c1" and f1: "wd_core w1 = wd_core w" "\<exists>l. c1 = c\<lparr>ct_limiter := l\<rparr>"
    using lim wc old by (auto simp: wc_def limiting_def AddLimiter_def DeleteLimiter_def Let_def split: if_split_asm)
  have res: "r = Ret () \<and> (\<exists>k' opt'. w' = w1\<lparr>wd_core := k'\<rparr> \<and> c' = c1\<lparr>ct_options := opt'\<rparr> \<and>
      up k' = insert (sn_runtimeKey old) (up (wd_core w1)))"
  proof (rule rollback_core [OF laws st, where opt = "ct_options c1"])
    show "sn_runtimeKey old \<notin> up (wd_core w1)" using new f1 by simp
  qed (use eq wc old(2) in \<open>simp add: reload_rollback_def wc_def\<close>)
  then obtain k' opt' l where e: "w' = w1\<lparr>wd_core := k'\<rparr>" "c' = c1\<lparr>ct_options := opt'\<rparr>" "c1 = c\<lparr>ct_limiter := l\<rparr>"
      "up k' = insert (sn_runtimeKey old) (up (wd_core w1))" "r = Ret ()"
    using f1 by blast
  have "limiting w' c'" by (rule limiting_cong [OF l1]) (simp_all add: e)
  with f1(1) old e show ?thesis by (simp add: serving_def same_node_def)
qed

lemma commit_serves:
  assumes eq: "reload_commit newN newU newA ids l (w, c) = (r, w', c')"
    and lim: "limiting w (c\<lparr>ct_limiter := l, ct_runtimeKey := snd ids\<rparr>)"
    and ids: "snd ids = RuntimeKey (ct_coreType c) (fst ids)" "snd ids \<in> up (wd_core w)"
  shows "r = Ret () \<and> serving up w' c' \<and> wd_core w' = wd_core w \<and> ct_userList c' = newU \<and> ct_info c' = Some newN \<and>
     ct_runtimeKey c' = snd ids"
  using assms by (auto simp: reload_commit_def limiting_def serving_def heap_update_def Let_def)

lemma bringup_rolls_back:
  assumes laws: "core_laws (ev_core E) up" and st: "steady (ev_core E) up (sn_runtimeKey old) info"
    and old: "old = snapshot c" "ct_info c = Some info" "ct_runtimeKey c = RuntimeKey (ct_coreType c) (ct_logicalTag c)"
    and gone: "up (wd_core w) = U - {ct_runtimeKey c}" and lim: "t = ct_logicalTag c \<Longrightarrow> limiting w c"
    and up: "up kk = up (wd_core w)"
    and eq: "reload_rollback E old t (w\<lparr>wd_core := kk\<rparr>, c\<lparr>ct_options := opt\<rparr>) = (r, w', c')"
  shows "r = Ret () \<and> serving up w' c' \<and> up (wd_core w') = insert (ct_runtimeKey c') (U - {ct_runtimeKey c}) \<and>
     (same_node c c' \<or> (ct_userList c' = newU \<and> ct_info c' = Some newN \<and> ct_runtimeKey c' = key))"
proof -
  have "limiting (w\<lparr>wd_core := kk\<rparr>) (c\<lparr>ct_options := opt, ct_limiter := sn_limiter old\<rparr>)"
    if "t = sn_logicalTag old"
    using lim that by (simp add: old(1) snapshot_def limiting_def)
  with rollback_serves [OF laws st _ _ _ _ _ _ eq] up gone old show ?thesis
    by (auto simp: snapshot_def same_node_def)
qed

lemma bringup_serves:
  assumes laws: "core_laws (ev_core E) up" and st: "steady (ev_core E) up (sn_runtimeKey old) info"
    and old: "old = snapshot c" "ct_info c = Some info" "ct_runtimeKey c = RuntimeKey (ct_coreType c) (ct_logicalTag c)"
    and ids: "snd ids = RuntimeKey (ct_coreType c) (fst ids)"
    and gone: "up (wd_core w) = U - {ct_runtimeKey c}" "snd ids \<notin> up (wd_core w)"
    and lim: "limiting w (c\<lparr>ct_limiter := l, ct_runtimeKey := snd ids\<rparr>)"
      "fst ids = ct_logicalTag c \<Longrightarrow> limiting w c"
    and eq: "reload_bringup E old newN newU newA ids l (w, c) = (r, w', c')"
  shows "r = Ret () \<and> serving up w' c' \<and> up (wd_core w') = insert (ct_runtimeKey c') (U - {ct_runtimeKey c}) \<and>
     (same_node c c' \<or> (ct_userList c' = newU \<and> ct_info c' = Some newN \<and> ct_runtimeKey c' = snd ids))"
proof -
  let ?K = "ev_core E"
  obtain r1 opt k where a: "co_AddNode ?K (snd ids) newN (ct_options c) (wd_core w) = (r1, opt, k)"
    by (metis prod_cases3)
  have up1: "up k = (if r1 = Ret () then insert (snd ids) (up (wd_core w)) else up (wd_core w))"
    by (rule core_AddNode [OF laws a])
  have r1: "r1 \<noteq> Panic" using steady_cases(1) [OF st] a by blast
  have roll: ?thesis if "up kk = up (wd_core w)" and
      "reload_rollback E old (fst ids) (w\<lparr>wd_core := kk\<rparr>, c\<lparr>ct_options := opt\<rparr>) = (r, w', c')" for kk
    by (rule bringup_rolls_back [OF laws st old gone(1) lim(2) that])
  have commit: ?thesis if "up kk = insert (snd ids) (up (wd_core w))" and
      "reload_commit newN newU newA ids l (w\<lparr>wd_core := kk\<rparr>, c\<lparr>ct_options := opt\<rparr>) = (r, w', c')" for kk
  proof -
    have "limiting (w\<lparr>wd_core := kk\<rparr>) (c\<lparr>ct_options := opt, ct_limiter := l, ct_runtimeKey := snd ids\<rparr>)"
      using lim(1) by (simp add: limiting_def)
    from commit_serves [OF that(2) this, where up = up] that(1) ids gone(1) show ?thesis by simp
  qed
  show ?thesis
  proof (cases r1)
    case (Fail e)
    show ?thesis by (rule roll [of k]) (use Fail up1 eq a in \<open>simp_all add: reload_bringup_def\<close>)
  next
    case (Ret x)
    obtain r2 k2 where b: "co_AddUsers ?K (snd ids) newU newN k = (r2, k2)" by force
    have up2: "up k2 = up k" and r2: "r2 \<noteq> Panic"
      using core_AddUsers [OF laws b] steady_cases(2) [OF st] b by blast+
    obtain r3 k3 where d: "co_DelNode ?K (snd ids) k2 = (r3, k3)" by force
    have up3: "up k3 = up k2 - {snd ids}" by (rule core_DelNode [OF laws d])
    have r3: "r3 = Ret ()" using steady_cases(3) [OF st d] up1 up2 Ret by simp
    consider "newU = []" | n where "newU \<noteq> []" "r2 = Ret n" | e where "newU \<noteq> []" "r2 = Fail e"
      using r2 by (cases r2) auto
    then show ?thesis
    proof cases
      case 1
      show ?thesis by (rule commit [of k]) (use Ret 1 up1 eq a in \<open>simp_all add: reload_bringup_def\<close>)
    next
      case 2
      show ?thesis by (rule commit [of k2]) (use Ret 2 up1 up2 eq a b in \<open>simp_all add: reload_bringup_def\<close>)
    next
      case 3
      show ?thesis
        by (rule roll [of k3]) (use Ret 3 up1 up2 up3 r3 gone(2) eq a b d in \<open>simp_all add: reload_bringup_def\<close>)
    qed
  qed (use r1 in simp)
qed

lemma reload_ids_key:
  "ct_runtimeKey c = RuntimeKey (ct_coreType c) (ct_logicalTag c) \<Longrightarrow>
     snd (reload_ids c n) = RuntimeKey (ct_coreType c) (fst (reload_ids c n))"
  by (simp add: reload_ids_def Let_def)


definition demo_node :: NodeInfo where
  "demo_node = \<lparr>ni_Id = 1, ni_Type = ''tuic'', ni_PushInterval = 30 * second, ni_PullInterval = 15 * second,
     ni_Common = Some ((empty_common ''tuic'')\<lparr>cn_Tuic := Some \<lparr>tu_Port = 443, tu_SecurityConfig = None\<rparr>\<rparr>)\<rparr>"

definition demo_user :: "string \<Rightarrow> UserInfo" where
  "demo_user uuid = \<lparr>u_Id = 1, u_Uuid = uuid, u_SpeedLimit = 0, u_DeviceLimit = 0\<rparr>"

definition running_world :: "string list world" where
  "running_world = demo_world\<lparr>wd_core := [''sing|n''],
     wd_lim := snd (AddLimiter ''sing'' ''n'' (op_LimitConfig demo_options) [demo_user ''a''] [] limiter_Init)\<rparr>"

definition running_controller :: Controller where
  "running_controller = demo_controller\<lparr>ct_logicalTag := ''n'', ct_runtimeKey := ''sing|n'', ct_limiter := Some 0,
     ct_info := Some demo_node, ct_userList := [demo_user ''a'']\<rparr>"

lemma running_serving: "serving set running_world running_controller"
  by (simp add: serving_def limiting_def running_controller_def running_world_def AddLimiter_def limiter_Init_def
      RuntimeKey_def demo_world_def demo_controller_def NewController_def Let_def)

lemma demo_steady: "steady demo_core set rk info"
  by (simp add: steady_def demo_core_def)


section \<open>A reload under a pinned name\<close>

lemma rollback_frame:
  "reload_rollback E old t (w, c) = (r, w', c') \<Longrightarrow> ct_info c' = ct_info c \<and> ct_tasks c' = ct_tasks c"
proof -
  assume eq: "reload_rollback E old t (w, c) = (r, w', c')"
  have "ct_info c' = ct_info c \<and> ct_tasks c' = ct_tasks c" if "(case sn_info old of
           None \<Rightarrow> (Panic, w1, c1)
         | Some info \<Rightarrow>
             (case co_AddNode (ev_core E) (sn_runtimeKey old) info (ct_options c1) (wd_core w1) of
                (Panic, opt, k) \<Rightarrow> (Panic, w1\<lparr>wd_core := k\<rparr>, c1\<lparr>ct_options := opt\<rparr>)
              | (Fail _, opt, k) \<Rightarrow> (Ret (), w1\<lparr>wd_core := k\<rparr>, c1\<lparr>ct_options := opt\<rparr>)
              | (Ret _, opt, k) \<Rightarrow>
                  if sn_userList old = [] then (Ret (), w1\<lparr>wd_core := k\<rparr>, c1\<lparr>ct_options := opt\<rparr>)
                  else (case co_AddUsers (ev_core E) (sn_runtimeKey old) (sn_userList old) info k of
                     (Panic, k') \<Rightarrow> (Panic, w1\<lparr>wd_core := k'\<rparr>, c1\<lparr>ct_options := opt\<rparr>)
                   | (_, k') \<Rightarrow> (Ret (), w1\<lparr>wd_core := k'\<rparr>, c1\<lparr>ct_options := opt\<rparr>)))) = (r, w', c')"
    and "ct_info c1 = ct_info c" and "ct_tasks c1 = ct_tasks c" for w1 c1
    using that by (auto simp: ct_tasks_def split: option.splits prod.splits outcome.splits if_split_asm)
  with eq show ?thesis
    by (cases "t = sn_logicalTag old") (auto simp: reload_rollback_def AddLimiter_def Let_def ct_tasks_def)
qed

lemma bringup_Ret:
  assumes "reload_bringup E old newN newU newA ids l (w, c) = (Ret (), w', c')" and "ct_info c' \<noteq> ct_info c"
  shows "\<exists>k opt. reload_commit newN newU newA ids l (w\<lparr>wd_core := k\<rparr>, c\<lparr>ct_options := opt\<rparr>) = (Ret (), w', c')"
proof -
  have roll: "reload_rollback E old t (w\<lparr>wd_core := k\<rparr>, c\<lparr>ct_options := opt\<rparr>) \<noteq> (Ret (), w', c')" for t k opt
    using rollback_frame [of E old t "w\<lparr>wd_core := k\<rparr>" "c\<lparr>ct_options := opt\<rparr>" "Ret ()" w' c'] assms(2) by auto
  obtain r1 opt k where a: "co_AddNode (ev_core E) (snd ids) newN (ct_options c) (wd_core w) = (r1, opt, k)"
    by (metis prod_cases3)
  obtain r2 k2 where b: "co_AddUsers (ev_core E) (snd ids) newU newN k = (r2, k2)" by force
  obtain r3 k3 where d: "co_DelNode (ev_core E) (snd ids) k2 = (r3, k3)" by force
  show ?thesis
    using assms(1) a b d roll by (cases r1; cases r2; cases r3; cases "newU = []") (auto simp: reload_bringup_def)
qed

lemma CheckLimit_unknown:
  "CheckLimit l t ip tcp ss now = Some ((b, rej), l') \<Longrightarrow> mload (lm_UserLimitInfo l) t = None \<Longrightarrow> rej"
  using check_user_None [of "l\<lparr>lm_ConnLimiter := cl\<rparr>" t now for cl]
  by (auto simp: CheckLimit_def Let_def split: option.splits prod.splits bool.splits)



end
