(* ===== verification/Json5.thy ===== *)
theory Json5
  imports PanelTypes
begin

text \<open>
  \<open>common/json5/json5.go\<close>: the reader that blanks comments and trailing commas of a configuration
  file before the JSON decoder sees it. The Go code overwrites the buffer in place, so each function
  takes the buffer and an index and returns both.
\<close>

section \<open>The scanner\<close>

definition isNL :: "char \<Rightarrow> bool" where
  "isNL c \<longleftrightarrow> c = CHR 0x0A \<or> c = CHR 0x0D"

definition isWS :: "char \<Rightarrow> bool" where
  "isWS c \<longleftrightarrow> c = CHR '' '' \<or> c = CHR 0x09 \<or> isNL c"

function blank_line :: "string \<Rightarrow> nat \<Rightarrow> string \<times> nat" where
  "blank_line s i = (if i < length s \<and> \<not> isNL (s ! i) then blank_line (s[i := CHR '' '']) (i + 1) else (s, i))"
  by pat_completeness auto
termination by (relation "measure (\<lambda>(s, i). length s - i)") auto

text \<open>The index may end one past the buffer's length.\<close>

function blank_block :: "string \<Rightarrow> nat \<Rightarrow> string \<times> nat" where
  "blank_block s i =
    (if i < length s then
       (if s ! i \<noteq> CHR ''*'' then blank_block (s[i := CHR '' '']) (i + 1)
        else (let s1 = s[i := CHR '' ''] in
          if i + 1 < length s then
            (if s1 ! (i + 1) = CHR ''/'' then (s1[i + 1 := CHR '' ''], i + 1) else blank_block s1 (i + 1 + 1))
          else blank_block s1 (i + 1 + 1)))
     else (s, i))"
  by pat_completeness auto
termination by (relation "measure (\<lambda>(s, i). length s - i)") auto

declare blank_line.simps [simp del] blank_block.simps [simp del]

definition consumeComment :: "string \<Rightarrow> nat \<Rightarrow> string \<times> nat" where
  "consumeComment s i =
    (let (s1, i1) = (if i < length s \<and> s ! i = CHR ''/'' then blank_line (s[i - 1 := CHR '' '']) i else (s, i))
     in if i1 < length s1 \<and> s1 ! i1 = CHR ''*''
        then blank_block (s1[i1 - 1 := CHR '' '', i1 := CHR '' '']) i1 else (s1, i1))"

function skip_string :: "string \<Rightarrow> nat \<Rightarrow> nat" where
  "skip_string s i =
    (if i < length s then
       (if s ! i = CHR 0x22 then i + 1
        else if s ! i = CHR 0x5C then skip_string s (i + 1 + 1) else skip_string s (i + 1))
     else i)"
  by pat_completeness auto
termination by (relation "measure (\<lambda>(s, i). length s - i)") auto

declare skip_string.simps [simp del]

lemma blank_line_bounds': "length (fst (blank_line s i)) = length s \<and> i \<le> snd (blank_line s i)"
proof (induction s i rule: blank_line.induct)
  case (1 s i)
  then show ?case by (cases "i < length s \<and> \<not> isNL (s ! i)") (auto simp: blank_line.simps [of s i])
qed

lemma blank_line_bounds: "blank_line s i = (s', i') \<Longrightarrow> length s' = length s \<and> i \<le> i'"
  using blank_line_bounds' [of s i] by simp

lemma blank_block_bounds': "length (fst (blank_block s i)) = length s \<and> i \<le> snd (blank_block s i)"
proof (induction s i rule: blank_block.induct)
  case (1 s i)
  then show ?case by (subst (1 2) blank_block.simps) (auto simp: Let_def)
qed

lemma blank_block_bounds: "blank_block s i = (s', i') \<Longrightarrow> length s' = length s \<and> i \<le> i'"
  using blank_block_bounds' [of s i] by simp

lemma consumeComment_bounds:
  assumes "consumeComment s i = (s', i')"
  shows "length s' = length s \<and> i \<le> i'"
proof -
  obtain s1 i1 where b: "(if i < length s \<and> s ! i = CHR ''/'' then blank_line (s[i - 1 := CHR '' '']) i else (s, i)) = (s1, i1)"
    by force
  then have "length s1 = length s \<and> i \<le> i1" by (auto dest: blank_line_bounds split: if_split_asm)
  with assms b show ?thesis by (auto simp: consumeComment_def dest!: blank_block_bounds split: if_split_asm)
qed

lemma skip_string_bounds: "i \<le> skip_string s i"
proof (induction s i rule: skip_string.induct)
  case (1 s i)
  then show ?case by (subst skip_string.simps) (auto)
qed

text \<open>After the comma at \<open>j\<close>: it is blanked when the next thing that counts closes a list or an object.\<close>

function comma_loop :: "string \<Rightarrow> nat \<Rightarrow> nat \<Rightarrow> string \<times> nat" where
  "comma_loop s j i =
    (let i1 = i + 1 in
     if i1 \<ge> length s then (s, i1)
     else if s ! i1 = CHR ''}'' \<or> s ! i1 = CHR '']'' then (s[j := CHR '' ''], i1)
     else if s ! i1 = CHR ''/'' then (case consumeComment s (i1 + 1) of (s', i') \<Rightarrow> comma_loop s' j i')
     else if \<not> isWS (s ! i1) then (s, i1)
     else comma_loop s j i1)"
  by pat_completeness auto
termination by (relation "measure (\<lambda>(s, j, i). length s - i)") (auto dest!: consumeComment_bounds [OF sym])

declare comma_loop.simps [simp del]

lemma comma_loop_bounds': "length (fst (comma_loop s j i)) = length s \<and> i < snd (comma_loop s j i)"
proof (induction s j i rule: comma_loop.induct)
  case (1 s j i)
  obtain s1 i1 where c: "consumeComment s (i + 1 + 1) = (s1, i1)" by force
  note b = consumeComment_bounds [OF c]
  show ?case
  proof (cases "i + 1 < length s \<and> s ! (i + 1) = CHR ''/''")
    case True
    with 1(1) [OF refl _ _ _ c [symmetric]] c b show ?thesis by (subst (1 2) comma_loop.simps) auto
  next
    case False
    with 1(2) [OF refl] show ?thesis by (subst (1 2) comma_loop.simps) (auto simp: Let_def)
  qed
qed

lemma comma_loop_bounds: "comma_loop s j i = (s', i') \<Longrightarrow> length s' = length s \<and> i < i'"
  using comma_loop_bounds' [of s j i] by simp

function prep_loop :: "string \<Rightarrow> nat \<Rightarrow> string" where
  "prep_loop s i =
    (if i < length s then
       (if s ! i = CHR 0x22 then prep_loop s (skip_string s (i + 1))
        else if s ! i = CHR ''/'' then (case consumeComment s (i + 1) of (s', i') \<Rightarrow> prep_loop s' i')
        else if s ! i = CHR '','' then (case comma_loop s i i of (s', i') \<Rightarrow> prep_loop s' i')
        else prep_loop s (i + 1))
     else s)"
  by pat_completeness auto
termination
  by (relation "measure (\<lambda>(s, i). length s - i)")
    (auto dest: consumeComment_bounds [OF sym] comma_loop_bounds [OF sym] intro!: diff_less_mono2
       order.strict_trans2 [OF _ skip_string_bounds] split: prod.split dest!: consumeComment_bounds comma_loop_bounds)

declare prep_loop.simps [simp del]

definition prep :: "string outcome \<Rightarrow> string outcome" where
  "prep r = (case r of Ret buf \<Rightarrow> Ret (prep_loop buf 0) | Fail e \<Rightarrow> Fail e | Panic \<Rightarrow> Panic)"

section \<open>What it computes\<close>

text \<open>
  A text as a sequence of quoted strings, line and block comments, and single other characters. The
  bodies are what lies between the delimiters.
\<close>

datatype item = Quoted string | LineC string | BlockC string | Chr char

fun render_item :: "item \<Rightarrow> string" where
  "render_item (Quoted b) = CHR 0x22 # b @ [CHR 0x22]"
| "render_item (LineC b) = CHR ''/'' # CHR ''/'' # b"
| "render_item (BlockC b) = CHR ''/'' # CHR ''*'' # b @ [CHR ''*'', CHR ''/'']"
| "render_item (Chr c) = [c]"

definition render :: "item list \<Rightarrow> string" where
  "render xs = concat (map render_item xs)"

fun quoted_body :: "string \<Rightarrow> bool" where
  "quoted_body [] = True"
| "quoted_body (c # cs) =
     (if c = CHR 0x22 then False
      else if c = CHR 0x5C then (case cs of [] \<Rightarrow> False | _ # ds \<Rightarrow> quoted_body ds) else quoted_body cs)"

text \<open>Escapes are complete, a line comment ends at a line break or the end of the text, and a block
  comment holds no star.\<close>

fun wf_items :: "item list \<Rightarrow> bool" where
  "wf_items [] = True"
| "wf_items (Quoted b # xs) = (quoted_body b \<and> wf_items xs)"
| "wf_items (LineC b # xs) = ((\<forall>c \<in> set b. \<not> isNL c) \<and>
     (case xs of [] \<Rightarrow> True | Chr c # _ \<Rightarrow> isNL c | _ \<Rightarrow> False) \<and> wf_items xs)"
| "wf_items (BlockC b # xs) = (CHR ''*'' \<notin> set b \<and> wf_items xs)"
| "wf_items (Chr c # xs) = (c \<noteq> CHR 0x22 \<and> c \<noteq> CHR ''/'' \<and> wf_items xs)"

abbreviation blanks :: "nat \<Rightarrow> string" where
  "blanks n \<equiv> replicate n (CHR '' '')"

fun closes :: "item list \<Rightarrow> bool" where
  "closes (Chr c # xs) = (c = CHR ''}'' \<or> c = CHR '']'' \<or> isWS c \<and> closes xs)"
| "closes (LineC b # xs) = closes xs"
| "closes (BlockC b # xs) = closes xs"
| "closes _ = False"

fun clean :: "item list \<Rightarrow> string" where
  "clean [] = []"
| "clean (Quoted b # xs) = render_item (Quoted b) @ clean xs"
| "clean (LineC b # xs) = blanks (length b + 2) @ clean xs"
| "clean (BlockC b # xs) = blanks (length b + 4) @ clean xs"
| "clean (Chr c # xs) = (if c = CHR '','' \<and> closes xs then CHR '' '' else c) # clean xs"

text \<open>The scanner on a buffer split at its index.\<close>

lemma blank_line_run:
  "\<forall>c \<in> set b. \<not> isNL c \<Longrightarrow> (post = [] \<or> isNL (hd post)) \<Longrightarrow>
     blank_line (pre @ b @ post) (length pre) = (pre @ blanks (length b) @ post, length pre + length b)"
proof (induction b arbitrary: pre)
  case Nil
  then show ?case by (subst blank_line.simps) (cases post; simp add: nth_append)
next
  case (Cons c b)
  from Cons.IH [of "pre @ [CHR '' '']"] Cons.prems show ?case
    by (subst blank_line.simps) (simp add: nth_append list_update_append)
qed

lemma blank_block_run:
  "CHR ''*'' \<notin> set b \<Longrightarrow>
     blank_block (pre @ b @ CHR ''*'' # CHR ''/'' # post) (length pre) =
       (pre @ blanks (length b + 2) @ post, length pre + length b + 1)"
proof (induction b arbitrary: pre)
  case Nil
  then show ?case
    by (subst blank_block.simps) (simp add: nth_append list_update_append numeral_2_eq_2 Let_def)
next
  case (Cons c b)
  from Cons.prems have c: "c \<noteq> CHR ''*''" "CHR ''*'' \<notin> set b" by auto
  from Cons.IH [of "pre @ [CHR '' '']", OF c(2)] c(1) show ?case
    by (subst blank_block.simps) (simp add: nth_append list_update_append)
qed

lemma consume_line:
  assumes "\<forall>c \<in> set b. \<not> isNL c" and "post = [] \<or> isNL (hd post)"
  shows "consumeComment (pre @ CHR ''/'' # CHR ''/'' # b @ post) (length pre + 1) =
       (pre @ blanks (length b + 2) @ post, length pre + length b + 2)"
proof -
  let ?s = "pre @ CHR '' '' # CHR ''/'' # b @ post"
  have "blank_line ((pre @ [CHR '' '']) @ (CHR ''/'' # b) @ post) (length (pre @ [CHR '' ''])) =
      ((pre @ [CHR '' '']) @ blanks (length (CHR ''/'' # b)) @ post, length (pre @ [CHR '' '']) + length (CHR ''/'' # b))"
    by (rule blank_line_run) (use assms in \<open>auto simp: isNL_def\<close>)
  then have run: "blank_line ?s (Suc (length pre)) = (pre @ blanks (length b + 2) @ post, length pre + length b + 2)" by simp
  have star: "\<not> (length pre + length b + 2 < length (pre @ blanks (length b + 2) @ post) \<and>
      (pre @ blanks (length b + 2) @ post) ! (length pre + length b + 2) = CHR ''*'')"
    using assms(2) by (cases post) (auto simp: nth_append isNL_def)
  have upd: "(pre @ CHR ''/'' # CHR ''/'' # b @ post)[length pre + 1 - 1 := CHR '' ''] = ?s" by simp
  have "(pre @ CHR ''/'' # CHR ''/'' # b @ post) ! (length pre + 1) = CHR ''/''" by (simp add: nth_append)
  with run star show ?thesis unfolding consumeComment_def upd by auto
qed

lemma consume_block:
  "CHR ''*'' \<notin> set b \<Longrightarrow>
     consumeComment (pre @ CHR ''/'' # CHR ''*'' # b @ CHR ''*'' # CHR ''/'' # post) (length pre + 1) =
       (pre @ blanks (length b + 4) @ post, length pre + length b + 3)"
  using blank_block_run [of "CHR '' '' # b" "pre @ [CHR '' '']" post]
  by (simp add: consumeComment_def nth_append list_update_append numeral_eq_Suc)

lemma skip_string_run:
  "quoted_body b \<Longrightarrow> skip_string (pre @ b @ CHR 0x22 # post) (length pre) = length pre + length b + 1"
proof (induction b arbitrary: pre rule: quoted_body.induct)
  case 1
  then show ?case by (subst skip_string.simps) (simp add: nth_append)
next
  case (2 c cs)
  show ?case
  proof (cases "c = CHR 0x5C")
    case True
    with 2(3) obtain d ds where cs: "cs = d # ds" "quoted_body ds" by (auto split: list.splits)
    with 2(1) [of d ds "pre @ [c, d]"] True show ?thesis by (subst skip_string.simps) (simp add: nth_append)
  next
    case False
    with 2(2) [of "pre @ [c]"] 2(3) show ?thesis by (subst skip_string.simps) (simp add: nth_append split: if_split_asm)
  qed
qed

fun filler :: "item \<Rightarrow> bool" where
  "filler (Chr c) = isWS c" | "filler (Quoted b) = False" | "filler _ = True"

lemma isWS_neq: "isWS c \<Longrightarrow> c \<noteq> CHR '','' \<and> c \<noteq> CHR ''/'' \<and> c \<noteq> CHR ''}'' \<and> c \<noteq> CHR '']''"
  by (auto simp: isWS_def isNL_def)

lemma clean_filler: "\<forall>y \<in> set ys. filler y \<Longrightarrow> clean (ys @ zs) = clean ys @ clean zs"
  by (induction ys rule: clean.induct) (auto dest: isWS_neq)

lemma render_Cons [simp]: "render [] = []" "render (x # xs) = render_item x @ render xs"
  by (simp_all add: render_def)

lemma wf_line_post: "wf_items (LineC b # xs) \<Longrightarrow> render xs = [] \<or> isNL (hd (render xs))"
  by (cases xs) (auto split: item.splits)

lemma length_clean [simp]: "length (clean xs) = length (render xs)"
  by (induction xs rule: clean.induct) auto

text \<open>What the scanner does from just after a comma: it passes the fillers \<open>ys\<close>.\<close>

definition passes :: "item list \<Rightarrow> nat \<Rightarrow> string \<Rightarrow> char \<Rightarrow> bool" where
  "passes xs j p x \<longleftrightarrow> (\<exists>ys zs k. xs = ys @ zs \<and> wf_items zs \<and> (\<forall>y \<in> set ys. filler y) \<and>
     comma_loop (p @ x # render xs) j (length p) =
       ((if closes xs then (p @ [x])[j := CHR '' ''] else p @ [x]) @ clean ys @ render zs, k) \<and>
     (k = length p + 1 + length (clean ys) \<or> zs = [] \<and> k > length p + 1 + length (clean ys)))"

lemma passes_stop:
  assumes "wf_items xs" and "comma_loop (p @ x # render xs) j (length p) =
       ((if closes xs then (p @ [x])[j := CHR '' ''] else p @ [x]) @ render xs, length p + 1)"
  shows "passes xs j p x"
  using assms unfolding passes_def by (intro exI [of _ "[]"] exI [of _ xs]) simp

lemma passes_more:
  assumes h: "passes xs' j p' x'" and xs: "xs = us @ xs'" and us: "\<forall>y \<in> set us. filler y" "closes xs = closes xs'"
    and p': "p' @ [x'] = p @ x # clean us" and j: "j \<le> length p"
    and step: "comma_loop (p @ x # render xs) j (length p) = comma_loop (p' @ x' # render xs') j (length p')"
  shows "passes xs j p x"
proof -
  have "length (p' @ [x']) = length (p @ x # clean us)" by (simp only: p')
  then have lp: "length p' + 1 = length p + 1 + length (clean us)" by simp
  from h obtain ys zs k where h: "xs' = ys @ zs" "wf_items zs" "\<forall>y \<in> set ys. filler y"
    "comma_loop (p' @ x' # render xs') j (length p') =
       ((if closes xs' then (p' @ [x'])[j := CHR '' ''] else p' @ [x']) @ clean ys @ render zs, k)"
    "k = length p' + 1 + length (clean ys) \<or> zs = [] \<and> k > length p' + 1 + length (clean ys)" unfolding passes_def by blast
  have "(p @ x # clean us)[j := CHR '' ''] = (p @ [x])[j := CHR '' ''] @ clean us"
    using j by (simp add: list_update_append split: nat.split)
  with h(4) have "comma_loop (p @ x # render xs) j (length p) =
      ((if closes xs then (p @ [x])[j := CHR '' ''] else p @ [x]) @ clean (us @ ys) @ render zs, k)"
    unfolding step us(2) p' clean_filler [OF us(1)] by simp
  with h(1,2,3,5) lp us(1) xs show ?thesis unfolding passes_def
    by (intro exI [of _ "us @ ys"] exI [of _ zs] exI [of _ k]) (auto simp: clean_filler)
qed

text \<open>One step over each kind of filler.\<close>

lemma comma_ws_step:
  "isWS c \<Longrightarrow> comma_loop (p @ x # render (Chr c # rest)) j (length p) = comma_loop ((p @ [x]) @ c # render rest) j (length (p @ [x]))"
  by (subst comma_loop.simps) (simp add: nth_append isWS_neq)

lemma comma_block_step:
  assumes "CHR ''*'' \<notin> set b"
  shows "comma_loop (p @ x # render (BlockC b # rest)) j (length p) =
    comma_loop ((p @ x # blanks (length b + 3)) @ CHR '' '' # render rest) j (length (p @ x # blanks (length b + 3)))"
proof -
  have c: "consumeComment (p @ x # render (BlockC b # rest)) (length p + 1 + 1) =
      (p @ x # blanks (length b + 4) @ render rest, length p + length b + 4)"
    using consume_block [of b "p @ [x]" "render rest"] assms by simp
  have e: "p @ x # blanks (length b + 4) @ render rest = (p @ x # blanks (length b + 3)) @ CHR '' '' # render rest"
    by (simp add: replicate_append_same [symmetric] numeral_eq_Suc)
  show ?thesis by (subst comma_loop.simps) (use c e in \<open>simp add: nth_append ac_simps\<close>)
qed

lemma comma_line_step:
  assumes "wf_items (LineC b # rest)"
  shows "comma_loop (p @ x # render (LineC b # rest)) j (length p) =
    comma_loop (p @ x # blanks (length b + 2) @ render rest) j (length p + length b + 3)"
proof -
  have b: "\<forall>c \<in> set b. \<not> isNL c" using assms by simp
  have c: "consumeComment (p @ x # render (LineC b # rest)) (length p + 1 + 1) =
      (p @ x # blanks (length b + 2) @ render rest, length p + length b + 3)"
    using consume_line [OF b wf_line_post [OF assms], of "p @ [x]"] by simp
  show ?thesis by (subst comma_loop.simps) (use c in \<open>simp add: nth_append\<close>)
qed

text \<open>A line comment is followed by its line break, or it is the last item.\<close>

lemma passes_line:
  assumes w: "wf_items (LineC b # rest)" and j: "j \<le> length p"
    and IH: "\<And>nl rest2 (p' :: string) x'. rest = Chr nl # rest2 \<Longrightarrow> j \<le> length p' \<Longrightarrow> passes rest2 j p' x'"
  shows "passes (LineC b # rest) j p x"
proof (cases rest)
  case Nil
  with comma_line_step [OF w, of p x j] have "comma_loop (p @ x # render [LineC b]) j (length p) =
      (p @ x # blanks (length b + 2), length p + length b + 4)"
    by (simp add: comma_loop.simps [of _ _ "length p + length b + 3"])
  with Nil show ?thesis unfolding passes_def
    by (intro exI [of _ "[LineC b]"] exI [of _ "[]"] exI [of _ "length p + length b + 4"]) simp
next
  case (Cons it2 rest2)
  with w obtain nl where nl: "it2 = Chr nl" "isNL nl" by (cases it2) auto
  show ?thesis
  proof (rule passes_more [of rest2 _ "p @ x # blanks (length b + 2)" nl _ "[LineC b, Chr nl]"])
    show "passes rest2 j (p @ x # blanks (length b + 2)) nl" by (rule IH) (use Cons nl j in simp_all)
    show "\<forall>y \<in> set [LineC b, Chr nl]. filler y" "closes (LineC b # rest) = closes rest2"
      using Cons nl by (auto simp: isWS_def isNL_def)
    show "comma_loop (p @ x # render (LineC b # rest)) j (length p) =
        comma_loop ((p @ x # blanks (length b + 2)) @ nl # render rest2) j (length (p @ x # blanks (length b + 2)))"
      unfolding comma_line_step [OF w] by (simp add: Cons nl numeral_eq_Suc)
  qed (use Cons nl j in simp_all)
qed

lemma comma_loop_run: "wf_items xs \<Longrightarrow> j \<le> length p \<Longrightarrow> passes xs j p x"
proof (induction xs arbitrary: p x rule: length_induct)
  case (1 xs)
  note stop = passes_stop [OF 1(2)]
  show ?case
  proof (cases xs)
    case Nil
    show ?thesis by (rule stop) (simp add: Nil comma_loop.simps [of _ _ "length p"])
  next
    case (Cons it rest)
    note w = 1(2) [unfolded Cons]
    have IH: "passes zs j p' x'" if "length zs < length xs" "wf_items zs" "j \<le> length p'" for zs p' x' using 1(1) that by blast
    show ?thesis
    proof (cases it)
      case (Quoted b)
      show ?thesis by (rule stop) (use Cons Quoted in \<open>subst comma_loop.simps; simp add: nth_append isWS_def isNL_def\<close>)
    next
      case (Chr c)
      show ?thesis
      proof (cases "isWS c")
        case True
        show ?thesis unfolding Cons Chr
          by (rule passes_more [OF IH [of rest "p @ [x]" c] _ _ _ _ _ comma_ws_step [OF True], of "[it]"])
             (use Cons Chr True w 1(3) isWS_neq [OF True] in simp_all)
      next
        case False
        show ?thesis
          by (rule stop) (use Cons Chr False w 1(3) in \<open>subst comma_loop.simps; auto simp: nth_append list_update_append split: nat.split\<close>)
      qed
    next
      case (BlockC b)
      with w have b: "CHR ''*'' \<notin> set b" by simp
      show ?thesis unfolding Cons BlockC
        by (rule passes_more [OF IH [of rest "p @ x # blanks (length b + 3)" "CHR '' ''"] _ _ _ _ _ comma_block_step [OF b], of "[it]"])
           (use Cons BlockC w 1(3) in \<open>simp_all add: replicate_append_same numeral_eq_Suc\<close>)
    next
      case (LineC b)
      show ?thesis unfolding Cons LineC
      proof (rule passes_line)
        fix nl rest2 and p' :: string and x' assume "rest = Chr nl # rest2" "j \<le> length p'"
        then show "passes rest2 j p' x'" using IH [of rest2 p' x'] Cons w LineC by simp
      qed (use w LineC 1(3) in simp_all)
    qed
  qed
qed

text \<open>The main loop over one item.\<close>

lemma prep_string_step:
  assumes "quoted_body b"
  shows "prep_loop (pre @ render (Quoted b # rest)) (length pre) =
    prep_loop ((pre @ clean [Quoted b]) @ render rest) (length (pre @ clean [Quoted b]))"
  using skip_string_run [OF assms, of "pre @ [CHR 0x22]" "render rest"] by (subst prep_loop.simps) (simp add: nth_append)

lemma prep_line_step:
  assumes "wf_items (LineC b # rest)"
  shows "prep_loop (pre @ render (LineC b # rest)) (length pre) =
    prep_loop ((pre @ clean [LineC b]) @ render rest) (length (pre @ clean [LineC b]))"
proof -
  have b: "\<forall>c \<in> set b. \<not> isNL c" using assms by simp
  from consume_line [OF b wf_line_post [OF assms], of pre] show ?thesis by (subst prep_loop.simps) (simp add: nth_append)
qed

lemma prep_block_step:
  assumes "CHR ''*'' \<notin> set b"
  shows "prep_loop (pre @ render (BlockC b # rest)) (length pre) =
    prep_loop ((pre @ clean [BlockC b]) @ render rest) (length (pre @ clean [BlockC b]))"
proof -
  have c: "consumeComment (pre @ render (BlockC b # rest)) (length pre + 1) =
      (pre @ blanks (length b + 4) @ render rest, length pre + length b + 3)"
    using consume_block [OF assms, of pre "render rest"] by simp
  have e: "(pre @ blanks (length b + 4) @ render rest) ! (length pre + length b + 3) = CHR '' ''"
    by (simp add: nth_append)
  have "prep_loop (pre @ blanks (length b + 4) @ render rest) (length pre + length b + 3) =
      prep_loop (pre @ blanks (length b + 4) @ render rest) (length pre + length b + 4)"
    by (subst prep_loop.simps) (simp add: e, simp add: add.commute)
  with c show ?thesis by (subst prep_loop.simps) (simp add: nth_append add.assoc)
qed

lemma prep_comma_step:
  assumes "wf_items rest"
  obtains ys zs k where "rest = ys @ zs" and "wf_items zs"
    and "prep_loop (pre @ render (Chr CHR '','' # rest)) (length pre) =
      prep_loop ((pre @ (if closes rest then CHR '' '' else CHR '','') # clean ys) @ render zs) k"
    and "clean rest = clean ys @ clean zs"
    and "k = length pre + 1 + length (clean ys) \<or> zs = [] \<and> k > length pre + 1 + length (clean ys)"
proof -
  from comma_loop_run [OF assms, of "length pre" pre "CHR '',''"] obtain ys zs k where
    h: "rest = ys @ zs" "wf_items zs" "\<forall>y \<in> set ys. filler y"
    "comma_loop (pre @ CHR '','' # render rest) (length pre) (length pre) =
       ((if closes rest then (pre @ [CHR '','']) [length pre := CHR '' ''] else pre @ [CHR '','']) @ clean ys @ render zs, k)"
    "k = length pre + 1 + length (clean ys) \<or> zs = [] \<and> k > length pre + 1 + length (clean ys)" unfolding passes_def by auto
  let ?c = "if closes rest then CHR '' '' else CHR '',''"
  have s: "comma_loop (pre @ CHR '','' # render rest) (length pre) (length pre) = ((pre @ ?c # clean ys) @ render zs, k)"
    using h(4) by (cases "closes rest") (simp_all add: list_update_append)
  have "prep_loop (pre @ render (Chr CHR '','' # rest)) (length pre) = prep_loop ((pre @ ?c # clean ys) @ render zs) k"
    using s by (subst prep_loop.simps) (simp add: nth_append)
  with h clean_filler [OF h(3), of zs] that show ?thesis by simp
qed

lemma prep_loop_comma:
  assumes w: "wf_items rest"
    and IH: "\<And>pre zs. length zs \<le> length rest \<Longrightarrow> wf_items zs \<Longrightarrow>
      prep_loop (pre @ render zs) (length pre) = pre @ clean zs"
  shows "prep_loop (pre @ render (Chr (CHR '','') # rest)) (length pre) = pre @ clean (Chr (CHR '','') # rest)"
proof -
  let ?c = "if closes rest then CHR '' '' else CHR '',''"
  let ?in = "pre @ render (Chr (CHR '','') # rest)"
  from prep_comma_step [OF w, of pre] obtain ys zs k where h: "rest = ys @ zs" "wf_items zs"
    "prep_loop ?in (length pre) = prep_loop ((pre @ ?c # clean ys) @ render zs) k" "clean rest = clean ys @ clean zs"
    "k = length pre + 1 + length (clean ys) \<or> zs = [] \<and> k > length pre + 1 + length (clean ys)" .
  from h(5) have "prep_loop ?in (length pre) = (pre @ ?c # clean ys) @ clean zs"
  proof
    assume "k = length pre + 1 + length (clean ys)"
    with IH [of zs "pre @ ?c # clean ys"] h(1-3) show ?thesis by simp
  next
    assume "zs = [] \<and> k > length pre + 1 + length (clean ys)"
    then show ?thesis unfolding h(3) by (subst prep_loop.simps) simp
  qed
  then show ?thesis using h(4) by simp
qed

lemma prep_loop_items: "wf_items xs \<Longrightarrow> prep_loop (pre @ render xs) (length pre) = pre @ clean xs"
proof (induction xs arbitrary: pre rule: length_induct)
  case (1 xs)
  show ?case
  proof (cases xs)
    case Nil
    then show ?thesis by (simp add: prep_loop.simps [of pre])
  next
    case (Cons it rest)
    note w = 1(2) [unfolded Cons]
    have IH: "prep_loop (p @ render zs) (length p) = p @ clean zs"
      if "length zs \<le> length rest" "wf_items zs" for zs p using 1(1) that Cons by simp
    have step: ?thesis
      if "prep_loop (pre @ render xs) (length pre) = prep_loop ((pre @ b) @ render rest) (length (pre @ b))"
        "clean xs = b @ clean rest" "wf_items rest" for b
      using that IH [of rest "pre @ b"] by simp
    show ?thesis
    proof (cases it)
      case (Quoted b)
      with w have b: "quoted_body b" by simp
      show ?thesis by (rule step [OF _ _]) (use w Quoted Cons prep_string_step [OF b] in simp_all)
    next
      case (LineC b)
      show ?thesis
        by (rule step) (use w Cons LineC prep_line_step [OF w [unfolded LineC]] in \<open>simp_all split: list.splits item.splits\<close>)
    next
      case (BlockC b)
      with w have b: "CHR ''*'' \<notin> set b" by simp
      show ?thesis by (rule step) (use w BlockC Cons prep_block_step [OF b] in simp_all)
    next
      case (Chr ch)
      show ?thesis
      proof (cases "ch = CHR '',''")
        case True
        show ?thesis unfolding Cons Chr True by (rule prep_loop_comma [OF _ IH]) (use w Chr in simp_all)
      next
        case False
        with w Chr have c: "ch \<noteq> CHR 0x22" "ch \<noteq> CHR ''/''" by auto
        have "prep_loop (pre @ ch # render rest) (length pre + 1) = pre @ ch # clean rest"
          using IH [of rest "pre @ [ch]"] w Chr by simp
        with c False show ?thesis by (subst prep_loop.simps) (simp add: Cons Chr nth_append)
      qed
    qed
  qed
qed

text \<open>C24: The reader blanks exactly the comments and the trailing commas. On every text made of quoted
  strings with complete escapes, line comments that end with their line, block comments without an
  inner star, and other characters, it delivers the text with each comment replaced by as many blanks
  and each comma blanked whose next character besides white space and comments closes a list or an
  object; strings are delivered as they are, and no position moves.\<close>

theorem prep_blanks_comments:
  "wf_items xs \<Longrightarrow> prep (Ret (render xs)) = Ret (clean xs)"
  using prep_loop_items [of xs "[]"] by (simp add: prep_def)

definition demo_items :: "item list" where
  "demo_items = [Chr CHR ''['', Quoted ''//,]'', Chr CHR '','', BlockC ''x'', Chr CHR '' '', LineC ''y'', Chr CHR 0x0A, Chr CHR '']'']"

theorem prep_blanks_comments_witness:
  "prep (Ret (render demo_items)) = Ret (CHR ''['' # CHR 0x22 # ''//,]'' @ CHR 0x22 # blanks 10 @ [CHR 0x0A, CHR '']''])"
proof -
  have "wf_items demo_items" by code_simp
  from prep_blanks_comments [OF this] have "prep (Ret (render demo_items)) = Ret (clean demo_items)" .
  moreover have "clean demo_items = CHR ''['' # CHR 0x22 # ''//,]'' @ CHR 0x22 # blanks 10 @ [CHR 0x0A, CHR '']'']" by code_simp
  ultimately show ?thesis by simp
qed

section \<open>Any input\<close>

abbreviation blanked :: "string \<Rightarrow> string \<Rightarrow> bool" where
  "blanked s t \<equiv> list_all2 (\<lambda>a b. b = a \<or> b = CHR '' '') s t"

lemma blanked_trans: "blanked s t \<Longrightarrow> blanked t u \<Longrightarrow> blanked s u"
  by (rule list_all2_trans [of "\<lambda>a b. b = a \<or> b = CHR '' ''"]) auto

lemma blanked_update: "blanked s t \<Longrightarrow> blanked s (t[i := CHR '' ''])"
  by (cases "i < length t") (auto simp: list_all2_conv_all_nth nth_list_update)

lemma blanked_refl [simp]: "blanked s s"
  by (simp add: list_all2_refl)

lemma blanked_step: "blanked (s[i := CHR '' '']) t \<Longrightarrow> blanked s t"
  by (rule blanked_trans [OF blanked_update [OF blanked_refl]])

lemma blank_line_blanked: "blanked s (fst (blank_line s i))"
proof (induction s i rule: blank_line.induct)
  case (1 s i)
  then show ?case by (subst blank_line.simps) (auto intro: blanked_step)
qed

lemma blank_block_blanked: "blanked s (fst (blank_block s i))"
proof (induction s i rule: blank_block.induct)
  case (1 s i)
  then show ?case by (subst blank_block.simps) (auto simp: Let_def intro: blanked_step blanked_step [OF blanked_step [OF blanked_refl]])
qed

lemma consumeComment_blanked:
  assumes "consumeComment s i = (s', i')"
  shows "blanked s s'"
proof -
  obtain s1 i1 where a: "(if i < length s \<and> s ! i = CHR ''/'' then blank_line (s[i - 1 := CHR '' '']) i else (s, i)) = (s1, i1)"
    by force
  have "blanked s (fst (blank_line (s[i - 1 := CHR '' '']) i))" by (rule blanked_step [OF blank_line_blanked])
  with a have 1: "blanked s s1" by (auto split: if_split_asm)
  have "blanked s1 (fst (blank_block (s1[i1 - 1 := CHR '' '', i1 := CHR '' '']) i1))"
    by (rule blanked_step [OF blanked_step [OF blank_block_blanked]])
  with assms a have "blanked s1 s'" by (auto simp: consumeComment_def split: if_split_asm)
  with 1 show ?thesis by (rule blanked_trans)
qed

lemma comma_loop_blanked: "blanked s (fst (comma_loop s j i))"
proof (induction s j i rule: comma_loop.induct)
  case (1 s j i)
  obtain s1 i1 where c: "consumeComment s (i + 1 + 1) = (s1, i1)" by force
  note b = consumeComment_blanked [OF c]
  show ?case
  proof (cases "i + 1 < length s \<and> s ! (i + 1) = CHR ''/''")
    case True
    with 1(1) [OF refl _ _ _ c [symmetric]] c b show ?thesis
      by (subst comma_loop.simps) (auto intro: blanked_trans)
  next
    case False
    with 1(2) [OF refl] show ?thesis by (subst comma_loop.simps) (auto simp: Let_def intro: blanked_update)
  qed
qed

lemma prep_loop_blanked: "blanked s (prep_loop s i)"
proof (induction s i rule: prep_loop.induct)
  case (1 s i)
  obtain s1 i1 s2 i2 where c: "consumeComment s (i + 1) = (s1, i1)" "comma_loop s i i = (s2, i2)" by force
  have b: "blanked s s1" "blanked s s2" using consumeComment_blanked [OF c(1)] comma_loop_blanked [of s i i] c(2) by auto
  show ?case
    by (subst prep_loop.simps) (use 1 c b in \<open>auto intro: blanked_trans\<close>)
qed

text \<open>On any input whatever the reader returns, never indexes outside the buffer, keeps its length, and
  every byte it delivers is the byte of the input at that position or a blank.\<close>

lemma prep_only_blanks:
  "\<exists>t. prep (Ret s) = Ret t \<and> length t = length s \<and> blanked s t"
  using prep_loop_blanked [of s 0] by (auto simp: prep_def list_all2_lengthD)

text \<open>A block comment that ends in two stars is not seen to end: what follows it is blanked too, and its
  second star is left in the text.\<close>

lemma starred_comment_swallows: "prep (Ret ''/***/{}'') = Ret (blanks 3 @ ''*'' @ blanks 3)"
  by code_simp

section \<open>The reader\<close>

text \<open>The wrapped reader delivers \<open>tr_r\<close>, the bytes left to read are \<open>tr_br\<close>. Only an end of file is an
  error once the text is there.\<close>

record TrimNodeReader =
  tr_r :: "string outcome"
  tr_br :: "string option"

definition NewTrimNodeReader :: "string outcome \<Rightarrow> TrimNodeReader" where
  "NewTrimNodeReader r = \<lparr>tr_r = r, tr_br = None\<rparr>"

definition read_bytes :: "nat \<Rightarrow> string \<Rightarrow> string outcome \<times> string" where
  "read_bytes n s = (if s = [] then (Fail ''EOF'', s) else (Ret (take n s), drop n s))"

definition TrimNodeReader_Read :: "nat \<Rightarrow> TrimNodeReader \<Rightarrow> string outcome \<times> TrimNodeReader" where
  "TrimNodeReader_Read n st =
    (case tr_br st of
       Some s \<Rightarrow> (case read_bytes n s of (r, s') \<Rightarrow> (r, st\<lparr>tr_br := Some s'\<rparr>))
     | None \<Rightarrow>
         (case prep (tr_r st) of
            Ret s \<Rightarrow> (case read_bytes n s of (r, s') \<Rightarrow> (r, st\<lparr>tr_br := Some s'\<rparr>))
          | Fail e \<Rightarrow> (Fail e, st)
          | Panic \<Rightarrow> (Panic, st)))"

text \<open>\<open>io.ReadAll\<close>, one byte at a time.\<close>

fun read_up_to :: "nat \<Rightarrow> TrimNodeReader \<Rightarrow> string \<Rightarrow> string outcome" where
  "read_up_to 0 st acc = Fail ''fuel''"
| "read_up_to (Suc k) st acc =
     (case TrimNodeReader_Read 1 st of
        (Ret s, st') \<Rightarrow> read_up_to k st' (acc @ s)
      | (Fail e, _) \<Rightarrow> (if e = ''EOF'' then Ret acc else Fail e)
      | (Panic, _) \<Rightarrow> Panic)"

definition ReadAll :: "string outcome \<Rightarrow> string outcome" where
  "ReadAll r = read_up_to (case r of Ret s \<Rightarrow> length s + 1 | _ \<Rightarrow> 1) (NewTrimNodeReader r) []"

lemma read_up_to_rest:
  "tr_br st = Some s \<Longrightarrow> read_up_to (length s + 1) st acc = Ret (acc @ s)"
proof (induction s arbitrary: st acc)
  case (Cons c s)
  from Cons.IH [of "st\<lparr>tr_br := Some s\<rparr>" "acc @ [c]"] Cons.prems show ?case
    by (simp add: TrimNodeReader_Read_def read_bytes_def)
qed (simp add: TrimNodeReader_Read_def read_bytes_def)

lemma ReadAll_prep: "(\<forall>e. r = Fail e \<longrightarrow> e \<noteq> ''EOF'') \<Longrightarrow> ReadAll r = prep r"
proof (cases r)
  case (Ret s)
  obtain t where t: "prep (Ret s) = Ret t" "length t = length s"
    using prep_loop_blanked [of s 0] by (auto simp: prep_def list_all2_lengthD)
  then have "TrimNodeReader_Read 1 (NewTrimNodeReader (Ret s)) = TrimNodeReader_Read 1 \<lparr>tr_r = Ret s, tr_br = Some t\<rparr>"
    by (simp add: TrimNodeReader_Read_def NewTrimNodeReader_def split: prod.split)
  then have "read_up_to (length s + 1) (NewTrimNodeReader (Ret s)) [] = read_up_to (length s + 1) \<lparr>tr_r = Ret s, tr_br = Some t\<rparr> []"
    by simp
  also have "\<dots> = Ret t" using read_up_to_rest [of "\<lparr>tr_r = Ret s, tr_br = Some t\<rparr>" t "[]"] t by simp
  finally show ?thesis using Ret t by (simp add: ReadAll_def)
qed (auto simp: ReadAll_def TrimNodeReader_Read_def NewTrimNodeReader_def prep_def)

end
