(* ===== verification/Conf.thy ===== *)
theory Conf
  imports Json5
begin

text \<open>
  The \<open>conf\<close> package: the configuration records with their defaults, and how a file becomes one.
  \<open>encoding/json\<close> is a parameter \<open>conf_decoders\<close>: decoding a text into a value gives an outcome and the
  value as the decoder leaves it, also when it fails. Files and URLs of included entries are
  parameters as well.
\<close>

section \<open>The records\<close>

record LogConfig =
  lg_Level :: string
  lg_Output :: string

record XrayLogConfig =
  xl_Level :: string
  xl_AccessPath :: string
  xl_ErrorPath :: string

record XrayConnectionConfig =
  xn_Handshake :: "32 word"
  xn_ConnIdle :: "32 word"
  xn_UplinkOnly :: "32 word"
  xn_DownlinkOnly :: "32 word"
  xn_BufferSize :: "32 word"

record XrayConfig =
  xc_LogConfig :: "XrayLogConfig option"
  xc_AssetPath :: string
  xc_DnsConfigPath :: string
  xc_RouteConfigPath :: string
  xc_ConnectionConfig :: "XrayConnectionConfig option"
  xc_InboundConfigPath :: string
  xc_OutboundConfigPath :: string

record SingLogConfig =
  sl_Disabled :: bool
  sl_Level :: string
  sl_Output :: string
  sl_Timestamp :: bool

record SingNtpConfig =
  nt_Enable :: bool
  nt_Server :: string
  nt_ServerPort :: "16 word"

record SingConfig =
  sc_LogConfig :: SingLogConfig
  sc_NtpConfig :: SingNtpConfig
  sc_EnableConnClear :: bool
  sc_OriginalPath :: string

record CoreConfig =
  kc_Type :: string
  kc_Name :: string
  kc_XrayConfig :: "XrayConfig option"
  kc_SingConfig :: "SingConfig option"

record ApiConfig =
  ac_APIHost :: string
  ac_NodeID :: int
  ac_Key :: string
  ac_NodeType :: string
  ac_Timeout :: int

record NodeConfig =
  nc_ApiConfig :: ApiConfig
  nc_Options :: Options

record rawNodeConfig =
  rn_Include :: string
  rn_ApiRaw :: string
  rn_OptRaw :: string

record ServerApiConfig =
  sa_ApiHost :: string
  sa_ServerId :: int
  sa_SecretKey :: string
  sa_Timeout :: int

record Conf =
  cf_LogConfig :: LogConfig
  cf_CoresConfig :: "CoreConfig list"
  cf_NodeConfig :: "NodeConfig list"
  cf_ApiConfig :: ServerApiConfig

section \<open>Defaults\<close>

definition NewXrayConfig :: XrayConfig where
  "NewXrayConfig = \<lparr>xc_LogConfig = Some \<lparr>xl_Level = ''warning'', xl_AccessPath = '''', xl_ErrorPath = ''''\<rparr>,
     xc_AssetPath = ''/etc/yunzes-node/'', xc_DnsConfigPath = '''', xc_RouteConfigPath = '''',
     xc_ConnectionConfig = Some \<lparr>xn_Handshake = 4, xn_ConnIdle = 30, xn_UplinkOnly = 2, xn_DownlinkOnly = 4, xn_BufferSize = 64\<rparr>,
     xc_InboundConfigPath = '''', xc_OutboundConfigPath = ''''\<rparr>"

definition NewXrayOptions :: XrayOptions where
  "NewXrayOptions = \<lparr>xo_EnableProxyProtocol = False, xo_EnableDNS = False, xo_DNSType = ''AsIs'', xo_EnableUot = False,
     xo_EnableTFO = False, xo_DisableIVCheck = False, xo_DisableSniffing = False, xo_EnableFallback = False,
     xo_FallBackConfigs = None\<rparr>"

definition NewSingConfig :: SingConfig where
  "NewSingConfig = \<lparr>sc_LogConfig = \<lparr>sl_Disabled = False, sl_Level = ''error'', sl_Output = '''', sl_Timestamp = True\<rparr>,
     sc_NtpConfig = \<lparr>nt_Enable = False, nt_Server = ''time.apple.com'', nt_ServerPort = 0\<rparr>,
     sc_EnableConnClear = False, sc_OriginalPath = ''''\<rparr>"

definition NewSingOptions :: SingOptions where
  "NewSingOptions = \<lparr>so_TCPFastOpen = False, so_SniffEnabled = True, so_SniffOverrideDestination = True, so_EnableDNS = False,
     so_FallBackConfigs = Some \<lparr>fs_FallBack = \<lparr>fb_Server = '''', fb_ServerPort = ''''\<rparr>, fs_FallBackForALPN = []\<rparr>,
     so_Multiplex = Some \<lparr>mx_Enabled = False, mx_Padding = False, mx_Brutal = \<lparr>br_Enabled = False, br_UpMbps = 0, br_DownMbps = 0\<rparr>\<rparr>\<rparr>"

definition NewCertConfig :: CertConfig where
  "NewCertConfig = \<lparr>cc_CertMode = ''none'', cc_RejectUnknownSni = False, cc_CertDomain = '''', cc_CertFile = '''',
     cc_KeyFile = '''', cc_Provider = '''', cc_Email = '''', cc_DNSEnv = None, cc_RenewBeforeDays = 0\<rparr>"

definition Conf_New :: Conf where
  "Conf_New = \<lparr>cf_LogConfig = \<lparr>lg_Level = ''info'', lg_Output = ''''\<rparr>, cf_CoresConfig = [], cf_NodeConfig = [],
     cf_ApiConfig = \<lparr>sa_ApiHost = '''', sa_ServerId = 0, sa_SecretKey = '''', sa_Timeout = 0\<rparr>\<rparr>"

definition zero_options :: Options where
  "zero_options = \<lparr>op_Name = '''', op_Core = '''', op_CoreName = '''', op_ListenIP = '''', op_SendIP = '''',
     op_DeviceOnlineMinTraffic = 0,
     op_LimitConfig = \<lparr>lc_EnableRealtime = False, lc_SpeedLimit = 0, lc_IPLimit = 0, lc_ConnLimit = 0,
       lc_EnableDynamicSpeedLimit = False, lc_DynamicSpeedLimitConfig = None, lc_MaxReportFailureRollbacks = 0\<rparr>,
     op_RawOptions = '''', op_XrayOptions = None, op_SingOptions = None, op_CertConfig = None\<rparr>"

section \<open>Decoding\<close>

type_synonym 'a decoder = "string \<Rightarrow> 'a \<Rightarrow> unit outcome \<times> 'a"

text \<open>\<open>jd_conf\<close> cuts a document into its log section, the texts of its cores and nodes, and its API
  section; the other conf_decoders ignore the methods the code defines on the type.\<close>

record conf_decoders =
  jd_conf :: "string \<Rightarrow> LogConfig \<times> ServerApiConfig \<Rightarrow> (LogConfig \<times> string list \<times> string list \<times> ServerApiConfig) outcome"
  jd_core :: "CoreConfig decoder"
  jd_xrayConfig :: "XrayConfig decoder"
  jd_singConfig :: "SingConfig decoder"
  jd_node :: "rawNodeConfig decoder"
  jd_api :: "ApiConfig decoder"
  jd_options :: "Options decoder"
  jd_xrayOptions :: "XrayOptions decoder"
  jd_singOptions :: "SingOptions decoder"

definition CoreConfig_UnmarshalJSON :: "conf_decoders \<Rightarrow> CoreConfig decoder" where
  "CoreConfig_UnmarshalJSON D b c =
    (case jd_core D b c of
       (Ret _, c1) \<Rightarrow>
         if kc_Type c1 = ''xray'' then
           (case jd_xrayConfig D b NewXrayConfig of (r, x) \<Rightarrow> (r, c1\<lparr>kc_XrayConfig := Some x\<rparr>))
         else if kc_Type c1 = ''sing'' then
           (case jd_singConfig D b NewSingConfig of (r, x) \<Rightarrow> (r, c1\<lparr>kc_SingConfig := Some x\<rparr>))
         else (Ret (), c1)
     | (e, c1) \<Rightarrow> (e, c1))"

definition Options_UnmarshalJSON :: "conf_decoders \<Rightarrow> Options decoder" where
  "Options_UnmarshalJSON D data opt =
    (case jd_options D data opt of
       (Ret _, opt1) \<Rightarrow>
         if op_Core opt1 = ''xray'' then
           (case jd_xrayOptions D data NewXrayOptions of (r, x) \<Rightarrow> (r, opt1\<lparr>op_XrayOptions := Some x\<rparr>))
         else if op_Core opt1 = ''sing'' then
           (case jd_singOptions D data NewSingOptions of (r, x) \<Rightarrow> (r, opt1\<lparr>op_SingOptions := Some x\<rparr>))
         else (Ret (), opt1\<lparr>op_Core := '''', op_RawOptions := data\<rparr>)
     | (e, opt1) \<Rightarrow> (e, opt1))"

text \<open>An included document: a URL answers with a status and a body, a file has a content; opening and
  reading can fail.\<close>

record sources =
  so_get :: "string \<Rightarrow> (int \<times> string outcome) outcome"
  so_open :: "string \<Rightarrow> string outcome outcome"

definition has_prefix :: "string \<Rightarrow> string \<Rightarrow> bool" where
  "has_prefix p s \<longleftrightarrow> take (length p) s = p"

definition include_data :: "sources \<Rightarrow> string \<Rightarrow> string outcome" where
  "include_data S inc =
    (if has_prefix ''http://'' inc \<or> has_prefix ''https://'' inc then
       (case so_get S inc of
          Ret (status, body) \<Rightarrow>
            if status \<ge> 400 then Fail ''fetch include URL: HTTP''
            else (case ReadAll body of Ret s \<Rightarrow> Ret s | Fail e \<Rightarrow> Fail ''read include URL body'' | Panic \<Rightarrow> Panic)
        | Fail e \<Rightarrow> Fail ''fetch include URL''
        | Panic \<Rightarrow> Panic)
     else
       (case so_open S inc of
          Ret body \<Rightarrow> (case ReadAll body of Ret s \<Rightarrow> Ret s | Fail e \<Rightarrow> Fail ''read include file'' | Panic \<Rightarrow> Panic)
        | Fail e \<Rightarrow> Fail ''open include file''
        | Panic \<Rightarrow> Panic))"

definition default_api :: ApiConfig where
  "default_api = \<lparr>ac_APIHost = ''http://127.0.0.1'', ac_NodeID = 0, ac_Key = '''', ac_NodeType = '''', ac_Timeout = 30\<rparr>"

definition default_options :: Options where
  "default_options = zero_options\<lparr>op_ListenIP := ''0.0.0.0'', op_SendIP := ''0.0.0.0'', op_CertConfig := Some NewCertConfig\<rparr>"

text \<open>The raw entry and the text it came from, after following an include.\<close>

definition raw_entry :: "conf_decoders \<Rightarrow> sources \<Rightarrow> string \<Rightarrow> (rawNodeConfig \<times> string) outcome" where
  "raw_entry D S data =
    (case jd_node D data \<lparr>rn_Include = '''', rn_ApiRaw = '''', rn_OptRaw = ''''\<rparr> of
       (Ret _, rn) \<Rightarrow>
         if rn_Include rn \<noteq> '''' then
           (case include_data S (rn_Include rn) of
              Ret d \<Rightarrow> (case jd_node D d rn of
                          (Ret _, rn1) \<Rightarrow> Ret (rn1, d)
                        | (Fail e, _) \<Rightarrow> Fail ''unmarshal include content''
                        | (Panic, _) \<Rightarrow> Panic)
            | Fail e \<Rightarrow> Fail e
            | Panic \<Rightarrow> Panic)
         else Ret (rn, data)
     | (Fail e, _) \<Rightarrow> Fail e
     | (Panic, _) \<Rightarrow> Panic)"

definition NodeConfig_UnmarshalJSON :: "conf_decoders \<Rightarrow> sources \<Rightarrow> string \<Rightarrow> NodeConfig outcome" where
  "NodeConfig_UnmarshalJSON D S data =
    (case raw_entry D S data of
       Ret (rn, d) \<Rightarrow>
         (case jd_api D (if rn_ApiRaw rn \<noteq> '''' then rn_ApiRaw rn else d) default_api of
            (Ret _, api) \<Rightarrow>
              (case Options_UnmarshalJSON D (if rn_OptRaw rn \<noteq> '''' then rn_OptRaw rn else d) default_options of
                 (Ret _, opt) \<Rightarrow> Ret \<lparr>nc_ApiConfig = api, nc_Options = opt\<rparr>
               | (Fail e, _) \<Rightarrow> Fail e
               | (Panic, _) \<Rightarrow> Panic)
          | (Fail e, _) \<Rightarrow> Fail e
          | (Panic, _) \<Rightarrow> Panic)
     | Fail e \<Rightarrow> Fail e
     | Panic \<Rightarrow> Panic)"

fun each :: "('a \<Rightarrow> 'b outcome) \<Rightarrow> 'a list \<Rightarrow> 'b list outcome" where
  "each f [] = Ret []"
| "each f (x # xs) =
     (case f x of
        Ret y \<Rightarrow> (case each f xs of Ret ys \<Rightarrow> Ret (y # ys) | Fail e \<Rightarrow> Fail e | Panic \<Rightarrow> Panic)
      | Fail e \<Rightarrow> Fail e
      | Panic \<Rightarrow> Panic)"

definition zero_core :: CoreConfig where
  "zero_core = \<lparr>kc_Type = '''', kc_Name = '''', kc_XrayConfig = None, kc_SingConfig = None\<rparr>"

text \<open>\<open>json.Unmarshal(data, p)\<close>: the decoder calls the methods above for each core and node.\<close>

definition decode_conf :: "conf_decoders \<Rightarrow> sources \<Rightarrow> string \<Rightarrow> Conf \<Rightarrow> Conf outcome" where
  "decode_conf D S data p =
    (case jd_conf D data (cf_LogConfig p, cf_ApiConfig p) of
       Ret (lg, cores, nodes, api) \<Rightarrow>
         (case each (\<lambda>b. case CoreConfig_UnmarshalJSON D b zero_core of
                           (Ret _, c) \<Rightarrow> Ret c | (Fail e, _) \<Rightarrow> Fail e | (Panic, _) \<Rightarrow> Panic) cores of
            Ret cs \<Rightarrow>
              (case each (NodeConfig_UnmarshalJSON D S) nodes of
                 Ret ns \<Rightarrow> Ret \<lparr>cf_LogConfig = lg, cf_CoresConfig = cs, cf_NodeConfig = ns, cf_ApiConfig = api\<rparr>
               | Fail e \<Rightarrow> Fail e | Panic \<Rightarrow> Panic)
          | Fail e \<Rightarrow> Fail e | Panic \<Rightarrow> Panic)
     | Fail e \<Rightarrow> Fail e
     | Panic \<Rightarrow> Panic)"

definition LoadFromPath :: "conf_decoders \<Rightarrow> sources \<Rightarrow> string \<Rightarrow> Conf \<Rightarrow> Conf outcome" where
  "LoadFromPath D S filePath p =
    (case so_open S filePath of
       Ret f \<Rightarrow>
         (case ReadAll f of
            Ret data \<Rightarrow>
              (case decode_conf D S data p of
                 Ret c \<Rightarrow> Ret c | Fail e \<Rightarrow> Fail ''unmarshal config error'' | Panic \<Rightarrow> Panic)
          | Fail e \<Rightarrow> Fail ''read config file error''
          | Panic \<Rightarrow> Panic)
     | Fail e \<Rightarrow> Fail ''open config file error''
     | Panic \<Rightarrow> Panic)"

section \<open>What a loaded configuration can hold\<close>

text \<open>The sections a core or a node entry has are those of its type; an entry of any other type keeps the
  text it was decoded from, for the moment its core is known.\<close>

definition core_typed :: "CoreConfig \<Rightarrow> bool" where
  "core_typed c \<longleftrightarrow> (kc_Type c = ''xray'' \<longrightarrow> kc_XrayConfig c \<noteq> None) \<and> (kc_Type c = ''sing'' \<longrightarrow> kc_SingConfig c \<noteq> None)"

definition options_typed :: "Options \<Rightarrow> bool" where
  "options_typed x \<longleftrightarrow> (op_Core x = ''xray'' \<and> op_XrayOptions x \<noteq> None) \<or>
     (op_Core x = ''sing'' \<and> op_SingOptions x \<noteq> None) \<or> op_Core x = ''''"

lemma CoreConfig_typed: "CoreConfig_UnmarshalJSON D b c = (Ret x, c') \<Longrightarrow> core_typed c'"
  by (auto simp: CoreConfig_UnmarshalJSON_def core_typed_def split: prod.splits outcome.splits if_split_asm)

lemma Options_typed: "Options_UnmarshalJSON D b opt = (Ret x, opt') \<Longrightarrow> options_typed opt'"
  by (auto simp: Options_UnmarshalJSON_def options_typed_def split: prod.splits outcome.splits if_split_asm)

lemma NodeConfig_typed: "NodeConfig_UnmarshalJSON D S b = Ret n \<Longrightarrow> options_typed (nc_Options n)"
  by (auto simp: NodeConfig_UnmarshalJSON_def split: prod.splits outcome.splits dest: Options_typed)

lemma each_all: "each f xs = Ret ys \<Longrightarrow> (\<And>x y. f x = Ret y \<Longrightarrow> P y) \<Longrightarrow> \<forall>y \<in> set ys. P y"
  by (induction xs arbitrary: ys) (auto split: outcome.splits)

lemma decode_core_typed:
  "(case CoreConfig_UnmarshalJSON D b zero_core of
      (Ret _, c) \<Rightarrow> Ret c | (Fail e, _) \<Rightarrow> Fail e | (Panic, _) \<Rightarrow> Panic) = Ret k \<Longrightarrow> core_typed k"
  by (auto split: prod.splits outcome.splits dest: CoreConfig_typed)

text \<open>C26: A configuration that loads is typed. Whatever the decoder and the included sources do, in every
  configuration \<open>LoadFromPath\<close> returns each core of type xray or sing has its own section, and each
  node's options either name xray or sing and have that core's section, or name no core at all.\<close>

theorem loaded_configuration_typed:
  assumes "LoadFromPath D S path p = Ret c"
  shows "(\<forall>k \<in> set (cf_CoresConfig c). core_typed k) \<and> (\<forall>n \<in> set (cf_NodeConfig c). options_typed (nc_Options n))"
proof -
  obtain data where "decode_conf D S data p = Ret c"
    using assms by (auto simp: LoadFromPath_def split: outcome.splits)
  then obtain cores nodes where
    cs: "each (\<lambda>b. case CoreConfig_UnmarshalJSON D b zero_core of
        (Ret _, c) \<Rightarrow> Ret c | (Fail e, _) \<Rightarrow> Fail e | (Panic, _) \<Rightarrow> Panic) cores = Ret (cf_CoresConfig c)"
    and ns: "each (NodeConfig_UnmarshalJSON D S) nodes = Ret (cf_NodeConfig c)"
    by (auto simp: decode_conf_def split: outcome.splits)
  have "\<forall>k \<in> set (cf_CoresConfig c). core_typed k" by (rule each_all [OF cs]) (rule decode_core_typed)
  moreover have "\<forall>n \<in> set (cf_NodeConfig c). options_typed (nc_Options n)" by (rule each_all [OF ns]) (rule NodeConfig_typed)
  ultimately show ?thesis ..
qed

definition demo_conf_decoders :: conf_decoders where
  "demo_conf_decoders = \<lparr>jd_conf = (\<lambda>s (l, a). Ret (l, [s], [s], a)),
     jd_core = (\<lambda>s c. (Ret (), c\<lparr>kc_Type := s\<rparr>)), jd_xrayConfig = (\<lambda>s c. (Ret (), c)), jd_singConfig = (\<lambda>s c. (Ret (), c)),
     jd_node = (\<lambda>s r. (Ret (), r)), jd_api = (\<lambda>s a. (Ret (), a)), jd_options = (\<lambda>s x. (Ret (), x\<lparr>op_Core := s\<rparr>)),
     jd_xrayOptions = (\<lambda>s x. (Ret (), x)), jd_singOptions = (\<lambda>s x. (Ret (), x))\<rparr>"

definition demo_sources :: "string \<Rightarrow> sources" where
  "demo_sources s = \<lparr>so_get = (\<lambda>_. Fail ''no network''), so_open = (\<lambda>_. Ret (Ret s))\<rparr>"

theorem loaded_configuration_typed_witness:
  "\<exists>c. LoadFromPath demo_conf_decoders (demo_sources ''sing'') ''f'' Conf_New = Ret c \<and>
     (\<forall>k \<in> set (cf_CoresConfig c). core_typed k) \<and> (\<forall>n \<in> set (cf_NodeConfig c). options_typed (nc_Options n))"
proof -
  let ?l = "LoadFromPath demo_conf_decoders (demo_sources ''sing'') ''f'' Conf_New"
  have "case ?l of Ret _ \<Rightarrow> True | Fail _ \<Rightarrow> False | Panic \<Rightarrow> False" by code_simp
  then obtain c where c: "?l = Ret c" by (cases ?l) simp_all
  with loaded_configuration_typed [OF c] show ?thesis by blast
qed

end
