(* ===== verification/Selector.thy ===== *)
theory Selector
  imports Reload Conf
begin

text \<open>
  \<open>core/selector.go\<close> and \<open>core/core.go\<close>: the core that routes every call to one of several cores by the
  runtime key of the node. The methods of the member cores are an argument \<open>K\<close>, one record per name;
  the state holds the member objects' states and the table from runtime keys to members. A range over
  the members visits them in the order of \<open>K\<close>, which stands for any order.
\<close>

section \<open>Runtime keys\<close>

definition validateRuntimeKey :: "string \<Rightarrow> (string \<times> string) outcome" where
  "validateRuntimeKey rk =
    (case Cut rk (CHR ''|'') of
       None \<Rightarrow> Fail ''invalid runtime key: expected coreType|logicalTag''
     | Some (coreType, logicalTag) \<Rightarrow>
         if coreType = '''' then Fail ''invalid runtime key: coreType is empty''
         else if logicalTag = '''' then Fail ''invalid runtime key: logicalTag is empty''
         else if coreType \<noteq> ''xray'' \<and> coreType \<noteq> ''sing'' then Fail ''invalid runtime key: unknown coreType''
         else Ret (coreType, logicalTag))"

text \<open>The keys the selector accepts are exactly the runtime keys \<open>format.RuntimeKey\<close> builds from a
  known core type and a nonempty logical tag, and it reads the two parts back, whatever characters the
  tag has.\<close>

lemma runtime_key_roundtrip:
  "validateRuntimeKey rk = Ret (c, l) \<longleftrightarrow> rk = RuntimeKey c l \<and> c \<in> {''xray'', ''sing''} \<and> l \<noteq> ''''"
proof
  assume "validateRuntimeKey rk = Ret (c, l)"
  then show "rk = RuntimeKey c l \<and> c \<in> {''xray'', ''sing''} \<and> l \<noteq> ''''"
    by (auto simp: validateRuntimeKey_def RuntimeKey_def dest: Cut_Some split: option.splits if_split_asm)
next
  assume h: "rk = RuntimeKey c l \<and> c \<in> {''xray'', ''sing''} \<and> l \<noteq> ''''"
  then have "Cut rk (CHR ''|'') = Some (c, l)" unfolding RuntimeKey_def using Cut_append [of "CHR ''|''" c l] by auto
  with h show "validateRuntimeKey rk = Ret (c, l)" by (auto simp: validateRuntimeKey_def)
qed

section \<open>The selector\<close>

record 'c Selector =
  se_cores :: "(string, 'c) gomap"
  se_nodes :: "(string, string) gomap"

type_synonym 'c members = "(string, 'c Core) gomap"

text \<open>Constructing the members; \<open>reg\<close> is the table \<open>RegisterCore\<close> fills.\<close>

type_synonym 'c registry = "(string, CoreConfig \<Rightarrow> ('c Core \<times> 'c) outcome) gomap"

fun new_members :: "'c registry \<Rightarrow> CoreConfig list \<Rightarrow> 'c members \<Rightarrow> (string, 'c) gomap
    \<Rightarrow> ('c members \<times> (string, 'c) gomap) outcome" where
  "new_members reg [] K cs = Ret (K, cs)"
| "new_members reg (t # ts) K cs =
     (case mload reg (ToLower (kc_Type t)) of
        None \<Rightarrow> Fail ''unknown core type''
      | Some f \<Rightarrow>
          (case f t of
             Ret (C, c) \<Rightarrow>
               (let n = (if kc_Name t = '''' then kc_Type t else kc_Name t)
                in new_members reg ts (mstore K n C) (mstore cs n c))
           | Fail e \<Rightarrow> Fail e
           | Panic \<Rightarrow> Panic))"

definition NewSelector :: "'c registry \<Rightarrow> CoreConfig list \<Rightarrow> ('c members \<times> 'c Selector) outcome" where
  "NewSelector reg ts =
    (case new_members reg ts [] [] of
       Ret (K, cs) \<Rightarrow> Ret (K, \<lparr>se_cores = cs, se_nodes = []\<rparr>)
     | Fail e \<Rightarrow> Fail e
     | Panic \<Rightarrow> Panic)"

text \<open>One core is used as it is, several behind a selector.\<close>

datatype 'c any_core = One "'c Core" 'c | Many "'c members" "'c Selector"

definition NewCore :: "'c registry \<Rightarrow> CoreConfig list \<Rightarrow> 'c any_core outcome" where
  "NewCore reg ts =
    (if ts = [] then Fail ''no have vail core''
     else if length ts > 1 then
       (case NewSelector reg ts of Ret (K, s) \<Rightarrow> Ret (Many K s) | Fail e \<Rightarrow> Fail e | Panic \<Rightarrow> Panic)
     else (case mload reg (kc_Type (hd ts)) of
        None \<Rightarrow> Fail ''unknown core type''
      | Some f \<Rightarrow> (case f (hd ts) of Ret (C, c) \<Rightarrow> Ret (One C c) | Fail e \<Rightarrow> Fail e | Panic \<Rightarrow> Panic)))"

text \<open>\<open>Start\<close> and \<open>Close\<close> of the members are parameters: starting stops at the first failure, closing
  goes on and joins the errors.\<close>

fun start_members :: "(string \<Rightarrow> 'c \<Rightarrow> unit outcome \<times> 'c) \<Rightarrow> (string, 'c) gomap \<Rightarrow> unit outcome \<times> (string, 'c) gomap" where
  "start_members st [] = (Ret (), [])"
| "start_members st ((n, c) # cs) =
     (case st n c of
        (Ret _, c') \<Rightarrow> (case start_members st cs of (r, cs') \<Rightarrow> (r, (n, c') # cs'))
      | (e, c') \<Rightarrow> (e, (n, c') # cs))"

definition Selector_Start :: "(string \<Rightarrow> 'c \<Rightarrow> unit outcome \<times> 'c) \<Rightarrow> 'c Selector \<Rightarrow> unit outcome \<times> 'c Selector" where
  "Selector_Start st s = (case start_members st (se_cores s) of (r, cs) \<Rightarrow> (r, s\<lparr>se_cores := cs\<rparr>))"

fun close_members :: "(string \<Rightarrow> 'c \<Rightarrow> unit outcome \<times> 'c) \<Rightarrow> (string, 'c) gomap \<Rightarrow> string list
    \<Rightarrow> string list outcome \<times> (string, 'c) gomap" where
  "close_members cl [] errs = (Ret errs, [])"
| "close_members cl ((n, c) # cs) errs =
     (case cl n c of
        (Panic, c') \<Rightarrow> (Panic, (n, c') # cs)
      | (Ret _, c') \<Rightarrow> (case close_members cl cs errs of (r, cs') \<Rightarrow> (r, (n, c') # cs'))
      | (Fail e, c') \<Rightarrow> (case close_members cl cs (errs @ [e]) of (r, cs') \<Rightarrow> (r, (n, c') # cs')))"

definition Selector_Close :: "(string \<Rightarrow> 'c \<Rightarrow> unit outcome \<times> 'c) \<Rightarrow> 'c Selector \<Rightarrow> unit outcome \<times> 'c Selector" where
  "Selector_Close cl s =
    (case close_members cl (se_cores s) [] of
       (Ret errs, cs) \<Rightarrow> (if errs = [] then Ret () else Fail (concat errs), s\<lparr>se_cores := cs\<rparr>)
     | (Fail e, cs) \<Rightarrow> (Fail e, s\<lparr>se_cores := cs\<rparr>)
     | (Panic, cs) \<Rightarrow> (Panic, s\<lparr>se_cores := cs\<rparr>))"

definition isSupported :: "string \<Rightarrow> string list \<Rightarrow> bool" where
  "isSupported protocol protocols \<longleftrightarrow> protocol \<in> set protocols"

text \<open>Without a name, the last member that fits is taken.\<close>

fun pick_by_type :: "'c members \<Rightarrow> Options \<Rightarrow> NodeInfo \<Rightarrow> 'c Selector \<Rightarrow> string option \<Rightarrow> string option" where
  "pick_by_type [] opt info s core = core"
| "pick_by_type ((n, C) # K) opt info s core =
     (case mload (se_cores s) n of
        None \<Rightarrow> pick_by_type K opt info s core
      | Some c \<Rightarrow>
          (if (if op_Core opt = '''' then \<not> isSupported (ni_Type info) (co_Protocols C c) else op_Core opt \<noteq> co_Type C c)
           then pick_by_type K opt info s core
           else pick_by_type K opt info s (Some n)))"

definition pick_core :: "'c members \<Rightarrow> Options \<Rightarrow> NodeInfo \<Rightarrow> 'c Selector \<Rightarrow> string option" where
  "pick_core K opt info s =
    (if op_CoreName opt \<noteq> '''' then (if mload K (op_CoreName opt) \<noteq> None then Some (op_CoreName opt) else None)
     else pick_by_type K opt info s None)"

text \<open>A call on the member \<open>n\<close>.\<close>

definition on_member :: "'c members \<Rightarrow> string \<Rightarrow> ('c Core \<Rightarrow> 'c \<Rightarrow> 'r \<times> 'c) \<Rightarrow> 'r \<Rightarrow> 'c Selector \<Rightarrow> 'r \<times> 'c Selector" where
  "on_member K n f dead s =
    (case (mload K n, mload (se_cores s) n) of
       (Some C, Some c) \<Rightarrow> (case f C c of (r, c') \<Rightarrow> (r, s\<lparr>se_cores := mstore (se_cores s) n c'\<rparr>))
     | _ \<Rightarrow> (dead, s))"

definition late_options :: "conf_decoders \<Rightarrow> string \<Rightarrow> Options \<Rightarrow> unit outcome \<times> Options" where
  "late_options D coreType opt =
    (if op_Core opt = '''' then
       (case Options_UnmarshalJSON D (op_RawOptions opt) (opt\<lparr>op_Core := coreType\<rparr>) of
          (Ret _, opt1) \<Rightarrow> (Ret (), opt1\<lparr>op_RawOptions := ''''\<rparr>)
        | (Fail e, opt1) \<Rightarrow> (Fail ''unmarshal option error'', opt1)
        | (Panic, opt1) \<Rightarrow> (Panic, opt1))
     else (Ret (), opt))"

definition Selector_AddNode :: "conf_decoders \<Rightarrow> 'c members \<Rightarrow> string \<Rightarrow> NodeInfo \<Rightarrow> Options \<Rightarrow> 'c Selector
    \<Rightarrow> unit outcome \<times> Options \<times> 'c Selector" where
  "Selector_AddNode D K tag info opt s =
    (case validateRuntimeKey tag of
       Fail e \<Rightarrow> (Fail e, opt, s)
     | Panic \<Rightarrow> (Panic, opt, s)
     | Ret _ \<Rightarrow>
         (case pick_core K opt info s of
            None \<Rightarrow> (Fail ''the node type is not support'', opt, s)
          | Some n \<Rightarrow>
              (case (mload K n, mload (se_cores s) n) of
                 (Some C, Some c) \<Rightarrow>
                   (case late_options D (co_Type C c) opt of
                      (Ret _, opt1) \<Rightarrow>
                        (case co_AddNode C tag info opt1 c of
                           (r, opt2, c') \<Rightarrow>
                             (let s1 = s\<lparr>se_cores := mstore (se_cores s) n c'\<rparr>
                              in (r, opt2, if r = Ret () then s1\<lparr>se_nodes := mstore (se_nodes s1) tag n\<rparr> else s1)))
                    | (e, opt1) \<Rightarrow> (e, opt1, s))
               | _ \<Rightarrow> (Panic, opt, s))))"

text \<open>The calls on a known node.\<close>

definition routed :: "'c members \<Rightarrow> string \<Rightarrow> ('c Core \<Rightarrow> 'c \<Rightarrow> 'r outcome \<times> 'c) \<Rightarrow> 'c Selector \<Rightarrow> 'r outcome \<times> 'c Selector" where
  "routed K tag f s =
    (case validateRuntimeKey tag of
       Fail e \<Rightarrow> (Fail e, s)
     | Panic \<Rightarrow> (Panic, s)
     | Ret _ \<Rightarrow>
         (case mload (se_nodes s) tag of
            None \<Rightarrow> (Fail ''the node is not have'', s)
          | Some n \<Rightarrow> on_member K n f Panic s))"

definition Selector_DelNode :: "'c members \<Rightarrow> string \<Rightarrow> 'c Selector \<Rightarrow> unit outcome \<times> 'c Selector" where
  "Selector_DelNode K tag s =
    (case routed K tag (\<lambda>C. co_DelNode C tag) s of
       (Ret _, s') \<Rightarrow> (Ret (), s'\<lparr>se_nodes := mdelete (se_nodes s') tag\<rparr>)
     | (e, s') \<Rightarrow> (e, s'))"

definition Selector_AddUsers :: "'c members \<Rightarrow> string \<Rightarrow> UserInfo list \<Rightarrow> NodeInfo \<Rightarrow> 'c Selector \<Rightarrow> nat outcome \<times> 'c Selector" where
  "Selector_AddUsers K tag users info = routed K tag (\<lambda>C. co_AddUsers C tag users info)"

definition Selector_GetUserTrafficSlice :: "'c members \<Rightarrow> string \<Rightarrow> bool \<Rightarrow> 'c Selector \<Rightarrow> UserTraffic list outcome \<times> 'c Selector" where
  "Selector_GetUserTrafficSlice K tag reset = routed K tag (\<lambda>C. co_GetUserTrafficSlice C tag reset)"

definition Selector_AddUserTrafficSlice :: "'c members \<Rightarrow> string \<Rightarrow> UserTraffic list \<Rightarrow> 'c Selector \<Rightarrow> unit outcome \<times> 'c Selector" where
  "Selector_AddUserTrafficSlice K tag traffic = routed K tag (\<lambda>C. co_AddUserTrafficSlice C tag traffic)"

definition Selector_DelUsers :: "'c members \<Rightarrow> UserInfo list \<Rightarrow> string \<Rightarrow> 'c Selector \<Rightarrow> unit outcome \<times> 'c Selector" where
  "Selector_DelUsers K users tag = routed K tag (\<lambda>C. co_DelUsers C users tag)"

definition Selector_Protocols :: "'c members \<Rightarrow> 'c Selector \<Rightarrow> string list" where
  "Selector_Protocols K s =
    concat (map (\<lambda>(n, C). case mload (se_cores s) n of None \<Rightarrow> [] | Some c \<Rightarrow> co_Protocols C c) K)"

fun type_names :: "'c members \<Rightarrow> 'c Selector \<Rightarrow> bool \<Rightarrow> string \<Rightarrow> string" where
  "type_names [] s flag t = t @ '')''"
| "type_names ((n, C) # K) s flag t =
     type_names K s True
       ((if flag then t @ '' '' else t) @
        (if n = '''' then (case mload (se_cores s) n of None \<Rightarrow> [] | Some c \<Rightarrow> co_Type C c) else n))"

definition Selector_Type :: "'c members \<Rightarrow> 'c Selector \<Rightarrow> string" where
  "Selector_Type K s = type_names K s False ''Selector(''"

text \<open>The selector as a core.\<close>

definition selector_core :: "conf_decoders \<Rightarrow> 'c members \<Rightarrow> 'c Selector Core" where
  "selector_core D K = \<lparr>co_AddNode = Selector_AddNode D K, co_DelNode = Selector_DelNode K,
     co_AddUsers = Selector_AddUsers K, co_GetUserTrafficSlice = Selector_GetUserTrafficSlice K,
     co_AddUserTrafficSlice = Selector_AddUserTrafficSlice K, co_DelUsers = Selector_DelUsers K,
     co_Protocols = Selector_Protocols K, co_Type = Selector_Type K\<rparr>"

section \<open>A selector of lawful cores is a lawful core\<close>

text \<open>The nodes a selector has up: those routed to a member that has them up.\<close>

definition member_up :: "'c members \<Rightarrow> ('c \<Rightarrow> string set) \<Rightarrow> (string, 'c) gomap \<Rightarrow> string \<Rightarrow> string \<Rightarrow> bool" where
  "member_up K up cs n t \<longleftrightarrow> mload K n \<noteq> None \<and> (case mload cs n of None \<Rightarrow> False | Some c \<Rightarrow> t \<in> up c)"

definition sel_up :: "'c members \<Rightarrow> ('c \<Rightarrow> string set) \<Rightarrow> 'c Selector \<Rightarrow> string set" where
  "sel_up K up s = {t. is_Ret (validateRuntimeKey t) \<and>
     (case mload (se_nodes s) t of None \<Rightarrow> False | Some n \<Rightarrow> member_up K up (se_cores s) n t)}"

lemma sel_up_iff:
  "t \<in> sel_up K up s \<longleftrightarrow> is_Ret (validateRuntimeKey t) \<and>
     (case mload (se_nodes s) t of None \<Rightarrow> False | Some n \<Rightarrow> member_up K up (se_cores s) n t)"
  by (simp add: sel_up_def)

lemma sel_up_cong:
  "se_nodes s' = se_nodes s \<Longrightarrow> (\<And>n t. member_up K up (se_cores s') n t = member_up K up (se_cores s) n t) \<Longrightarrow>
     sel_up K up s' = sel_up K up s"
  by (auto simp: sel_up_def split: option.splits)

lemma member_up_mstore:
  "mload K n = Some C \<Longrightarrow> mload cs n = Some c \<Longrightarrow>
     member_up K up (mstore cs n c') m t \<longleftrightarrow> (if m = n then t \<in> up c' else member_up K up cs m t)"
  by (simp add: member_up_def)

lemma member_up_here: "mload K n = Some C \<Longrightarrow> mload cs n = Some c \<Longrightarrow> member_up K up cs n t \<longleftrightarrow> t \<in> up c"
  by (simp add: member_up_def)

lemma is_Ret_cases: "is_Ret r \<Longrightarrow> (\<And>x. r = Ret x \<Longrightarrow> P) \<Longrightarrow> P"
  by (auto simp: is_Ret_def)

lemma routed_cases:
  assumes "routed K tag f s = (r, s')"
  obtains (refused) "s' = s" "\<forall>x. r \<noteq> Ret x"
      "\<not> is_Ret (validateRuntimeKey tag) \<or> mload (se_nodes s) tag = None \<or>
       (\<exists>n. mload (se_nodes s) tag = Some n \<and> (mload K n = None \<or> mload (se_cores s) n = None))"
  | (member) n C c c' where "is_Ret (validateRuntimeKey tag)" "mload (se_nodes s) tag = Some n" "mload K n = Some C"
      "mload (se_cores s) n = Some c" "f C c = (r, c')" "s' = s\<lparr>se_cores := mstore (se_cores s) n c'\<rparr>"
proof (cases "validateRuntimeKey tag")
  case (Ret v)
  show ?thesis
  proof (cases "mload (se_nodes s) tag")
    case None
    with assms Ret that(1) show ?thesis by (auto simp: routed_def)
  next
    case (Some n)
    show ?thesis
    proof (cases "\<exists>C c. mload K n = Some C \<and> mload (se_cores s) n = Some c")
      case True
      then obtain C c where h: "mload K n = Some C" "mload (se_cores s) n = Some c" by blast
      obtain r1 c' where f: "f C c = (r1, c')" by force
      with assms Ret Some h have "r1 = r" "s' = s\<lparr>se_cores := mstore (se_cores s) n c'\<rparr>"
        by (auto simp: routed_def on_member_def)
      with that(2) [of n C c c'] Ret Some h f show ?thesis by simp
    next
      case False
      then have "mload K n = None \<or> mload (se_cores s) n = None" by (metis option.exhaust)
      then have "on_member K n f Panic s = (Panic, s)" by (auto simp: on_member_def split: option.split)
      with assms Ret Some have "r = Panic" "s' = s" by (auto simp: routed_def)
      with that(1) Some \<open>mload K n = None \<or> mload (se_cores s) n = None\<close> show ?thesis by blast
    qed
  qed
next
  case (Fail e)
  with assms that(1) show ?thesis by (auto simp: routed_def)
next
  case Panic
  with assms that(1) show ?thesis by (auto simp: routed_def)
qed

abbreviation lawful_members :: "'c members \<Rightarrow> ('c \<Rightarrow> string set) \<Rightarrow> bool" where
  "lawful_members K up \<equiv> \<forall>n C. mload K n = Some C \<longrightarrow> core_laws C up"

lemma selector_AddUsers_up:
  assumes laws: "lawful_members K up" and eq: "Selector_AddUsers K tag us info s = (r, s')"
  shows "sel_up K up s' = sel_up K up s"
  using eq unfolding Selector_AddUsers_def
proof (cases rule: routed_cases)
  case (member n C c c')
  with laws have "up c' = up c" by (blast dest: core_AddUsers)
  with member have "member_up K up (se_cores s') m t = member_up K up (se_cores s) m t" for m t
    by (simp add: member_up_mstore member_up_here)
  with member show ?thesis by (intro sel_up_cong) simp_all
qed simp

lemma selector_DelNode_up:
  assumes laws: "lawful_members K up" and eq: "Selector_DelNode K tag s = (r, s')"
  shows "sel_up K up s' = sel_up K up s - {tag}"
proof -
  obtain r1 s1 where rt: "routed K tag (\<lambda>C. co_DelNode C tag) s = (r1, s1)" by force
  have s': "se_cores s' = se_cores s1" "se_nodes s' = (if is_Ret r1 then mdelete (se_nodes s1) tag else se_nodes s1)"
    using eq rt by (cases r1; auto simp: Selector_DelNode_def)+
  show ?thesis
    using rt
  proof (cases rule: routed_cases)
    case refused
    then have "se_nodes s' = se_nodes s" "se_cores s' = se_cores s" "tag \<notin> sel_up K up s"
      using s' by (auto simp: sel_up_iff is_Ret_def member_up_def)
    then show ?thesis using sel_up_cong [of s' s K up] by simp
  next
    case (member n C c c')
    with laws have up: "up c' = up c - {tag}" by (blast dest: core_DelNode)
    have "t \<in> sel_up K up s' \<longleftrightarrow> t \<in> sel_up K up s \<and> t \<noteq> tag" for t
      using member s' up
      by (cases "t = tag") (auto simp: sel_up_iff member_up_mstore member_up_here split: option.split)
    then show ?thesis by blast
  qed
qed

lemma pick_by_type_member:
  "pick_by_type K' opt info s acc = Some n \<Longrightarrow> acc = Some n \<or> (\<exists>C. (n, C) \<in> set K')"
  by (induction K' opt info s acc rule: pick_by_type.induct) (auto split: option.splits if_split_asm)

lemma AddNode_cases:
  assumes "Selector_AddNode D K tag info opt s = (r, opt', s')"
  obtains (refused) "s' = s" "\<forall>x. r \<noteq> Ret x"
  | (member) n C c c' opt1 where "is_Ret (validateRuntimeKey tag)" "pick_core K opt info s = Some n" "mload K n = Some C"
      "mload (se_cores s) n = Some c" "late_options D (co_Type C c) opt = (Ret (), opt1)"
      "co_AddNode C tag info opt1 c = (r, opt', c')" "se_cores s' = mstore (se_cores s) n c'"
      "se_nodes s' = (if r = Ret () then mstore (se_nodes s) tag n else se_nodes s)"
proof (cases "is_Ret (validateRuntimeKey tag)")
  case False
  with assms that(1) show ?thesis
    by (cases "validateRuntimeKey tag") (auto simp: Selector_AddNode_def)
next
  case valid: True
  then obtain v where v: "validateRuntimeKey tag = Ret v" by (auto simp: is_Ret_def)
  show ?thesis
  proof (cases "pick_core K opt info s")
    case None
    with assms v that(1) show ?thesis by (auto simp: Selector_AddNode_def)
  next
    case (Some n)
    show ?thesis
    proof (cases "\<exists>C c. mload K n = Some C \<and> mload (se_cores s) n = Some c")
      case False
      with assms v Some that(1) show ?thesis by (auto simp: Selector_AddNode_def split: option.splits)
    next
      case True
      then obtain C c where h: "mload K n = Some C" "mload (se_cores s) n = Some c" by blast
      obtain r1 opt1 where l: "late_options D (co_Type C c) opt = (r1, opt1)" by force
      obtain r2 opt2 c' where a: "co_AddNode C tag info opt1 c = (r2, opt2, c')" by (metis prod_cases3)
      show ?thesis
      proof (cases r1)
        case (Ret u)
        with assms v Some h l a have "r = r2" "opt' = opt2" "se_cores s' = mstore (se_cores s) n c'"
          "se_nodes s' = (if r = Ret () then mstore (se_nodes s) tag n else se_nodes s)"
          by (auto simp: Selector_AddNode_def Let_def)
        with that(2) [of n C c opt1 c'] valid Some h l a Ret show ?thesis by simp
      qed (use assms v Some h l that(1) in \<open>auto simp: Selector_AddNode_def\<close>)
    qed
  qed
qed

lemma selector_AddNode_up:
  assumes laws: "lawful_members K up" and eq: "Selector_AddNode D K tag info opt s = (r, opt', s')"
  shows "sel_up K up s' = (if r = Ret () then insert tag (sel_up K up s) else sel_up K up s)"
  using eq
proof (cases rule: AddNode_cases)
  case (member n C c c' opt1)
  with laws have up: "up c' = (if r = Ret () then insert tag (up c) else up c)" by (blast dest: core_AddNode)
  have "t \<in> sel_up K up s' \<longleftrightarrow> t \<in> sel_up K up s \<or> (t = tag \<and> r = Ret ())" for t
    using member up
    by (cases "t = tag") (auto simp: sel_up_iff member_up_mstore member_up_here split: option.split)
  then show ?thesis by auto
qed simp

text \<open>C27: Behind a selector the node sees one lawful core. When every member keeps the contract of a
  core (a node is up exactly after it was added and until it is deleted, a failed addition changes
  nothing, and users do not matter), the selector keeps it too, with the nodes up being those that are
  up in the member they were routed to; so everything proved of a controller on a lawful core holds
  behind a selector.\<close>

theorem selector_is_lawful:
  assumes "lawful_members K up"
  shows "core_laws (selector_core D K) (sel_up K up)"
  unfolding core_laws_def selector_core_def
  using selector_AddNode_up [OF assms] selector_DelNode_up [OF assms] selector_AddUsers_up [OF assms]
  by simp

definition demo_selector :: "string list Selector" where
  "demo_selector = \<lparr>se_cores = [(''sing'', [])], se_nodes = []\<rparr>"

theorem selector_is_lawful_witness:
  "core_laws (selector_core demo_conf_decoders [(''sing'', demo_core)]) (sel_up [(''sing'', demo_core)] set)"
  by (rule selector_is_lawful) (simp add: demo_core_laws)

section \<open>An offline node stays offline\<close>

lemma absent_routed:
  assumes "mload (se_nodes s) tag = None"
  shows "\<exists>e. routed K tag f s = (Fail e, s)"
  using assms by (cases "validateRuntimeKey tag")
    (auto simp: routed_def validateRuntimeKey_def split: option.splits if_split_asm)

lemma absent_DelNode: "mload (se_nodes s) tag = None \<Longrightarrow> \<exists>e. Selector_DelNode K tag s = (Fail e, s)"
  using absent_routed [of s tag K "\<lambda>C. co_DelNode C tag"] by (auto simp: Selector_DelNode_def)

text \<open>A reload cannot bring a node back. Behind a selector, once the node's inbound is gone (a reload
  whose new inbound failed and whose rollback failed too leaves it so), every later reload, whatever
  description and users the panel sends and however healthy the cores are by then, gives up at taking
  the old inbound down: it returns without error and without having touched core, limiters, ports or
  the controller's description and users.\<close>

lemma offline_node_stays_offline:
  assumes "ev_core E = selector_core D K" and "mload (se_nodes (wd_core w)) (ct_runtimeKey c) = None"
    and "ni_Common newN = Some cn" and "reloadNodeConfig E newN newU newA (w, c) = (r, w', c')"
    and "account_ok (ev_cert E) (ev_userPath E) (wd_cert w)"
  shows "r = Ret () \<and> c' = c \<and> wd_core w' = wd_core w \<and> wd_lim w' = wd_lim w \<and> wd_reg w' = wd_reg w"
proof -
  obtain p w1 c1 where pre: "reload_prevalidate E newN (w, c) = (p, w1, c1)" by (metis prod_cases3)
  from prevalidate_frame [OF pre assms(3)] assms(5) obtain b x where p: "p = Ret b" "c1 = c" "w1 = w\<lparr>wd_cert := x\<rparr>" by blast
  from absent_DelNode [OF assms(2), of K] obtain e where "co_DelNode (ev_core E) (ct_runtimeKey c) (wd_core w) = (Fail e, wd_core w)"
    by (auto simp: assms(1) selector_core_def)
  with assms(4) pre p show ?thesis by (cases b) (auto simp: reloadNodeConfig_def Let_def snapshot_def)
qed

text \<open>The members while the ports are taken by another process, and when they are free again.\<close>

definition blocked_core :: "string list Core" where
  "blocked_core = demo_core\<lparr>co_AddNode := (\<lambda>t n opt k. (Fail ''bind: address already in use'', opt, k))\<rparr>"

definition selector_env :: "string list Core \<Rightarrow> string list Selector env" where
  "selector_env C = \<lparr>ev_core = selector_core demo_conf_decoders [(''sing'', C)],
     ev_cert = ev_cert demo_env, ev_userPath = ev_userPath demo_env, ev_sha = ev_sha demo_env, ev_dec = ev_dec demo_env,
     ev_now = ev_now demo_env, ev_node = ev_node demo_env, ev_users = ev_users demo_env, ev_alive = ev_alive demo_env,
     ev_push = ev_push demo_env, ev_online = ev_online demo_env\<rparr>"

definition selector_world :: "string list Selector world" where
  "selector_world = \<lparr>wd_core = \<lparr>se_cores = [(''sing'', [''sing|n''])], se_nodes = [(''sing|n'', ''sing'')]\<rparr>,
     wd_lim = wd_lim running_world, wd_reg = newPortRegistry, wd_cert = wd_cert demo_world\<rparr>"

definition failed_reload :: "unit outcome \<times> string list Selector world \<times> Controller" where
  "failed_reload = reloadNodeConfig (selector_env blocked_core) (demo_node\<lparr>ni_Id := 2\<rparr>) [demo_user ''a''] []
     (selector_world, running_controller)"

lemma offline_node_stays_offline_example:
  "mload (se_nodes (wd_core selector_world)) ''sing|n'' \<noteq> None \<and>
     mload (se_nodes (wd_core (fst (snd failed_reload)))) ''sing|n'' = None \<and>
     (\<exists>w' c'. reloadNodeConfig (selector_env demo_core) demo_node [demo_user ''a''] [] (snd failed_reload) = (Ret (), w', c') \<and>
        mload (se_nodes (wd_core w')) ''sing|n'' = None)"
proof -
  obtain r0 w c where f: "failed_reload = (r0, w, c)" by (metis prod_cases3)
  have a: "mload (se_nodes (wd_core selector_world)) ''sing|n'' \<noteq> None" by (simp add: selector_world_def)
  have "mload (se_nodes (wd_core (fst (snd failed_reload)))) ''sing|n'' = None \<and> ct_runtimeKey (snd (snd failed_reload)) = ''sing|n''"
    by code_simp
  then have h: "mload (se_nodes (wd_core w)) ''sing|n'' = None" "ct_runtimeKey c = ''sing|n''"
    unfolding f fst_conv snd_conv by blast+
  then have b: "mload (se_nodes (wd_core w)) (ct_runtimeKey c) = None" by (simp only:)
  obtain r w' c' where r: "reloadNodeConfig (selector_env demo_core) demo_node [demo_user ''a''] [] (w, c) = (r, w', c')"
    by (metis prod_cases3)
  have n: "\<exists>cn. ni_Common demo_node = Some cn" by (simp add: demo_node_def)
  have K: "ev_core (selector_env demo_core) = selector_core demo_conf_decoders [(''sing'', demo_core)]" by (simp add: selector_env_def)
  have acc: "account_ok (ev_cert (selector_env demo_core)) (ev_userPath (selector_env demo_core)) (wd_cert w)"
    by (simp add: account_ok_def User_Load_def selector_env_def demo_env_def split: option.split)
  from n offline_node_stays_offline [OF K b _ r acc] have "r = Ret () \<and> wd_core w' = wd_core w" by blast
  with a h r show ?thesis unfolding f fst_conv snd_conv by auto
qed

end
