(* ===== verification/Outcomes.thy ===== *)
theory Outcomes
  imports Conf
begin

text \<open>
  Go code that checks an error after every step, as the sequencing of outcomes; and the nil dereference.
\<close>

definition bindR :: "'a outcome \<Rightarrow> ('a \<Rightarrow> 'b outcome) \<Rightarrow> 'b outcome" where
  "bindR m f = (case m of Ret x \<Rightarrow> f x | Fail e \<Rightarrow> Fail e | Panic \<Rightarrow> Panic)"

lemma bindR_simps [simp]: "bindR (Ret x) f = f x" "bindR (Fail e) f = Fail e" "bindR Panic f = Panic"
  by (simp_all add: bindR_def)

lemma bindR_Ret: "bindR m f = Ret y \<longleftrightarrow> (\<exists>x. m = Ret x \<and> f x = Ret y)"
  by (cases m) auto

lemma bindR_assoc: "bindR (bindR m f) g = bindR m (\<lambda>x. bindR (f x) g)"
  by (cases m) simp_all

lemma bindR_elim: "bindR m f = Ret y \<Longrightarrow> (\<And>x. m = Ret x \<Longrightarrow> f x = Ret y \<Longrightarrow> P) \<Longrightarrow> P"
  by (auto simp: bindR_Ret)

lemma if_Ret: "(if b then m else n) = Ret x \<Longrightarrow> (b \<Longrightarrow> m = Ret x \<Longrightarrow> P) \<Longrightarrow> (\<not> b \<Longrightarrow> n = Ret x \<Longrightarrow> P) \<Longrightarrow> P"
  by (cases b) simp_all

lemma bindR_Panic: "bindR m f = Panic \<longleftrightarrow> m = Panic \<or> (\<exists>x. m = Ret x \<and> f x = Panic)"
  by (cases m) simp_all

definition deref :: "'a option \<Rightarrow> 'a outcome" where
  "deref p = (case p of None \<Rightarrow> Panic | Some x \<Rightarrow> Ret x)"

lemma deref_simps [simp]: "deref None = Panic" "deref (Some x) = Ret x"
  by (simp_all add: deref_def)

lemma deref_Ret [simp]: "deref p = Ret x \<longleftrightarrow> p = Some x"
  by (cases p) auto

text \<open>\<open>if !b { return err }\<close>\<close>

definition ensure :: "bool \<Rightarrow> string \<Rightarrow> unit outcome" where
  "ensure b e = (if b then Ret () else Fail e)"

lemma ensure_Ret [simp]: "ensure b e = Ret u \<longleftrightarrow> b"
  by (simp add: ensure_def)

end
