(* ===== verification/CoreInit.thy ===== *)
theory CoreInit
  imports Selector Outcomes
begin

text \<open>
  How the two cores come up: \<open>core/xray/xray.go\<close> and \<open>core/sing/sing.go\<close>. Files are a function from
  paths to contents; decoding a text, building a part of the server's configuration and creating the
  server are functions of the embedded libraries and parameters, with one type for decoded values,
  one for built parts and one for servers. Environment variables that are set are listed.
\<close>

section \<open>Xray\<close>

record Policy =
  pl_StatsUserUplink :: bool
  pl_StatsUserDownlink :: bool
  pl_Handshake :: "32 word"
  pl_ConnectionIdle :: "32 word"
  pl_UplinkOnly :: "32 word"
  pl_DownlinkOnly :: "32 word"
  pl_BufferSize :: "32 word"

definition parseConnectionConfig :: "XrayConnectionConfig option \<Rightarrow> Policy outcome" where
  "parseConnectionConfig cc = bindR (deref cc) (\<lambda>c. Ret
     \<lparr>pl_StatsUserUplink = True, pl_StatsUserDownlink = True, pl_Handshake = xn_Handshake c, pl_ConnectionIdle = xn_ConnIdle c,
      pl_UplinkOnly = xn_UplinkOnly c, pl_DownlinkOnly = xn_DownlinkOnly c, pl_BufferSize = xn_BufferSize c\<rparr>)"

text \<open>The configuration of the server: the modules in their order, the inbounds and the outbounds.\<close>

datatype 'm xray_app =
    LogApp string string string
  | DispatcherApp
  | StatsApp
  | InboundApp
  | OutboundApp
  | PolicyApp "(nat, Policy) gomap"
  | DnsApp 'm
  | RouterApp 'm

record 'm core_config =
  xg_App :: "'m xray_app list"
  xg_Inbound :: "'m list"
  xg_Outbound :: "'m list"

record ('j, 'm, 's) xray_conf =
  xf_Read :: "string \<Rightarrow> string option"
  xf_dns :: "string \<Rightarrow> 'j option"
  xf_no_dns :: 'j
  xf_dnsBuild :: "'j \<Rightarrow> 'm option"
  xf_router :: "string \<Rightarrow> 'j option"
  xf_no_router :: 'j
  xf_routerBuild :: "'j \<Rightarrow> 'm option"
  xf_inbounds :: "string \<Rightarrow> 'j list option"
  xf_inboundBuild :: "'j \<Rightarrow> 'm option"
  xf_outbounds :: "string \<Rightarrow> 'j list option"
  xf_outboundBuild :: "'j \<Rightarrow> 'm option"
  xf_New :: "'m core_config \<Rightarrow> 's option"

text \<open>\<open>log.Panic\<close> panics.\<close>

definition must :: "'a option \<Rightarrow> 'a outcome" where
  "must v = (case v of None \<Rightarrow> Panic | Some x \<Rightarrow> Ret x)"

text \<open>A DNS file that cannot be read or decoded is logged, and the default is used.\<close>

definition dns_config :: "('j, 'm, 's) xray_conf \<Rightarrow> string \<Rightarrow> 'm outcome" where
  "dns_config L path =
    (let d = (if path = '''' then xf_no_dns L
              else case xf_Read L path of
                     None \<Rightarrow> xf_no_dns L
                   | Some data \<Rightarrow> (case xf_dns L data of None \<Rightarrow> xf_no_dns L | Some j \<Rightarrow> j))
     in must (xf_dnsBuild L d))"

definition route_config :: "('j, 'm, 's) xray_conf \<Rightarrow> string \<Rightarrow> 'm outcome" where
  "route_config L path =
    bindR (if path = '''' then Ret (xf_no_router L) else bindR (must (xf_Read L path)) (\<lambda>data. must (xf_router L data)))
      (\<lambda>j. must (xf_routerBuild L j))"

text \<open>Custom inbounds and outbounds are read and built the same way.\<close>

definition custom_handlers :: "('j, 'm, 's) xray_conf \<Rightarrow> (string \<Rightarrow> 'j list option) \<Rightarrow> ('j \<Rightarrow> 'm option) \<Rightarrow> string \<Rightarrow> 'm list outcome" where
  "custom_handlers L decode build path =
    bindR (if path = '''' then Ret [] else bindR (must (xf_Read L path)) (\<lambda>data. must (decode data)))
      (each (\<lambda>j. must (build j)))"

definition getCore :: "('j, 'm, 's) xray_conf \<Rightarrow> XrayConfig \<Rightarrow> 's outcome" where
  "getCore L c =
    bindR (deref (xc_LogConfig c)) (\<lambda>lg.
    bindR (dns_config L (xc_DnsConfigPath c)) (\<lambda>dns.
    bindR (route_config L (xc_RouteConfigPath c)) (\<lambda>route.
    bindR (custom_handlers L (xf_inbounds L) (xf_inboundBuild L) (xc_InboundConfigPath c)) (\<lambda>ins.
    bindR (custom_handlers L (xf_outbounds L) (xf_outboundBuild L) (xc_OutboundConfigPath c)) (\<lambda>outs.
    bindR (parseConnectionConfig (xc_ConnectionConfig c)) (\<lambda>policy.
      must (xf_New L
        \<lparr>xg_App = [LogApp (xl_Level lg) (xl_AccessPath lg) (xl_ErrorPath lg), DispatcherApp, StatsApp, InboundApp, OutboundApp,
            PolicyApp [(0, policy)], DnsApp dns, RouterApp route],
         xg_Inbound = ins, xg_Outbound = outs\<rparr>)))))))"

text \<open>The environment variables \<open>getCore\<close> sets before it reads the routing file.\<close>

definition getCore_env :: "XrayConfig \<Rightarrow> (string \<times> string) list" where
  "getCore_env c = (''XRAY_LOCATION_ASSET'', xc_AssetPath c) #
     (if xc_LogConfig c = None then []
      else (''XRAY_DNS_PATH'', '''') # (if xc_DnsConfigPath c = '''' then [] else [(''XRAY_DNS_PATH'', xc_DnsConfigPath c)]))"

text \<open>The core holds the features of the started server; after \<open>Close\<close> it holds none.\<close>

record 's xray_core =
  xk_Server :: 's
  xk_features :: bool
  xk_uidMap :: "(string, int) gomap"

definition Xray_New :: "('j, 'm, 's) xray_conf \<Rightarrow> CoreConfig \<Rightarrow> 's xray_core outcome" where
  "Xray_New L c =
    bindR (deref (kc_XrayConfig c)) (\<lambda>xc. bindR (getCore L xc) (\<lambda>s. Ret \<lparr>xk_Server = s, xk_features = False, xk_uidMap = []\<rparr>))"

definition Xray_Start :: "('s \<Rightarrow> unit outcome \<times> 's) \<Rightarrow> 's xray_core \<Rightarrow> unit outcome \<times> 's xray_core" where
  "Xray_Start start x =
    (case start (xk_Server x) of
       (Ret _, s) \<Rightarrow> (Ret (), x\<lparr>xk_Server := s, xk_features := True\<rparr>)
     | (e, s) \<Rightarrow> (e, x\<lparr>xk_Server := s\<rparr>))"

definition Xray_Close :: "('s \<Rightarrow> unit outcome \<times> 's) \<Rightarrow> 's xray_core \<Rightarrow> unit outcome \<times> 's xray_core" where
  "Xray_Close close x = (case close (xk_Server x) of (r, s) \<Rightarrow> (r, x\<lparr>xk_Server := s, xk_features := False\<rparr>))"

definition Xray_Protocols :: "string list" where
  "Xray_Protocols = [''vmess'', ''vless'', ''shadowsocks'', ''trojan'']"

definition Xray_Type :: string where
  "Xray_Type = ''xray''"

section \<open>Sing-box\<close>

record LogOptions =
  lo_Disabled :: bool
  lo_Level :: string
  lo_Timestamp :: bool
  lo_Output :: string

record NTPOptions =
  np_Enabled :: bool
  np_WriteToSystem :: bool
  np_Server :: string
  np_ServerPort :: "16 word"

record ('o, 's) sing_conf =
  sf_Read :: "string \<Rightarrow> string option"
  sf_decode :: "string \<Rightarrow> 'o option"
  sf_zero :: 'o
  sf_set :: "LogOptions \<Rightarrow> NTPOptions \<Rightarrow> 'o \<Rightarrow> 'o"
  sf_New :: "'o \<Rightarrow> 's option"

record 's sing_core =
  sk_box :: 's
  sk_EnableConnClear :: bool
  sk_uidMap :: "(string, int) gomap"

definition Sing_New :: "('o, 's) sing_conf \<Rightarrow> CoreConfig \<Rightarrow> 's sing_core outcome" where
  "Sing_New L c =
    bindR (deref (kc_SingConfig c)) (\<lambda>sc.
    bindR (if sc_OriginalPath sc = '''' then Ret (sf_zero L)
           else case sf_Read L (sc_OriginalPath sc) of
                  None \<Rightarrow> Fail ''read original config error''
                | Some data \<Rightarrow>
                    (case sf_decode L data of None \<Rightarrow> Fail ''unmarshal original config error'' | Some o1 \<Rightarrow> Ret o1)) (\<lambda>o1.
      (let lg = sc_LogConfig sc; ntp = sc_NtpConfig sc;
           o2 = sf_set L
             \<lparr>lo_Disabled = sl_Disabled lg, lo_Level = sl_Level lg, lo_Timestamp = sl_Timestamp lg, lo_Output = sl_Output lg\<rparr>
             \<lparr>np_Enabled = nt_Enable ntp, np_WriteToSystem = True, np_Server = nt_Server ntp, np_ServerPort = nt_ServerPort ntp\<rparr> o1
       in case sf_New L o2 of
            None \<Rightarrow> Fail ''new box''
          | Some b \<Rightarrow> Ret \<lparr>sk_box = b, sk_EnableConnClear = sc_EnableConnClear sc, sk_uidMap = []\<rparr>)))"

definition Sing_Start :: "('s \<Rightarrow> unit outcome \<times> 's) \<Rightarrow> 's sing_core \<Rightarrow> unit outcome \<times> 's sing_core" where
  "Sing_Start start x = (case start (sk_box x) of (r, b) \<Rightarrow> (r, x\<lparr>sk_box := b\<rparr>))"

definition Sing_Close :: "('s \<Rightarrow> unit outcome \<times> 's) \<Rightarrow> 's sing_core \<Rightarrow> unit outcome \<times> 's sing_core" where
  "Sing_Close close x = (case close (sk_box x) of (r, b) \<Rightarrow> (r, x\<lparr>sk_box := b\<rparr>))"

definition Sing_Protocols :: "string list" where
  "Sing_Protocols = [''vmess'', ''vless'', ''shadowsocks'', ''trojan'', ''tuic'', ''hysteria2'', ''anytls'']"

definition Sing_Type :: string where
  "Sing_Type = ''sing''"

section \<open>Which mistakes in the configuration are errors and which are panics\<close>

text \<open>The files a custom part of the xray configuration needs: each named file can be read, decoded and built.\<close>

definition files_ok :: "('j, 'm, 's) xray_conf \<Rightarrow> XrayConfig \<Rightarrow> bool" where
  "files_ok L c \<longleftrightarrow>
     is_Ret (route_config L (xc_RouteConfigPath c)) \<and>
     is_Ret (custom_handlers L (xf_inbounds L) (xf_inboundBuild L) (xc_InboundConfigPath c)) \<and>
     is_Ret (custom_handlers L (xf_outbounds L) (xf_outboundBuild L) (xc_OutboundConfigPath c))"

lemma must_simps [simp]: "must v = Ret x \<longleftrightarrow> v = Some x" "must v \<noteq> Fail e"
  by (simp_all add: must_def split: option.split)

lemma bindR_no_Fail: "(\<And>e. m \<noteq> Fail e) \<Longrightarrow> (\<And>x e. f x \<noteq> Fail e) \<Longrightarrow> bindR m f \<noteq> Fail e"
  by (cases m) auto

lemma deref_no_Fail [simp]: "deref p \<noteq> Fail e"
  by (cases p) auto

lemma each_no_Fail: "(\<And>x e. f x \<noteq> Fail e) \<Longrightarrow> each f xs \<noteq> Fail e"
proof (induction xs)
  case (Cons x xs)
  then show ?case by (cases "f x"; cases "each f xs") auto
qed simp

lemma bindR_Fail: "bindR m f = Fail e \<longleftrightarrow> m = Fail e \<or> (\<exists>x. m = Ret x \<and> f x = Fail e)"
  by (cases m) simp_all

lemma each_must [simp]: "each (\<lambda>j. must (g j)) xs \<noteq> Fail e"
  by (rule each_no_Fail) simp

lemma xray_parts_no_Fail [simp]:
  "dns_config L p \<noteq> Fail e" "route_config L p \<noteq> Fail e" "custom_handlers L f g p \<noteq> Fail e" "parseConnectionConfig cc \<noteq> Fail e"
  by (auto simp: dns_config_def route_config_def custom_handlers_def parseConnectionConfig_def Let_def bindR_Fail
      split: if_split_asm)

lemma getCore_no_Fail: "getCore L c \<noteq> Fail e"
  unfolding getCore_def by (intro bindR_no_Fail) simp_all

lemma getCore_needs_files: "getCore L c = Ret s \<Longrightarrow> files_ok L c"
  by (auto simp: getCore_def files_ok_def elim!: bindR_elim)

text \<open>A mistake in a file of the xray core is a panic and never an error, so nothing the caller does with
  an error applies; a broken DNS file alone is replaced by the default.\<close>

lemma xray_construction_panics:
  "Xray_New L c \<noteq> Fail e \<and> (kc_XrayConfig c = Some xc \<and> \<not> files_ok L xc \<longrightarrow> Xray_New L c = Panic)"
proof -
  have 1: "Xray_New L c \<noteq> Fail e" for e
    unfolding Xray_New_def by (intro bindR_no_Fail getCore_no_Fail) simp_all
  have 2: "Xray_New L c = Panic" if "kc_XrayConfig c = Some xc" "\<not> files_ok L xc"
  proof (cases "getCore L xc")
    case (Ret s)
    from getCore_needs_files [OF this] that(2) show ?thesis by contradiction
  next
    case (Fail e)
    with getCore_no_Fail show ?thesis by blast
  next
    case Panic
    with that show ?thesis by (simp add: Xray_New_def)
  qed
  show ?thesis using 1 2 by blast
qed

lemma broken_dns_tolerated:
  "xf_Read L p = None \<or> (\<exists>d. xf_Read L p = Some d \<and> xf_dns L d = None) \<Longrightarrow> dns_config L p = dns_config L ''''"
  by (auto simp: dns_config_def Let_def)

text \<open>The sing core reports the same mistakes as errors.\<close>

lemma sing_construction_errors: "kc_SingConfig c = Some sc \<Longrightarrow> Sing_New L c \<noteq> Panic"
  by (auto simp: Sing_New_def bindR_Panic Let_def split: option.splits if_splits)

end
