(* ===== verification/CmdReload.thy ===== *)
theory CmdReload
  imports CoreInit
begin

text \<open>
  \<open>cmd/reload.go\<close> and \<open>cmd/server.go\<close>: starting the agent and swapping its whole runtime when the
  configuration file changed. The orchestration is over two factories, as in the code; \<open>'w\<close> is the
  state of the process, \<open>'c\<close> the cores and \<open>'n\<close> the nodes. A \<open>nodeRunner\<close> is an interface: it is nil, or it
  holds a \<open>*node.Node\<close>, which may itself be nil.
\<close>

section \<open>The orchestrator\<close>

datatype 'n nodeRunner = NilRunner | Runner "'n option"

record ('w, 'c, 'n) runtimeBuilders =
  rb_newCore :: "Conf \<Rightarrow> 'w \<Rightarrow> 'c outcome \<times> 'w"
  rb_newNodes :: "Conf \<Rightarrow> 'c \<Rightarrow> 'w \<Rightarrow> ('n nodeRunner \<times> unit outcome) \<times> 'w"

text \<open>The \<open>Close\<close> methods of what the factories return.\<close>

record ('w, 'c, 'n) closers =
  xl_core :: "'c \<Rightarrow> 'w \<Rightarrow> unit outcome \<times> 'w"
  xl_nodes :: "'n \<Rightarrow> 'w \<Rightarrow> unit outcome \<times> 'w"

datatype reloadOutcome = reloadSucceeded | reloadKeptOld | reloadRestoredOld | reloadOffline

text \<open>\<open>Close\<close> through the interface: nothing for a nil interface, a nil dereference for a nil pointer in it.\<close>

definition close_runner :: "('w, 'c, 'n) closers \<Rightarrow> 'n nodeRunner \<Rightarrow> 'w \<Rightarrow> unit outcome \<times> 'w" where
  "close_runner X r w =
    (case r of NilRunner \<Rightarrow> (Ret (), w) | Runner None \<Rightarrow> (Panic, w) | Runner (Some n) \<Rightarrow> xl_nodes X n w)"

text \<open>An error of closing a core is logged.\<close>

definition close_core :: "('w, 'c, 'n) closers \<Rightarrow> 'c option \<Rightarrow> 'w \<Rightarrow> unit outcome \<times> 'w" where
  "close_core X k w =
    (case k of
       None \<Rightarrow> (Ret (), w)
     | Some c \<Rightarrow> (case xl_core X c w of (Panic, w') \<Rightarrow> (Panic, w') | (_, w') \<Rightarrow> (Ret (), w')))"

definition thenW :: "unit outcome \<times> 'w \<Rightarrow> ('w \<Rightarrow> 'r outcome \<times> 'w) \<Rightarrow> 'r outcome \<times> 'w" where
  "thenW m f = (case m of (Ret _, w) \<Rightarrow> f w | (Fail e, w) \<Rightarrow> (Fail e, w) | (Panic, w) \<Rightarrow> (Panic, w))"

definition teardown :: "('w, 'c, 'n) closers \<Rightarrow> 'c option \<Rightarrow> 'n nodeRunner \<Rightarrow> 'w \<Rightarrow> unit outcome \<times> 'w" where
  "teardown X k r w = thenW (close_runner X r w) (close_core X k)"

text \<open>Bringing the old configuration back.\<close>

definition restore_old :: "('w, 'c, 'n) runtimeBuilders \<Rightarrow> ('w, 'c, 'n) closers \<Rightarrow> Conf \<Rightarrow> 'w
    \<Rightarrow> ('c option \<times> 'n nodeRunner \<times> reloadOutcome) outcome \<times> 'w" where
  "restore_old B X oldC w =
    (case rb_newCore B oldC w of
       (Panic, w1) \<Rightarrow> (Panic, w1)
     | (Fail _, w1) \<Rightarrow> (Ret (None, NilRunner, reloadOffline), w1)
     | (Ret k, w1) \<Rightarrow>
         (case rb_newNodes B oldC k w1 of
            ((_, Panic), w2) \<Rightarrow> (Panic, w2)
          | ((r, Ret _), w2) \<Rightarrow> (Ret (Some k, r, reloadRestoredOld), w2)
          | ((r, Fail _), w2) \<Rightarrow>
              thenW (teardown X (Some k) r w2) (\<lambda>w3. (Ret (None, NilRunner, reloadOffline), w3))))"

definition reloadProcess :: "('w, 'c, 'n) runtimeBuilders \<Rightarrow> ('w, 'c, 'n) closers \<Rightarrow> Conf \<Rightarrow> Conf \<Rightarrow> 'c option \<Rightarrow> 'n nodeRunner \<Rightarrow> 'w
    \<Rightarrow> ('c option \<times> 'n nodeRunner \<times> reloadOutcome) outcome \<times> 'w" where
  "reloadProcess B X oldC newC oldCore oldNodes w =
    (case rb_newCore B newC w of
       (Panic, w1) \<Rightarrow> (Panic, w1)
     | (Fail _, w1) \<Rightarrow> (Ret (oldCore, oldNodes, reloadKeptOld), w1)
     | (Ret k, w1) \<Rightarrow>
         thenW (teardown X oldCore oldNodes w1) (\<lambda>w2.
           (case rb_newNodes B newC k w2 of
              ((_, Panic), w3) \<Rightarrow> (Panic, w3)
            | ((r, Ret _), w3) \<Rightarrow> (Ret (Some k, r, reloadSucceeded), w3)
            | ((r, Fail _), w3) \<Rightarrow> thenW (teardown X (Some k) r w3) (restore_old B X oldC))))"

section \<open>The server\<close>

record ('c, 'n) server =
  sv_c :: Conf
  sv_vc :: "'c option"
  sv_nodes :: "'n option"

text \<open>\<open>newNodes.(*node.Node)\<close> panics on a nil interface.\<close>

definition as_node :: "'n nodeRunner \<Rightarrow> 'n option outcome" where
  "as_node r = (case r of NilRunner \<Rightarrow> Panic | Runner p \<Rightarrow> Ret p)"

text \<open>One event of the watcher: the callback of \<open>serverHandle\<close>.\<close>

definition watch_reload :: "('w, 'c, 'n) runtimeBuilders \<Rightarrow> ('w, 'c, 'n) closers \<Rightarrow> Conf \<Rightarrow> ('c, 'n) server \<times> 'w
    \<Rightarrow> reloadOutcome outcome \<times> ('c, 'n) server \<times> 'w" where
  "watch_reload B X newC sw = (case sw of (s, w) \<Rightarrow>
     (case reloadProcess B X (sv_c s) newC (sv_vc s) (Runner (sv_nodes s)) w of
        (Panic, w') \<Rightarrow> (Panic, s, w')
      | (Fail e, w') \<Rightarrow> (Fail e, s, w')
      | (Ret (k, r, reloadSucceeded), w') \<Rightarrow>
          (case as_node r of
             Ret n \<Rightarrow> (Ret reloadSucceeded, s\<lparr>sv_vc := k, sv_nodes := n, sv_c := newC\<rparr>, w')
           | _ \<Rightarrow> (Panic, s\<lparr>sv_vc := k\<rparr>, w'))
      | (Ret (k, r, reloadKeptOld), w') \<Rightarrow> (Ret reloadKeptOld, s, w')
      | (Ret (k, r, reloadRestoredOld), w') \<Rightarrow>
          (case as_node r of
             Ret n \<Rightarrow> (Ret reloadRestoredOld, s\<lparr>sv_vc := k, sv_nodes := n\<rparr>, w')
           | _ \<Rightarrow> (Panic, s\<lparr>sv_vc := k\<rparr>, w'))
      | (Ret (k, r, reloadOffline), w') \<Rightarrow> (Ret reloadOffline, s\<lparr>sv_vc := None, sv_nodes := None\<rparr>, w')))"

section \<open>The production factories\<close>

text \<open>
  Every core and every node that was created keeps its place: whether it is open, and its state or,
  for a node, the core it runs on. Building, starting and closing a core and starting the controllers
  of a node are parameters here; \<open>NewCore\<close>, the members' \<open>Start\<close> and \<open>Close\<close> and \<open>Node_Start\<close> are in the
  theories of those parts. Starting nodes that fails has closed its controllers.
\<close>

record 'k runtime_lib =
  rl_NewCore :: "CoreConfig list \<Rightarrow> 'k outcome"
  rl_Start :: "'k \<Rightarrow> unit outcome \<times> 'k"
  rl_Close :: "'k \<Rightarrow> unit outcome \<times> 'k"
  rl_StartNodes :: "ServerApiConfig \<Rightarrow> 'k \<Rightarrow> unit outcome \<times> 'k"
  rl_StartLocal :: "NodeConfig list \<Rightarrow> 'k \<Rightarrow> unit outcome \<times> 'k"
  rl_CloseNodes :: "'k \<Rightarrow> 'k"

record 'k process =
  pc_cores :: "(bool \<times> 'k) list"
  pc_nodes :: "(bool \<times> nat) list"

definition real_newCore :: "'k runtime_lib \<Rightarrow> Conf \<Rightarrow> 'k process \<Rightarrow> nat outcome \<times> 'k process" where
  "real_newCore L c p =
    (case rl_NewCore L (cf_CoresConfig c) of
       Panic \<Rightarrow> (Panic, p)
     | Fail e \<Rightarrow> (Fail e, p)
     | Ret k \<Rightarrow>
         (case rl_Start L k of
            (Panic, k1) \<Rightarrow> (Panic, p)
          | (Ret _, k1) \<Rightarrow> (Ret (length (pc_cores p)), p\<lparr>pc_cores := pc_cores p @ [(True, k1)]\<rparr>)
          | (Fail e, k1) \<Rightarrow>
              (case rl_Close L k1 of
                 (Panic, _) \<Rightarrow> (Panic, p)
               | (_, k2) \<Rightarrow> (Fail e, p\<lparr>pc_cores := pc_cores p @ [(False, k2)]\<rparr>))))"

definition start_nodes :: "'k runtime_lib \<Rightarrow> Conf \<Rightarrow> 'k \<Rightarrow> unit outcome \<times> 'k" where
  "start_nodes L c k =
    (let a = cf_ApiConfig c
     in if sa_ApiHost a \<noteq> '''' \<and> sa_ServerId a \<noteq> 0 \<and> sa_SecretKey a \<noteq> '''' \<and> cf_NodeConfig c = []
        then rl_StartNodes L a k else rl_StartLocal L (cf_NodeConfig c) k)"

definition real_newNodes :: "'k runtime_lib \<Rightarrow> Conf \<Rightarrow> nat \<Rightarrow> 'k process \<Rightarrow> (nat nodeRunner \<times> unit outcome) \<times> 'k process" where
  "real_newNodes L c a p =
    (case start_nodes L c (snd (pc_cores p ! a)) of
       (r, k) \<Rightarrow>
         ((Runner (Some (length (pc_nodes p))), r),
          p\<lparr>pc_cores := (pc_cores p)[a := (fst (pc_cores p ! a), k)], pc_nodes := pc_nodes p @ [(r = Ret (), a)]\<rparr>))"

definition realRuntimeBuilders :: "'k runtime_lib \<Rightarrow> ('k process, nat, nat) runtimeBuilders" where
  "realRuntimeBuilders L = \<lparr>rb_newCore = real_newCore L, rb_newNodes = real_newNodes L\<rparr>"

text \<open>Closing a node with no controllers left does nothing.\<close>

definition real_closers :: "'k runtime_lib \<Rightarrow> ('k process, nat, nat) closers" where
  "real_closers L =
    \<lparr>xl_core = (\<lambda>a p. case rl_Close L (snd (pc_cores p ! a)) of (r, k) \<Rightarrow> (r, p\<lparr>pc_cores := (pc_cores p)[a := (False, k)]\<rparr>)),
     xl_nodes = (\<lambda>n p. (Ret (),
       if fst (pc_nodes p ! n) then
         (let a = snd (pc_nodes p ! n)
          in p\<lparr>pc_nodes := (pc_nodes p)[n := (False, a)],
               pc_cores := (pc_cores p)[a := (fst (pc_cores p ! a), rl_CloseNodes L (snd (pc_cores p ! a)))]\<rparr>)
       else p))\<rparr>"

text \<open>Starting the agent: a server, or nothing running when the core or the nodes do not start.\<close>

definition serverHandle :: "conf_decoders \<Rightarrow> sources \<Rightarrow> string \<Rightarrow> 'k runtime_lib \<Rightarrow> (nat, nat) server option outcome \<times> 'k process" where
  "serverHandle D S path L =
    (let p = \<lparr>pc_cores = [], pc_nodes = []\<rparr>
     in case LoadFromPath D S path Conf_New of
          Panic \<Rightarrow> (Panic, p)
        | Fail e \<Rightarrow> (Ret None, p)
        | Ret c \<Rightarrow>
            (case rl_NewCore L (cf_CoresConfig c) of
               Panic \<Rightarrow> (Panic, p)
             | Fail e \<Rightarrow> (Ret None, p)
             | Ret k \<Rightarrow>
                 (case rl_Start L k of
                    (Panic, k1) \<Rightarrow> (Panic, p\<lparr>pc_cores := [(True, k1)]\<rparr>)
                  | (Fail e, k1) \<Rightarrow> (Ret None, p\<lparr>pc_cores := [(True, k1)]\<rparr>)
                  | (Ret _, k1) \<Rightarrow>
                      (case real_newNodes L c 0 (p\<lparr>pc_cores := [(True, k1)]\<rparr>) of
                         ((r, Ret _), p1) \<Rightarrow> (Ret (Some \<lparr>sv_c = c, sv_vc = Some 0, sv_nodes = Some 0\<rparr>), p1)
                       | ((r, e), p1) \<Rightarrow>
                           (case xl_core (real_closers L) 0 p1 of (r2, p2) \<Rightarrow> (if e = Panic \<or> r2 = Panic then Panic else Ret None, p2))))))"

text \<open>What a variable of the server refers to.\<close>

definition held_core :: "'c option \<Rightarrow> 'c set" where
  "held_core k = set_option k"

definition held_nodes :: "'n nodeRunner \<Rightarrow> 'n set" where
  "held_nodes r = (case r of NilRunner \<Rightarrow> {} | Runner p \<Rightarrow> set_option p)"

lemma held_simps [simp]:
  "held_core None = {}" "held_core (Some k) = {k}" "held_nodes NilRunner = {}" "held_nodes (Runner p) = set_option p"
  by (simp_all add: held_core_def held_nodes_def)

section \<open>The contract of the factories\<close>

text \<open>
  What the orchestrator relies on: a factory that fails leaves nothing open, one that succeeds opens
  exactly what it returns, and closing closes exactly its argument.
\<close>

locale runtime =
  fixes B :: "('w, 'c, 'n) runtimeBuilders"
    and X :: "('w, 'c, 'n) closers"
    and cores :: "'w \<Rightarrow> 'c set"
    and nodes :: "'w \<Rightarrow> 'n set"
  assumes newCore_ok: "rb_newCore B c w = (Ret k, w') \<Longrightarrow> k \<notin> cores w \<and> cores w' = insert k (cores w) \<and> nodes w' = nodes w"
    and newCore_fail: "rb_newCore B c w = (Fail e, w') \<Longrightarrow> cores w' = cores w \<and> nodes w' = nodes w"
    and newNodes_runner: "k \<in> cores w \<Longrightarrow> rb_newNodes B c k w = ((r, t), w') \<Longrightarrow> \<exists>n. r = Runner (Some n) \<and> n \<notin> nodes w"
    and newNodes_cores: "k \<in> cores w \<Longrightarrow> rb_newNodes B c k w = ((r, t), w') \<Longrightarrow> cores w' = cores w"
    and newNodes_ok: "k \<in> cores w \<Longrightarrow> rb_newNodes B c k w = ((Runner (Some n), Ret ()), w') \<Longrightarrow> nodes w' = insert n (nodes w)"
    and newNodes_fail: "k \<in> cores w \<Longrightarrow> rb_newNodes B c k w = ((r, Fail e), w') \<Longrightarrow> nodes w' = nodes w"
    and closeCore: "xl_core X k w = (t, w') \<Longrightarrow> t \<noteq> Panic \<Longrightarrow> cores w' = cores w - {k} \<and> nodes w' = nodes w"
    and closeNodes: "xl_nodes X n w = (t, w') \<Longrightarrow> t = Ret () \<Longrightarrow> nodes w' = nodes w - {n} \<and> cores w' = cores w"
    and closeNodes_no_error: "xl_nodes X n w \<noteq> (Fail e, w')"
begin

lemma close_runner_effect:
  "close_runner X r w = (t, w') \<Longrightarrow> t \<noteq> Panic \<Longrightarrow>
     t = Ret () \<and> nodes w' = nodes w - held_nodes r \<and> cores w' = cores w \<and> r \<noteq> Runner None"
  using closeNodes closeNodes_no_error
  by (cases t) (auto simp: close_runner_def split: nodeRunner.splits option.splits)

lemma close_core_effect:
  "close_core X k w = (t, w') \<Longrightarrow> t \<noteq> Panic \<Longrightarrow> t = Ret () \<and> cores w' = cores w - held_core k \<and> nodes w' = nodes w"
  using closeCore
  by (auto simp: close_core_def split: option.splits prod.splits outcome.splits)

lemma teardown_effect:
  assumes "teardown X k r w = (t, w')" and "t \<noteq> Panic"
  shows "t = Ret () \<and> cores w' = cores w - held_core k \<and> nodes w' = nodes w - held_nodes r \<and> r \<noteq> Runner None"
proof -
  obtain t1 w1 where c: "close_runner X r w = (t1, w1)" by force
  with assms have "t1 \<noteq> Panic" by (auto simp: teardown_def thenW_def)
  with close_runner_effect [OF c] have 1: "t1 = Ret ()" "nodes w1 = nodes w - held_nodes r" "cores w1 = cores w" "r \<noteq> Runner None"
    by auto
  with c assms have "close_core X k w1 = (t, w')" by (simp add: teardown_def thenW_def)
  from close_core_effect [OF this assms(2)] 1 show ?thesis by simp
qed

lemma thenW_teardown:
  assumes "thenW (teardown X k r w) f = (Ret y, w')"
  obtains w1 where "f w1 = (Ret y, w')" and "cores w1 = cores w - held_core k" and "nodes w1 = nodes w - held_nodes r"
    and "r \<noteq> Runner None"
proof -
  obtain t w1 where t: "teardown X k r w = (t, w1)" by force
  with assms have "t \<noteq> Panic" by (auto simp: thenW_def)
  from teardown_effect [OF t this] t assms that show ?thesis by (auto simp: thenW_def)
qed

lemma restore_runs:
  assumes "restore_old B X c w = (Ret (k, r, res), w')"
  shows "cores w' = cores w \<union> held_core k \<and> nodes w' = nodes w \<union> held_nodes r \<and>
    (res = reloadRestoredOld \<and> k \<noteq> None \<and> (\<exists>n. r = Runner (Some n)) \<or> res = reloadOffline \<and> k = None \<and> r = NilRunner)"
proof (cases "rb_newCore B c w")
  case (Pair t w1)
  show ?thesis
  proof (cases t)
    case (Fail e)
    with Pair assms newCore_fail show ?thesis by (fastforce simp: restore_old_def)
  next
    case Panic
    with Pair assms show ?thesis by (simp add: restore_old_def)
  next
    case (Ret a)
    from newCore_ok [of c w a w1] Pair Ret have k: "a \<notin> cores w" "cores w1 = insert a (cores w)" "nodes w1 = nodes w" by auto
    obtain q t2 w2 where n: "rb_newNodes B c a w1 = ((q, t2), w2)" by (metis prod.collapse)
    have a: "a \<in> cores w1" using k by simp
    obtain m where m: "q = Runner (Some m)" "m \<notin> nodes w1" using newNodes_runner [OF a n] by blast
    note c2 = newNodes_cores [OF a n]
    show ?thesis
    proof (cases t2)
      case R: (Ret u)
      with newNodes_ok [OF a, of c m w2] n m have "nodes w2 = insert m (nodes w1)" by simp
      with assms Pair Ret n R m k c2 show ?thesis by (auto simp: restore_old_def)
    next
      case F: (Fail e)
      from newNodes_fail [OF a, of c q e w2] n F have n2: "nodes w2 = nodes w1" by simp
      from assms Pair Ret n F have "thenW (teardown X (Some a) q w2) (\<lambda>w3. (Ret (None, NilRunner, reloadOffline), w3)) = (Ret (k, r, res), w')"
        by (simp add: restore_old_def)
      then show ?thesis by (rule thenW_teardown) (use m k c2 n2 in auto)
    next
      case P: Panic
      with assms Pair Ret n show ?thesis by (simp add: restore_old_def)
    qed
  qed
qed

lemma reload_runs:
  assumes "reloadProcess B X oldC newC k0 r0 w = (Ret (k, r, res), w')"
    and "cores w = held_core k0" and "nodes w = held_nodes r0"
  shows "cores w' = held_core k \<and> nodes w' = held_nodes r \<and>
    (res = reloadKeptOld \<and> k = k0 \<and> r = r0 \<or> res \<in> {reloadSucceeded, reloadRestoredOld} \<and> k \<noteq> None \<and> (\<exists>n. r = Runner (Some n))
     \<or> res = reloadOffline \<and> k = None \<and> r = NilRunner)"
proof (cases "rb_newCore B newC w")
  case (Pair t w1)
  show ?thesis
  proof (cases t)
    case (Fail e)
    with Pair assms newCore_fail show ?thesis by (fastforce simp: reloadProcess_def)
  next
    case Panic
    with Pair assms show ?thesis by (simp add: reloadProcess_def)
  next
    case (Ret a)
    from newCore_ok [of newC w a w1] Pair Ret have k: "a \<notin> cores w" "cores w1 = insert a (cores w)" "nodes w1 = nodes w" by auto
    let ?rest = "\<lambda>w2. case rb_newNodes B newC a w2 of
       ((_, Panic), w3) \<Rightarrow> (Panic, w3)
     | ((r, Ret _), w3) \<Rightarrow> (Ret (Some a, r, reloadSucceeded), w3)
     | ((r, Fail _), w3) \<Rightarrow> thenW (teardown X (Some a) r w3) (restore_old B X oldC)"
    from assms(1) Pair Ret have "thenW (teardown X k0 r0 w1) ?rest = (Ret (k, r, res), w')"
      by (simp add: reloadProcess_def)
    then obtain w2 where w2: "?rest w2 = (Ret (k, r, res), w')" "cores w2 = {a}" "nodes w2 = {}"
      by (rule thenW_teardown) (use k assms(2,3) in auto)
    obtain q t2 w3 where n: "rb_newNodes B newC a w2 = ((q, t2), w3)" by (metis prod.collapse)
    have a: "a \<in> cores w2" using w2 by simp
    obtain m where m: "q = Runner (Some m)" "m \<notin> nodes w2" using newNodes_runner [OF a n] by blast
    note c3 = newNodes_cores [OF a n]
    show ?thesis
    proof (cases t2)
      case R: (Ret u)
      with newNodes_ok [OF a, of newC m w3] n m have "nodes w3 = insert m (nodes w2)" by simp
      with w2 n R m c3 show ?thesis by auto
    next
      case F: (Fail e)
      from newNodes_fail [OF a, of newC q e w3] n F have n3: "nodes w3 = nodes w2" by simp
      from w2(1) n F have "thenW (teardown X (Some a) q w3) (restore_old B X oldC) = (Ret (k, r, res), w')" by simp
      then obtain w4 where "restore_old B X oldC w4 = (Ret (k, r, res), w')" "cores w4 = {}" "nodes w4 = {}"
        by (rule thenW_teardown) (use c3 n3 w2 in auto)
      with restore_runs [of oldC w4 k r res w'] show ?thesis by auto
    next
      case P: Panic
      with w2(1) n show ?thesis by simp
    qed
  qed
qed

end

section \<open>The production factories keep the contract\<close>

definition open_cores :: "'k process \<Rightarrow> nat set" where
  "open_cores p = {a. a < length (pc_cores p) \<and> fst (pc_cores p ! a)}"

definition open_nodes :: "'k process \<Rightarrow> nat set" where
  "open_nodes p = {n. n < length (pc_nodes p) \<and> fst (pc_nodes p ! n)}"

lemma open_append [simp]:
  "open_cores (p\<lparr>pc_cores := pc_cores p @ [(b, k)]\<rparr>) = (if b then insert (length (pc_cores p)) (open_cores p) else open_cores p)"
  by (auto simp: open_cores_def nth_append less_Suc_eq)

lemma open_frame [simp]:
  "open_cores (pc_nodes_update f p) = open_cores p" "open_nodes (pc_cores_update g p) = open_nodes p"
  by (simp_all add: open_cores_def open_nodes_def)

lemma open_fresh: "length (pc_cores p) \<notin> open_cores p" "length (pc_nodes p) \<notin> open_nodes p"
  by (simp_all add: open_cores_def open_nodes_def)

lemma nth_update: "x < length xs \<Longrightarrow> xs[a := v] ! x = (if x = a then v else xs ! x)"
  by (cases "x = a") simp_all

lemma open_touch: "open_cores (p\<lparr>pc_cores := (pc_cores p)[a := (fst (pc_cores p ! a), k)]\<rparr>) = open_cores p"
  by (auto simp: open_cores_def nth_update split: if_split_asm)

lemma open_shut: "open_cores (p\<lparr>pc_cores := (pc_cores p)[a := (False, k)]\<rparr>) = open_cores p - {a}"
  by (auto simp: open_cores_def nth_update split: if_split_asm)

lemma nodes_append: "open_nodes (p\<lparr>pc_nodes := pc_nodes p @ [(b, a)]\<rparr>) = (if b then insert (length (pc_nodes p)) (open_nodes p) else open_nodes p)"
  by (auto simp: open_nodes_def nth_append less_Suc_eq)

lemma nodes_shut: "open_nodes (p\<lparr>pc_nodes := (pc_nodes p)[n := (False, a)]\<rparr>) = open_nodes p - {n}"
  by (auto simp: open_nodes_def nth_update split: if_split_asm)

lemma real_closeNodes_effect:
  "open_nodes (snd (xl_nodes (real_closers L) n p)) = open_nodes p - {n}"
  "open_cores (snd (xl_nodes (real_closers L) n p)) = open_cores p"
proof -
  let ?a = "snd (pc_nodes p ! n)"
  let ?p = "p\<lparr>pc_nodes := (pc_nodes p)[n := (False, ?a)]\<rparr>"
  show "open_nodes (snd (xl_nodes (real_closers L) n p)) = open_nodes p - {n}"
    using nodes_shut [of p n ?a] by (auto simp: real_closers_def Let_def open_nodes_def)
  show "open_cores (snd (xl_nodes (real_closers L) n p)) = open_cores p"
    using open_touch [of ?p ?a] by (simp add: real_closers_def Let_def open_cores_def)
qed

lemma real_newNodes_effect:
  assumes "real_newNodes L c a p = ((r, t), p')"
  shows "r = Runner (Some (length (pc_nodes p))) \<and> open_cores p' = open_cores p \<and>
    open_nodes p' = (if t = Ret () then insert (length (pc_nodes p)) (open_nodes p) else open_nodes p)"
proof -
  obtain r1 k where "start_nodes L c (snd (pc_cores p ! a)) = (r1, k)" by force
  with assms show ?thesis
    using open_touch [of p a k] nodes_append [of "p\<lparr>pc_cores := (pc_cores p)[a := (fst (pc_cores p ! a), k)]\<rparr>" "r1 = Ret ()" a]
    by (auto simp: real_newNodes_def open_cores_def)
qed

interpretation rt: runtime "realRuntimeBuilders L" "real_closers L" open_cores open_nodes
proof unfold_locales
  show "k \<notin> open_cores p \<and> open_cores p' = insert k (open_cores p) \<and> open_nodes p' = open_nodes p"
    if "rb_newCore (realRuntimeBuilders L) c p = (Ret k, p')" for c p k p'
    using that by (auto simp: realRuntimeBuilders_def real_newCore_def open_fresh split: outcome.splits prod.splits)
  show "open_cores p' = open_cores p \<and> open_nodes p' = open_nodes p"
    if "rb_newCore (realRuntimeBuilders L) c p = (Fail e, p')" for c p e p'
    using that by (auto simp: realRuntimeBuilders_def real_newCore_def split: outcome.splits prod.splits)
  show "\<exists>n. r = Runner (Some n) \<and> n \<notin> open_nodes p" "open_cores p' = open_cores p"
    if "k \<in> open_cores p" "rb_newNodes (realRuntimeBuilders L) c k p = ((r, t), p')" for c k p r t p'
    using real_newNodes_effect [of L c k p r t p'] that open_fresh(2) [of p] by (auto simp: realRuntimeBuilders_def)
  show "open_nodes p' = insert n (open_nodes p)"
    if "k \<in> open_cores p" "rb_newNodes (realRuntimeBuilders L) c k p = ((Runner (Some n), Ret ()), p')" for c k p n p'
    using real_newNodes_effect [of L c k p "Runner (Some n)" "Ret ()" p'] that by (simp add: realRuntimeBuilders_def)
  show "open_nodes p' = open_nodes p"
    if "k \<in> open_cores p" "rb_newNodes (realRuntimeBuilders L) c k p = ((r, Fail e), p')" for c k p r e p'
    using real_newNodes_effect [of L c k p r "Fail e" p'] that by (simp add: realRuntimeBuilders_def)
  show "open_cores p' = open_cores p - {k} \<and> open_nodes p' = open_nodes p"
    if "xl_core (real_closers L) k p = (t, p')" "t \<noteq> Panic" for k p t p'
    using that open_shut [of p k] by (auto simp: real_closers_def split: prod.splits)
  show "open_nodes p' = open_nodes p - {n} \<and> open_cores p' = open_cores p"
    if "xl_nodes (real_closers L) n p = (t, p')" "t = Ret ()" for n p t p'
    using real_closeNodes_effect [of L n p] that by simp
  show "xl_nodes (real_closers L) n p \<noteq> (Fail e, p')" for n p e p'
    by (simp add: real_closers_def)
qed

section \<open>Sequences of reloads\<close>

text \<open>Events of the watcher one after another; \<open>None\<close>: the process panicked.\<close>

fun watch_events :: "'k runtime_lib \<Rightarrow> Conf list \<Rightarrow> (nat, nat) server \<times> 'k process \<Rightarrow> ((nat, nat) server \<times> 'k process) option" where
  "watch_events L [] sp = Some sp"
| "watch_events L (c # cs) sp =
     (case watch_reload (realRuntimeBuilders L) (real_closers L) c sp of
        (Ret _, sp') \<Rightarrow> watch_events L cs sp'
      | _ \<Rightarrow> None)"

definition one_runtime :: "(nat, nat) server \<Rightarrow> 'k process \<Rightarrow> bool" where
  "one_runtime s p \<longleftrightarrow> open_cores p = set_option (sv_vc s) \<and> open_nodes p = set_option (sv_nodes s) \<and>
     (sv_vc s = None \<longleftrightarrow> sv_nodes s = None)"

lemma watch_reload_step:
  assumes "watch_reload (realRuntimeBuilders L) (real_closers L) c (s, p) = (Ret res, s', p')" and "one_runtime s p"
  shows "one_runtime s' p' \<and> (res = reloadKeptOld \<longrightarrow> s' = s) \<and> (res = reloadOffline \<longleftrightarrow> sv_vc s' = None \<and> res \<noteq> reloadKeptOld) \<and>
    sv_c s' = (if res = reloadSucceeded then c else sv_c s)"
proof -
  obtain t p1 where r: "reloadProcess (realRuntimeBuilders L) (real_closers L) (sv_c s) c (sv_vc s) (Runner (sv_nodes s)) p = (t, p1)"
    by force
  obtain k q where t: "t = Ret (k, q, res)" "p1 = p'"
    using assms(1) r unfolding watch_reload_def by (auto split: outcome.splits reloadOutcome.splits)
  have "open_cores p = held_core (sv_vc s)" "open_nodes p = held_nodes (Runner (sv_nodes s))"
    using assms(2) by (simp_all add: one_runtime_def held_core_def held_nodes_def)
  from rt.reload_runs [OF r [unfolded t] this] have
    "open_cores p' = held_core k" "open_nodes p' = held_nodes q" and
    "res = reloadKeptOld \<and> k = sv_vc s \<and> q = Runner (sv_nodes s) \<or>
     res \<in> {reloadSucceeded, reloadRestoredOld} \<and> k \<noteq> None \<and> (\<exists>n. q = Runner (Some n)) \<or> res = reloadOffline \<and> k = None \<and> q = NilRunner"
    by auto
  then show ?thesis
    using assms r t by (auto simp: watch_reload_def one_runtime_def held_core_def held_nodes_def as_node_def)
qed

text \<open>Reloading never leaks a runtime and never loses the one it reports. Along every sequence of
  configuration changes, as long as the process lives, the open cores and the open nodes are exactly
  the ones the server's variables refer to: one of each, or none of either after a reload whose
  restore failed as well. A reload that keeps the old runtime changes nothing, and the configuration
  in force is the last one that was reloaded successfully.\<close>

lemma reload_keeps_one_runtime:
  assumes "watch_events L cs (s, p) = Some (s', p')" and "one_runtime s p"
  shows "one_runtime s' p' \<and> sv_c s' \<in> insert (sv_c s) (set cs)"
  using assms
proof (induction cs arbitrary: s p)
  case (Cons c cs)
  obtain t s1 p1 where e: "watch_reload (realRuntimeBuilders L) (real_closers L) c (s, p) = (t, s1, p1)" by (metis prod_cases3)
  with Cons.prems(1) obtain res where t: "t = Ret res" "watch_events L cs (s1, p1) = Some (s', p')"
    by (cases t) auto
  from watch_reload_step [OF e [unfolded t] Cons.prems(2)] Cons.IH [OF t(2)] show ?case by (auto split: if_split_asm)
qed simp

text \<open>A small runtime: a core is a number, the nodes of an address \<open>bad\<close> do not start.\<close>

definition demo_runtime :: "nat runtime_lib" where
  "demo_runtime = \<lparr>rl_NewCore = (\<lambda>cs. Ret (length cs)), rl_Start = (\<lambda>k. (Ret (), k)), rl_Close = (\<lambda>k. (Ret (), k)),
     rl_StartNodes = (\<lambda>a k. (if sa_ApiHost a = ''bad'' then Fail ''no reply'' else Ret (), k)),
     rl_StartLocal = (\<lambda>ns k. (Ret (), k)), rl_CloseNodes = (\<lambda>k. k)\<rparr>"

definition demo_conf :: "string \<Rightarrow> Conf" where
  "demo_conf host = Conf_New\<lparr>cf_ApiConfig := \<lparr>sa_ApiHost = host, sa_ServerId = 1, sa_SecretKey = ''s'', sa_Timeout = 0\<rparr>\<rparr>"

definition demo_serving :: "(nat, nat) server" where
  "demo_serving = \<lparr>sv_c = demo_conf ''a'', sv_vc = Some 0, sv_nodes = Some 0\<rparr>"

definition demo_process :: "nat process" where
  "demo_process = \<lparr>pc_cores = [(True, 0)], pc_nodes = [(True, 0)]\<rparr>"

lemmas reload_run_defs = watch_reload_def reloadProcess_def realRuntimeBuilders_def real_newCore_def real_newNodes_def
  start_nodes_def real_closers_def teardown_def thenW_def close_runner_def close_core_def restore_old_def as_node_def Let_def

lemma demo_one_runtime: "one_runtime demo_serving demo_process"
  by (auto simp: one_runtime_def demo_serving_def demo_process_def open_cores_def open_nodes_def)

lemma reload_keeps_one_runtime_example:
  "\<exists>s' p'. watch_events demo_runtime [demo_conf ''b'', demo_conf ''bad''] (demo_serving, demo_process) = Some (s', p') \<and>
     one_runtime s' p' \<and> sv_vc s' = Some 3 \<and> sv_c s' = demo_conf ''b''"
proof -
  obtain s' p' where run: "watch_events demo_runtime [demo_conf ''b'', demo_conf ''bad''] (demo_serving, demo_process) = Some (s', p')"
    and s: "sv_vc s' = Some 3" "sv_c s' = demo_conf ''b''"
    by (simp add: reload_run_defs demo_runtime_def demo_conf_def demo_serving_def demo_process_def Conf_New_def)
  with reload_keeps_one_runtime [OF run demo_one_runtime] show ?thesis by blast
qed

text \<open>A runtime that went offline cannot come back. After a reload whose restore failed too, the server
  holds a nil \<open>*node.Node\<close>; handed to the orchestrator it becomes an interface that is not nil, so the
  next reload whose core builds calls \<open>Close\<close> on it and panics, before it starts anything.\<close>

lemma offline_runtime_panics:
  assumes "sv_nodes s = None" and "rb_newCore B newC w = (Ret k, w')"
  shows "fst (watch_reload B X newC (s, w)) = Panic"
  using assms by (simp add: watch_reload_def reloadProcess_def teardown_def thenW_def close_runner_def)

text \<open>The bad nodes, reloaded while the restore fails as well, and then a good configuration.\<close>

lemma offline_runtime_panics_example:
  "\<exists>s1 p1. watch_events demo_runtime [demo_conf ''bad''] (demo_serving\<lparr>sv_c := demo_conf ''bad''\<rparr>, demo_process) = Some (s1, p1) \<and>
     fst (watch_reload (realRuntimeBuilders demo_runtime) (real_closers demo_runtime) (demo_conf ''a'') (s1, p1)) = Panic"
proof -
  obtain s1 p1 where run: "watch_events demo_runtime [demo_conf ''bad''] (demo_serving\<lparr>sv_c := demo_conf ''bad''\<rparr>, demo_process) = Some (s1, p1)"
    and s1: "sv_nodes s1 = None"
    by (simp add: reload_run_defs demo_runtime_def demo_conf_def demo_serving_def demo_process_def Conf_New_def)
  obtain k p2 where k: "rb_newCore (realRuntimeBuilders demo_runtime) (demo_conf ''a'') p1 = (Ret k, p2)"
    by (simp add: reload_run_defs demo_runtime_def)
  from run offline_runtime_panics [OF s1 k] show ?thesis by blast
qed

text \<open>A mistake in a file of the xray core stops the agent. When the new configuration names a
  routing, inbound or outbound file that cannot be read, decoded or built, building the core panics;
  the reload does not keep the old runtime, and the process dies with its nodes up.\<close>

lemma broken_xray_file_stops_agent:
  assumes "rl_NewCore L = NewCore reg" and "mload reg ''xray'' = Some (\<lambda>c. bindR (Xray_New V c) (\<lambda>x. Ret (C, x)))"
    and "cf_CoresConfig newC = [cc]" and "kc_Type cc = ''xray''" and "kc_XrayConfig cc = Some xc" and "\<not> files_ok V xc"
  shows "watch_reload (realRuntimeBuilders L) (real_closers L) newC (s, p) = (Panic, s, p)"
proof -
  have "Xray_New V cc = Panic" using xray_construction_panics [where L = V and c = cc and xc = xc] assms(5,6) by blast
  then have "rl_NewCore L (cf_CoresConfig newC) = Panic" using assms by (simp add: NewCore_def)
  then show ?thesis by (simp add: watch_reload_def reloadProcess_def realRuntimeBuilders_def real_newCore_def)
qed

definition demo_xray_conf :: "(nat, nat, nat) xray_conf" where
  "demo_xray_conf = \<lparr>xf_Read = (\<lambda>p. None), xf_dns = (\<lambda>d. Some 0), xf_no_dns = 0, xf_dnsBuild = Some, xf_router = (\<lambda>d. Some 0),
     xf_no_router = 0, xf_routerBuild = Some, xf_inbounds = (\<lambda>d. Some []), xf_inboundBuild = Some, xf_outbounds = (\<lambda>d. Some []),
     xf_outboundBuild = Some, xf_New = (\<lambda>c. Some 0)\<rparr>"

definition route_conf :: Conf where
  "route_conf = Conf_New\<lparr>cf_CoresConfig := [\<lparr>kc_Type = ''xray'', kc_Name = '''',
     kc_XrayConfig = Some (NewXrayConfig\<lparr>xc_RouteConfigPath := ''/missing.json''\<rparr>), kc_SingConfig = None\<rparr>]\<rparr>"

lemma broken_xray_file_stops_agent_example:
  "\<forall>C st cl. watch_reload
     (realRuntimeBuilders \<lparr>rl_NewCore = NewCore [(''xray'', \<lambda>c. bindR (Xray_New demo_xray_conf c) (\<lambda>x. Ret (C, x)))],
        rl_Start = st, rl_Close = cl, rl_StartNodes = (\<lambda>a k. (Ret (), k)), rl_StartLocal = (\<lambda>ns k. (Ret (), k)), rl_CloseNodes = (\<lambda>k. k)\<rparr>)
     (real_closers \<lparr>rl_NewCore = NewCore [(''xray'', \<lambda>c. bindR (Xray_New demo_xray_conf c) (\<lambda>x. Ret (C, x)))],
        rl_Start = st, rl_Close = cl, rl_StartNodes = (\<lambda>a k. (Ret (), k)), rl_StartLocal = (\<lambda>ns k. (Ret (), k)), rl_CloseNodes = (\<lambda>k. k)\<rparr>)
     route_conf (demo_serving, \<lparr>pc_cores = [], pc_nodes = []\<rparr>) = (Panic, demo_serving, \<lparr>pc_cores = [], pc_nodes = []\<rparr>)"
proof (intro allI)
  fix C :: "nat xray_core Core" and st cl :: "nat xray_core any_core \<Rightarrow> unit outcome \<times> nat xray_core any_core"
  let ?reg = "[(''xray'', \<lambda>c. bindR (Xray_New demo_xray_conf c) (\<lambda>x. Ret (C, x)))]"
  let ?L = "\<lparr>rl_NewCore = NewCore ?reg, rl_Start = st, rl_Close = cl, rl_StartNodes = (\<lambda>a k. (Ret (), k)),
     rl_StartLocal = (\<lambda>ns k. (Ret (), k)), rl_CloseNodes = (\<lambda>k. k)\<rparr>"
  have "\<not> files_ok demo_xray_conf (NewXrayConfig\<lparr>xc_RouteConfigPath := ''/missing.json''\<rparr>)"
    by (simp add: files_ok_def route_config_def demo_xray_conf_def must_def)
  then show "watch_reload (realRuntimeBuilders ?L) (real_closers ?L) route_conf (demo_serving, \<lparr>pc_cores = [], pc_nodes = []\<rparr>) =
     (Panic, demo_serving, \<lparr>pc_cores = [], pc_nodes = []\<rparr>)"
    by (intro broken_xray_file_stops_agent [where reg = ?reg]) (auto simp: route_conf_def)
qed

end
