(* ===== verification/Watch.thy ===== *)
theory Watch
  imports CmdReload
begin

text \<open>
  \<open>conf/watch.go\<close>: when a change of the configuration file is read, and the life of the agent from its
  start over a sequence of changes. The notifications of the file system are a list of events with
  their times in nanoseconds; the file is a function of time.
\<close>

section \<open>The watcher\<close>

text \<open>An event of the file, with whether it is a change of its mode, or an error of the watcher.\<close>

datatype watch_event = FileEvent int bool | WatcherError int "string option"

definition secs :: "int \<Rightarrow> int" where
  "secs n = n * 1000000000"

text \<open>The variable \<open>pre\<close>, \<open>None\<close> while it is the zero time.\<close>

definition debounced :: "int option \<Rightarrow> int \<Rightarrow> bool" where
  "debounced pre now = (case pre of None \<Rightarrow> False | Some t \<Rightarrow> t + secs 10 > now)"

text \<open>The loop gives the times of the accepted events.\<close>

fun watch_loop :: "int option \<Rightarrow> watch_event list \<Rightarrow> int list" where
  "watch_loop pre [] = []"
| "watch_loop pre (WatcherError now err # es) = watch_loop pre es"
| "watch_loop pre (FileEvent now chmod # es) =
     (if chmod then watch_loop pre es
      else if debounced pre now then watch_loop pre es
      else now # watch_loop (Some now) es)"

text \<open>The goroutine of an accepted event: after five seconds the file is parsed, and an error is logged.\<close>

definition parse_changed :: "conf_decoders \<Rightarrow> (int \<Rightarrow> sources) \<Rightarrow> string \<Rightarrow> int \<Rightarrow> Conf option outcome" where
  "parse_changed D S filePath now =
    (case LoadFromPath D (S (now + secs 5)) filePath Conf_New of
       Ret newC \<Rightarrow> Ret (Some newC)
     | Fail e \<Rightarrow> Ret None
     | Panic \<Rightarrow> Panic)"

text \<open>What \<open>Watch\<close> returns, given whether the watcher can be created and the file added to it, and whether its
  goroutine runs: it does even when adding the file failed.\<close>

definition Conf_Watch :: "bool \<Rightarrow> bool \<Rightarrow> unit outcome \<times> bool" where
  "Conf_Watch created added =
    (if \<not> created then (Fail ''new watcher error'', False)
     else if \<not> added then (Fail ''watch file error'', True)
     else (Ret (), True))"

section \<open>The agent over time\<close>

text \<open>The callback runs once for every file that parses, one at a time and in the order of the changes; \<open>None\<close> when the process panicked.\<close>

fun on_changes :: "'k runtime_lib \<Rightarrow> conf_decoders \<Rightarrow> (int \<Rightarrow> sources) \<Rightarrow> string \<Rightarrow> int list
    \<Rightarrow> (nat, nat) server \<times> 'k process \<Rightarrow> ((nat, nat) server \<times> 'k process) option" where
  "on_changes L D S path [] sp = Some sp"
| "on_changes L D S path (t # ts) sp =
     (case parse_changed D S path t of
        Ret None \<Rightarrow> on_changes L D S path ts sp
      | Ret (Some newC) \<Rightarrow>
          (case watch_reload (realRuntimeBuilders L) (real_closers L) newC sp of
             (Ret _, sp') \<Rightarrow> on_changes L D S path ts sp'
           | _ \<Rightarrow> None)
      | _ \<Rightarrow> None)"

text \<open>The server command started at time \<open>t0\<close> and left alone over the events \<open>es\<close>.\<close>

definition agent :: "conf_decoders \<Rightarrow> (int \<Rightarrow> sources) \<Rightarrow> string \<Rightarrow> 'k runtime_lib \<Rightarrow> int \<Rightarrow> watch_event list
    \<Rightarrow> ((nat, nat) server \<times> 'k process) option" where
  "agent D S path L t0 es =
    (case serverHandle D (S t0) path L of
       (Ret (Some s), p) \<Rightarrow> on_changes L D S path (watch_loop None es) (s, p)
     | _ \<Rightarrow> None)"

section \<open>When a change is read\<close>

fun event_time :: "watch_event \<Rightarrow> int" where
  "event_time (FileEvent t chmod) = t"
| "event_time (WatcherError t err) = t"

fun changes_file :: "watch_event \<Rightarrow> bool" where
  "changes_file (FileEvent t chmod) \<longleftrightarrow> \<not> chmod"
| "changes_file (WatcherError t err) \<longleftrightarrow> False"

text \<open>Each accepted time at least ten seconds after the one before.\<close>

fun spaced :: "int option \<Rightarrow> int list \<Rightarrow> bool" where
  "spaced pre [] = True"
| "spaced pre (t # ts) = (\<not> debounced pre t \<and> spaced (Some t) ts)"

lemma watch_loop_spaced: "spaced pre (watch_loop pre es)"
  by (induction pre es rule: watch_loop.induct) simp_all

lemma watch_loop_times: "t \<in> set (watch_loop pre es) \<Longrightarrow> \<exists>e \<in> set es. changes_file e \<and> event_time e = t"
  by (induction pre es rule: watch_loop.induct) (auto split: if_split_asm)

text \<open>Every change is accepted, or falls into the window of an accepted one.\<close>

lemma watch_loop_covers:
  assumes "e \<in> set es" and "changes_file e" and "sorted (map event_time es)"
    and "\<forall>t. pre = Some t \<longrightarrow> (\<forall>x \<in> set es. t \<le> event_time x)"
  shows "\<exists>t \<in> set_option pre \<union> set (watch_loop pre es). t \<le> event_time e \<and> event_time e < t + secs 10"
  using assms
proof (induction pre es rule: watch_loop.induct)
  case (3 pre now chmod es)
  show ?case
  proof (cases "e = FileEvent now chmod")
    case True
    with "3.prems"(2,4) show ?thesis
      by (cases pre) (auto simp: debounced_def secs_def split: if_split_asm)
  next
    case False
    with "3.prems" have e: "e \<in> set es" "sorted (map event_time es)" "\<forall>x \<in> set es. now \<le> event_time x"
      by auto
    consider "chmod" | "\<not> chmod" "debounced pre now" | "\<not> chmod" "\<not> debounced pre now" by blast
    then show ?thesis
    proof cases
      case 1
      with "3.IH"(1) e "3.prems" show ?thesis by auto
    next
      case 2
      with "3.IH"(2) e "3.prems" show ?thesis by auto
    next
      case 3
      with "3.IH"(3) e "3.prems" show ?thesis by auto
    qed
  qed
qed auto


lemma spaced_nth: "spaced pre ts \<Longrightarrow> Suc i < length ts \<Longrightarrow> ts ! i + secs 10 \<le> ts ! Suc i"
proof (induction ts arbitrary: pre i)
  case (Cons t ts)
  then obtain u us where ts: "ts = u # us" by (cases ts) auto
  show ?case
  proof (cases i)
    case 0
    with Cons.prems ts show ?thesis by (simp add: debounced_def)
  next
    case (Suc j)
    with Cons.IH [of "Some t" j] Cons.prems show ?thesis by simp
  qed
qed simp

lemma spaced_later: "spaced (Some t) ts \<Longrightarrow> \<forall>x \<in> set ts. t + secs 10 \<le> x"
proof (induction ts arbitrary: t)
  case (Cons u us)
  then have "t + secs 10 \<le> u" "\<forall>x \<in> set us. u + secs 10 \<le> x" by (auto simp: debounced_def)
  moreover have "0 \<le> secs 10" by (simp add: secs_def)
  ultimately show ?case by auto
qed simp

lemma spaced_length:
  assumes "spaced pre ts" and "ts \<noteq> []" and "\<forall>t \<in> set ts. a \<le> t \<and> t \<le> b"
  shows "int (length ts - 1) * secs 10 \<le> b - a"
  using assms
proof (induction ts arbitrary: pre a)
  case (Cons t ts)
  show ?case
  proof (cases ts)
    case Nil
    with Cons.prems show ?thesis by simp
  next
    case (Cons u us)
    have sp: "spaced (Some t) ts" using Cons.prems(1) by simp
    have later: "\<forall>x \<in> set ts. t + secs 10 \<le> x"
      using sp by (rule spaced_later)
    from Cons.IH [OF sp, of "t + secs 10"] Cons.prems(3) later Cons
    have "int (length ts - 1) * secs 10 \<le> b - (t + secs 10)" by simp
    with Cons.prems(3) Cons show ?thesis by (simp add: algebra_simps)
  qed
qed simp

text \<open>The file is read at most once per window, and no change goes unnoticed. For events in the order
  of time, the accepted ones are at least ten seconds apart, so over a span there are at most one
  more than the tens of seconds in it; and every event that changes the file is accepted, or came
  less than ten seconds after one that was.\<close>

lemma config_reads_spaced:
  assumes "sorted (map event_time es)" and "\<forall>e \<in> set es. a \<le> event_time e \<and> event_time e \<le> b"
  shows "(\<forall>i. Suc i < length (watch_loop None es) \<longrightarrow> watch_loop None es ! i + secs 10 \<le> watch_loop None es ! Suc i) \<and>
    (watch_loop None es \<noteq> [] \<longrightarrow> int (length (watch_loop None es) - 1) * secs 10 \<le> b - a) \<and>
    (\<forall>e \<in> set es. changes_file e \<longrightarrow> (\<exists>t \<in> set (watch_loop None es). t \<le> event_time e \<and> event_time e < t + secs 10))"
proof (intro conjI allI impI ballI)
  show "watch_loop None es ! i + secs 10 \<le> watch_loop None es ! Suc i" if "Suc i < length (watch_loop None es)" for i
    using spaced_nth [OF watch_loop_spaced that] .
  show "int (length (watch_loop None es) - 1) * secs 10 \<le> b - a" if "watch_loop None es \<noteq> []"
    by (rule spaced_length [OF watch_loop_spaced that]) (use watch_loop_times assms(2) in blast)
  show "\<exists>t \<in> set (watch_loop None es). t \<le> event_time e \<and> event_time e < t + secs 10" if "e \<in> set es" "changes_file e" for e
    using watch_loop_covers [OF that assms(1), of None] by simp
qed

definition demo_edits :: "watch_event list" where
  "demo_edits = [FileEvent 0 False, FileEvent 1 True, FileEvent (secs 7) False, WatcherError (secs 8) None, FileEvent (secs 10) False]"

lemma config_reads_spaced_example:
  "watch_loop None demo_edits = [0, secs 10] \<and> int (length (watch_loop None demo_edits) - 1) * secs 10 \<le> secs 10 - 0"
proof -
  have "sorted (map event_time demo_edits)" "\<forall>e \<in> set demo_edits. 0 \<le> event_time e \<and> event_time e \<le> secs 10"
    by (simp_all add: demo_edits_def secs_def)
  note w = config_reads_spaced [OF this]
  have "watch_loop None demo_edits = [0, secs 10]" by (simp add: demo_edits_def secs_def debounced_def)
  with w show ?thesis by simp
qed

text \<open>An edit that comes in the second half of a window is noticed and not read: the goroutine of the
  window read the file before, and no other starts until the file changes again.\<close>

lemma late_edit_missed:
  assumes "t + secs 5 < u" and "u < t + secs 10"
  shows "watch_loop None [FileEvent t False, FileEvent u False] = [t]"
  using assms by (simp add: debounced_def)

section \<open>The agent along its life\<close>

lemma serverHandle_one_runtime:
  assumes "serverHandle D S path L = (Ret (Some s), p)"
  shows "one_runtime s p \<and> LoadFromPath D S path Conf_New = Ret (sv_c s)"
  using assms
  by (auto simp: serverHandle_def Let_def one_runtime_def open_cores_def open_nodes_def real_newNodes_def
      split: outcome.splits prod.splits if_splits)

lemma on_changes_one_runtime:
  assumes "on_changes L D S path ts (s, p) = Some (s', p')" and "one_runtime s p"
  shows "one_runtime s' p' \<and> (sv_c s' = sv_c s \<or> (\<exists>t \<in> set ts. LoadFromPath D (S (t + secs 5)) path Conf_New = Ret (sv_c s')))"
  using assms
proof (induction ts arbitrary: s p)
  case (Cons t ts)
  show ?case
  proof (cases "parse_changed D S path t")
    case (Ret nc)
    show ?thesis
    proof (cases nc)
      case None
      with Cons Ret show ?thesis by auto
    next
      case (Some c)
      obtain r s1 p1 where e: "watch_reload (realRuntimeBuilders L) (real_closers L) c (s, p) = (r, s1, p1)" by (metis prod_cases3)
      with Cons.prems(1) Ret Some obtain res where r: "r = Ret res" "on_changes L D S path ts (s1, p1) = Some (s', p')"
        by (cases r) auto
      have "LoadFromPath D (S (t + secs 5)) path Conf_New = Ret c"
        using Ret Some by (auto simp: parse_changed_def split: outcome.splits)
      with watch_reload_step [OF e [unfolded r] Cons.prems(2)] Cons.IH [OF r(2)] show ?thesis by (auto split: if_split_asm)
    qed
  qed (use Cons.prems in auto)
qed simp

text \<open>C35: The agent holds exactly one runtime, along its whole life. From its start over any sequence of
  changes of its file, as long as the process lives, the open cores and the open nodes are exactly
  the ones its variables refer to: one of each, or none of either after a reload whose restore failed.
  The configuration in force is the one it started with, or one that was read five seconds after an
  accepted change.\<close>

theorem agent_keeps_one_runtime:
  assumes "agent D S path L t0 es = Some (s, p)"
  shows "one_runtime s p \<and> (\<exists>t. (t = t0 \<or> t - secs 5 \<in> set (watch_loop None es)) \<and> LoadFromPath D (S t) path Conf_New = Ret (sv_c s))"
proof -
  from assms obtain s0 p0 where h: "serverHandle D (S t0) path L = (Ret (Some s0), p0)"
    and c: "on_changes L D S path (watch_loop None es) (s0, p0) = Some (s, p)"
    by (auto simp: agent_def split: outcome.splits prod.splits option.splits)
  note start = serverHandle_one_runtime [OF h]
  from on_changes_one_runtime [OF c] start show ?thesis
    by (metis add_diff_cancel_right')
qed


theorem agent_keeps_one_runtime_witness:
  "\<exists>s p. agent demo_conf_decoders (\<lambda>t. demo_sources ''sing'') ''f'' demo_runtime 0 demo_edits = Some (s, p) \<and> one_runtime s p"
proof -
  let ?a = "agent demo_conf_decoders (\<lambda>t. demo_sources ''sing'') ''f'' demo_runtime 0 demo_edits"
  have "case ?a of Some _ \<Rightarrow> True | None \<Rightarrow> False" by code_simp
  then obtain s p where a: "?a = Some (s, p)" by (cases ?a) auto
  with agent_keeps_one_runtime [OF a] show ?thesis by blast
qed

end
