(* ===== verification/Sessions.thy ===== *)
theory Sessions
  imports CheckLimits
begin

text \<open>
  What the two cores do with a limiter for one session: \<open>CheckLimit\<close> when it starts, and the release
  function \<open>func() { cl.DelConnCount(taguuid, ip) }\<close> when it ends.
\<close>

record release_fn =
  rf_limiter :: nat
  rf_user :: string
  rf_ip :: string

definition limiter_at :: "limworld \<Rightarrow> nat \<Rightarrow> Limiter" where
  "limiter_at w a = lw_heap w ! a"

definition run_release :: "release_fn \<Rightarrow> limworld \<Rightarrow> unit outcome \<times> limworld" where
  "run_release f w =
    (let a = rf_limiter f; l = limiter_at w a
     in case DelConnCount (lm_ConnLimiter l) (rf_user f) (rf_ip f) of
          None \<Rightarrow> (Panic, w)
        | Some cl \<Rightarrow> (Ret (), heap_update a (\<lambda>_. l\<lparr>lm_ConnLimiter := cl\<rparr>) w))"

text \<open>The slots a limiter counts, and a limiter that counts properly.\<close>

definition same_slots :: "ConnLimiter \<Rightarrow> ConnLimiter \<Rightarrow> bool" where
  "same_slots c c' \<longleftrightarrow> mload (cl_count c') = mload (cl_count c) \<and> slot_of c' = slot_of c"

definition counting :: "ConnLimiter \<Rightarrow> bool" where
  "counting c \<longleftrightarrow> cl_wf c \<and> (\<forall>v n. mload (cl_count c) v = Some n \<longrightarrow> 1 \<le> n)"

lemma limiter_at_update [simp]:
  "a < length (lw_heap w) \<Longrightarrow> limiter_at (heap_update a f w) a = f (limiter_at w a)"
  "a \<noteq> b \<Longrightarrow> limiter_at (heap_update a f w) b = limiter_at w b"
  by (simp_all add: limiter_at_def heap_update_def)

lemma length_heap_update [simp]: "length (lw_heap (heap_update a f w)) = length (lw_heap w)"
  by (simp add: heap_update_def)

lemma CheckLimit_conn:
  assumes "CheckLimit l t raw isTcp noSSUDP now = Some ((b, False), l')"
  shows "AddConnCount (lm_ConnLimiter l) t (trimmed raw) isTcp now = Some (False, lm_ConnLimiter l')"
proof -
  from CheckLimit_admitD [OF assms] obtain cl l1 ulim dev uid l2 where
    a: "AddConnCount (lm_ConnLimiter l) t (TrimPrefix raw ''::ffff:'') isTcp now = Some (False, cl)" and
    u: "check_user (l\<lparr>lm_ConnLimiter := cl\<rparr>) t now = Some (l1, ulim, dev, uid)" and
    d: "if noSSUDP then check_device l1 t (TrimPrefix raw ''::ffff:'') uid dev = (False, l2) else l2 = l1" and
    b: "check_bucket l2 t ulim = (b, l')" by blast
  have "lm_ConnLimiter l1 = cl" using check_user_Some [OF u] by auto
  moreover have "lm_ConnLimiter l2 = lm_ConnLimiter l1" using d check_device_frame by (auto split: if_split_asm)
  ultimately show ?thesis using a check_bucket_frame [OF b] by (simp add: trimmed_def)
qed

text \<open>A TCP session that was admitted by its plain address and released by the same address leaves the
  counts as they were.\<close>

lemma admitted_then_released:
  assumes "CheckLimit l t ip True noSSUDP now = Some ((b, False), l')" and "trimmed ip = ip"
    and "cl_realtime (lm_ConnLimiter l)" and "counting (lm_ConnLimiter l)"
  shows "\<exists>cl. DelConnCount (lm_ConnLimiter l') t ip = Some cl \<and> same_slots (lm_ConnLimiter l) cl"
  using open_close_restores [OF _ assms(3), of t ip now "lm_ConnLimiter l'"] CheckLimit_conn [OF assms(1)] assms(2,4)
  by (auto simp: counting_def same_slots_def)

lemma run_release_restores:
  assumes "CheckLimit (limiter_at w a) t ip True noSSUDP now = Some ((b, False), l')" and "trimmed ip = ip"
    and "cl_realtime (lm_ConnLimiter (limiter_at w a))" and "counting (lm_ConnLimiter (limiter_at w a))"
    and "limiter_at w' a = l'" and "a < length (lw_heap w')"
  shows "\<exists>w''. run_release \<lparr>rf_limiter = a, rf_user = t, rf_ip = ip\<rparr> w' = (Ret (), w'') \<and>
    same_slots (lm_ConnLimiter (limiter_at w a)) (lm_ConnLimiter (limiter_at w'' a))"
  using admitted_then_released [OF assms(1-4)] assms(5,6) by (auto simp: run_release_def Let_def)

end
