(* ===== verification/SingHook.thy ===== *)
theory SingHook
  imports Sessions Counters
begin

text \<open>
  \<open>core/sing/hook.go\<close> and \<open>core/sing/conn_release.go\<close>: the tracker that sing-box calls for every routed
  connection. It asks the limiter, wraps the connection, and remembers it for clearing. A connection
  is the stack of its wrappers around a network connection, named by a number; the shared state of a
  release wrapper (its \<open>sync.Once\<close>) is an entry of a heap. The trace of a map that is ranged over is the
  order of the association list.
\<close>

section \<open>Connections and the server's state\<close>

datatype conn =
    NetConn nat
  | RateLimited conn Bucket
  | ReleaseConn nat conn
  | Counted conn string nat

record releaseConn =
  rc_once :: bool
  rc_release :: "release_fn option"

type_synonym ConnClear = "(int, conn) gomap"

record HookServer =
  hk_EnableConnClear :: bool
  hk_counter :: "(string, TrafficCounter) gomap"
  hk_connClears :: "(string, nat) gomap"
  hk_clears :: "ConnClear list"
  hk_releases :: "releaseConn list"
  hk_closed :: "nat list"
  hk_lim :: limworld

definition NewHookServer :: "bool \<Rightarrow> limworld \<Rightarrow> HookServer" where
  "NewHookServer enableClear w = \<lparr>hk_EnableConnClear = enableClear, hk_counter = [], hk_connClears = [], hk_clears = [],
     hk_releases = [], hk_closed = [], hk_lim = w\<rparr>"

definition AddConn :: "ConnClear \<Rightarrow> conn \<Rightarrow> int \<times> ConnClear" where
  "AddConn c cn = (let key = int (length c) in (key, mstore c key cn))"

definition DelConn :: "ConnClear \<Rightarrow> int \<Rightarrow> ConnClear" where
  "DelConn c key = mdelete c key"

section \<open>Closing\<close>

text \<open>\<open>releaseConn.Close\<close>: the release function runs on the first call only.\<close>

definition fire_release :: "nat \<Rightarrow> HookServer \<Rightarrow> unit outcome \<times> HookServer" where
  "fire_release a h =
    (let r = hk_releases h ! a
     in case rc_release r of
          None \<Rightarrow> (Ret (), h)
        | Some f \<Rightarrow>
            if rc_once r then (Ret (), h)
            else (case run_release f (hk_lim h) of
                    (t, w) \<Rightarrow> (t, h\<lparr>hk_lim := w, hk_releases := (hk_releases h)[a := r\<lparr>rc_once := True\<rparr>]\<rparr>)))"

fun conn_Close :: "conn \<Rightarrow> HookServer \<Rightarrow> unit outcome \<times> HookServer" where
  "conn_Close (NetConn n) h = (Ret (), h\<lparr>hk_closed := hk_closed h @ [n]\<rparr>)"
| "conn_Close (RateLimited c b) h = conn_Close c h"
| "conn_Close (Counted c tag s) h = conn_Close c h"
| "conn_Close (ReleaseConn a c) h =
     (case fire_release a h of (Ret _, h1) \<Rightarrow> conn_Close c h1 | (e, h1) \<Rightarrow> (e, h1))"

fun close_all_conns :: "ConnClear \<Rightarrow> HookServer \<Rightarrow> unit outcome \<times> HookServer" where
  "close_all_conns [] h = (Ret (), h)"
| "close_all_conns ((k, c) # cs) h = (case conn_Close c h of (Panic, h1) \<Rightarrow> (Panic, h1) | (_, h1) \<Rightarrow> close_all_conns cs h1)"

definition ConnClear_ClearConn :: "nat \<Rightarrow> HookServer \<Rightarrow> unit outcome \<times> HookServer" where
  "ConnClear_ClearConn a h = close_all_conns (hk_clears h ! a) h"

definition HookServer_ClearConn :: "string \<Rightarrow> string \<Rightarrow> HookServer \<Rightarrow> unit outcome \<times> HookServer" where
  "HookServer_ClearConn inbound user h =
    (case mload (hk_connClears h) (inbound @ user) of
       None \<Rightarrow> (Ret (), h)
     | Some a \<Rightarrow>
         (case ConnClear_ClearConn a h of
            (Panic, h1) \<Rightarrow> (Panic, h1)
          | (_, h1) \<Rightarrow> (Ret (), h1\<lparr>hk_connClears := mdelete (hk_connClears h1) (inbound @ user)\<rparr>)))"

section \<open>Routing a connection\<close>

record InboundContext =
  mt_Inbound :: string
  mt_User :: string
  mt_Source :: string

text \<open>The first connection of a user on an inbound is remembered; a later one finds the entry.\<close>

definition remember :: "InboundContext \<Rightarrow> conn \<Rightarrow> HookServer \<Rightarrow> HookServer" where
  "remember m conn h =
    (if hk_EnableConnClear h then
       (let key = mt_Inbound m @ mt_User m
        in if mload (hk_connClears h) key \<noteq> None then h
           else h\<lparr>hk_clears := hk_clears h @ [[(0, conn)]], hk_connClears := mstore (hk_connClears h) key (length (hk_clears h))\<rparr>)
     else h)"

definition count_conn :: "InboundContext \<Rightarrow> conn \<Rightarrow> HookServer \<Rightarrow> conn \<times> HookServer" where
  "count_conn m conn h =
    (let c = (case mload (hk_counter h) (mt_Inbound m) of None \<Rightarrow> NewTrafficCounter | Some c \<Rightarrow> c)
     in case GetCounter c (mt_User m) of
          (s, c') \<Rightarrow> (Counted conn (mt_Inbound m) s, h\<lparr>hk_counter := mstore (hk_counter h) (mt_Inbound m) c'\<rparr>))"

definition RoutedConnection :: "int \<Rightarrow> nat \<Rightarrow> InboundContext \<Rightarrow> HookServer \<Rightarrow> conn outcome \<times> HookServer" where
  "RoutedConnection now n m h =
    (case GetLimiterByRuntimeKey (hk_lim h) (mt_Inbound m) of
       Fail e \<Rightarrow> (Ret (NetConn n), h)
     | Panic \<Rightarrow> (Panic, h)
     | Ret a \<Rightarrow>
         (let ip = mt_Source m; taguuid = UserTag (mt_Inbound m) (mt_User m)
          in case CheckLimit (limiter_at (hk_lim h) a) taguuid ip True True now of
               None \<Rightarrow> (Panic, h)
             | Some ((b, r), l) \<Rightarrow>
                 (let h1 = h\<lparr>hk_lim := heap_update a (\<lambda>_. l) (hk_lim h)\<rparr>
                  in if r then (case conn_Close (NetConn n) h1 of (_, h2) \<Rightarrow> (Ret (NetConn n), h2))
                     else
                       (let conn1 = (case b of None \<Rightarrow> NetConn n | Some bk \<Rightarrow> RateLimited (NetConn n) bk);
                            (conn2, h2) =
                              (if cl_realtime (lm_ConnLimiter l)
                               then (ReleaseConn (length (hk_releases h1)) conn1,
                                     h1\<lparr>hk_releases := hk_releases h1 @
                                       [\<lparr>rc_once = False, rc_release = Some \<lparr>rf_limiter = a, rf_user = taguuid, rf_ip = ip\<rparr>\<rparr>]\<rparr>)
                               else (conn1, h1));
                            (conn3, h3) = count_conn m conn2 (remember m conn2 h2)
                        in (Ret conn3, h3)))))"

text \<open>A packet connection is not rate limited, and never released: it counts no TCP connection.\<close>

definition RoutedPacketConnection :: "int \<Rightarrow> nat \<Rightarrow> InboundContext \<Rightarrow> HookServer \<Rightarrow> conn outcome \<times> HookServer" where
  "RoutedPacketConnection now n m h =
    (case GetLimiterByRuntimeKey (hk_lim h) (mt_Inbound m) of
       Fail e \<Rightarrow> (Ret (NetConn n), h)
     | Panic \<Rightarrow> (Panic, h)
     | Ret a \<Rightarrow>
         (case CheckLimit (limiter_at (hk_lim h) a) (UserTag (mt_Inbound m) (mt_User m)) (mt_Source m) False False now of
            None \<Rightarrow> (Panic, h)
          | Some ((b, r), l) \<Rightarrow>
              (let h1 = h\<lparr>hk_lim := heap_update a (\<lambda>_. l) (hk_lim h)\<rparr>
               in if r then (case conn_Close (NetConn n) h1 of (_, h2) \<Rightarrow> (Ret (NetConn n), h2))
                  else (case count_conn m (NetConn n) (remember m (NetConn n) h1) of (c, h2) \<Rightarrow> (Ret c, h2)))))"

section \<open>What tracking a session promises\<close>

lemma remember_frame [simp]:
  "hk_lim (remember m c h) = hk_lim h" "hk_closed (remember m c h) = hk_closed h" "hk_releases (remember m c h) = hk_releases h"
  by (simp_all add: remember_def Let_def)

lemma count_conn_frame:
  "count_conn m c h = (c', h') \<Longrightarrow> (\<exists>s. c' = Counted c (mt_Inbound m) s) \<and> hk_lim h' = hk_lim h \<and> hk_closed h' = hk_closed h \<and>
     hk_releases h' = hk_releases h \<and> hk_clears h' = hk_clears h \<and> hk_connClears h' = hk_connClears h"
  by (auto simp: count_conn_def Let_def split: prod.splits option.splits)

text \<open>The shape of an admitted connection.\<close>

lemma routed_admitted:
  assumes "RoutedConnection now n m h = (Ret conn, h1)" and "GetLimiterByRuntimeKey (hk_lim h) (mt_Inbound m) = Ret a"
    and "hk_closed h1 = hk_closed h"
  obtains b l conn1 s where
    "CheckLimit (limiter_at (hk_lim h) a) (UserTag (mt_Inbound m) (mt_User m)) (mt_Source m) True True now = Some ((b, False), l)"
    "conn1 = (case b of None \<Rightarrow> NetConn n | Some bk \<Rightarrow> RateLimited (NetConn n) bk)"
    "conn = Counted (if cl_realtime (lm_ConnLimiter l) then ReleaseConn (length (hk_releases h)) conn1 else conn1) (mt_Inbound m) s"
    "hk_lim h1 = heap_update a (\<lambda>_. l) (hk_lim h)"
    "hk_releases h1 = hk_releases h @ (if cl_realtime (lm_ConnLimiter l) then [\<lparr>rc_once = False, rc_release = Some
       \<lparr>rf_limiter = a, rf_user = UserTag (mt_Inbound m) (mt_User m), rf_ip = mt_Source m\<rparr>\<rparr>] else [])"
    "mload (hk_connClears h) (mt_Inbound m @ mt_User m) \<noteq> None \<Longrightarrow>
       hk_connClears h1 = hk_connClears h \<and> hk_clears h1 = hk_clears h"
proof -
  let ?t = "UserTag (mt_Inbound m) (mt_User m)"
  from assms(1,2) obtain b r l where c: "CheckLimit (limiter_at (hk_lim h) a) ?t (mt_Source m) True True now = Some ((b, r), l)"
    by (auto simp: RoutedConnection_def Let_def split: option.splits)
  have r: "\<not> r" using assms c by (auto simp: RoutedConnection_def Let_def)
  define conn1 where "conn1 = (case b of None \<Rightarrow> NetConn n | Some bk \<Rightarrow> RateLimited (NetConn n) bk)"
  define conn2 where "conn2 = (if cl_realtime (lm_ConnLimiter l) then ReleaseConn (length (hk_releases h)) conn1 else conn1)"
  define h2 where "h2 = h\<lparr>hk_lim := heap_update a (\<lambda>_. l) (hk_lim h),
    hk_releases := hk_releases h @ (if cl_realtime (lm_ConnLimiter l) then [\<lparr>rc_once = False, rc_release = Some
      \<lparr>rf_limiter = a, rf_user = ?t, rf_ip = mt_Source m\<rparr>\<rparr>] else [])\<rparr>"
  obtain c3 h3 where ct: "count_conn m conn2 (remember m conn2 h2) = (c3, h3)" by force
  have "conn = c3 \<and> h1 = h3"
    using assms(1,2) c r ct
    by (cases "cl_realtime (lm_ConnLimiter l)") (simp_all add: RoutedConnection_def Let_def conn2_def conn1_def h2_def)
  then have e: "conn = c3" "h1 = h3" by auto
  from count_conn_frame [OF ct] obtain s where f: "c3 = Counted conn2 (mt_Inbound m) s" "hk_lim h3 = hk_lim h2"
    "hk_releases h3 = hk_releases h2" "hk_clears h3 = hk_clears (remember m conn2 h2)"
    "hk_connClears h3 = hk_connClears (remember m conn2 h2)" by auto
  have known: "remember m conn2 h2 = h2" if "mload (hk_connClears h) (mt_Inbound m @ mt_User m) \<noteq> None"
    using that by (simp add: remember_def Let_def h2_def)
  have r2: "hk_releases h2 = hk_releases h @ (if cl_realtime (lm_ConnLimiter l) then [\<lparr>rc_once = False, rc_release = Some
      \<lparr>rf_limiter = a, rf_user = ?t, rf_ip = mt_Source m\<rparr>\<rparr>] else [])" "hk_lim h2 = heap_update a (\<lambda>_. l) (hk_lim h)"
    "hk_connClears h2 = hk_connClears h" "hk_clears h2 = hk_clears h"
    by (simp_all add: h2_def)
  show ?thesis
  proof (rule that)
    show "CheckLimit (limiter_at (hk_lim h) a) ?t (mt_Source m) True True now = Some ((b, False), l)" using c r by simp
  qed (use e f known r2 in \<open>auto simp: conn2_def conn1_def\<close>)
qed

lemma base_close:
  "conn_Close (case b of None \<Rightarrow> NetConn n | Some bk \<Rightarrow> RateLimited (NetConn n) bk) h = (Ret (), h\<lparr>hk_closed := hk_closed h @ [n]\<rparr>)"
  by (cases b) simp_all

text \<open>C36: A TCP session on the sing core gives its slots back exactly once. In realtime mode, when a
  session whose source address is printed plainly was admitted, closing the wrapped connection closes
  the network connection and leaves the limiter's counts as they were before the session; closing it
  again changes nothing in the limiter.\<close>

theorem sing_session_roundtrip:
  assumes "RoutedConnection now n m h = (Ret conn, h1)" and "GetLimiterByRuntimeKey (hk_lim h) (mt_Inbound m) = Ret a"
    and "hk_closed h1 = hk_closed h" and "a < length (lw_heap (hk_lim h))"
    and "cl_realtime (lm_ConnLimiter (limiter_at (hk_lim h) a))" and "counting (lm_ConnLimiter (limiter_at (hk_lim h) a))"
    and "trimmed (mt_Source m) = mt_Source m"
  shows "\<exists>h2. conn_Close conn h1 = (Ret (), h2) \<and> hk_closed h2 = hk_closed h @ [n] \<and>
    same_slots (lm_ConnLimiter (limiter_at (hk_lim h) a)) (lm_ConnLimiter (limiter_at (hk_lim h2) a)) \<and>
    (\<exists>h3. conn_Close conn h2 = (Ret (), h3) \<and> hk_lim h3 = hk_lim h2)"
proof -
  let ?t = "UserTag (mt_Inbound m) (mt_User m)" and ?f = "\<lparr>rf_limiter = a, rf_user = UserTag (mt_Inbound m) (mt_User m), rf_ip = mt_Source m\<rparr>"
  let ?i = "length (hk_releases h)"
  from routed_admitted [OF assms(1-3)] obtain b l conn1 s where
    c: "CheckLimit (limiter_at (hk_lim h) a) ?t (mt_Source m) True True now = Some ((b, False), l)" and
    conn1: "conn1 = (case b of None \<Rightarrow> NetConn n | Some bk \<Rightarrow> RateLimited (NetConn n) bk)" and
    conn: "conn = Counted (if cl_realtime (lm_ConnLimiter l) then ReleaseConn ?i conn1 else conn1) (mt_Inbound m) s" and
    lim: "hk_lim h1 = heap_update a (\<lambda>_. l) (hk_lim h)" and
    rel: "hk_releases h1 = hk_releases h @ (if cl_realtime (lm_ConnLimiter l) then [\<lparr>rc_once = False, rc_release = Some ?f\<rparr>] else [])"
    by (rule routed_admitted [OF assms(1-3)], rule that, assumption+)
  have rt: "cl_realtime (lm_ConnLimiter l)"
    using AddConnCount_frame [OF CheckLimit_conn [OF c]] assms(5) by simp
  have at: "limiter_at (hk_lim h1) a = l" "a < length (lw_heap (hk_lim h1))" using assms(4) lim by simp_all
  from run_release_restores [OF c assms(7,5,6) at] obtain w where
    w: "run_release ?f (hk_lim h1) = (Ret (), w)" and
    same: "same_slots (lm_ConnLimiter (limiter_at (hk_lim h) a)) (lm_ConnLimiter (limiter_at w a))" by blast
  define h2 where "h2 = h1\<lparr>hk_lim := w, hk_releases := (hk_releases h1)[?i := \<lparr>rc_once = True, rc_release = Some ?f\<rparr>],
    hk_closed := hk_closed h1 @ [n]\<rparr>"
  have "conn_Close conn h1 = (Ret (), h2)"
    using rt rel w by (simp add: conn conn1 base_close fire_release_def Let_def nth_append h2_def)
  moreover have "conn_Close conn h2 = (Ret (), h2\<lparr>hk_closed := hk_closed h2 @ [n]\<rparr>)"
    using rt rel by (simp add: conn conn1 base_close fire_release_def Let_def h2_def)
  ultimately show ?thesis using same assms(3) by (auto simp: h2_def)
qed

definition hook_limits :: LimitConfig where
  "hook_limits = \<lparr>lc_EnableRealtime = True, lc_SpeedLimit = 0, lc_IPLimit = 1, lc_ConnLimit = 3, lc_EnableDynamicSpeedLimit = False,
     lc_DynamicSpeedLimitConfig = None, lc_MaxReportFailureRollbacks = 0\<rparr>"

definition hook_users :: "UserInfo list" where
  "hook_users = [\<lparr>u_Id = 1, u_Uuid = ''a'', u_SpeedLimit = 8, u_DeviceLimit = 0\<rparr>]"

definition hook_server :: HookServer where
  "hook_server = NewHookServer True (snd (AddLimiter ''sing'' ''n'' hook_limits hook_users [] limiter_Init))"

definition hook_session :: "string \<Rightarrow> InboundContext" where
  "hook_session ip = \<lparr>mt_Inbound = ''sing|n'', mt_User = ''a'', mt_Source = ip\<rparr>"

lemma hook_limiter:
  "GetLimiterByRuntimeKey (hk_lim hook_server) ''sing|n'' = Ret 0" "length (lw_heap (hk_lim hook_server)) = 1"
  "cl_realtime (lm_ConnLimiter (limiter_at (hk_lim hook_server) 0))" "counting (lm_ConnLimiter (limiter_at (hk_lim hook_server) 0))"
  by (simp_all add: hook_server_def NewHookServer_def AddLimiter_def limiter_Init_def GetLimiterByRuntimeKey_def RuntimeKey_def Let_def
      limiter_at_def new_limiter_def hook_users_def NewConnLimiter_def hook_limits_def counting_def cl_wf_def)

lemma hook_routed:
  "case RoutedConnection 0 7 (hook_session ''1.1.1.1'') hook_server of (Ret c, h) \<Rightarrow> hk_closed h = [] | _ \<Rightarrow> False"
  by code_simp

theorem sing_session_roundtrip_witness:
  "\<exists>conn h1 h2. RoutedConnection 0 7 (hook_session ''1.1.1.1'') hook_server = (Ret conn, h1) \<and> conn_Close conn h1 = (Ret (), h2) \<and>
     same_slots (lm_ConnLimiter (limiter_at (hk_lim hook_server) 0)) (lm_ConnLimiter (limiter_at (hk_lim h2) 0))"
proof -
  obtain conn h1 where r: "RoutedConnection 0 7 (hook_session ''1.1.1.1'') hook_server = (Ret conn, h1)" "hk_closed h1 = []"
    using hook_routed by (auto split: prod.splits outcome.splits)
  have "hk_closed hook_server = []" by (simp add: hook_server_def NewHookServer_def)
  moreover have "trimmed ''1.1.1.1'' = ''1.1.1.1''" by (simp add: trimmed_def TrimPrefix_def HasPrefix_def)
  ultimately show ?thesis
    using sing_session_roundtrip [OF r(1), of 0] r hook_limiter by (auto simp: hook_session_def)
qed

text \<open>A session of an IPv4-mapped address never gives its address slot back. The limiter trims the
  prefix when it claims the slot, the release function does not: after the connection is closed, the
  user's TCP count is as before and the slot of the plain address is still claimed, which no sweep
  ends in realtime mode.\<close>

lemma mapped_address_keeps_slot:
  assumes "RoutedConnection now n m h = (Ret conn, h1)" and "GetLimiterByRuntimeKey (hk_lim h) (mt_Inbound m) = Ret a"
    and "hk_closed h1 = hk_closed h" and "a < length (lw_heap (hk_lim h))"
    and "cl_realtime (lm_ConnLimiter (limiter_at (hk_lim h) a))" and "counting (lm_ConnLimiter (limiter_at (hk_lim h) a))"
    and "cl_ipLimit (lm_ConnLimiter (limiter_at (hk_lim h) a)) \<noteq> 0"
    and "trimmed (mt_Source m) \<noteq> mt_Source m"
  shows "\<exists>h2. conn_Close conn h1 = (Ret (), h2) \<and>
    slot_of (lm_ConnLimiter (limiter_at (hk_lim h2) a)) (UserTag (mt_Inbound m) (mt_User m)) (trimmed (mt_Source m)) =
      claimed_slot True (slot_of (lm_ConnLimiter (limiter_at (hk_lim h) a)) (UserTag (mt_Inbound m) (mt_User m)) (trimmed (mt_Source m)))"
proof -
  let ?t = "UserTag (mt_Inbound m) (mt_User m)" and ?f = "\<lparr>rf_limiter = a, rf_user = UserTag (mt_Inbound m) (mt_User m), rf_ip = mt_Source m\<rparr>"
  let ?i = "length (hk_releases h)"
  obtain b l conn1 s where
    c: "CheckLimit (limiter_at (hk_lim h) a) ?t (mt_Source m) True True now = Some ((b, False), l)" and
    conn1: "conn1 = (case b of None \<Rightarrow> NetConn n | Some bk \<Rightarrow> RateLimited (NetConn n) bk)" and
    conn: "conn = Counted (if cl_realtime (lm_ConnLimiter l) then ReleaseConn ?i conn1 else conn1) (mt_Inbound m) s" and
    lim: "hk_lim h1 = heap_update a (\<lambda>_. l) (hk_lim h)" and
    rel: "hk_releases h1 = hk_releases h @ (if cl_realtime (lm_ConnLimiter l) then [\<lparr>rc_once = False, rc_release = Some ?f\<rparr>] else [])"
    by (rule routed_admitted [OF assms(1-3)], rule that, assumption+)
  note add = CheckLimit_conn [OF c]
  have rt: "cl_realtime (lm_ConnLimiter l)" using AddConnCount_frame [OF add] assms(5) by simp
  have "cl_wf (lm_ConnLimiter l)" using AddConnCount_wf [OF _ add] assms(6) by (simp add: counting_def)
  then obtain cl where del: "DelConnCount (lm_ConnLimiter l) ?t (mt_Source m) = Some cl" using DelConnCount_total by blast
  have slot: "slot_of cl ?t (trimmed (mt_Source m)) = claimed_slot True (slot_of (lm_ConnLimiter (limiter_at (hk_lim h) a)) ?t (trimmed (mt_Source m)))"
    using DelConnCount_slot [OF del rt] AddConnCount_slot [OF add assms(5)] assms(7,8) by simp
  have at: "limiter_at (hk_lim h1) a = l" "a < length (lw_heap (hk_lim h1))" using assms(4) lim by simp_all
  have "run_release ?f (hk_lim h1) = (Ret (), heap_update a (\<lambda>_. l\<lparr>lm_ConnLimiter := cl\<rparr>) (hk_lim h1))"
    using del at by (simp add: run_release_def Let_def)
  with slot rt rel at show ?thesis
    by (simp add: conn conn1 base_close fire_release_def Let_def nth_append)
qed

lemma hook_routed_mapped:
  "case RoutedConnection 0 7 (hook_session ''::ffff:1.1.1.1'') hook_server of (Ret c, h) \<Rightarrow> hk_closed h = [] | _ \<Rightarrow> False"
  by code_simp

lemma mapped_address_keeps_slot_example:
  "\<exists>conn h1 h2. RoutedConnection 0 7 (hook_session ''::ffff:1.1.1.1'') hook_server = (Ret conn, h1) \<and> conn_Close conn h1 = (Ret (), h2) \<and>
     slot_of (lm_ConnLimiter (limiter_at (hk_lim h2) 0)) ''sing|n|a'' ''1.1.1.1'' = Some (SlotInt 2)"
proof -
  let ?m = "hook_session ''::ffff:1.1.1.1''"
  obtain conn h1 where r: "RoutedConnection 0 7 ?m hook_server = (Ret conn, h1)" "hk_closed h1 = []"
    using hook_routed_mapped by (auto split: prod.splits outcome.splits)
  have c: "hk_closed h1 = hk_closed hook_server" using r(2) by (simp add: hook_server_def NewHookServer_def)
  have m: "mt_Inbound ?m = ''sing|n''" "mt_User ?m = ''a''" "mt_Source ?m = ''::ffff:1.1.1.1''" by (simp_all add: hook_session_def)
  have t: "trimmed ''::ffff:1.1.1.1'' = ''1.1.1.1''" by (simp add: trimmed_def TrimPrefix_def HasPrefix_def)
  have ip: "cl_ipLimit (lm_ConnLimiter (limiter_at (hk_lim hook_server) 0)) = 1"
    "slot_of (lm_ConnLimiter (limiter_at (hk_lim hook_server) 0)) u i = None" for u i
    by (simp_all add: hook_server_def NewHookServer_def AddLimiter_def limiter_Init_def RuntimeKey_def Let_def limiter_at_def
        new_limiter_def hook_users_def NewConnLimiter_def hook_limits_def slot_of_def)
  have u: "UserTag ''sing|n'' ''a'' = ''sing|n|a''" by (simp add: UserTag_def)
  from mapped_address_keeps_slot [OF r(1) _ c, of 0, unfolded m t u] hook_limiter ip r(1)
  show ?thesis by (auto simp: claimed_slot_def)
qed

text \<open>The network connection at the bottom of the wrappers; closing closes that one, and only that one.\<close>

fun base :: "conn \<Rightarrow> nat" where
  "base (NetConn n) = n"
| "base (RateLimited c b) = base c"
| "base (ReleaseConn a c) = base c"
| "base (Counted c t s) = base c"

lemma fire_release_frame:
  "fire_release a h = (t, h') \<Longrightarrow> hk_closed h' = hk_closed h \<and> hk_clears h' = hk_clears h \<and> hk_connClears h' = hk_connClears h"
  by (auto simp: fire_release_def Let_def split: option.splits if_splits prod.splits)

lemma conn_Close_closed:
  "conn_Close c h = (t, h') \<Longrightarrow> set (hk_closed h') \<subseteq> insert (base c) (set (hk_closed h)) \<and>
     hk_connClears h' = hk_connClears h"
proof (induction c h arbitrary: t h' rule: conn_Close.induct)
  case (4 a c h)
  obtain t1 h1 where f: "fire_release a h = (t1, h1)" by force
  with 4 fire_release_frame [OF f] show ?case by (cases t1) fastforce+
qed auto

lemma close_all_conns_closed:
  "close_all_conns cs h = (t, h') \<Longrightarrow> set (hk_closed h') \<subseteq> (base \<circ> snd) ` set cs \<union> set (hk_closed h)"
proof (induction cs h arbitrary: t h' rule: close_all_conns.induct)
  case (2 k c cs h)
  obtain t1 h1 where f: "conn_Close c h = (t1, h1)" by force
  from conn_Close_closed [OF f] 2 f show ?case by (cases t1) fastforce+
qed simp

text \<open>Only the first connection of a user can be cleared. Once a user has an entry on an inbound, a
  further connection that is admitted is not added to it, and clearing the user's connections does
  not close it, unless its network connection is already among those remembered.\<close>

lemma later_connections_survive_clear:
  assumes "RoutedConnection now n m h = (Ret conn, h1)" and "GetLimiterByRuntimeKey (hk_lim h) (mt_Inbound m) = Ret a"
    and "hk_closed h1 = hk_closed h" and "n \<notin> set (hk_closed h)"
    and "mload (hk_connClears h) (mt_Inbound m @ mt_User m) = Some k" and "\<forall>c \<in> snd ` set (hk_clears h ! k). base c \<noteq> n"
    and "HookServer_ClearConn (mt_Inbound m) (mt_User m) h1 = (t, h2)"
  shows "n \<notin> set (hk_closed h2)"
proof -
  have "hk_connClears h1 = hk_connClears h \<and> hk_clears h1 = hk_clears h"
    by (rule routed_admitted [OF assms(1-3)]) (simp add: assms(5))
  moreover obtain t1 h3 where c: "close_all_conns (hk_clears h1 ! k) h1 = (t1, h3)" by force
  ultimately have "hk_closed h2 = hk_closed h3"
    using assms(5,7) by (cases t1) (auto simp: HookServer_ClearConn_def ConnClear_ClearConn_def)
  with close_all_conns_closed [OF c] \<open>hk_connClears h1 = _ \<and> _\<close> assms(3,4,6) show ?thesis by auto
qed

lemma hook_second:
  "case RoutedConnection 0 7 (hook_session ''1.1.1.1'') hook_server of (Ret c, h) \<Rightarrow>
     (case RoutedConnection 0 8 (hook_session ''1.1.1.1'') h of
        (Ret c', h') \<Rightarrow> hk_closed h = [] \<and> hk_closed h' = [] \<and> GetLimiterByRuntimeKey (hk_lim h) ''sing|n'' = Ret 0 \<and>
          mload (hk_connClears h) ''sing|na'' = Some 0 \<and> map (base \<circ> snd) (hk_clears h ! 0) = [7] \<and>
          hk_closed (snd (HookServer_ClearConn ''sing|n'' ''a'' h')) = [7]
      | _ \<Rightarrow> False)
   | _ \<Rightarrow> False"
  by code_simp

lemma later_connections_survive_clear_example:
  "\<exists>h c h1 h2 t. RoutedConnection 0 8 (hook_session ''1.1.1.1'') h = (Ret c, h1) \<and>
     HookServer_ClearConn ''sing|n'' ''a'' h1 = (t, h2) \<and> hk_closed h2 = [7] \<and> 8 \<notin> set (hk_closed h2)"
proof -
  obtain c0 h where r0: "RoutedConnection 0 7 (hook_session ''1.1.1.1'') hook_server = (Ret c0, h)"
    using hook_second by (auto split: prod.splits outcome.splits)
  with hook_second obtain c h1 where r: "RoutedConnection 0 8 (hook_session ''1.1.1.1'') h = (Ret c, h1)"
    by (auto split: prod.splits outcome.splits)
  from hook_second r0 r have f: "hk_closed h = []" "hk_closed h1 = []" "GetLimiterByRuntimeKey (hk_lim h) ''sing|n'' = Ret 0"
    "mload (hk_connClears h) ''sing|na'' = Some 0" "map (base \<circ> snd) (hk_clears h ! 0) = [7]"
    "hk_closed (snd (HookServer_ClearConn ''sing|n'' ''a'' h1)) = [7]" by simp_all
  have b: "\<forall>c \<in> snd ` set (hk_clears h ! 0). base c \<noteq> 8"
    using f(5) by auto
  obtain t h2 where cl: "HookServer_ClearConn ''sing|n'' ''a'' h1 = (t, h2)" by force
  have m: "mt_Inbound (hook_session ''1.1.1.1'') = ''sing|n''" "mt_User (hook_session ''1.1.1.1'') = ''a''" by (simp_all add: hook_session_def)
  have "8 \<notin> set (hk_closed h2)"
    using later_connections_survive_clear [OF r, of 0 0 t h2] f b cl unfolding m by simp
  moreover have "hk_closed h2 = [7]" using f(6) cl by simp
  ultimately show ?thesis using r cl by blast
qed

end
