(* ===== verification/Sniffing.thy ===== *)
theory Sniffing
  imports Outcomes
begin

text \<open>
  \<open>sniffer.go\<close> and \<open>fakednssniffer.go\<close> of \<open>core/xray/app/dispatcher\<close>, and from \<open>default.go\<close> the cached
  reader, the function \<open>sniffer\<close> and \<open>shouldOverride\<close>: guessing the protocol and the domain of a
  connection from its first bytes. The protocol sniffers of the embedded server, the fake DNS engine
  and regular expressions are parameters.
\<close>

section \<open>Results\<close>

text \<open>The first constructor is a result of the embedded server's sniffers: protocol and domain.\<close>

datatype SniffResult =
    Sniffed string string
  | fakeDNSSniffResult string
  | DNSThenOthersSniffResult string string
  | compositeResult SniffResult SniffResult

fun Protocol :: "SniffResult \<Rightarrow> string" where
  "Protocol (Sniffed p d) = p"
| "Protocol (fakeDNSSniffResult d) = ''fakedns''"
| "Protocol (DNSThenOthersSniffResult d p) = ''fakedns+others''"
| "Protocol (compositeResult d p) = Protocol p"

fun Domain :: "SniffResult \<Rightarrow> string" where
  "Domain (Sniffed p d) = d"
| "Domain (fakeDNSSniffResult d) = d"
| "Domain (DNSThenOthersSniffResult d p) = d"
| "Domain (compositeResult d p) = Domain d"

text \<open>The two optional interfaces of a result.\<close>

fun ProtocolForDomainResult :: "SniffResult \<Rightarrow> string option" where
  "ProtocolForDomainResult (compositeResult d p) = Some (Protocol d)"
| "ProtocolForDomainResult _ = None"

fun IsProtoSubsetOf :: "SniffResult \<Rightarrow> string \<Rightarrow> bool" where
  "IsProtoSubsetOf (DNSThenOthersSniffResult d p) name = HasPrefix name p"
| "IsProtoSubsetOf _ name = False"

definition CompositeResult :: "SniffResult \<Rightarrow> SniffResult \<Rightarrow> SniffResult" where
  "CompositeResult domainResult protocolResult = compositeResult domainResult protocolResult"

text \<open>What a sniffer returns: a result, neither a result nor an error, or one of the errors.\<close>

datatype sniff_reply = Found SniffResult | Absent | ErrNoClue | ErrNeedMore | ErrOther string

datatype network = Network_Unknown | Network_TCP | Network_UDP | Network_UNIX

datatype address = IPAddr string | DomainAddr string

record Destination =
  dn_Network :: network
  dn_Address :: address
  dn_Port :: nat

record protocolSniffer =
  ps_run :: "string option \<Rightarrow> sniff_reply outcome"
  ps_metadata :: bool
  ps_network :: network

section \<open>Fake DNS\<close>

text \<open>An engine may lack \<open>IsIPInIPPool\<close>.\<close>

record FakeDNSEngine =
  fd_GetDomain :: "address \<Rightarrow> string"
  fd_IsIPInIPPool :: "(address \<Rightarrow> bool) option"

text \<open>The reply, and the value it puts into the context's \<open>addressInRange\<close>.\<close>

definition fakeDNS_sniff :: "FakeDNSEngine \<Rightarrow> Destination \<Rightarrow> sniff_reply \<times> bool option" where
  "fakeDNS_sniff F target =
    (let d = fd_GetDomain F (dn_Address target) in
     if (dn_Network target = Network_TCP \<or> dn_Network target = Network_UDP) \<and> d \<noteq> '''' then (Found (fakeDNSSniffResult d), None)
     else (ErrNoClue, map_option (\<lambda>f. f (dn_Address target)) (fd_IsIPInIPPool F)))"

definition newFakeDNSSniffer :: "FakeDNSEngine option \<Rightarrow> Destination \<Rightarrow> protocolSniffer option" where
  "newFakeDNSSniffer F target =
    map_option (\<lambda>e. \<lparr>ps_run = (\<lambda>b. Ret (fst (fakeDNS_sniff e target))), ps_metadata = True, ps_network = Network_Unknown\<rparr>) F"

fun first_other :: "protocolSniffer list \<Rightarrow> string option \<Rightarrow> sniff_reply outcome" where
  "first_other [] b = Ret ErrNoClue"
| "first_other (v # vs) b =
     (if ps_metadata v \<or> b \<noteq> None then
        bindR (ps_run v b) (\<lambda>r. case r of
            Found x \<Rightarrow> Ret (Found (DNSThenOthersSniffResult (Domain x) (Protocol x)))
          | Absent \<Rightarrow> Panic
          | _ \<Rightarrow> first_other vs b)
      else first_other vs b)"

definition newFakeDNSThenOthers :: "FakeDNSEngine \<Rightarrow> Destination \<Rightarrow> protocolSniffer list \<Rightarrow> protocolSniffer" where
  "newFakeDNSThenOthers F target others =
    \<lparr>ps_run = (\<lambda>b. case fakeDNS_sniff F target of
         (Found r, _) \<Rightarrow> Ret (Found r)
       | (_, Some True) \<Rightarrow> first_other others b
       | _ \<Rightarrow> Ret ErrNoClue),
     ps_metadata = False, ps_network = Network_Unknown\<rparr>"

section \<open>The list of sniffers\<close>

record sniff_lib =
  sn_HTTP :: "string \<Rightarrow> sniff_reply"
  sn_TLS :: "string \<Rightarrow> sniff_reply"
  sn_Bittorrent :: "string \<Rightarrow> sniff_reply"
  sn_QUIC :: "string \<Rightarrow> sniff_reply"
  sn_UTP :: "string \<Rightarrow> sniff_reply"

text \<open>A nil payload is an empty one for these.\<close>

definition on_payload :: "(string \<Rightarrow> sniff_reply) \<Rightarrow> network \<Rightarrow> protocolSniffer" where
  "on_payload f n = \<lparr>ps_run = (\<lambda>b. Ret (f (case b of None \<Rightarrow> '''' | Some p \<Rightarrow> p))), ps_metadata = False, ps_network = n\<rparr>"

definition base_sniffers :: "sniff_lib \<Rightarrow> protocolSniffer list" where
  "base_sniffers V = [on_payload (sn_HTTP V) Network_TCP, on_payload (sn_TLS V) Network_TCP, on_payload (sn_Bittorrent V) Network_TCP,
     on_payload (sn_QUIC V) Network_UDP, on_payload (sn_UTP V) Network_UDP]"

definition NewSniffer :: "sniff_lib \<Rightarrow> FakeDNSEngine option \<Rightarrow> Destination \<Rightarrow> protocolSniffer list" where
  "NewSniffer V F target =
    (case (F, newFakeDNSSniffer F target) of
       (Some e, Some s) \<Rightarrow> newFakeDNSThenOthers e target (base_sniffers V) # base_sniffers V @ [s]
     | _ \<Rightarrow> base_sniffers V)"

text \<open>One pass: a sniffer without a clue stays for the next pass, any other failing one is dropped.\<close>

fun sniff_pass :: "network \<Rightarrow> string \<Rightarrow> protocolSniffer list \<Rightarrow> protocolSniffer list
    \<Rightarrow> (SniffResult option \<times> protocolSniffer list) outcome" where
  "sniff_pass net payload [] pending = Ret (None, pending)"
| "sniff_pass net payload (si # s) pending =
     (if ps_metadata si \<or> ps_network si \<noteq> net then sniff_pass net payload s pending
      else bindR (ps_run si (Some payload)) (\<lambda>r. case r of
          Found x \<Rightarrow> Ret (Some x, pending)
        | ErrNoClue \<Rightarrow> sniff_pass net payload s (pending @ [si])
        | _ \<Rightarrow> sniff_pass net payload s pending))"

fun metadata_pass :: "protocolSniffer list \<Rightarrow> protocolSniffer list \<Rightarrow> (SniffResult option \<times> protocolSniffer list) outcome" where
  "metadata_pass [] pending = Ret (None, pending)"
| "metadata_pass (si # s) pending =
     (if \<not> ps_metadata si then metadata_pass s (pending @ [si])
      else bindR (ps_run si None) (\<lambda>r. case r of
          Found x \<Rightarrow> Ret (Some x, pending)
        | ErrNoClue \<Rightarrow> metadata_pass s (pending @ [si])
        | _ \<Rightarrow> metadata_pass s pending))"

definition after_pass :: "protocolSniffer list \<Rightarrow> (SniffResult option \<times> protocolSniffer list) outcome \<Rightarrow> (sniff_reply \<times> protocolSniffer list) outcome" where
  "after_pass s p = bindR p (\<lambda>(r, pending). Ret (case r of
       Some x \<Rightarrow> (Found x, s)
     | None \<Rightarrow> if pending \<noteq> [] then (ErrNoClue, pending) else (ErrOther ''unknown content'', s)))"

definition Sniffer_Sniff :: "protocolSniffer list \<Rightarrow> string \<Rightarrow> network \<Rightarrow> (sniff_reply \<times> protocolSniffer list) outcome" where
  "Sniffer_Sniff s payload net = after_pass s (sniff_pass net payload s [])"

definition SniffMetadata :: "protocolSniffer list \<Rightarrow> (sniff_reply \<times> protocolSniffer list) outcome" where
  "SniffMetadata s = after_pass s (metadata_pass s [])"

section \<open>The cached reader\<close>

text \<open>A read of the pipe: what it returns, and how long it took. Buffers are strings.\<close>

record read_step =
  rd_done :: bool
  rd_elapsed :: int
  rd_data :: "string option"

record cachedReader =
  cr_cache :: string
  cr_is_pipe :: bool
  cr_interrupted :: bool

text \<open>\<open>Cache\<close> appends what was read and copies the cache into a buffer of the given capacity.\<close>

definition cachedReader_Cache :: "nat \<Rightarrow> string option \<Rightarrow> cachedReader \<Rightarrow> (string \<times> cachedReader) option" where
  "cachedReader_Cache cap data r =
    (case data of None \<Rightarrow> None
     | Some mb \<Rightarrow> (let c = cr_cache r @ mb in Some (take cap c, r\<lparr>cr_cache := c\<rparr>)))"

definition readInternal :: "cachedReader \<Rightarrow> string option \<times> cachedReader" where
  "readInternal r = (if cr_cache r \<noteq> '''' then (Some (cr_cache r), r\<lparr>cr_cache := ''''\<rparr>) else (None, r))"

text \<open>Reading gives the cache first, and the pipe afterwards; with and without a timeout alike.\<close>

definition ReadMultiBuffer :: "string option \<Rightarrow> cachedReader \<Rightarrow> string option \<times> cachedReader" where
  "ReadMultiBuffer pipe r = (case readInternal r of (Some mb, r') \<Rightarrow> (Some mb, r') | (None, r') \<Rightarrow> (pipe, r'))"

definition cachedReader_Interrupt :: "cachedReader \<Rightarrow> cachedReader" where
  "cachedReader_Interrupt r = r\<lparr>cr_cache := '''', cr_interrupted := True\<rparr>"

section \<open>Sniffing a connection\<close>

text \<open>One round of the loop of \<open>sniffer\<close>, over a buffer of the capacity the server allocates: it returns, or
  goes on with a deadline, the attempts, the reader and the sniffers.\<close>

definition sniff_round :: "nat \<Rightarrow> network \<Rightarrow> read_step \<Rightarrow> int \<Rightarrow> nat \<Rightarrow> cachedReader \<Rightarrow> protocolSniffer list
    \<Rightarrow> (sniff_reply \<times> cachedReader) outcome + (int \<times> nat \<times> cachedReader \<times> protocolSniffer list)" where
  "sniff_round cap net st deadline attempts r s =
     (if rd_done st then Inl (Ret (ErrOther ''context done'', r))
      else case cachedReader_Cache cap (rd_data st) r of
        None \<Rightarrow> Inl (Ret (ErrOther ''read'', r))
      | Some (payload, r1) \<Rightarrow>
          (let deadline1 = deadline - rd_elapsed st;
               go = (\<lambda>attempts1 s1. if attempts1 \<ge> 2 \<or> deadline1 \<le> 0 then Inl (Ret (ErrOther ''timeout on sniffing'', r1))
                       else Inr (deadline1, attempts1, r1, s1))
           in if payload = '''' then go (attempts + 1) s
              else case Sniffer_Sniff s payload net of
                Panic \<Rightarrow> Inl Panic
              | Fail e \<Rightarrow> Inl (Fail e)
              | Ret (ErrNoClue, s1) \<Rightarrow> go (attempts + 1) s1
              | Ret (ErrNeedMore, s1) \<Rightarrow> go attempts s1
              | Ret (reply, s1) \<Rightarrow> Inl (Ret (reply, r1))))"

text \<open>\<open>None\<close>: the given reads were used up and it waits for the next one.\<close>

fun content_loop :: "nat \<Rightarrow> network \<Rightarrow> read_step list \<Rightarrow> int \<Rightarrow> nat \<Rightarrow> cachedReader \<Rightarrow> protocolSniffer list
    \<Rightarrow> (sniff_reply \<times> cachedReader) outcome option" where
  "content_loop cap net [] deadline attempts r s = None"
| "content_loop cap net (st # steps) deadline attempts r s =
     (case sniff_round cap net st deadline attempts r s of
        Inl out \<Rightarrow> Some out
      | Inr (deadline1, attempts1, r1, s1) \<Rightarrow> content_loop cap net steps deadline1 attempts1 r1 s1)"

definition sniffer :: "sniff_lib \<Rightarrow> nat \<Rightarrow> FakeDNSEngine option \<Rightarrow> Destination \<Rightarrow> bool \<Rightarrow> network \<Rightarrow> read_step list \<Rightarrow> cachedReader
    \<Rightarrow> (sniff_reply \<times> cachedReader) outcome option" where
  "sniffer V cap F target metadataOnly net steps r =
    (case SniffMetadata (NewSniffer V F target) of
       Panic \<Rightarrow> Some Panic
     | Fail e \<Rightarrow> Some (Fail e)
     | Ret (meta, s) \<Rightarrow>
         if metadataOnly then Some (Ret (meta, r))
         else map_option (\<lambda>out. bindR out (\<lambda>(content, r1). Ret
           (case (meta, content) of
              (Found m, Found c) \<Rightarrow> Found (CompositeResult m c)
            | (Found m, _) \<Rightarrow> Found m
            | _ \<Rightarrow> content, r1))) (content_loop cap net steps (200 * 1000000) 0 r s))"

section \<open>Whether a result replaces the destination\<close>

record SniffingRequest =
  sq_Enabled :: bool
  sq_MetadataOnly :: bool
  sq_RouteOnly :: bool
  sq_ExcludeForDomain :: "string list"
  sq_OverrideDestinationForProtocol :: "string list"

fun excluded :: "(string \<Rightarrow> (string \<Rightarrow> bool) option) \<Rightarrow> string \<Rightarrow> string list \<Rightarrow> bool" where
  "excluded rx domain [] = False"
| "excluded rx domain (d # ds) =
     (if HasPrefix d ''regexp:'' then
        (case rx (drop 7 d) of
           None \<Rightarrow> excluded rx domain ds
         | Some re \<Rightarrow> if re domain then True else excluded rx domain ds)
      else if ToLower domain = d then True else excluded rx domain ds)"

definition is_ip :: "address \<Rightarrow> bool" where
  "is_ip a = (case a of IPAddr _ \<Rightarrow> True | DomainAddr _ \<Rightarrow> False)"

definition in_pool :: "FakeDNSEngine option \<Rightarrow> address \<Rightarrow> bool" where
  "in_pool F a = (case F of None \<Rightarrow> False | Some e \<Rightarrow> (case fd_IsIPInIPPool e of None \<Rightarrow> False | Some f \<Rightarrow> is_ip a \<and> f a))"

fun overrides :: "FakeDNSEngine option \<Rightarrow> SniffResult \<Rightarrow> string \<Rightarrow> address \<Rightarrow> string list \<Rightarrow> bool" where
  "overrides F result proto a [] = False"
| "overrides F result proto a (p # ps) =
     (if HasPrefix proto p \<or> HasPrefix p proto then True
      else if proto \<noteq> ''bittorrent'' \<and> p = ''fakedns'' \<and> in_pool F a then True
      else if IsProtoSubsetOf result p then True
      else overrides F result proto a ps)"

definition domain_protocol :: "SniffResult \<Rightarrow> string" where
  "domain_protocol result = (case ProtocolForDomainResult result of Some p \<Rightarrow> p | None \<Rightarrow> Protocol result)"

definition shouldOverride :: "(string \<Rightarrow> (string \<Rightarrow> bool) option) \<Rightarrow> FakeDNSEngine option \<Rightarrow> SniffResult \<Rightarrow> SniffingRequest \<Rightarrow> Destination \<Rightarrow> bool" where
  "shouldOverride rx F result request destination =
    (let domain = Domain result in
     if domain = '''' then False
     else if excluded rx domain (sq_ExcludeForDomain request) then False
     else overrides F result (domain_protocol result) (dn_Address destination) (sq_OverrideDestinationForProtocol request))"

section \<open>What sniffing promises\<close>

lemma sniff_pass_spec:
  "sniff_pass net payload s pending = Ret (r, rest) \<Longrightarrow>
     (\<exists>kept. rest = pending @ kept \<and> set kept \<subseteq> {si \<in> set s. ps_run si (Some payload) = Ret ErrNoClue}) \<and>
     (\<forall>x. r = Some x \<longrightarrow> (\<exists>si \<in> set s. \<not> ps_metadata si \<and> ps_network si = net \<and> ps_run si (Some payload) = Ret (Found x)))"
proof (induction s arbitrary: pending)
  case (Cons si s)
  let ?kept = "\<lambda>s. {si \<in> set s. ps_run si (Some payload) = Ret ErrNoClue}"
  have skip: ?case if "sniff_pass net payload s pending = Ret (r, rest)"
    using Cons.IH [OF that] by auto
  show ?case
  proof (cases "ps_metadata si \<or> ps_network si \<noteq> net")
    case True
    with Cons.prems have "sniff_pass net payload s pending = Ret (r, rest)" by simp
    then show ?thesis by (rule skip)
  next
    case False
    with Cons.prems obtain r1 where run: "ps_run si (Some payload) = Ret r1" by (auto simp: bindR_Ret)
    show ?thesis
    proof (cases r1)
      case (Found x)
      with Cons.prems False run show ?thesis by auto
    next
      case ErrNoClue
      with Cons.prems False run have "sniff_pass net payload s (pending @ [si]) = Ret (r, rest)" by simp
      from Cons.IH [OF this] obtain kept where k: "rest = pending @ si # kept" "set kept \<subseteq> ?kept s"
        and f: "\<forall>x. r = Some x \<longrightarrow> (\<exists>si \<in> set s. \<not> ps_metadata si \<and> ps_network si = net \<and> ps_run si (Some payload) = Ret (Found x))"
        by auto
      have "set (si # kept) \<subseteq> ?kept (si # s)" using k run ErrNoClue by auto
      with k(1) f show ?thesis by (intro conjI exI [of _ "si # kept"]) auto
    qed (rule skip, use Cons.prems False run in simp)+
  qed
qed simp

text \<open>A pass never asks for more data, and keeps only sniffers that had no clue.\<close>

lemma Sniff_spec:
  assumes "Sniffer_Sniff s payload net = Ret (reply, s1)"
  shows "reply \<noteq> ErrNeedMore" and "reply \<noteq> Absent" and
    "reply = ErrNoClue \<Longrightarrow> set s1 \<subseteq> {si \<in> set s. ps_run si (Some payload) = Ret ErrNoClue}" and
    "reply = Found x \<Longrightarrow> \<exists>si \<in> set s. \<not> ps_metadata si \<and> ps_network si = net \<and> ps_run si (Some payload) = Ret (Found x)"
    and "set s1 \<subseteq> set s"
proof -
  from assms obtain r rest where p: "sniff_pass net payload s [] = Ret (r, rest)"
    and r: "(reply, s1) = (case r of Some x \<Rightarrow> (Found x, s)
       | None \<Rightarrow> if rest \<noteq> [] then (ErrNoClue, rest) else (ErrOther ''unknown content'', s))"
    by (auto simp: Sniffer_Sniff_def after_pass_def bindR_Ret)
  note sp = sniff_pass_spec [OF p, simplified]
  show "reply \<noteq> ErrNeedMore" "reply \<noteq> Absent" using r by (auto split: option.splits if_splits)
  show "reply = ErrNoClue \<Longrightarrow> set s1 \<subseteq> {si \<in> set s. ps_run si (Some payload) = Ret ErrNoClue}"
    using r sp by (auto split: option.splits if_splits)
  show "reply = Found x \<Longrightarrow> \<exists>si \<in> set s. \<not> ps_metadata si \<and> ps_network si = net \<and> ps_run si (Some payload) = Ret (Found x)"
    using r sp by (auto split: option.splits if_splits)
  show "set s1 \<subseteq> set s" using r sp by (auto split: option.splits if_splits)
qed

text \<open>A round that goes on has counted an attempt and kept what it read.\<close>

lemma sniff_round_goes_on:
  assumes "sniff_round cap net st d n r s = Inr (d1, n1, r1, s1)"
  shows "n1 = n + 1 \<and> n1 < 2 \<and> set s1 \<subseteq> set s \<and> (\<exists>mb. rd_data st = Some mb \<and> cr_cache r1 = cr_cache r @ mb)"
proof -
  obtain payload where c: "\<not> rd_done st" "cachedReader_Cache cap (rd_data st) r = Some (payload, r1)"
    using assms by (auto simp: sniff_round_def Let_def split: if_splits option.splits outcome.splits prod.splits sniff_reply.splits)
  have r1: "\<exists>mb. rd_data st = Some mb \<and> cr_cache r1 = cr_cache r @ mb"
    using c(2) by (auto simp: cachedReader_Cache_def Let_def split: option.splits)
  show ?thesis
  proof (cases "payload = ''''")
    case True
    with assms c r1 show ?thesis by (auto simp: sniff_round_def Let_def split: if_splits)
  next
    case False
    obtain reply s2 where sn: "Sniffer_Sniff s payload net = Ret (reply, s2)"
      using assms c False by (cases "Sniffer_Sniff s payload net") (auto simp: sniff_round_def Let_def)
    note spec = Sniff_spec(1,5) [OF sn]
    from assms c False sn spec(1) have "reply = ErrNoClue \<and> n1 = n + 1 \<and> n1 < 2 \<and> s1 = s2"
      by (cases reply) (auto simp: sniff_round_def Let_def split: if_splits)
    with spec(2) r1 show ?thesis by simp
  qed
qed

lemma content_loop_append:
  "content_loop cap net steps d n r s = Some out \<Longrightarrow> content_loop cap net (steps @ later) d n r s = Some out"
  by (induction steps arbitrary: d n r s) (auto split: sum.splits)

lemma content_loop_returns:
  "steps \<noteq> [] \<Longrightarrow> 2 \<le> n + length steps \<Longrightarrow> \<exists>out. content_loop cap net steps d n r s = Some out"
proof (induction steps arbitrary: d n r s)
  case (Cons st steps)
  show ?case
  proof (cases "sniff_round cap net st d n r s")
    case (Inr q)
    obtain d1 n1 r1 s1 where q: "q = (d1, n1, r1, s1)" by (metis prod_cases4)
    from sniff_round_goes_on [OF Inr [unfolded q]] Cons.prems have "steps \<noteq> []" "2 \<le> n1 + length steps" by auto
    from Cons.IH [OF this] Inr q show ?thesis by simp
  qed simp
qed simp

text \<open>C39: Sniffing ends after two reads. Whatever the sniffers answer and however little time the reads
  take, the loop returns after at most two of them: a sniffer that matched but needs more data does
  not, as the code intends, keep the loop reading until its deadline, because a pass reports such an
  answer as no clue or as unknown content.\<close>

theorem sniffing_ends_after_two_reads:
  assumes "2 \<le> length steps"
  shows "\<exists>out. sniffer V cap F target metadataOnly net steps r = Some out \<and>
    sniffer V cap F target metadataOnly net (take 2 steps) r = Some out"
proof -
  have "\<exists>out. content_loop cap net (take 2 steps) d 0 r s = Some out \<and> content_loop cap net steps d 0 r s = Some out" for d s
  proof -
    have "take 2 steps \<noteq> []" using assms by (cases steps) auto
    then obtain out where "content_loop cap net (take 2 steps) d 0 r s = Some out"
      using content_loop_returns [of "take 2 steps" 0 cap net d r s] assms by auto
    with content_loop_append [OF this, of "drop 2 steps"] show ?thesis by simp
  qed
  then show ?thesis by (auto simp: sniffer_def split: outcome.split) (metis option.simps(9))+
qed

definition hello_lib :: "sniff_lib" where
  "hello_lib = \<lparr>sn_HTTP = (\<lambda>b. ErrNoClue),
     sn_TLS = (\<lambda>b. if length b < 4 then ErrNeedMore else Found (Sniffed ''tls'' ''a.b'')),
     sn_Bittorrent = (\<lambda>b. ErrNoClue), sn_QUIC = (\<lambda>b. ErrNoClue), sn_UTP = (\<lambda>b. ErrNoClue)\<rparr>"

definition hello_read :: "string \<Rightarrow> read_step" where
  "hello_read b = \<lparr>rd_done = False, rd_elapsed = 0, rd_data = Some b\<rparr>"

definition hello_target :: Destination where
  "hello_target = \<lparr>dn_Network = Network_TCP, dn_Address = IPAddr ''1.2.3.4'', dn_Port = 443\<rparr>"

definition hello_reader :: cachedReader where
  "hello_reader = \<lparr>cr_cache = '''', cr_is_pipe = True, cr_interrupted = False\<rparr>"

lemmas sniff_defs = sniffer_def sniff_round_def SniffMetadata_def after_pass_def Sniffer_Sniff_def cachedReader_Cache_def hello_lib_def hello_read_def
  hello_target_def hello_reader_def NewSniffer_def newFakeDNSSniffer_def base_sniffers_def on_payload_def Let_def

lemma hello_split_run:
  "sniffer hello_lib 32768 None hello_target False Network_TCP [hello_read ''ab'', hello_read ''cd''] hello_reader =
     Some (Ret (ErrOther ''timeout on sniffing'', hello_reader\<lparr>cr_cache := ''abcd''\<rparr>))"
  by (simp add: sniff_defs)

theorem sniffing_ends_after_two_reads_witness:
  "sniffer hello_lib 32768 None hello_target False Network_TCP [hello_read ''ab'', hello_read ''cd'', hello_read ''ef''] hello_reader =
     Some (Ret (ErrOther ''timeout on sniffing'', hello_reader\<lparr>cr_cache := ''abcd''\<rparr>))"
  using sniffing_ends_after_two_reads [of "[hello_read ''ab'', hello_read ''cd'', hello_read ''ef'']" hello_lib 32768 None hello_target
      False Network_TCP hello_reader] hello_split_run by (simp add: numeral_2_eq_2)

text \<open>A round that returns leaves the cache, or has appended what it read.\<close>

lemma sniff_round_stops:
  assumes "sniff_round cap net st d n r s = Inl (Ret (reply, r1))"
  shows "r1 = r \<or> (\<exists>mb. rd_data st = Some mb \<and> r1 = r\<lparr>cr_cache := cr_cache r @ mb\<rparr>)"
proof (cases "rd_done st \<or> rd_data st = None")
  case True
  with assms show ?thesis by (cases "rd_done st") (simp_all add: sniff_round_def cachedReader_Cache_def)
next
  case False
  then obtain mb where mb: "\<not> rd_done st" "rd_data st = Some mb" by auto
  let ?r = "r\<lparr>cr_cache := cr_cache r @ mb\<rparr>"
  have "r1 = ?r"
  proof (cases "take cap (cr_cache r @ mb) = ''''")
    case True
    with assms mb show ?thesis by (auto simp: sniff_round_def cachedReader_Cache_def Let_def split: if_split_asm)
  next
    case False
    with assms mb obtain reply1 s1 where "Sniffer_Sniff s (take cap (cr_cache r @ mb)) net = Ret (reply1, s1)"
      by (cases "Sniffer_Sniff s (take cap (cr_cache r @ mb)) net") (auto simp: sniff_round_def cachedReader_Cache_def Let_def)
    with assms mb False show ?thesis
      by (cases reply1) (auto simp: sniff_round_def cachedReader_Cache_def Let_def split: if_split_asm)
  qed
  with mb show ?thesis by blast
qed

definition bytes_read :: "read_step list \<Rightarrow> string" where
  "bytes_read steps = concat (map (\<lambda>st. case rd_data st of Some mb \<Rightarrow> mb | None \<Rightarrow> '''') steps)"

lemma bytes_read_simps [simp]: "bytes_read [] = ''''" "rd_data st = Some mb \<Longrightarrow> bytes_read (st # steps) = mb @ bytes_read steps"
  by (simp_all add: bytes_read_def)

lemma content_loop_bytes:
  "content_loop cap net steps d n r s = Some (Ret (reply, r')) \<Longrightarrow>
     \<exists>k \<le> length steps. cr_cache r' = cr_cache r @ bytes_read (take k steps)"
proof (induction steps arbitrary: d n r s)
  case (Cons st steps)
  show ?case
  proof (cases "sniff_round cap net st d n r s")
    case (Inl out)
    with Cons.prems have "sniff_round cap net st d n r s = Inl (Ret (reply, r'))" by simp
    from sniff_round_stops [OF this] show ?thesis
    proof
      assume "r' = r"
      then show ?thesis by (intro exI [of _ 0]) simp
    qed (auto intro!: exI [of _ 1])
  next
    case (Inr q)
    obtain d1 n1 r1 s1 where q: "q = (d1, n1, r1, s1)" by (metis prod_cases4)
    from sniff_round_goes_on [OF Inr [unfolded q]] obtain mb where mb: "rd_data st = Some mb" "cr_cache r1 = cr_cache r @ mb" by blast
    from Cons.prems Inr q have "content_loop cap net steps d1 n1 r1 s1 = Some (Ret (reply, r'))" by simp
    from Cons.IH [OF this] obtain k where "k \<le> length steps" "cr_cache r' = cr_cache r1 @ bytes_read (take k steps)" by blast
    with mb show ?thesis by (intro exI [of _ "Suc k"]) simp
  qed
qed simp

lemma ReadMultiBuffer_cache:
  "fst (ReadMultiBuffer pipe r) = (if cr_cache r = '''' then pipe else Some (cr_cache r))"
  "fst (ReadMultiBuffer pipe (snd (ReadMultiBuffer pipe r))) = pipe"
  by (simp_all add: ReadMultiBuffer_def readInternal_def)



text \<open>A message that arrives in two parts is not recognised. A sniffer that recognised the first part
  and asked for more data is not asked again: a pass without a result keeps exactly sniffers that had
  no clue about the bytes so far.\<close>

lemma more_data_is_not_awaited:
  assumes "Sniffer_Sniff s payload net = Ret (reply, s1)"
  shows "reply \<noteq> ErrNeedMore \<and> (reply = ErrNoClue \<longrightarrow> (\<forall>si \<in> set s1. ps_run si (Some payload) = Ret ErrNoClue))"
  using Sniff_spec(1,3) [OF assms] by auto

lemma more_data_is_not_awaited_example:
  "\<exists>s1. Sniffer_Sniff (base_sniffers hello_lib) ''ab'' Network_TCP = Ret (ErrNoClue, s1) \<and>
     (\<forall>si \<in> set s1. ps_run si (Some ''ab'') = Ret ErrNoClue) \<and>
     fst (case Sniffer_Sniff s1 ''abcd'' Network_TCP of Ret p \<Rightarrow> p | _ \<Rightarrow> (Absent, [])) = ErrNoClue \<and>
     ps_run (on_payload (sn_TLS hello_lib) Network_TCP) (Some ''abcd'') = Ret (Found (Sniffed ''tls'' ''a.b''))"
proof -
  obtain s1 where s1: "Sniffer_Sniff (base_sniffers hello_lib) ''ab'' Network_TCP = Ret (ErrNoClue, s1)"
    and t: "fst (case Sniffer_Sniff s1 ''abcd'' Network_TCP of Ret p \<Rightarrow> p | _ \<Rightarrow> (Absent, [])) = ErrNoClue"
    by (simp add: sniff_defs)
  from more_data_is_not_awaited [OF s1] s1 t show ?thesis by (simp add: on_payload_def hello_lib_def)
qed

lemma metadata_pass_spec:
  "metadata_pass s pending = Ret (r, rest) \<Longrightarrow>
     set rest \<subseteq> set pending \<union> set s \<and> (\<forall>x. r = Some x \<longrightarrow> (\<exists>si \<in> set s. ps_metadata si \<and> ps_run si None = Ret (Found x)))"
proof (induction s arbitrary: pending)
  case (Cons si s)
  have skip: ?case if "metadata_pass s p = Ret (r, rest)" "set p \<subseteq> insert si (set pending)" for p
    using Cons.IH [OF that(1)] that(2) by auto
  show ?case
  proof (cases "ps_metadata si")
    case False
    with Cons.prems show ?thesis by (intro skip [of "pending @ [si]"]) auto
  next
    case True
    with Cons.prems obtain r1 where run: "ps_run si None = Ret r1" by (auto simp: bindR_Ret)
    show ?thesis
    proof (cases r1)
      case (Found x)
      with Cons.prems True run show ?thesis by auto
    next
      case ErrNoClue
      with Cons.prems True run show ?thesis by (intro skip [of "pending @ [si]"]) auto
    qed ((rule skip [of pending]; use Cons.prems True run in force)+)
  qed
qed simp

lemma SniffMetadata_spec:
  assumes "SniffMetadata s = Ret (reply, s1)"
  shows "set s1 \<subseteq> set s" and "reply = Found x \<Longrightarrow> \<exists>si \<in> set s. ps_metadata si \<and> ps_run si None = Ret (Found x)"
proof -
  from assms obtain r rest where p: "metadata_pass s [] = Ret (r, rest)"
    and r: "(reply, s1) = (case r of Some x \<Rightarrow> (Found x, s)
       | None \<Rightarrow> if rest \<noteq> [] then (ErrNoClue, rest) else (ErrOther ''unknown content'', s))"
    by (auto simp: SniffMetadata_def after_pass_def bindR_Ret)
  note sp = metadata_pass_spec [OF p, simplified]
  show "set s1 \<subseteq> set s" "reply = Found x \<Longrightarrow> \<exists>si \<in> set s. ps_metadata si \<and> ps_run si None = Ret (Found x)"
    using r sp by (auto split: option.splits if_splits)
qed

text \<open>The sniffers of the embedded server report results of their own.\<close>

definition lib_results :: "sniff_lib \<Rightarrow> bool" where
  "lib_results V \<longleftrightarrow> (\<forall>f \<in> {sn_HTTP V, sn_TLS V, sn_Bittorrent V, sn_QUIC V, sn_UTP V}. \<forall>b x. f b = Found x \<longrightarrow> (\<exists>p d. x = Sniffed p d))"

definition content_results :: "network \<Rightarrow> protocolSniffer list \<Rightarrow> bool" where
  "content_results net s \<longleftrightarrow> (\<forall>si \<in> set s. \<forall>b x. \<not> ps_metadata si \<and> ps_network si = net \<and> ps_run si b = Ret (Found x) \<longrightarrow> (\<exists>p d. x = Sniffed p d))"

lemma content_loop_found:
  "content_loop cap net steps d n r s = Some (Ret (Found x, r')) \<Longrightarrow> content_results net s \<Longrightarrow> \<exists>p q. x = Sniffed p q"
proof (induction steps arbitrary: d n r s)
  case (Cons st steps)
  show ?case
  proof (cases "sniff_round cap net st d n r s")
    case (Inl out)
    with Cons.prems have "sniff_round cap net st d n r s = Inl (Ret (Found x, r'))" by simp
    then obtain payload s1 where sn: "Sniffer_Sniff s payload net = Ret (Found x, s1)"
      by (auto simp: sniff_round_def Let_def split: if_splits option.splits outcome.splits prod.splits sniff_reply.splits)
    from Sniff_spec(4) [OF sn refl] Cons.prems(2) show ?thesis unfolding content_results_def by blast
  next
    case (Inr q)
    obtain d1 n1 r1 s1 where q: "q = (d1, n1, r1, s1)" by (metis prod_cases4)
    from sniff_round_goes_on [OF Inr [unfolded q]] Cons.prems(2) have "content_results net s1"
      by (auto simp: content_results_def)
    with Cons Inr q show ?thesis by simp
  qed
qed simp

lemma NewSniffer_content:
  assumes "lib_results V" and "net = Network_TCP \<or> net = Network_UDP"
  shows "content_results net (NewSniffer V F target)"
proof -
  have base: "content_results net (base_sniffers V)"
    using assms(1) unfolding content_results_def base_sniffers_def on_payload_def lib_results_def by auto
  show ?thesis
  proof (cases F)
    case None
    with base show ?thesis by (simp add: NewSniffer_def)
  next
    case (Some e)
    with base assms(2) show ?thesis
      by (auto simp: NewSniffer_def newFakeDNSSniffer_def newFakeDNSThenOthers_def content_results_def)
  qed
qed

lemma NewSniffer_metadata:
  assumes "si \<in> set (NewSniffer V F target)" and "ps_metadata si" and "ps_run si b = Ret (Found x)"
  shows "\<exists>d. x = fakeDNSSniffResult d"
proof (cases F)
  case None
  with assms show ?thesis by (auto simp: NewSniffer_def base_sniffers_def on_payload_def)
next
  case (Some e)
  with assms show ?thesis
    by (auto simp: NewSniffer_def base_sniffers_def on_payload_def newFakeDNSThenOthers_def newFakeDNSSniffer_def fakeDNS_sniff_def
        Let_def split: if_split_asm)
qed

text \<open>The result \<open>fakedns+others\<close> is never reported. The sniffer that would report it is registered for
  no network and not as a metadata sniffer, so neither pass runs it: for a TCP or UDP connection, what
  is found is a result of the server's sniffers, a fake DNS result, or a fake DNS domain together with
  a sniffed protocol.\<close>

lemma fakedns_others_unreachable:
  assumes "sniffer V cap F target metadataOnly net steps r = Some (Ret (Found x, r'))"
    and "lib_results V" and "net = Network_TCP \<or> net = Network_UDP"
  shows "(\<exists>p d. x = Sniffed p d) \<or> (\<exists>d. x = fakeDNSSniffResult d) \<or> (\<exists>d p q. x = compositeResult (fakeDNSSniffResult d) (Sniffed p q))"
proof -
  from assms(1) obtain meta s where m: "SniffMetadata (NewSniffer V F target) = Ret (meta, s)"
    by (auto simp: sniffer_def split: outcome.splits)
  have meta: "\<exists>d. y = fakeDNSSniffResult d" if "meta = Found y" for y
    using SniffMetadata_spec(2) [OF m that] NewSniffer_metadata by blast
  have s: "content_results net s"
    using NewSniffer_content [OF assms(2,3), of F target] SniffMetadata_spec(1) [OF m] by (auto simp: content_results_def)
  show ?thesis
  proof (cases metadataOnly)
    case True
    with assms(1) m meta show ?thesis by (simp add: sniffer_def)
  next
    case False
    with assms(1) m obtain content where c: "content_loop cap net steps (200 * 1000000) 0 r s = Some (Ret (content, r'))"
      and x: "Found x = (case (meta, content) of (Found m, Found c) \<Rightarrow> Found (CompositeResult m c) | (Found m, _) \<Rightarrow> Found m | _ \<Rightarrow> content)"
      by (auto simp: sniffer_def bindR_Ret)
    show ?thesis
    proof (cases content)
      case (Found y)
      with content_loop_found [of cap net steps _ 0 r s y r'] c s obtain p q where "y = Sniffed p q" by blast
      with x Found meta show ?thesis by (cases meta) (auto simp: CompositeResult_def)
    qed (use x meta in \<open>cases meta; auto\<close>)+
  qed
qed

definition hello_engine :: FakeDNSEngine where
  "hello_engine = \<lparr>fd_GetDomain = (\<lambda>a. ''''), fd_IsIPInIPPool = Some (\<lambda>a. True)\<rparr>"

lemma fakedns_others_unreachable_example:
  "\<exists>r'. sniffer hello_lib 32768 (Some hello_engine) hello_target False Network_TCP [hello_read ''abcd''] hello_reader =
      Some (Ret (Found (Sniffed ''tls'' ''a.b''), r')) \<and> Protocol (Sniffed ''tls'' ''a.b'') \<noteq> ''fakedns+others''"
proof -
  obtain r' where run: "sniffer hello_lib 32768 (Some hello_engine) hello_target False Network_TCP [hello_read ''abcd''] hello_reader =
      Some (Ret (Found (Sniffed ''tls'' ''a.b''), r'))"
    by (simp add: sniff_defs newFakeDNSThenOthers_def fakeDNS_sniff_def hello_engine_def)
  have "lib_results hello_lib" by (auto simp: lib_results_def hello_lib_def split: if_split_asm)
  from fakedns_others_unreachable [OF run this] run show ?thesis by auto
qed

end
