(* ===== verification/NodeMgr.thy ===== *)
theory NodeMgr
  imports ControllerProps Conf
begin

text \<open>
  \<open>node/node.go\<close> and \<open>node/cert_resolve.go\<close>: a node is a sequence of controllers that start together
  or not at all, from local configuration entries or from the protocol list of the panel. Each
  controller comes with the \<open>env\<close> it runs in, which holds what the panel answers to it.
  \<open>GetServerNodeConfigs\<close> of \<open>api/panel/panel.go\<close> is here because only this component calls it.
\<close>

section \<open>Protocols from the panel\<close>

record CertProtocolConfig =
  cp_CertMode :: string
  cp_CertDomain :: string
  cp_CertFile :: string
  cp_KeyFile :: string
  cp_Provider :: string
  cp_Email :: string
  cp_DNSEnv :: "(string, string) gomap option"
  cp_RenewBeforeDays :: int

record ProtocolConfig =
  pr_Type :: string
  pr_Port :: int
  pr_Security :: string
  pr_SNI :: string
  pr_RealityServerAddr :: string
  pr_RealityServerPort :: int
  pr_RealityPrivateKey :: string
  pr_RealityShortID :: string
  pr_RealityMldsa65seed :: string
  pr_Transport :: string
  pr_Host :: string
  pr_Path :: string
  pr_ServiceName :: string
  pr_XhttpMode :: string
  pr_XhttpExtra :: string
  pr_Cipher :: string
  pr_ServerKey :: string
  pr_Flow :: string
  pr_ObfsPassword :: string
  pr_PaddingScheme :: string
  pr_UpMbps :: int
  pr_DownMbps :: int
  pr_EnableProxyProtocol :: bool
  pr_CertMode :: string
  pr_CertDNSProvider :: string
  pr_CertDNSEnv :: string
  pr_CertConfig :: "CertProtocolConfig option"

definition defaultCoreFor :: "string \<Rightarrow> string" where
  "defaultCoreFor protocol =
    (if protocol \<in> {''tuic'', ''hysteria'', ''hysteria2'', ''anytls''} then ''sing''
     else if protocol \<in> {''vmess'', ''vless'', ''trojan'', ''shadowsocks''} then ''xray''
     else '''')"

section \<open>Certificates from the panel\<close>

text \<open>\<open>strings.TrimSpace\<close> on the ASCII white space, \<open>strings.Split\<close> at a character.\<close>

definition is_space :: "char \<Rightarrow> bool" where
  "is_space c \<longleftrightarrow> (let n = (of_char c :: nat) in n = 32 \<or> (9 \<le> n \<and> n \<le> 13))"

definition TrimSpace :: "string \<Rightarrow> string" where
  "TrimSpace s = rev (dropWhile is_space (rev (dropWhile is_space s)))"

fun Split :: "char \<Rightarrow> string \<Rightarrow> string list" where
  "Split c [] = [[]]"
| "Split c (x # s) = (if x = c then [] # Split c s
     else (case Split c s of [] \<Rightarrow> [[x]] | f # fs \<Rightarrow> (x # f) # fs))"

text \<open>One line of the text area; \<open>strings.Index\<close> finds the first \<open>=\<close>, and one at the front is skipped too.\<close>

definition env_line :: "(string, string) gomap \<Rightarrow> string \<Rightarrow> (string, string) gomap" where
  "env_line out raw =
    (let line = TrimSpace raw in
     if line = '''' then out
     else (case Cut line (CHR ''='') of
        None \<Rightarrow> out
      | Some (k, v) \<Rightarrow>
          if k = '''' then out
          else if TrimSpace k = '''' then out
          else mstore out (TrimSpace k) (TrimSpace v)))"

definition parseFlatDNSEnv :: "string \<Rightarrow> (string, string) gomap option" where
  "parseFlatDNSEnv raw =
    (if TrimSpace raw = '''' then None
     else (let out = foldl env_line [] (Split (CHR ''\<newline>'') raw) in if out = [] then None else Some out))"

definition defaultPanelCertFile :: "string \<Rightarrow> int \<Rightarrow> string" where
  "defaultPanelCertFile nodeType nodeId = ''/etc/yunzes-node/certs/'' @ nodeType @ Itoa nodeId @ ''.crt''"

definition defaultPanelCertKey :: "string \<Rightarrow> int \<Rightarrow> string" where
  "defaultPanelCertKey nodeType nodeId = ''/etc/yunzes-node/certs/'' @ nodeType @ Itoa nodeId @ ''.key''"

definition resolveCertConfig :: "ProtocolConfig \<Rightarrow> string \<Rightarrow> int \<Rightarrow> CertConfig" where
  "resolveCertConfig p nodeType nodeId =
    (let defCertFile = defaultPanelCertFile nodeType nodeId; defKeyFile = defaultPanelCertKey nodeType nodeId
     in case pr_CertConfig p of
          None \<Rightarrow>
            \<lparr>cc_CertMode = (if pr_CertMode p = '''' then ''http'' else pr_CertMode p), cc_RejectUnknownSni = False,
             cc_CertDomain = pr_SNI p, cc_CertFile = defCertFile, cc_KeyFile = defKeyFile,
             cc_Provider = pr_CertDNSProvider p, cc_Email = '''', cc_DNSEnv = parseFlatDNSEnv (pr_CertDNSEnv p),
             cc_RenewBeforeDays = 0\<rparr>
        | Some cc \<Rightarrow>
            \<lparr>cc_CertMode = (if cp_CertMode cc = '''' then ''http'' else cp_CertMode cc), cc_RejectUnknownSni = False,
             cc_CertDomain = (if cp_CertDomain cc = '''' then pr_SNI p else cp_CertDomain cc),
             cc_CertFile = (if cp_CertFile cc = '''' then defCertFile else cp_CertFile cc),
             cc_KeyFile = (if cp_KeyFile cc = '''' then defKeyFile else cp_KeyFile cc),
             cc_Provider = cp_Provider cc, cc_Email = cp_Email cc, cc_DNSEnv = cp_DNSEnv cc,
             cc_RenewBeforeDays = cp_RenewBeforeDays cc\<rparr>)"

section \<open>Intervals\<close>

definition intervalSec :: "any \<Rightarrow> int64 \<Rightarrow> int64" where
  "intervalSec v def = (case v of
     AnyNil \<Rightarrow> def
   | AnyInt x \<Rightarrow> if x \<le> 0 then def else word_of_int x * second
   | AnyInt64 x \<Rightarrow> if x \<le> 0 then def else word_of_int x * second
   | AnyFloat n d \<Rightarrow> if n \<le> 0 then def else word_of_int (go_quot n (int d)) * second
   | AnyString s \<Rightarrow> (case Atoi s of (n, err) \<Rightarrow> if err \<or> n \<le> 0 then def else word_of_int n * second)
   | AnyOther \<Rightarrow> def)"

definition resolveIntervals :: "BasicConfig option \<Rightarrow> int64 \<times> int64" where
  "resolveIntervals basic = (case basic of
     None \<Rightarrow> (30 * second, 15 * second)
   | Some b \<Rightarrow> (intervalSec (bc_PushInterval b) (30 * second), intervalSec (bc_PullInterval b) (15 * second)))"

section \<open>Controllers from the panel's protocol list\<close>

definition transport_of :: "ProtocolConfig \<Rightarrow> TransportConfig" where
  "transport_of p = \<lparr>tc_Path = pr_Path p, tc_Host = pr_Host p, tc_ServiceName = pr_ServiceName p,
     tc_Mode = pr_XhttpMode p, tc_Extra = pr_XhttpExtra p\<rparr>"

definition sni_only :: "ProtocolConfig \<Rightarrow> SecurityConfig" where
  "sni_only p = \<lparr>sc_SNI = pr_SNI p, sc_RealityServerAddress = '''', sc_RealityServerPort = 0,
     sc_RealityPrivateKey = '''', sc_RealityShortId = '''', sc_RealityMldsa65seed = ''''\<rparr>"

text \<open>The description the first half of \<open>buildServerController\<close> assembles. The controller does not get
  it: of it only type and id are read again.\<close>

definition server_node :: "ServerApiConfig \<Rightarrow> ProtocolConfig \<Rightarrow> int64 \<Rightarrow> int64 \<Rightarrow> NodeInfo outcome" where
  "server_node a p pushI pullI =
    (let t = pr_Type p; c = empty_common t;
         node = (\<lambda>c. Ret \<lparr>ni_Id = sa_ServerId a, ni_Type = t, ni_PushInterval = pushI, ni_PullInterval = pullI,
                        ni_Common = Some c\<rparr>)
     in if t = ''vless'' then node (c\<lparr>cn_Vless := Some \<lparr>vl_Port = pr_Port p, vl_Flow = pr_Flow p,
             vl_Network = pr_Transport p, vl_TransportConfig = Some (transport_of p), vl_Security = pr_Security p,
             vl_SecurityConfig = Some \<lparr>sc_SNI = pr_SNI p, sc_RealityServerAddress = pr_RealityServerAddr p,
               sc_RealityServerPort = pr_RealityServerPort p, sc_RealityPrivateKey = pr_RealityPrivateKey p,
               sc_RealityShortId = pr_RealityShortID p, sc_RealityMldsa65seed = pr_RealityMldsa65seed p\<rparr>\<rparr>\<rparr>)
        else if t = ''vmess'' then node (c\<lparr>cn_Vmess := Some \<lparr>vm_Port = pr_Port p, vm_Network = pr_Transport p,
             vm_TransportConfig = Some (transport_of p), vm_Security = pr_Security p,
             vm_SecurityConfig = Some (sni_only p)\<rparr>\<rparr>)
        else if t = ''trojan'' then node (c\<lparr>cn_Trojan := Some \<lparr>tr_Port = pr_Port p, tr_Network = pr_Transport p,
             tr_TransportConfig = Some ((transport_of p)\<lparr>tc_Mode := '''', tc_Extra := ''''\<rparr>), tr_Security = pr_Security p,
             tr_SecurityConfig = Some (sni_only p)\<rparr>\<rparr>)
        else if t = ''shadowsocks'' then node (c\<lparr>cn_Shadowsocks := Some \<lparr>ss_Port = pr_Port p, ss_Cipher = pr_Cipher p,
             ss_ServerKey = pr_ServerKey p\<rparr>\<rparr>)
        else if t = ''tuic'' then node (c\<lparr>cn_Tuic := Some \<lparr>tu_Port = pr_Port p, tu_SecurityConfig = Some (sni_only p)\<rparr>\<rparr>)
        else if t \<in> {''hysteria'', ''hysteria2''} then node (c\<lparr>cn_Hysteria2 := Some \<lparr>hy_Port = pr_Port p,
             hy_ObfsPassword = pr_ObfsPassword p, hy_UpMbps = pr_UpMbps p, hy_DownMbps = pr_DownMbps p,
             hy_SecurityConfig = Some (sni_only p)\<rparr>\<rparr>)
        else if t = ''anytls'' then node (c\<lparr>cn_AnyTLS := Some \<lparr>at_Port = pr_Port p, at_SecurityConfig = Some (sni_only p),
             at_PaddingScheme = pr_PaddingScheme p\<rparr>\<rparr>)
        else Fail ''unknown protocol'')"

definition server_options :: "ProtocolConfig \<Rightarrow> Options outcome" where
  "server_options p =
    (let core = defaultCoreFor (pr_Type p) in
     if core = ''sing'' then Ret (zero_options\<lparr>op_ListenIP := ''::'', op_Core := core\<rparr>)
     else if core = ''xray'' then Ret (zero_options\<lparr>op_ListenIP := ''0.0.0.0'', op_Core := core,
       op_XrayOptions := Some \<lparr>xo_EnableProxyProtocol = pr_EnableProxyProtocol p, xo_EnableDNS = False, xo_DNSType = '''',
         xo_EnableUot = False, xo_EnableTFO = False, xo_DisableIVCheck = False, xo_DisableSniffing = False, xo_EnableFallback = False,
         xo_FallBackConfigs = None\<rparr>\<rparr>)
     else Fail ''unsupported node type'')"

definition no_cert :: CertConfig where
  "no_cert = \<lparr>cc_CertMode = ''none'', cc_RejectUnknownSni = False, cc_CertDomain = '''', cc_CertFile = '''',
     cc_KeyFile = '''', cc_Provider = '''', cc_Email = '''', cc_DNSEnv = None, cc_RenewBeforeDays = 0\<rparr>"

definition server_cert :: "ProtocolConfig \<Rightarrow> int \<Rightarrow> CertConfig outcome" where
  "server_cert p nodeId =
    (if pr_Security p = ''tls'' then Ret (resolveCertConfig p (pr_Type p) nodeId)
     else if pr_Security p \<in> {''reality'', '''', ''none''} then Ret no_cert
     else Fail ''unsupported security type'')"

definition buildServerController :: "ServerApiConfig \<Rightarrow> ProtocolConfig \<Rightarrow> int64 \<Rightarrow> int64 \<Rightarrow> bool \<Rightarrow> Controller outcome" where
  "buildServerController a p pushI pullI registry =
    (case server_node a p pushI pullI of
       Fail e \<Rightarrow> Fail e | Panic \<Rightarrow> Panic
     | Ret node \<Rightarrow>
         (case server_options p of
            Fail e \<Rightarrow> Fail e | Panic \<Rightarrow> Panic
          | Ret opt \<Rightarrow>
              (case server_cert p (ni_Id node) of
                 Fail e \<Rightarrow> Fail e | Panic \<Rightarrow> Panic
               | Ret cert \<Rightarrow>
                   Ret (NewController (op_Core opt)
                     \<lparr>pc_APIHost = sa_ApiHost a, pc_NodeType = ni_Type node, pc_NodeId = ni_Id node, pc_nodeEtag = '''',
                      pc_userEtag = '''', pc_hash = '''', pc_AliveMap = []\<rparr>
                     (opt\<lparr>op_CertConfig := Some cert\<rparr>) registry))))"

text \<open>\<open>dec\<close> decodes the reply body into the protocols and the basic block.\<close>

definition GetServerNodeConfigs ::
  "(string \<Rightarrow> (ProtocolConfig list \<times> BasicConfig option) option) \<Rightarrow> http_resp
     \<Rightarrow> (ProtocolConfig list \<times> BasicConfig option) outcome" where
  "GetServerNodeConfigs dec r =
    (if rs_err r then Fail ''request failed''
     else if rs_status r \<ge> 400 then Fail ''request failed''
     else (case dec (rs_body r) of
        None \<Rightarrow> Fail ''decode node params error''
      | Some (protocols, basic) \<Rightarrow>
          if protocols = [] then Fail ''no protocol config found'' else Ret (protocols, basic)))"

section \<open>A node\<close>

text \<open>Errors of closing are logged. \<open>None\<close>: a close does not return.\<close>

type_synonym 'c started = "('c env \<times> Controller) list"

fun close_all :: "'c started \<Rightarrow> 'c world \<Rightarrow> 'c world option" where
  "close_all [] w = Some w"
| "close_all ((E, c) # rest) w =
     (case Controller_Close E (w, c) of None \<Rightarrow> None | Some (_, w', _) \<Rightarrow> close_all rest w')"

definition rollbackControllers :: "'c started \<Rightarrow> 'c world \<Rightarrow> 'c world option" where
  "rollbackControllers cs w = close_all (rev cs) w"

definition rolled :: "string \<Rightarrow> 'c started \<Rightarrow> 'c world \<Rightarrow> (unit outcome \<times> 'c started \<times> 'c world) option" where
  "rolled e cs w = map_option (\<lambda>w'. (Fail e, [], w')) (rollbackControllers cs w)"

fun start_local :: "(NodeConfig \<times> 'c env) list \<Rightarrow> 'c started \<Rightarrow> 'c world
    \<Rightarrow> (unit outcome \<times> 'c started \<times> 'c world) option" where
  "start_local [] done w = Some (Ret (), done, w)"
| "start_local ((nc, E) # rest) done w =
     (case Client_New (ac_APIHost (nc_ApiConfig nc)) (ac_NodeType (nc_ApiConfig nc)) (ac_NodeID (nc_ApiConfig nc)) of
        Fail e \<Rightarrow> rolled e done w
      | Panic \<Rightarrow> rolled ''panic'' done w
      | Ret p \<Rightarrow>
          (let coreType = (if op_Core (nc_Options nc) = '''' then defaultCoreFor (pc_NodeType p) else op_Core (nc_Options nc))
           in if coreType = '''' then rolled ''cannot infer core for protocol'' done w
              else (case Controller_Start E (w, NewController coreType p (nc_Options nc) True) of
                 (Ret _, w', c') \<Rightarrow> start_local rest (done @ [(E, c')]) w'
               | (_, w', c') \<Rightarrow> rolled ''start node controller'' done w')))"

definition Node_Start :: "(NodeConfig \<times> 'c env) list \<Rightarrow> 'c world \<Rightarrow> (unit outcome \<times> 'c started \<times> 'c world) option" where
  "Node_Start nodes w = start_local nodes [] w"

fun start_server :: "ServerApiConfig \<Rightarrow> int64 \<Rightarrow> int64 \<Rightarrow> (ProtocolConfig \<Rightarrow> 'c env) \<Rightarrow> ProtocolConfig list
    \<Rightarrow> 'c started \<Rightarrow> 'c world \<Rightarrow> (unit outcome \<times> 'c started \<times> 'c world) option" where
  "start_server a pushI pullI envs [] done w = Some (Ret (), done, w)"
| "start_server a pushI pullI envs (p # rest) done w =
     (case buildServerController a p pushI pullI True of
        Fail e \<Rightarrow> rolled e done w
      | Panic \<Rightarrow> rolled ''panic'' done w
      | Ret ctrl \<Rightarrow>
          (case Controller_Start (envs p) (w, ctrl) of
             (Ret _, w', c') \<Rightarrow> start_server a pushI pullI envs rest (done @ [(envs p, c')]) w'
           | (_, w', c') \<Rightarrow> rolled ''start node controller'' done w'))"

definition Node_StartNodes ::
  "(string \<Rightarrow> (ProtocolConfig list \<times> BasicConfig option) option) \<Rightarrow> http_resp \<Rightarrow> ServerApiConfig
     \<Rightarrow> (ProtocolConfig \<Rightarrow> 'c env) \<Rightarrow> 'c world \<Rightarrow> (unit outcome \<times> 'c started \<times> 'c world) option" where
  "Node_StartNodes dec r a envs w =
    (case GetServerNodeConfigs dec r of
       Fail e \<Rightarrow> Some (Fail e, [], w)
     | Panic \<Rightarrow> Some (Panic, [], w)
     | Ret (protocols, basic) \<Rightarrow>
         (case resolveIntervals basic of (pushI, pullI) \<Rightarrow> start_server a pushI pullI envs protocols [] w))"

text \<open>Controllers are closed in reverse order; afterwards the node has none.\<close>

definition Node_Close :: "'c started \<Rightarrow> 'c world \<Rightarrow> ('c started \<times> 'c world) option" where
  "Node_Close cs w = map_option (\<lambda>w'. ([], w')) (close_all (rev cs) w)"

section \<open>All or nothing\<close>

text \<open>The started controllers, newest first, each holding its claims on top of the older ones.\<close>

fun held :: "('c \<Rightarrow> string set) \<Rightarrow> 'c world \<Rightarrow> 'c started \<Rightarrow> 'c world \<Rightarrow> bool" where
  "held up w0 [] w \<longleftrightarrow> same_claims up w0 w"
| "held up w0 ((E, c) # older) w \<longleftrightarrow> (\<exists>w1 fl. held up w0 older w1 \<and> coherent up w1 \<and> core_laws (ev_core E) up \<and>
     claimedF up w1 True True (fl, w, c) \<and> tasks_free c)"

lemma claimedF_cong:
  "claimedF up w1 L N (fl, w, c) \<Longrightarrow> same_claims up w w' \<Longrightarrow> claimedF up w1 L N (fl, w', c)"
  unfolding claimedF_def claimed_def same_claims_def by auto

lemma same_claims_trans: "same_claims up w w' \<Longrightarrow> same_claims up w' w'' \<Longrightarrow> same_claims up w w''"
  by (simp add: same_claims_def)

lemma held_cong: "held up w0 cs w \<Longrightarrow> same_claims up w w' \<Longrightarrow> held up w0 cs w'"
proof (cases cs)
  case (Cons ec older)
  assume "held up w0 cs w" "same_claims up w w'"
  with Cons show ?thesis by (cases ec) (auto intro: claimedF_cong)
qed (auto intro: same_claims_trans)

lemma close_held: "held up w0 cs w \<Longrightarrow> \<exists>w'. close_all cs w = Some w' \<and> same_claims up w0 w'"
proof (induction cs arbitrary: w)
  case (Cons ec older)
  obtain E c where ec: "ec = (E, c)" by (cases ec)
  with Cons.prems obtain w1 fl where h: "held up w0 older w1" "coherent up w1" "core_laws (ev_core E) up"
    "claimedF up w1 True True (fl, w, c)" "tasks_free c" by auto
  from close_claimed [OF h(3,2,4,5)] obtain r w' c' where
    cl: "Controller_Close E (w, c) = Some (r, w', c')" and "same_claims up w1 w'" by blast
  with h(1) have "held up w0 older w'" by (blast intro: held_cong)
  from Cons.IH [OF this] cl ec show ?case by simp
qed simp

lemma mkeys_mstore: "set (mkeys (mstore m k v)) = insert k (set (mkeys m))"
  by (simp add: dom_update)

lemma coherent_claimed:
  assumes coh: "coherent up w0" and cl: "claimedF up w0 True True (fl, w, c)"
  shows "coherent up w"
proof -
  obtain specs where rs: "reserve (ct_runtimeKey c) (ct_logicalTag c) specs (wd_reg w0) = (Ret (), wd_reg w)"
    using cl by (auto simp: claimedF_def claimed_def port_claim_def)
  obtain a where lim: "lw_reg (wd_lim w) = mstore (lw_reg (wd_lim w0)) (ct_runtimeKey c) a"
    and core: "up (wd_core w) = insert (ct_runtimeKey c) (up (wd_core w0))"
    using cl by (auto simp: claimedF_def claimed_def lim_claim_def up_claim_def)
  have "pr_wf (wd_reg w)" using reserve_wf [OF _ rs] coh by (simp add: coherent_def)
  moreover have "set (mkeys (pr_runtimeKeys (wd_reg w))) = insert (ct_runtimeKey c) (set (mkeys (pr_runtimeKeys (wd_reg w0))))"
    using rs by (auto simp: reserve_Ret mkeys_mstore simp del: set_map)
  moreover have "set (mkeys (lw_reg (wd_lim w))) = insert (ct_runtimeKey c) (set (mkeys (lw_reg (wd_lim w0))))"
    by (simp only: lim mkeys_mstore)
  ultimately show ?thesis using coh core lim by (auto simp: coherent_def simp del: set_map)
qed

lemma coherent_same: "coherent up w \<Longrightarrow> same_claims up w w' \<Longrightarrow> coherent up w'"
  by (simp add: coherent_def same_claims_def)

text \<open>One controller's start, on top of the ones before it.\<close>

lemma held_start:
  assumes laws: "core_laws (ev_core E) up" and coh: "coherent up w" and h: "held up w0 older w"
    and c: "ct_hasRegistry c" "tasks_free c" and st: "Controller_Start E (w, c) = (r, w', c')"
  shows "if r = Ret () then held up w0 ((E, c') # older) w' \<and> coherent up w' else held up w0 older w'"
proof (cases "r = Ret ()")
  case True
  with st have st: "Controller_Start E (w, c) = (Ret (), w', c')" by simp
  from start_success [OF st c(2)] obtain fl where
    b: "start_body E (start_of w c) = (Ret (), fl, w', c')" and free: "tasks_free c'" by auto
  have cl: "claimedF up w True True (fl, w', c')" using start_body_claims [OF laws c(1) b] by simp
  with h coh laws free coherent_claimed [OF coh cl] True show ?thesis by auto
next
  case False
  from failed_start_same [OF laws coh c(1) st False] h False show ?thesis by (auto intro: held_cong)
qed

lemma rolled_held:
  "held up w0 (rev cs) w \<Longrightarrow> \<exists>w'. rolled e cs w = Some (Fail e, [], w') \<and> same_claims up w0 w'"
  using close_held [of up w0 "rev cs" w] by (auto simp: rolled_def rollbackControllers_def)

lemma new_controller: "ct_hasRegistry (NewController t p opt True)" "tasks_free (NewController t p opt True)"
  by (simp_all add: NewController_def tasks_free_iff)

text \<open>The outcome of a whole start: everything given back, or everything held.\<close>

definition all_or_nothing :: "('c \<Rightarrow> string set) \<Rightarrow> 'c world \<Rightarrow> (unit outcome \<times> 'c started \<times> 'c world) option \<Rightarrow> bool" where
  "all_or_nothing up w0 res \<longleftrightarrow> (case res of None \<Rightarrow> False
     | Some (r, cs, w') \<Rightarrow> if r = Ret () then held up w0 (rev cs) w' else cs = [] \<and> same_claims up w0 w')"

lemma rolled_all: "held up w0 (rev cs) w \<Longrightarrow> all_or_nothing up w0 (rolled e cs w)"
  using rolled_held [of up w0 cs w e] by (auto simp: all_or_nothing_def)

lemma start_local_all:
  "coherent up w \<Longrightarrow> held up w0 (rev done) w \<Longrightarrow> (\<And>nc E. (nc, E) \<in> set nodes \<Longrightarrow> core_laws (ev_core E) up) \<Longrightarrow>
     all_or_nothing up w0 (start_local nodes done w)"
proof (induction nodes arbitrary: "done" w)
  case (Cons ne rest)
  obtain nc E where ne: "ne = (nc, E)" by (cases ne)
  note roll = rolled_all [OF Cons.prems(2)]
  show ?case
  proof (cases "Client_New (ac_APIHost (nc_ApiConfig nc)) (ac_NodeType (nc_ApiConfig nc)) (ac_NodeID (nc_ApiConfig nc))")
    case (Ret p)
    define t where "t = (if op_Core (nc_Options nc) = '''' then defaultCoreFor (pc_NodeType p) else op_Core (nc_Options nc))"
    obtain r w' c' where st: "Controller_Start E (w, NewController t p (nc_Options nc) True) = (r, w', c')"
      by (metis prod_cases3)
    have laws: "core_laws (ev_core E) up" using Cons.prems(3) [of nc E] ne by simp
    note hs = held_start [OF laws Cons.prems(1,2) new_controller st]
    show ?thesis
    proof (cases "t = ''''")
      case False
      show ?thesis
      proof (cases "r = Ret ()")
        case True
        then have "all_or_nothing up w0 (start_local rest (done @ [(E, c')]) w')"
          using hs Cons.prems(3) by (intro Cons.IH) auto
        with True False Ret st ne show ?thesis by (simp add: t_def [symmetric] Let_def)
      next
        case fail: False
        then have "all_or_nothing up w0 (rolled ''start node controller'' done w')" using hs rolled_all by simp
        with fail False Ret st ne show ?thesis by (cases r) (simp_all add: t_def [symmetric] Let_def)
      qed
    qed (use Ret ne roll in \<open>simp add: t_def [symmetric] Let_def\<close>)
  qed (simp_all add: ne roll)
qed (simp add: all_or_nothing_def)

lemma build_new: "buildServerController a p i j b = Ret ctrl \<Longrightarrow> \<exists>t cl opt. ctrl = NewController t cl opt b"
  by (auto simp: buildServerController_def split: outcome.splits)

lemma start_server_all:
  "coherent up w \<Longrightarrow> held up w0 (rev done) w \<Longrightarrow> (\<And>p. core_laws (ev_core (envs p)) up) \<Longrightarrow>
     all_or_nothing up w0 (start_server a i j envs ps done w)"
proof (induction ps arbitrary: "done" w)
  case (Cons p rest)
  note roll = rolled_all [OF Cons.prems(2)]
  show ?case
  proof (cases "buildServerController a p i j True")
    case (Ret ctrl)
    have c: "ct_hasRegistry ctrl" "tasks_free ctrl" using build_new [OF Ret] new_controller by auto
    obtain r w' c' where st: "Controller_Start (envs p) (w, ctrl) = (r, w', c')" by (metis prod_cases3)
    note hs = held_start [OF Cons.prems(3) Cons.prems(1,2) c st]
    show ?thesis
    proof (cases "r = Ret ()")
      case True
      then have "all_or_nothing up w0 (start_server a i j envs rest (done @ [(envs p, c')]) w')"
        using hs Cons.prems(3) by (intro Cons.IH) auto
      with True Ret st show ?thesis by simp
    next
      case fail: False
      then have "all_or_nothing up w0 (rolled ''start node controller'' done w')" using hs rolled_all by simp
      with fail Ret st show ?thesis by (cases r) simp_all
    qed
  qed (simp_all add: roll)
qed (simp add: all_or_nothing_def)

lemma start_local_length: "start_local nodes cs w = Some (Ret (), cs', w') \<Longrightarrow> length cs' = length cs + length nodes"
proof (induction nodes cs w rule: start_local.induct)
  case (2 nc E rest cs w)
  then show ?case by (auto simp: rolled_def Let_def split: outcome.splits prod.splits if_split_asm)
qed simp

lemma start_server_length: "start_server a i j envs ps cs w = Some (Ret (), cs', w') \<Longrightarrow> length cs' = length cs + length ps"
proof (induction a i j envs ps cs w rule: start_server.induct)
  case (2 a i j envs p rest cs w)
  then show ?case by (auto simp: rolled_def split: outcome.splits prod.splits if_split_asm)
qed simp

lemma all_or_nothing_unchanged: "r \<noteq> Ret () \<Longrightarrow> all_or_nothing up w (Some (r, [], w))"
  by (simp add: all_or_nothing_def)

lemma all_or_nothing_close:
  assumes "all_or_nothing up w0 res"
  shows "\<exists>r cs w'. res = Some (r, cs, w') \<and>
    (r \<noteq> Ret () \<longrightarrow> cs = [] \<and> same_claims up w0 w') \<and>
    (r = Ret () \<longrightarrow> (\<exists>w''. Node_Close cs w' = Some ([], w'') \<and> same_claims up w0 w''))"
proof -
  obtain r cs w' where res: "res = Some (r, cs, w')"
    using assms by (cases res) (auto simp: all_or_nothing_def)
  show ?thesis
  proof (cases "r = Ret ()")
    case True
    with assms res have "held up w0 (rev cs) w'" by (simp add: all_or_nothing_def)
    from close_held [OF this] True res show ?thesis by (auto simp: Node_Close_def)
  qed (use assms res in \<open>simp add: all_or_nothing_def\<close>)
qed


definition demo_entry :: NodeConfig where
  "demo_entry = \<lparr>nc_ApiConfig = \<lparr>ac_APIHost = ''h'', ac_NodeID = 1, ac_Key = '''', ac_NodeType = ''TUIC'', ac_Timeout = 0\<rparr>, nc_Options = demo_options\<rparr>"


section \<open>Printing and parsing DNS variables\<close>

definition render_env :: "(string, string) gomap \<Rightarrow> string" where
  "render_env m = concat (map (\<lambda>(k, v). k @ CHR ''='' # v @ [CHR ''\<newline>'']) m)"

definition trimmed_text :: "string \<Rightarrow> bool" where
  "trimmed_text s \<longleftrightarrow> s = '''' \<or> (\<not> is_space (hd s) \<and> \<not> is_space (last s))"

definition env_entry_ok :: "string \<times> string \<Rightarrow> bool" where
  "env_entry_ok kv \<longleftrightarrow> fst kv \<noteq> '''' \<and> CHR ''='' \<notin> set (fst kv) \<and> trimmed_text (fst kv) \<and> trimmed_text (snd kv) \<and>
     CHR ''\<newline>'' \<notin> set (fst kv) \<and> CHR ''\<newline>'' \<notin> set (snd kv)"

lemma TrimSpace_id: "trimmed_text s \<Longrightarrow> TrimSpace s = s"
proof (cases "s = ''''")
  case False
  assume "trimmed_text s"
  with False have h: "\<not> is_space (hd s)" "\<not> is_space (hd (rev s))" by (simp_all add: trimmed_text_def hd_rev)
  have "dropWhile is_space t = t" if "t \<noteq> []" "\<not> is_space (hd t)" for t using that by (cases t) simp_all
  with h False show ?thesis by (simp add: TrimSpace_def)
qed (simp add: TrimSpace_def)

lemma Split_append: "c \<notin> set xs \<Longrightarrow> Split c (xs @ c # ys) = xs # Split c ys"
  by (induction xs) auto

lemma equals_no_space: "\<not> is_space (CHR ''='')"
  by (simp add: is_space_def)

lemma env_line_entry:
  assumes "env_entry_ok (k, v)"
  shows "env_line out (k @ CHR ''='' # v) = mstore out k v"
proof -
  have t: "trimmed_text (k @ CHR ''='' # v)"
    using assms equals_no_space by (cases "v = ''''") (auto simp: env_entry_ok_def trimmed_text_def)
  have "Cut (k @ CHR ''='' # v) (CHR ''='') = Some (k, v)" using assms by (simp add: env_entry_ok_def Cut_append)
  then show ?thesis
    using assms TrimSpace_id [OF t] by (simp add: env_line_def env_entry_ok_def TrimSpace_id Let_def)
qed

lemma env_line_blank: "env_line out '''' = out"
  by (simp add: env_line_def TrimSpace_def)

lemma env_lines:
  "(\<And>kv. kv \<in> set m \<Longrightarrow> env_entry_ok kv) \<Longrightarrow>
     foldl env_line out (Split (CHR ''\<newline>'') (render_env m)) = foldl (\<lambda>m (k, v). mstore m k v) out m"
proof (induction m arbitrary: out)
  case Nil
  then show ?case by (simp add: render_env_def env_line_blank)
next
  case (Cons kv m)
  obtain k v where kv: "kv = (k, v)" by (cases kv)
  have ok: "env_entry_ok (k, v)" using Cons.prems [of kv] kv by simp
  have "render_env (kv # m) = (k @ CHR ''='' # v) @ CHR ''\<newline>'' # render_env m"
    by (simp add: render_env_def kv)
  moreover have "CHR ''\<newline>'' \<notin> set (k @ CHR ''='' # v)" using ok by (simp add: env_entry_ok_def)
  ultimately have "Split (CHR ''\<newline>'') (render_env (kv # m)) = (k @ CHR ''='' # v) # Split (CHR ''\<newline>'') (render_env m)"
    using Split_append by metis
  then show ?case using Cons.IH [of "mstore out k v"] Cons.prems env_line_entry [OF ok] kv by simp
qed

lemma foldl_mstore_fresh:
  "distinct (map fst (out @ m)) \<Longrightarrow> foldl (\<lambda>m (k, v). mstore m k v) out m = out @ m"
proof (induction m arbitrary: out)
  case (Cons kv m)
  obtain k v where kv: "kv = (k, v)" by (cases kv)
  have "mstore out k v = out @ [(k, v)]"
  proof -
    have "k \<notin> fst ` set out" using Cons.prems kv by auto
    then show ?thesis by (induction out) auto
  qed
  with Cons kv show ?case by simp
qed simp

text \<open>The panel's text area of DNS variables is read as written. Any non-empty set of variables,
  printed one per line as KEY=VALUE, is parsed back to exactly the same variables, provided that keys
  and values have no line break and no white space at their ends and keys are non-empty and without
  an equals sign; values may contain equals signs.\<close>

lemma dns_env_roundtrip:
  assumes "m \<noteq> []" and "mwf m" and "\<And>kv. kv \<in> set m \<Longrightarrow> env_entry_ok kv"
  shows "parseFlatDNSEnv (render_env m) = Some m"
proof -
  obtain k v m' where m: "m = (k, v) # m'" using assms(1) by (metis list.exhaust surj_pair)
  have "env_entry_ok (k, v)" using assms(3) m by simp
  then obtain c k' where "k = c # k'" "\<not> is_space c"
    by (cases k) (auto simp: env_entry_ok_def trimmed_text_def)
  then have "TrimSpace (render_env m) \<noteq> ''''"
    by (simp add: m render_env_def TrimSpace_def dropWhile_append3)
  then show ?thesis
    using env_lines [of m "[]", OF assms(3)] foldl_mstore_fresh [of "[]" m] assms(1,2)
    by (simp add: parseFlatDNSEnv_def)
qed

lemma dns_env_roundtrip_example:
  "parseFlatDNSEnv (render_env [(''CF_TOKEN'', ''a=b''), (''TTL'', '''')]) = Some [(''CF_TOKEN'', ''a=b''), (''TTL'', '''')]"
proof (rule dns_env_roundtrip)
  fix kv assume "kv \<in> set [(''CF_TOKEN'', ''a=b''), (''TTL'', '''')]"
  then show "env_entry_ok kv" by (auto simp: env_entry_ok_def trimmed_text_def is_space_def)
qed simp_all

end
