(* ===== verification/XrayInbound.thy ===== *)
theory XrayInbound
  imports Outcomes NodeMgr
begin

text \<open>
  \<open>core/xray/inbound.go\<close>, \<open>core/xray/outbound.go\<close> and \<open>core/xray/node.go\<close>: the configuration of an
  xray inbound and outbound built from the panel's node description and the local options, and how
  a node is added to and removed from the running server. The configuration structs are those of
  xray's \<open>infra/conf\<close>, with the fields the code sets; a settings object stands for its JSON text,
  which marshalling these objects always yields. Address parsing, the random source, encodings and
  the final \<open>Build\<close> are parameters, and so are the handler managers of the server.
\<close>

section \<open>Configurations\<close>

record xray_fallback =
  xf_Name :: string
  xf_Alpn :: string
  xf_Path :: string
  xf_Dest :: string
  xf_Xver :: "64 word"

record ss_settings =
  xs_Cipher :: string
  xs_Password :: string
  xs_Users :: "(string \<times> string) list"
  xs_NetworkList :: "string list"
  xs_IVCheck :: bool

datatype xray_settings =
    VLessSettings string "xray_fallback list option"
  | VMessSettings
  | TrojanSettings "xray_fallback list option"
  | ShadowsocksSettings ss_settings

record WebSocketConfig =
  wc_Host :: string
  wc_Path :: string
  wc_AcceptProxyProtocol :: bool

record SplitHTTPConfig =
  sh_Host :: string
  sh_Path :: string
  sh_Mode :: string

record SocketConfig =
  sk_AcceptProxyProtocol :: bool
  sk_TFO :: bool

record TLSConfig =
  tl_CertFile :: string
  tl_KeyFile :: string
  tl_OcspStapling :: int
  tl_RejectUnknownSNI :: bool

record REALITYConfig =
  re_Dest :: string
  re_ServerNames :: "string list"
  re_PrivateKey :: string
  re_ShortIds :: "string list"
  re_Mldsa65Seed :: string

text \<open>The TCP settings have one field the code sets: accepting the PROXY protocol.\<close>

record StreamConfig =
  st_Network :: string
  st_TCPSettings :: "bool option"
  st_WSSettings :: "WebSocketConfig option"
  st_GRPCSettings :: "string option"
  st_HTTPUPGRADESettings :: "WebSocketConfig option"
  st_SplitHTTPSettings :: "SplitHTTPConfig option"
  st_SocketSettings :: "SocketConfig option"
  st_Security :: string
  st_TLSSettings :: "TLSConfig option"
  st_REALITYSettings :: "REALITYConfig option"

record 'ip InboundDetourConfig =
  ix_Protocol :: string
  ix_Settings :: "xray_settings option"
  ix_PortFrom :: "32 word"
  ix_PortTo :: "32 word"
  ix_ListenOn :: "'ip option"
  ix_SniffingEnabled :: bool
  ix_DestOverride :: "string list"
  ix_StreamSetting :: "StreamConfig option"
  ix_Tag :: string

record ('ip, 'cfg) xray_lib =
  xv_ParseAddress :: "string \<Rightarrow> 'ip"
  xv_rand :: "nat \<Rightarrow> string option"
  xv_hex :: "string \<Rightarrow> string"
  xv_b64enc :: "string \<Rightarrow> string"
  xv_b64dec :: "string \<Rightarrow> string option"
  xv_quote :: "string \<Rightarrow> string"
  xv_Build :: "'ip InboundDetourConfig \<Rightarrow> 'cfg outcome"

definition zero_inbound :: "'ip InboundDetourConfig" where
  "zero_inbound = \<lparr>ix_Protocol = '''', ix_Settings = None, ix_PortFrom = 0, ix_PortTo = 0, ix_ListenOn = None,
     ix_SniffingEnabled = False, ix_DestOverride = [], ix_StreamSetting = None, ix_Tag = ''''\<rparr>"

definition stream :: "string \<Rightarrow> StreamConfig" where
  "stream network = \<lparr>st_Network = network, st_TCPSettings = None, st_WSSettings = None, st_GRPCSettings = None,
     st_HTTPUPGRADESettings = None, st_SplitHTTPSettings = None, st_SocketSettings = None, st_Security = '''',
     st_TLSSettings = None, st_REALITYSettings = None\<rparr>"

section \<open>The protocol builders\<close>

definition transportHostPath :: "TransportConfig option \<Rightarrow> string \<times> string" where
  "transportHostPath tc = (case tc of None \<Rightarrow> ('''', '''') | Some t \<Rightarrow> (tc_Host t, tc_Path t))"

definition websocket_of :: "TransportConfig option \<Rightarrow> WebSocketConfig" where
  "websocket_of tc = (case transportHostPath tc of (host, path) \<Rightarrow>
     \<lparr>wc_Host = host, wc_Path = path, wc_AcceptProxyProtocol = False\<rparr>)"

text \<open>The stream settings of vless and vmess, and the ones trojan shares with them.\<close>

definition trojan_stream :: "string \<Rightarrow> string \<Rightarrow> TransportConfig option \<Rightarrow> StreamConfig outcome" where
  "trojan_stream who network tc =
    (let s = stream network in
     if network = ''tcp'' then Ret (s\<lparr>st_TCPSettings := Some False\<rparr>)
     else if network = ''ws'' \<or> network = ''websocket'' then Ret (s\<lparr>st_WSSettings := Some (websocket_of tc)\<rparr>)
     else if network = ''grpc'' then
       Ret (s\<lparr>st_GRPCSettings := Some (case tc of None \<Rightarrow> '''' | Some t \<Rightarrow> tc_ServiceName t)\<rparr>)
     else Fail (who @ '': unsupported network type''))"

definition vless_stream :: "string \<Rightarrow> string \<Rightarrow> TransportConfig option \<Rightarrow> StreamConfig outcome" where
  "vless_stream who network tc =
    (let s = stream network in
     if network = ''httpupgrade'' then Ret (s\<lparr>st_HTTPUPGRADESettings := Some (websocket_of tc)\<rparr>)
     else if network = ''splithttp'' \<or> network = ''xhttp'' then
       (case transportHostPath tc of (host, path) \<Rightarrow>
          Ret (s\<lparr>st_SplitHTTPSettings := Some \<lparr>sh_Host = host, sh_Path = path, sh_Mode = ''auto''\<rparr>\<rparr>))
     else trojan_stream who network tc)"

text \<open>The two fallback builders are the same code on different struct types.\<close>

fun fallback_loop :: "('ip, 'cfg) xray_lib \<Rightarrow> FallBackConfigForXray list \<Rightarrow> xray_fallback list outcome" where
  "fallback_loop V [] = Ret []"
| "fallback_loop V (c # cs) =
     bindR (ensure (fx_Dest c \<noteq> '''') ''dest is required for fallback fialed'') (\<lambda>_.
     bindR (fallback_loop V cs) (\<lambda>fs.
       Ret (\<lparr>xf_Name = fx_SNI c, xf_Alpn = fx_Alpn c, xf_Path = fx_Path c, xf_Dest = xv_quote V (fx_Dest c),
             xf_Xver = fx_ProxyProtocolVer c\<rparr> # fs)))"

definition buildVlessFallbacks :: "('ip, 'cfg) xray_lib \<Rightarrow> FallBackConfigForXray list option \<Rightarrow> xray_fallback list outcome" where
  "buildVlessFallbacks V fc = (case fc of None \<Rightarrow> Fail ''you must provide FallBackConfigs'' | Some cs \<Rightarrow> fallback_loop V cs)"

definition buildTrojanFallbacks :: "('ip, 'cfg) xray_lib \<Rightarrow> FallBackConfigForXray list option \<Rightarrow> xray_fallback list outcome" where
  "buildTrojanFallbacks V fc = (case fc of None \<Rightarrow> Fail ''you must provide FallBackConfigs'' | Some cs \<Rightarrow> fallback_loop V cs)"

definition buildVless :: "('ip, 'cfg) xray_lib \<Rightarrow> Options \<Rightarrow> CommonNode \<Rightarrow> 'ip InboundDetourConfig \<Rightarrow> 'ip InboundDetourConfig outcome" where
  "buildVless V config c inb =
    (case cn_Vless c of None \<Rightarrow> Fail ''buildVless: Common.Vless is nil'' | Some v \<Rightarrow>
    (case op_XrayOptions config of None \<Rightarrow> Fail ''buildVless: XrayOptions is nil'' | Some x \<Rightarrow>
       bindR (if xo_EnableFallback x
              then bindR (buildVlessFallbacks V (xo_FallBackConfigs x)) (\<lambda>fs. Ret (VLessSettings ''none'' (Some fs)))
              else Ret (VLessSettings ''none'' None)) (\<lambda>s.
       bindR (vless_stream ''vless'' (if vl_Network v = '''' then ''tcp'' else vl_Network v) (vl_TransportConfig v)) (\<lambda>st.
         Ret (inb\<lparr>ix_Protocol := ''vless'', ix_Settings := Some s, ix_StreamSetting := Some st\<rparr>)))))"

definition buildVmess :: "Options \<Rightarrow> CommonNode \<Rightarrow> 'ip InboundDetourConfig \<Rightarrow> 'ip InboundDetourConfig outcome" where
  "buildVmess config c inb =
    (case cn_Vmess c of None \<Rightarrow> Fail ''buildVmess: Common.Vmess is nil'' | Some v \<Rightarrow>
       bindR (vless_stream ''vmess'' (if vm_Network v = '''' then ''tcp'' else vm_Network v) (vm_TransportConfig v)) (\<lambda>st.
         Ret (inb\<lparr>ix_Protocol := ''vmess'', ix_Settings := Some VMessSettings, ix_StreamSetting := Some st\<rparr>)))"

definition buildTrojan :: "('ip, 'cfg) xray_lib \<Rightarrow> Options \<Rightarrow> CommonNode \<Rightarrow> 'ip InboundDetourConfig \<Rightarrow> 'ip InboundDetourConfig outcome" where
  "buildTrojan V config c inb =
    (case cn_Trojan c of None \<Rightarrow> Fail ''buildTrojan: Common.Trojan is nil'' | Some v \<Rightarrow>
    (case op_XrayOptions config of None \<Rightarrow> Fail ''buildTrojan: XrayOptions is nil'' | Some x \<Rightarrow>
       bindR (if xo_EnableFallback x
              then bindR (buildTrojanFallbacks V (xo_FallBackConfigs x)) (\<lambda>fs. Ret (TrojanSettings (Some fs)))
              else Ret (TrojanSettings None)) (\<lambda>s.
       bindR (trojan_stream ''trojan'' (if tr_Network v = '''' then ''tcp'' else tr_Network v) (tr_TransportConfig v)) (\<lambda>st.
         Ret (inb\<lparr>ix_Protocol := ''trojan'', ix_Settings := Some s, ix_StreamSetting := Some st\<rparr>)))))"

definition contains2022 :: "string \<Rightarrow> bool" where
  "contains2022 s \<longleftrightarrow> (\<exists>i \<in> set [0..<length s]. take 4 (drop i s) = ''2022'')"

definition buildShadowsocks :: "('ip, 'cfg) xray_lib \<Rightarrow> Options \<Rightarrow> CommonNode \<Rightarrow> 'ip InboundDetourConfig \<Rightarrow> 'ip InboundDetourConfig outcome" where
  "buildShadowsocks V config c inb =
    (case cn_Shadowsocks c of None \<Rightarrow> Fail ''buildShadowsocks: Common.Shadowsocks is nil'' | Some s \<Rightarrow>
    (case op_XrayOptions config of None \<Rightarrow> Fail ''buildShadowsocks: XrayOptions is nil'' | Some x \<Rightarrow>
    (case ValidateShadowsocksCipher (xv_b64dec V) (ss_Cipher s) (ss_ServerKey s) of Some e \<Rightarrow> Fail ''shadowsocks cipher'' | None \<Rightarrow>
    (case xv_rand V 32 of None \<Rightarrow> Fail ''generate random password error'' | Some p \<Rightarrow>
       (let is2022 = (ss_ServerKey s \<noteq> '''' \<and> contains2022 (ss_Cipher s));
            passwd = (if is2022 then xv_b64enc V (xv_hex V p) else xv_hex V p);
            settings = \<lparr>xs_Cipher = ss_Cipher s, xs_Password = (if is2022 then ss_ServerKey s else ''''),
              xs_Users = [(if is2022 then '''' else ss_Cipher s, passwd)], xs_NetworkList = [''tcp'', ''udp''],
              xs_IVCheck = \<not> xo_DisableIVCheck x\<rparr>
        in Ret (inb\<lparr>ix_Protocol := ''shadowsocks'', ix_Settings := Some (ShadowsocksSettings settings),
                  ix_StreamSetting := Some (stream ''tcp'')\<rparr>))))))"

definition buildRealitySettings :: "('ip, 'cfg) xray_lib \<Rightarrow> VlessNode \<Rightarrow> REALITYConfig outcome" where
  "buildRealitySettings V v =
    (case vl_SecurityConfig v of
       None \<Rightarrow> Fail ''invalid reality config: missing security_config''
     | Some sc \<Rightarrow>
         if sc_SNI sc = '''' then Fail ''invalid reality config: missing sni / server_name''
         else if sc_RealityPrivateKey sc = '''' then Fail ''invalid reality config: missing reality_private_key''
         else (let dest = (if sc_RealityServerAddress sc = '''' then sc_SNI sc else sc_RealityServerAddress sc) in
           if dest = '''' then Fail ''invalid reality config: missing reality_server_addr (and sni fallback)''
           else if sc_RealityServerPort sc \<le> 0 \<or> sc_RealityServerPort sc > 65535
             then Fail ''invalid reality config: bad reality_server_port''
           else Ret \<lparr>re_Dest = xv_quote V (dest @ '':'' @ Itoa (sc_RealityServerPort sc)), re_ServerNames = [sc_SNI sc],
                     re_PrivateKey = sc_RealityPrivateKey sc, re_ShortIds = [sc_RealityShortId sc],
                     re_Mldsa65Seed = sc_RealityMldsa65seed sc\<rparr>))"

section \<open>The inbound\<close>

text \<open>The switch on the protocol: port, security, network and what the builder made.\<close>

definition xray_head :: "('ip, 'cfg) xray_lib \<Rightarrow> Options \<Rightarrow> CommonNode
    \<Rightarrow> (uint16 \<times> string \<times> string \<times> 'ip InboundDetourConfig) outcome" where
  "xray_head V opt c =
    (let p = cn_Protocol c in
     if p = ''vless'' then
       (case cn_Vless c of None \<Rightarrow> Fail ''buildInbound: vless protocol but Common.Vless is nil''
        | Some v \<Rightarrow> bindR (buildVless V opt c zero_inbound) (\<lambda>i. Ret (word_of_int (vl_Port v), vl_Security v, vl_Network v, i)))
     else if p = ''vmess'' then
       (case cn_Vmess c of None \<Rightarrow> Fail ''buildInbound: vmess protocol but Common.Vmess is nil''
        | Some v \<Rightarrow> bindR (buildVmess opt c zero_inbound) (\<lambda>i. Ret (word_of_int (vm_Port v), vm_Security v, vm_Network v, i)))
     else if p = ''trojan'' then
       (case cn_Trojan c of None \<Rightarrow> Fail ''buildInbound: trojan protocol but Common.Trojan is nil''
        | Some v \<Rightarrow> bindR (buildTrojan V opt c zero_inbound) (\<lambda>i. Ret (word_of_int (tr_Port v), tr_Security v,
            if tr_Network v \<noteq> '''' then tr_Network v else ''tcp'', i)))
     else if p = ''shadowsocks'' then
       (case cn_Shadowsocks c of None \<Rightarrow> Fail ''buildInbound: shadowsocks protocol but Common.Shadowsocks is nil''
        | Some v \<Rightarrow> bindR (buildShadowsocks V opt c zero_inbound) (\<lambda>i. Ret (word_of_int (ss_Port v), '''', ''tcp'', i)))
     else Fail ''unsupported node type'')"

text \<open>The settings of the network get the PROXY protocol flag.\<close>

definition network_settings :: "XrayOptions \<Rightarrow> string \<Rightarrow> StreamConfig \<Rightarrow> StreamConfig" where
  "network_settings x network st =
    (let acc = xo_EnableProxyProtocol x;
         ws = (\<lambda>w. Some (case w of None \<Rightarrow> \<lparr>wc_Host = '''', wc_Path = '''', wc_AcceptProxyProtocol = acc\<rparr>
                          | Some c \<Rightarrow> c\<lparr>wc_AcceptProxyProtocol := acc\<rparr>))
     in if network = ''tcp'' then st\<lparr>st_TCPSettings := Some acc\<rparr>
        else if network = ''ws'' \<or> network = ''websocket'' then st\<lparr>st_WSSettings := ws (st_WSSettings st)\<rparr>
        else if network = ''httpupgrade'' then st\<lparr>st_HTTPUPGRADESettings := ws (st_HTTPUPGRADESettings st)\<rparr>
        else st\<lparr>st_SocketSettings := Some \<lparr>sk_AcceptProxyProtocol = acc, sk_TFO = xo_EnableTFO x\<rparr>\<rparr>)"

definition security_settings :: "('ip, 'cfg) xray_lib \<Rightarrow> Options \<Rightarrow> CommonNode \<Rightarrow> string \<Rightarrow> StreamConfig \<Rightarrow> StreamConfig outcome" where
  "security_settings V opt c security st =
    (if security = ''tls'' then
       (case op_CertConfig opt of
          None \<Rightarrow> Fail ''invalid tls config: missing CertConfig''
        | Some cc \<Rightarrow>
            if cc_CertMode cc = ''none'' \<or> cc_CertMode cc = '''' then Ret st
            else Ret (st\<lparr>st_Security := ''tls'', st_TLSSettings := Some \<lparr>tl_CertFile = cc_CertFile cc,
                   tl_KeyFile = cc_KeyFile cc, tl_OcspStapling = 3600, tl_RejectUnknownSNI = cc_RejectUnknownSni cc\<rparr>\<rparr>))
     else if security = ''reality'' then
       (case cn_Vless c of
          None \<Rightarrow> Fail ''invalid reality config: not a vless node''
        | Some v \<Rightarrow> bindR (buildRealitySettings V v) (\<lambda>r.
            Ret (st\<lparr>st_Security := ''reality'', st_REALITYSettings := Some r\<rparr>)))
     else Ret st)"

text \<open>Before the final \<open>Build\<close>. A stream the builder did not allocate is allocated, then dereferenced.\<close>

definition inbound_config :: "('ip, 'cfg) xray_lib \<Rightarrow> Options \<Rightarrow> NodeInfo option \<Rightarrow> string \<Rightarrow> 'ip InboundDetourConfig outcome" where
  "inbound_config V opt nodeInfo tag =
    (case nodeInfo of None \<Rightarrow> Fail ''buildInbound: nodeInfo or Common is nil'' | Some n \<Rightarrow>
    (case ni_Common n of None \<Rightarrow> Fail ''buildInbound: nodeInfo or Common is nil'' | Some c \<Rightarrow>
    (case op_XrayOptions opt of None \<Rightarrow> Fail ''buildInbound: option or XrayOptions is nil'' | Some x \<Rightarrow>
       bindR (xray_head V opt c) (\<lambda>(port, security, net, inb).
         (let network = (if net = '''' then ''tcp'' else net);
              inb1 = inb\<lparr>ix_PortFrom := ucast port, ix_PortTo := ucast port,
                ix_ListenOn := Some (xv_ParseAddress V (op_ListenIP opt)),
                ix_SniffingEnabled := \<not> xo_DisableSniffing x, ix_DestOverride := [''http'', ''tls'']\<rparr>;
              inb2 = (if ix_StreamSetting inb1 = None then inb1\<lparr>ix_StreamSetting := Some (stream network)\<rparr> else inb1)
          in bindR (deref (ix_StreamSetting inb2)) (\<lambda>st.
             bindR (security_settings V opt c security (network_settings x network st)) (\<lambda>st1.
               Ret (inb2\<lparr>ix_StreamSetting := Some st1, ix_Tag := tag\<rparr>))))))))"

definition buildInbound :: "('ip, 'cfg) xray_lib \<Rightarrow> Options \<Rightarrow> NodeInfo option \<Rightarrow> string \<Rightarrow> 'cfg outcome" where
  "buildInbound V opt nodeInfo tag = bindR (inbound_config V opt nodeInfo tag) (xv_Build V)"

section \<open>The outbound and the node\<close>

record OutboundDetourConfig =
  ox_Protocol :: string
  ox_Tag :: string
  ox_SendThrough :: "string option"
  ox_DomainStrategy :: string

definition buildOutbound :: "(OutboundDetourConfig \<Rightarrow> 'out outcome) \<Rightarrow> Options \<Rightarrow> string \<Rightarrow> 'out outcome" where
  "buildOutbound build config tag =
    bindR (deref (op_XrayOptions config)) (\<lambda>x.
      (let domainStrategy = (if xo_EnableDNS x then (if xo_DNSType x \<noteq> '''' then xo_DNSType x else ''UseIP'') else ''Asis'')
       in build \<lparr>ox_Protocol = ''freedom'', ox_Tag = tag,
            ox_SendThrough = (if op_SendIP config \<noteq> '''' then Some (op_SendIP config) else None),
            ox_DomainStrategy = domainStrategy\<rparr>))"

text \<open>The server's managers; adding creates the handler from its configuration.\<close>

record ('cfg, 'out, 'x) xray_server =
  xm_BuildOut :: "OutboundDetourConfig \<Rightarrow> 'out outcome"
  xm_AddIn :: "'cfg \<Rightarrow> 'x \<Rightarrow> unit outcome \<times> 'x"
  xm_AddOut :: "'out \<Rightarrow> 'x \<Rightarrow> unit outcome \<times> 'x"
  xm_RemoveIn :: "string \<Rightarrow> 'x \<Rightarrow> unit outcome \<times> 'x"
  xm_RemoveOut :: "string \<Rightarrow> 'x \<Rightarrow> unit outcome \<times> 'x"

definition wrapErr :: "string \<Rightarrow> unit outcome \<times> 'x \<Rightarrow> unit outcome \<times> 'x" where
  "wrapErr msg rx = (case rx of (Fail e, x) \<Rightarrow> (Fail msg, x) | _ \<Rightarrow> rx)"

definition Xray_AddNode :: "('ip, 'cfg) xray_lib \<Rightarrow> ('cfg, 'out, 'x) xray_server \<Rightarrow> string \<Rightarrow> NodeInfo \<Rightarrow> Options \<Rightarrow> 'x
    \<Rightarrow> unit outcome \<times> Options \<times> 'x" where
  "Xray_AddNode V S tag info config x =
    (case buildInbound V config (Some info) tag of
       Fail e \<Rightarrow> (Fail ''build inbound error'', config, x)
     | Panic \<Rightarrow> (Panic, config, x)
     | Ret inboundConfig \<Rightarrow>
         (case wrapErr ''add inbound error'' (xm_AddIn S inboundConfig x) of
            (Ret _, x1) \<Rightarrow>
              (case buildOutbound (xm_BuildOut S) config tag of
                 Fail e \<Rightarrow> (Fail ''build outbound error'', config, x1)
               | Panic \<Rightarrow> (Panic, config, x1)
               | Ret outBoundConfig \<Rightarrow>
                   (case wrapErr ''add outbound error'' (xm_AddOut S outBoundConfig x1) of (r, x2) \<Rightarrow> (r, config, x2)))
          | (e, x1) \<Rightarrow> (e, config, x1)))"

definition Xray_DelNode :: "('cfg, 'out, 'x) xray_server \<Rightarrow> string \<Rightarrow> 'x \<Rightarrow> unit outcome \<times> 'x" where
  "Xray_DelNode S tag x =
    (case wrapErr ''remove in error'' (xm_RemoveIn S tag x) of
       (Ret _, x1) \<Rightarrow> wrapErr ''remove out error'' (xm_RemoveOut S tag x1)
     | (e, x1) \<Rightarrow> (e, x1))"

section \<open>No panic\<close>

lemma fallback_loop_no_panic: "fallback_loop V cs \<noteq> Panic"
proof (induction cs)
  case (Cons c cs)
  then show ?case by (auto simp: ensure_def bindR_Panic split: if_splits)
qed simp

lemma stream_no_panic: "trojan_stream w n tc \<noteq> Panic" "vless_stream w n tc \<noteq> Panic"
  by (auto simp: trojan_stream_def vless_stream_def Let_def split: prod.split)

lemma builders_no_panic:
  "buildVless V opt c i \<noteq> Panic" "buildVmess opt c i \<noteq> Panic" "buildTrojan V opt c i \<noteq> Panic"
  "buildShadowsocks V opt c i \<noteq> Panic" "buildRealitySettings V v \<noteq> Panic"
  by (auto simp: buildVless_def buildVmess_def buildTrojan_def buildShadowsocks_def buildRealitySettings_def
      buildVlessFallbacks_def buildTrojanFallbacks_def Let_def fallback_loop_no_panic stream_no_panic bindR_Panic split: option.splits if_splits)


lemma xray_head_no_panic: "xray_head V opt c \<noteq> Panic"
  by (auto simp: xray_head_def Let_def builders_no_panic bindR_Panic split: option.splits if_splits)

lemma security_no_panic: "security_settings V opt c sec st \<noteq> Panic"
  by (auto simp: security_settings_def builders_no_panic bindR_Panic split: option.splits if_splits)

lemma inbound_config_no_panic: "inbound_config V opt n tag \<noteq> Panic"
  by (auto simp: inbound_config_def Let_def security_no_panic xray_head_no_panic bindR_Panic split: option.splits if_splits)

text \<open>C31: No payload of the panel makes xray panic. Whatever the description says and whatever parts of
  it or of the local options are missing, adding a node returns, as long as the server's own calls
  do; in particular the outbound, which reads the xray options unchecked, is only reached with options
  present.\<close>

theorem xray_add_node_never_panics:
  assumes "\<And>c. xv_Build V c \<noteq> Panic" and "\<And>c. xm_BuildOut S c \<noteq> Panic"
    and "\<And>c x. fst (xm_AddIn S c x) \<noteq> Panic" and "\<And>c x. fst (xm_AddOut S c x) \<noteq> Panic"
  shows "fst (Xray_AddNode V S tag info opt x) \<noteq> Panic"
proof (cases "buildInbound V opt (Some info) tag")
  case (Ret cfg)
  then obtain xo where xo: "op_XrayOptions opt = Some xo"
    by (auto simp: buildInbound_def inbound_config_def bindR_Ret split: option.splits)
  obtain r1 x1 where a: "xm_AddIn S cfg x = (r1, x1)" by force
  have r1: "r1 \<noteq> Panic" using assms(3) [of cfg x] a by simp
  have out: "buildOutbound (xm_BuildOut S) opt tag \<noteq> Panic"
    using xo assms(2) by (simp add: buildOutbound_def Let_def)
  show ?thesis
  proof (cases "buildOutbound (xm_BuildOut S) opt tag")
    case (Ret out)
    obtain r2 x2 where b: "xm_AddOut S out x1 = (r2, x2)" by force
    have "r2 \<noteq> Panic" using assms(4) [of out x1] b by simp
    with r1 a b Ret \<open>buildInbound V opt (Some info) tag = Ret cfg\<close> show ?thesis
      by (cases r1; cases r2) (simp_all add: Xray_AddNode_def wrapErr_def)
  qed (use out r1 a \<open>buildInbound V opt (Some info) tag = Ret cfg\<close> in \<open>cases r1; simp add: Xray_AddNode_def wrapErr_def\<close>)+
next
  case Panic
  with inbound_config_no_panic [of V opt "Some info" tag] assms(1) have False
    by (auto simp: buildInbound_def bindR_Panic)
  then show ?thesis ..
qed (simp add: Xray_AddNode_def)

section \<open>A node whose outbound fails\<close>

text \<open>A failed start leaves an xray inbound behind. When the inbound of a starting controller was
  added and its outbound cannot be, the core reports an error without taking the inbound away, and
  the controller's rollback takes back the limiter and the ports but not the inbound, for it never saw
  the node added: the inbound stays up with nobody owning it. (\<open>ins\<close> are the tags of the server's
  inbounds; adding an inbound adds its tag and outbounds have no effect on them.)\<close>

lemma failed_outbound_leaks_inbound:
  assumes "co_AddNode (ev_core E) = Xray_AddNode V S" and "\<not> sf_node fl"
    and "buildInbound V (ct_options c) (Some node) (ct_runtimeKey c) = Ret cfg"
    and "xm_AddIn S cfg (wd_core w) = (Ret (), x1)" and "ct_runtimeKey c \<in> ins x1"
    and "\<And>out x r x'. xm_AddOut S out x = (r, x') \<Longrightarrow> ins x' = ins x"
    and "start_node E node (fl, w, c) = (Fail e, s')"
  shows "ct_runtimeKey c \<in> ins (wd_core (fst (start_rollback E s'))) \<and>
     (sf_limiter fl \<longrightarrow>
        GetLimiterByRuntimeKey (wd_lim (fst (start_rollback E s'))) (RuntimeKey (ct_coreType c) (ct_logicalTag c)) = Fail ''not found'')"
proof -
  obtain r opt k where a: "Xray_AddNode V S (ct_runtimeKey c) node (ct_options c) (wd_core w) = (r, opt, k)" by (metis prod_cases3)
  have ins: "ins k = ins x1"
  proof (cases "buildOutbound (xm_BuildOut S) (ct_options c) (ct_runtimeKey c)")
    case (Ret out)
    obtain r2 x2 where b: "xm_AddOut S out x1 = (r2, x2)" by force
    with assms(6) have "ins x2 = ins x1" by blast
    with a b Ret assms(3,4) show ?thesis by (cases r2) (auto simp: Xray_AddNode_def wrapErr_def)
  qed (use a assms(3,4) in \<open>auto simp: Xray_AddNode_def wrapErr_def\<close>)
  have s': "s' = (fl, w\<lparr>wd_core := k\<rparr>, c\<lparr>ct_options := opt\<rparr>)"
    using assms(7) a by (cases r) (auto simp: start_node_def assms(1))
  show ?thesis using assms(2,5) ins
    by (auto simp: s' start_rollback_def Let_def DeleteLimiter_def GetLimiterByRuntimeKey_def)
qed

definition demo_xray_lib :: "(string, string) xray_lib" where
  "demo_xray_lib = \<lparr>xv_ParseAddress = (\<lambda>s. s), xv_rand = (\<lambda>n. Some (replicate n (CHR ''r''))), xv_hex = (\<lambda>s. s),
     xv_b64enc = (\<lambda>s. s), xv_b64dec = Some, xv_quote = (\<lambda>s. s), xv_Build = (\<lambda>i. Ret (ix_Tag i))\<rparr>"

definition demo_server :: "(string, string, string list) xray_server" where
  "demo_server = \<lparr>xm_BuildOut = (\<lambda>d. Ret (ox_Tag d)), xm_AddIn = (\<lambda>t x. (Ret (), t # x)),
     xm_AddOut = (\<lambda>t x. (Fail ''existing tag'', x)), xm_RemoveIn = (\<lambda>t x. (Ret (), removeAll t x)),
     xm_RemoveOut = (\<lambda>t x. (Ret (), x))\<rparr>"

definition vless_node :: NodeInfo where
  "vless_node = \<lparr>ni_Id = 1, ni_Type = ''vless'', ni_PushInterval = 0, ni_PullInterval = 0,
     ni_Common = Some ((empty_common ''vless'')\<lparr>cn_Vless := Some \<lparr>vl_Port = 443, vl_Flow = '''', vl_Network = ''ws'',
       vl_TransportConfig = None, vl_Security = ''tls'', vl_SecurityConfig = None\<rparr>\<rparr>)\<rparr>"

definition xray_options :: Options where
  "xray_options = zero_options\<lparr>op_Core := ''xray'', op_ListenIP := ''0.0.0.0'', op_XrayOptions := Some NewXrayOptions,
     op_CertConfig := Some (NewCertConfig\<lparr>cc_CertMode := ''file'', cc_CertFile := ''c'', cc_KeyFile := ''k''\<rparr>)\<rparr>"

definition xray_controller :: Controller where
  "xray_controller = demo_controller\<lparr>ct_options := xray_options, ct_runtimeKey := ''xray|n''\<rparr>"

definition xray_env :: "string list env" where
  "xray_env = demo_env\<lparr>ev_core := demo_core\<lparr>co_AddNode := Xray_AddNode demo_xray_lib demo_server\<rparr>\<rparr>"

definition all_flags :: start_flags where
  "all_flags = \<lparr>sf_listener = True, sf_limiter = True, sf_node = False\<rparr>"

theorem xray_add_node_never_panics_witness:
  "fst (Xray_AddNode demo_xray_lib demo_server ''xray|n'' vless_node zero_options []) \<noteq> Panic"
  by (rule xray_add_node_never_panics) (simp_all add: demo_xray_lib_def demo_server_def)

lemma failed_outbound_leaks_inbound_example:
  "\<exists>e s'. start_node xray_env vless_node (all_flags, demo_world, xray_controller) = (Fail e, s') \<and>
     ''xray|n'' \<in> set (wd_core (fst (start_rollback xray_env s')))"
proof -
  let ?r = "start_node xray_env vless_node (all_flags, demo_world, xray_controller)"
  have "case fst ?r of Fail _ \<Rightarrow> True | Ret _ \<Rightarrow> False | Panic \<Rightarrow> False" by code_simp
  then obtain e s' where r: "?r = (Fail e, s')" by (cases ?r; cases "fst ?r") simp_all
  have b: "buildInbound demo_xray_lib (ct_options xray_controller) (Some vless_node) (ct_runtimeKey xray_controller) = Ret ''xray|n''"
    by code_simp
  have E: "co_AddNode (ev_core xray_env) = Xray_AddNode demo_xray_lib demo_server" by (simp add: xray_env_def)
  have n: "\<not> sf_node all_flags" by (simp add: all_flags_def)
  have a: "xm_AddIn demo_server ''xray|n'' (wd_core demo_world) = (Ret (), [''xray|n''])"
    by (simp add: demo_server_def demo_world_def)
  have rk: "ct_runtimeKey xray_controller = ''xray|n''" by (simp add: xray_controller_def)
  have "ct_runtimeKey xray_controller \<in> set (wd_core (fst (start_rollback xray_env s')))"
    by (rule failed_outbound_leaks_inbound [OF E n b a _ _ r, THEN conjunct1]) (auto simp: rk demo_server_def)
  with r rk show ?thesis by simp
qed

section \<open>Where an inbound listens and when it is encrypted\<close>

lemma stream_security [simp]:
  "st_Security (stream n) = ''''"
  by (simp add: stream_def)

lemma transport_security:
  "trojan_stream w n tc = Ret st \<Longrightarrow> st_Security st = ''''"
  "vless_stream w n tc = Ret st \<Longrightarrow> st_Security st = ''''"
proof -
  show t: "trojan_stream w n tc = Ret st \<Longrightarrow> st_Security st = ''''"
    unfolding trojan_stream_def Let_def by (elim if_Ret) (simp_all only: outcome.inject outcome.distinct, auto)
  obtain host path where hp: "transportHostPath tc = (host, path)" by force
  show "vless_stream w n tc = Ret st \<Longrightarrow> st_Security st = ''''"
    unfolding vless_stream_def Let_def hp prod.case
    by (elim if_Ret) (use t in \<open>simp_all only: outcome.inject, auto\<close>)
qed

definition cleartext :: "'ip InboundDetourConfig \<Rightarrow> bool" where
  "cleartext i \<longleftrightarrow> (\<exists>st. ix_StreamSetting i = Some st \<and> st_Security st = '''')"

lemma builders_stream:
  "buildVless V opt c z = Ret i \<Longrightarrow> cleartext i"
  "buildVmess opt c z = Ret i \<Longrightarrow> cleartext i"
  "buildTrojan V opt c z = Ret i \<Longrightarrow> cleartext i"
  "buildShadowsocks V opt c z = Ret i \<Longrightarrow> cleartext i"
proof -
  show "buildVless V opt c z = Ret i \<Longrightarrow> cleartext i"
    by (auto simp: buildVless_def cleartext_def transport_security split: option.splits elim!: bindR_elim)
  show "buildVmess opt c z = Ret i \<Longrightarrow> cleartext i"
    by (auto simp: buildVmess_def cleartext_def transport_security split: option.splits elim!: bindR_elim)
  show "buildTrojan V opt c z = Ret i \<Longrightarrow> cleartext i"
    by (auto simp: buildTrojan_def cleartext_def transport_security split: option.splits elim!: bindR_elim)
  show "buildShadowsocks V opt c z = Ret i \<Longrightarrow> cleartext i"
    by (auto simp: buildShadowsocks_def Let_def cleartext_def split: option.splits)
qed

lemma xray_head_spec:
  assumes "xray_head V opt c = Ret (port, sec, net, i)" and "ni_Common n = Some c"
  shows "protocolPort n = Ret port \<and> protocolSecurity n = Ret sec \<and> cleartext i"
  using assms unfolding xray_head_def Let_def
  by (elim if_Ret) (simp_all add: protocolPort_def payload_port_def protocolSecurity_def Let_def builders_stream
      split: option.split_asm, (elim bindR_elim; simp add: builders_stream)+)

definition secured :: "Options \<Rightarrow> string \<Rightarrow> StreamConfig \<Rightarrow> bool" where
  "secured opt sec st \<longleftrightarrow>
     (if sec = ''reality'' then st_Security st = ''reality'' \<and> st_REALITYSettings st \<noteq> None
      else if sec = ''tls'' then (\<exists>cc. op_CertConfig opt = Some cc \<and>
        (if cc_CertMode cc \<in> {''none'', ''''} then st_Security st = ''''
         else st_Security st = ''tls'' \<and> (\<exists>t. st_TLSSettings st = Some t \<and> tl_CertFile t = cc_CertFile cc \<and> tl_KeyFile t = cc_KeyFile cc)))
      else st_Security st = '''')"

lemma security_settings_secured:
  assumes "security_settings V opt c sec st = Ret st1" and "st_Security st = ''''"
  shows "secured opt sec st1"
proof -
  consider (tls) "sec = ''tls''" | (reality) "sec = ''reality''" | (none) "sec \<noteq> ''tls''" "sec \<noteq> ''reality''" by blast
  then show ?thesis
  proof cases
    case tls
    with assms obtain cc where cc: "op_CertConfig opt = Some cc" by (cases "op_CertConfig opt") (simp_all add: security_settings_def)
    then show ?thesis
      using assms tls by (cases "cc_CertMode cc \<in> {''none'', ''''}") (auto simp: security_settings_def secured_def)
  next
    case reality
    with assms obtain v where v: "cn_Vless c = Some v" by (cases "cn_Vless c") (simp_all add: security_settings_def)
    with assms reality show ?thesis by (auto simp: security_settings_def secured_def elim!: bindR_elim)
  next
    case none
    with assms show ?thesis by (simp add: security_settings_def secured_def)
  qed
qed

text \<open>C32: An xray inbound listens where the port registry reserved. When an inbound can be built, its one
  port is that of every listener reserved for the same node, its address the configured one, and the
  stream it carries is secured exactly as the controller decided when it fetched a certificate: by
  reality, or by TLS with the configured files unless the certificate mode is none.\<close>

theorem xray_listens_where_reserved:
  assumes "inbound_config V opt (Some info) tag = Ret i" and "listenerSpecsFor info (op_ListenIP opt) = Ret specs"
    and "protocolSecurity info = Ret sec"
  shows "ix_PortTo i = ix_PortFrom i \<and> (\<forall>sp \<in> set specs. ix_PortFrom i = ucast (ls_port sp) \<and> ls_addr sp = op_ListenIP opt) \<and>
    ix_ListenOn i = Some (xv_ParseAddress V (op_ListenIP opt)) \<and> ix_Tag i = tag \<and>
    (\<exists>st. ix_StreamSetting i = Some st \<and> secured opt sec st)"
proof -
  obtain c where c: "ni_Common info = Some c" using assms(1) by (cases "ni_Common info") (simp_all add: inbound_config_def)
  obtain x where x: "op_XrayOptions opt = Some x"
    using assms(1) c by (cases "op_XrayOptions opt") (simp_all add: inbound_config_def)
  obtain port sec' net inb where h: "xray_head V opt c = Ret (port, sec', net, inb)"
    using assms(1) c x by (cases "xray_head V opt c") (auto simp: inbound_config_def)
  note hs = xray_head_spec [OF h c]
  then obtain st where st: "ix_StreamSetting inb = Some st" "st_Security st = ''''" by (auto simp: cleartext_def)
  let ?n = "network_settings x (if net = '''' then ''tcp'' else net) st"
  obtain st1 where sec: "security_settings V opt c sec' ?n = Ret st1"
    and i: "ix_PortFrom i = ucast port" "ix_PortTo i = ucast port" "ix_ListenOn i = Some (xv_ParseAddress V (op_ListenIP opt))"
      "ix_Tag i = tag" "ix_StreamSetting i = Some st1"
    using assms(1) c x h st(1) by (auto simp: inbound_config_def Let_def elim!: bindR_elim)
  have net: "st_Security ?n = ''''" using st(2) by (simp add: network_settings_def Let_def)
  have s: "sec' = sec" using hs assms(3) by simp
  from listenerSpecsFor_shape [OF assms(2)] hs have sp: "\<forall>sp \<in> set specs. ls_port sp = port \<and> ls_addr sp = op_ListenIP opt" by auto
  from security_settings_secured [OF sec net] have "secured opt sec st1" unfolding s .
  with i sp show ?thesis by simp
qed

theorem xray_listens_where_reserved_witness:
  "\<exists>i st. inbound_config demo_xray_lib xray_options (Some vless_node) ''xray|n'' = Ret i \<and> ix_PortFrom i = 443 \<and>
     ix_StreamSetting i = Some st \<and> st_Security st = ''tls''"
proof -
  let ?i = "inbound_config demo_xray_lib xray_options (Some vless_node) ''xray|n''"
  have "case ?i of Ret _ \<Rightarrow> True | Fail _ \<Rightarrow> False | Panic \<Rightarrow> False" by code_simp
  then obtain i where i: "?i = Ret i" by (cases ?i) simp_all
  have l: "listenerSpecsFor vless_node (op_ListenIP xray_options) = Ret [\<lparr>ls_addr = ''0.0.0.0'', ls_port = 443, ls_transport = ''tcp''\<rparr>]"
    by (simp add: listenerSpecsFor_def protocolPort_def payload_port_def protocolTransports_def empty_common_def
        vless_node_def xray_options_def)
  have s: "protocolSecurity vless_node = Ret ''tls''" by (simp add: protocolSecurity_def vless_node_def empty_common_def)
  have cc: "op_CertConfig xray_options = Some cc \<longleftrightarrow> cc = NewCertConfig\<lparr>cc_CertMode := ''file'', cc_CertFile := ''c'', cc_KeyFile := ''k''\<rparr>" for cc
    by (auto simp: xray_options_def)
  from xray_listens_where_reserved [OF i l s] i show ?thesis by (auto simp: cc secured_def)
qed

end
