(* ===== verification/SingInbound.thy ===== *)
theory SingInbound
  imports Outcomes NodeMgr
begin

text \<open>
  \<open>core/sing/node.go\<close> and \<open>core/sing/utils.go\<close>: the options of a sing-box inbound, built from the
  panel's node description and the local options. The option structs are those of sing-box, with the
  fields the code sets. Parsing addresses and URLs, base64 and the random source of the standard
  library are parameters, and so is the inbound manager of the running box.
\<close>

section \<open>The options of an inbound\<close>

record 'ip sing_lib =
  sv_ParseAddr :: "string \<Rightarrow> 'ip option"
  sv_ParseURL :: "string \<Rightarrow> (string \<times> string) option"
  sv_rand :: "nat \<Rightarrow> string"
  sv_b64enc :: "string \<Rightarrow> string"
  sv_b64dec :: "string \<Rightarrow> string option"

record 'ip ListenOptions =
  sl_Listen :: 'ip
  sl_ListenPort :: uint16
  sl_TCPFastOpen :: bool

record ServerOptions =
  sr_Server :: string
  sr_ServerPort :: uint16

record InboundRealityOptions =
  ir_Enabled :: bool
  ir_ShortID :: "string list"
  ir_PrivateKey :: string
  ir_Handshake :: ServerOptions

record InboundTLSOptions =
  it_Enabled :: bool
  it_CertificatePath :: string
  it_KeyPath :: string
  it_ServerName :: string
  it_Reality :: "InboundRealityOptions option"
  it_ALPN :: "string list"

record V2RayWebsocketOptions =
  vw_Path :: string
  vw_EarlyDataHeaderName :: string
  vw_MaxEarlyData :: "32 word"
  vw_Headers :: "(string, string list) gomap option"

text \<open>The options of a transport are \<open>None\<close> where the code leaves the zero struct.\<close>

record V2RayTransportOptions =
  vt_Type :: string
  vt_WebsocketOptions :: "V2RayWebsocketOptions option"
  vt_GRPCOptions :: "string option"
  vt_HTTPOptions :: "(string list \<times> string) option"
  vt_HTTPUpgradeOptions :: "(string \<times> string) option"

datatype 'ip inbound_options =
    VLESSInbound "'ip ListenOptions" InboundTLSOptions V2RayTransportOptions "MultiplexConfig option"
  | VMessInbound "'ip ListenOptions" InboundTLSOptions V2RayTransportOptions "MultiplexConfig option"
  | ShadowsocksInbound "'ip ListenOptions" string string "string list" "MultiplexConfig option"
  | TrojanInbound "'ip ListenOptions" InboundTLSOptions V2RayTransportOptions "MultiplexConfig option"
      "ServerOptions option" "(string, ServerOptions) gomap option"
  | TUICInbound "'ip ListenOptions" InboundTLSOptions
  | AnyTLSInbound "'ip ListenOptions" InboundTLSOptions
  | Hysteria2Inbound "'ip ListenOptions" InboundTLSOptions "(string \<times> string) option" int int bool

record 'ip Inbound =
  ib_Tag :: string
  ib_Type :: string
  ib_Options :: "'ip inbound_options"

section \<open>Building them\<close>

text \<open>Port, security and server name of the protocol.\<close>

definition sing_head :: "CommonNode \<Rightarrow> (uint16 \<times> string \<times> string) outcome" where
  "sing_head c =
    (let p = cn_Protocol c;
         sni = (\<lambda>sc. bindR (deref sc) (\<lambda>s. Ret (sc_SNI s)));
         guarded = (\<lambda>sec sc. if sec = ''tls'' \<or> sec = ''reality'' then sni sc else Ret '''');
         port = (\<lambda>n. (word_of_int n :: uint16))
     in if p = ''vless'' then
          bindR (deref (cn_Vless c)) (\<lambda>v. bindR (guarded (vl_Security v) (vl_SecurityConfig v)) (\<lambda>s.
            Ret (port (vl_Port v), vl_Security v, s)))
        else if p = ''vmess'' then
          bindR (deref (cn_Vmess c)) (\<lambda>v. bindR (guarded (vm_Security v) (vm_SecurityConfig v)) (\<lambda>s.
            Ret (port (vm_Port v), vm_Security v, s)))
        else if p = ''trojan'' then
          bindR (deref (cn_Trojan c)) (\<lambda>v. bindR (sni (tr_SecurityConfig v)) (\<lambda>s. Ret (port (tr_Port v), ''tls'', s)))
        else if p = ''shadowsocks'' then
          bindR (deref (cn_Shadowsocks c)) (\<lambda>v. Ret (port (ss_Port v), '''', ''''))
        else if p = ''tuic'' then
          bindR (deref (cn_Tuic c)) (\<lambda>v. bindR (sni (tu_SecurityConfig v)) (\<lambda>s. Ret (port (tu_Port v), ''tls'', s)))
        else if p = ''hysteria'' \<or> p = ''hysteria2'' then
          bindR (deref (cn_Hysteria2 c)) (\<lambda>v. bindR (sni (hy_SecurityConfig v)) (\<lambda>s. Ret (port (hy_Port v), ''tls'', s)))
        else if p = ''anytls'' then
          bindR (deref (cn_AnyTLS c)) (\<lambda>v. bindR (sni (at_SecurityConfig v)) (\<lambda>s. Ret (port (at_Port v), ''tls'', s)))
        else Fail ''unsupported sing protocol'')"

definition no_tls :: InboundTLSOptions where
  "no_tls = \<lparr>it_Enabled = False, it_CertificatePath = '''', it_KeyPath = '''', it_ServerName = '''', it_Reality = None, it_ALPN = []\<rparr>"

text \<open>Reality reads the description of vless, whatever the protocol is.\<close>

definition sing_reality :: "CommonNode \<Rightarrow> string \<Rightarrow> InboundTLSOptions outcome" where
  "sing_reality c servername =
    bindR (deref (cn_Vless c)) (\<lambda>vl. bindR (deref (vl_SecurityConfig vl)) (\<lambda>v.
      (let dest = (if sc_RealityServerAddress v \<noteq> '''' then sc_RealityServerAddress v else servername)
       in Ret (no_tls\<lparr>it_Enabled := True, it_ServerName := servername,
            it_Reality := Some \<lparr>ir_Enabled = True, ir_ShortID = [sc_RealityShortId v], ir_PrivateKey = sc_RealityPrivateKey v,
              ir_Handshake = \<lparr>sr_Server = dest, sr_ServerPort = word_of_int (sc_RealityServerPort v)\<rparr>\<rparr>\<rparr>))))"

definition sing_tls :: "CommonNode \<Rightarrow> Options \<Rightarrow> string \<Rightarrow> string \<Rightarrow> InboundTLSOptions outcome" where
  "sing_tls c opt security servername =
    (if security = ''tls'' then
       (case op_CertConfig opt of
          None \<Rightarrow> Fail ''the CertConfig is not vail''
        | Some cc \<Rightarrow>
            if cc_CertMode cc = ''none'' \<or> cc_CertMode cc = '''' then Ret no_tls
            else Ret (no_tls\<lparr>it_Enabled := True, it_CertificatePath := cc_CertFile cc, it_KeyPath := cc_KeyFile cc\<rparr>))
     else if security = ''reality'' then sing_reality c servername
     else Ret no_tls)"

definition zero_transport :: "string \<Rightarrow> V2RayTransportOptions" where
  "zero_transport t = \<lparr>vt_Type = t, vt_WebsocketOptions = None, vt_GRPCOptions = None, vt_HTTPOptions = None,
     vt_HTTPUpgradeOptions = None\<rparr>"

definition sing_websocket :: "'ip sing_lib \<Rightarrow> TransportConfig option \<Rightarrow> V2RayTransportOptions outcome" where
  "sing_websocket V tc =
    (let ws = (\<lambda>path ed headers. (zero_transport ''ws'')\<lparr>vt_WebsocketOptions := Some \<lparr>vw_Path = path,
           vw_EarlyDataHeaderName = ''Sec-WebSocket-Protocol'', vw_MaxEarlyData = word_of_int ed, vw_Headers = headers\<rparr>\<rparr>)
     in case tc of
          None \<Rightarrow> Ret (ws '''' 0 None)
        | Some t \<Rightarrow>
            (case sv_ParseURL V (tc_Path t) of
               None \<Rightarrow> Fail ''parse path error''
             | Some (path, ed) \<Rightarrow> Ret (ws path (fst (Atoi ed)) (Some [(''Host'', [tc_Host t])]))))"

definition sing_grpc :: "TransportConfig option \<Rightarrow> V2RayTransportOptions" where
  "sing_grpc tc = (zero_transport ''grpc'')\<lparr>vt_GRPCOptions := map_option tc_ServiceName tc\<rparr>"

text \<open>The transport of vless and vmess, and that of trojan, which knows fewer kinds.\<close>

definition sing_transport :: "'ip sing_lib \<Rightarrow> string \<Rightarrow> TransportConfig option \<Rightarrow> V2RayTransportOptions outcome" where
  "sing_transport V network tc =
    (if network = ''tcp'' then Ret (zero_transport '''')
     else if network = ''ws'' \<or> network = ''websocket'' then sing_websocket V tc
     else if network = ''grpc'' then Ret (sing_grpc tc)
     else if network = ''http2'' then
       Ret ((zero_transport network)\<lparr>vt_HTTPOptions := map_option (\<lambda>t. ([tc_Host t], tc_Path t)) tc\<rparr>)
     else if network = ''httpupgrade'' then
       Ret ((zero_transport network)\<lparr>vt_HTTPUpgradeOptions := map_option (\<lambda>t. (tc_Path t, tc_Host t)) tc\<rparr>)
     else Ret (zero_transport network))"

definition trojan_transport :: "'ip sing_lib \<Rightarrow> string \<Rightarrow> TransportConfig option \<Rightarrow> V2RayTransportOptions outcome" where
  "trojan_transport V network tc =
    (if network = ''tcp'' then Ret (zero_transport '''')
     else if network = ''ws'' \<or> network = ''websocket'' then sing_websocket V tc
     else if network = ''grpc'' then Ret (sing_grpc tc)
     else Ret (zero_transport ''''))"

text \<open>The fallbacks of trojan: on a port that is no number the map is not used.\<close>

fun processFallback :: "(string, FallBack) gomap \<Rightarrow> (string, ServerOptions) gomap \<Rightarrow> (string, ServerOptions) gomap option" where
  "processFallback [] m = Some m"
| "processFallback ((k, v) # rest) m =
     (case Atoi (fb_ServerPort v) of
        (port, err) \<Rightarrow>
          if err then None
          else processFallback rest (mstore m k \<lparr>sr_Server = fb_Server v, sr_ServerPort = word_of_int port\<rparr>))"

definition trojan_fallback :: "FallBackConfigForSing option \<Rightarrow> ServerOptions option \<times> (string, ServerOptions) gomap option" where
  "trojan_fallback fc =
    (case fc of
       None \<Rightarrow> (None, None)
     | Some f \<Rightarrow>
         (case Atoi (fb_ServerPort (fs_FallBack f)) of
            (port, err) \<Rightarrow>
              (if err then None else Some \<lparr>sr_Server = fb_Server (fs_FallBack f), sr_ServerPort = word_of_int port\<rparr>,
               processFallback (fs_FallBackForALPN f) [])))"

definition sing_shadowsocks :: "'ip sing_lib \<Rightarrow> 'ip ListenOptions \<Rightarrow> MultiplexConfig option \<Rightarrow> ShadowsocksNode
    \<Rightarrow> 'ip inbound_options outcome" where
  "sing_shadowsocks V listen mux ss =
    (case ValidateShadowsocksCipher (sv_b64dec V) (ss_Cipher ss) (ss_ServerKey ss) of
       Some e \<Rightarrow> Fail ''shadowsocks cipher''
     | None \<Rightarrow>
         (let keyLength = (if ss_Cipher ss \<in> {''2022-blake3-aes-256-gcm'', ''2022-blake3-chacha20-poly1305''} then 32 else 16);
              passwd = sv_rand V keyLength;
              is2022 = (\<exists>i \<in> set [0..<length (ss_Cipher ss)]. take 4 (drop i (ss_Cipher ss)) = ''2022'')
          in Ret (ShadowsocksInbound listen (ss_Cipher ss) (if is2022 then ss_ServerKey ss else '''')
                    [if is2022 then sv_b64enc V passwd else passwd] mux)))"

definition sing_hysteria2 :: "'ip ListenOptions \<Rightarrow> InboundTLSOptions \<Rightarrow> Hysteria2Node \<Rightarrow> 'ip inbound_options" where
  "sing_hysteria2 listen tls h =
    (let obfs = (if hy_ObfsPassword h \<noteq> '''' then Some (''salamander'', hy_ObfsPassword h) else None)
     in if hy_UpMbps h = 0 \<and> hy_DownMbps h = 0 then Hysteria2Inbound listen tls obfs 0 0 True
        else Hysteria2Inbound listen tls obfs (hy_UpMbps h) (hy_DownMbps h) False)"

definition sing_body :: "'ip sing_lib \<Rightarrow> CommonNode \<Rightarrow> SingOptions \<Rightarrow> 'ip ListenOptions \<Rightarrow> InboundTLSOptions
    \<Rightarrow> (string \<times> 'ip inbound_options) outcome" where
  "sing_body V c so listen tls =
    (let p = cn_Protocol c; mux = so_Multiplex so in
     if p = ''vless'' then
       bindR (deref (cn_Vless c)) (\<lambda>v. bindR (sing_transport V (vl_Network v) (vl_TransportConfig v)) (\<lambda>t.
         Ret (''vless'', VLESSInbound listen tls t mux)))
     else if p = ''vmess'' then
       bindR (deref (cn_Vmess c)) (\<lambda>v. bindR (sing_transport V (vm_Network v) (vm_TransportConfig v)) (\<lambda>t.
         Ret (''vmess'', VMessInbound listen tls t mux)))
     else if p = ''shadowsocks'' then
       bindR (deref (cn_Shadowsocks c)) (\<lambda>v. bindR (sing_shadowsocks V listen mux v) (\<lambda>i. Ret (''shadowsocks'', i)))
     else if p = ''trojan'' then
       bindR (deref (cn_Trojan c)) (\<lambda>v. bindR (trojan_transport V (tr_Network v) (tr_TransportConfig v)) (\<lambda>t.
         (case trojan_fallback (so_FallBackConfigs so) of
            (fb, alpn) \<Rightarrow> Ret (''trojan'', TrojanInbound listen tls t mux fb alpn))))
     else if p = ''tuic'' then Ret (''tuic'', TUICInbound listen (tls\<lparr>it_ALPN := it_ALPN tls @ [''h3'']\<rparr>))
     else if p = ''anytls'' then Ret (''anytls'', AnyTLSInbound listen tls)
     else bindR (deref (cn_Hysteria2 c)) (\<lambda>h. Ret (''hysteria2'', sing_hysteria2 listen tls h)))"

definition getInboundOptions :: "'ip sing_lib \<Rightarrow> string \<Rightarrow> NodeInfo \<Rightarrow> Options \<Rightarrow> 'ip Inbound outcome" where
  "getInboundOptions V tag info opt =
    (case sv_ParseAddr V (op_ListenIP opt) of
       None \<Rightarrow> Fail ''the listen ip not vail''
     | Some addr \<Rightarrow>
         bindR (deref (ni_Common info)) (\<lambda>c.
         bindR (sing_head c) (\<lambda>(port, security, servername).
         bindR (deref (op_SingOptions opt)) (\<lambda>so.
         bindR (sing_tls c opt security servername) (\<lambda>tls.
         bindR (sing_body V c so \<lparr>sl_Listen = addr, sl_ListenPort = port, sl_TCPFastOpen = so_TCPFastOpen so\<rparr> tls) (\<lambda>(ty, io).
           Ret \<lparr>ib_Tag = tag, ib_Type = ty, ib_Options = io\<rparr>))))))"

text \<open>The inbound manager of the box: creating and removing an inbound.\<close>

record ('ip, 'b) sing_box =
  sb_Create :: "string \<Rightarrow> string \<Rightarrow> 'ip inbound_options \<Rightarrow> 'b \<Rightarrow> unit outcome \<times> 'b"
  sb_Remove :: "string \<Rightarrow> 'b \<Rightarrow> unit outcome \<times> 'b"

definition Sing_AddNode :: "'ip sing_lib \<Rightarrow> ('ip, 'b) sing_box \<Rightarrow> string \<Rightarrow> NodeInfo \<Rightarrow> Options \<Rightarrow> 'b
    \<Rightarrow> unit outcome \<times> Options \<times> 'b" where
  "Sing_AddNode V B tag info opt b =
    (case getInboundOptions V tag info opt of
       Ret i \<Rightarrow>
         (case sb_Create B tag (ib_Type i) (ib_Options i) b of
            (Ret _, b') \<Rightarrow> (Ret (), opt, b') | (Fail e, b') \<Rightarrow> (Fail ''add inbound error'', opt, b') | (Panic, b') \<Rightarrow> (Panic, opt, b'))
     | Fail e \<Rightarrow> (Fail e, opt, b)
     | Panic \<Rightarrow> (Panic, opt, b))"

definition Sing_DelNode :: "('ip, 'b) sing_box \<Rightarrow> string \<Rightarrow> 'b \<Rightarrow> unit outcome \<times> 'b" where
  "Sing_DelNode B tag b =
    (case sb_Remove B tag b of
       (Ret _, b') \<Rightarrow> (Ret (), b') | (Fail e, b') \<Rightarrow> (Fail ''delete inbound error'', b') | (Panic, b') \<Rightarrow> (Panic, b'))"

section \<open>Where an inbound listens and when it is encrypted\<close>

fun listen_of :: "'ip inbound_options \<Rightarrow> 'ip ListenOptions" where
  "listen_of (VLESSInbound l _ _ _) = l"
| "listen_of (VMessInbound l _ _ _) = l"
| "listen_of (ShadowsocksInbound l _ _ _ _) = l"
| "listen_of (TrojanInbound l _ _ _ _ _) = l"
| "listen_of (TUICInbound l _) = l"
| "listen_of (AnyTLSInbound l _) = l"
| "listen_of (Hysteria2Inbound l _ _ _ _ _) = l"

fun tls_of :: "'ip inbound_options \<Rightarrow> InboundTLSOptions" where
  "tls_of (VLESSInbound _ t _ _) = t"
| "tls_of (VMessInbound _ t _ _) = t"
| "tls_of (ShadowsocksInbound _ _ _ _ _) = no_tls"
| "tls_of (TrojanInbound _ t _ _ _ _) = t"
| "tls_of (TUICInbound _ t) = t"
| "tls_of (AnyTLSInbound _ t) = t"
| "tls_of (Hysteria2Inbound _ t _ _ _ _) = t"

lemma sing_head_port:
  "sing_head c = Ret (port, sec, sn) \<Longrightarrow> ni_Common n = Some c \<Longrightarrow> protocolPort n = Ret port"
  by (auto simp: sing_head_def protocolPort_def payload_port_def Let_def bindR_Ret split: if_split_asm)

lemma shadowsocks_shape:
  "sing_shadowsocks V listen mux ss = Ret io \<Longrightarrow> \<exists>m k us. io = ShadowsocksInbound listen m k us mux"
  by (auto simp: sing_shadowsocks_def Let_def split: option.splits)

lemma hysteria2_shape:
  "listen_of (sing_hysteria2 listen tls h) = listen" "tls_of (sing_hysteria2 listen tls h) = tls"
  by (simp_all add: sing_hysteria2_def Let_def)

lemma sing_body_listen:
  assumes "sing_body V c so listen tls = Ret (ty, io)"
  shows "listen_of io = listen \<and> (it_Enabled (tls_of io) \<longrightarrow> it_Enabled tls) \<and>
     (cn_Protocol c \<noteq> ''shadowsocks'' \<longrightarrow> (\<exists>alpn. tls_of io = tls\<lparr>it_ALPN := alpn\<rparr>))"
    (is "?good io")
proof -
  have alpn: "\<exists>a. tls = tls\<lparr>it_ALPN := a\<rparr>" by (rule exI [of _ "it_ALPN tls"]) simp
  have plain: "listen_of io' = listen \<Longrightarrow> tls_of io' = tls \<Longrightarrow> ?good io'" for io' :: "'a inbound_options" using alpn by simp
  have h3: "?good (TUICInbound listen (tls\<lparr>it_ALPN := a\<rparr>))" for a by auto
  obtain fb al where fb: "trojan_fallback (so_FallBackConfigs so) = (fb, al)" by force
  show ?thesis
    using assms unfolding sing_body_def Let_def fb prod.case
    by (elim if_Ret bindR_elim) (auto intro!: plain h3 alpn dest: shadowsocks_shape simp: hysteria2_shape no_tls_def)
qed

lemma inbound_parts:
  assumes "getInboundOptions V tag info opt = Ret i"
  obtains c port sec sn so tls addr where "ni_Common info = Some c" "sing_head c = Ret (port, sec, sn)"
    "op_SingOptions opt = Some so" "sing_tls c opt sec sn = Ret tls" "ib_Tag i = tag"
    "sing_body V c so \<lparr>sl_Listen = addr, sl_ListenPort = port, sl_TCPFastOpen = so_TCPFastOpen so\<rparr> tls = Ret (ib_Type i, ib_Options i)"
    "sv_ParseAddr V (op_ListenIP opt) = Some addr"
  using assms by (auto simp: getInboundOptions_def bindR_Ret split: option.splits prod.splits)

text \<open>The security the protocol has: tuic, hysteria, anytls and trojan are always encrypted.\<close>

definition node_security :: "CommonNode \<Rightarrow> string" where
  "node_security c =
    (if cn_Protocol c = ''vless'' then (case cn_Vless c of None \<Rightarrow> '''' | Some v \<Rightarrow> vl_Security v)
     else if cn_Protocol c = ''vmess'' then (case cn_Vmess c of None \<Rightarrow> '''' | Some v \<Rightarrow> vm_Security v)
     else if cn_Protocol c = ''shadowsocks'' then '''' else ''tls'')"

lemma sing_head_security: "sing_head c = Ret (port, sec, sn) \<Longrightarrow> sec = node_security c"
  by (auto simp: sing_head_def node_security_def Let_def bindR_Ret split: if_split_asm)

text \<open>C29: A sing inbound listens where the port registry reserved. When the options of an inbound can be
  built, its port is the one of every listener that was reserved for the same node, its address is
  the configured one, and, shadowsocks aside, its TLS is on exactly when the protocol is secured by
  reality, or by TLS with a certificate mode other than none; then it uses the configured files.\<close>

theorem sing_listens_where_reserved:
  assumes "getInboundOptions V tag info opt = Ret i" and "listenerSpecsFor info (op_ListenIP opt) = Ret specs"
    and "ni_Common info = Some c"
  shows "(\<forall>sp \<in> set specs. ls_port sp = sl_ListenPort (listen_of (ib_Options i)) \<and> ls_addr sp = op_ListenIP opt) \<and>
    sv_ParseAddr V (op_ListenIP opt) = Some (sl_Listen (listen_of (ib_Options i))) \<and> ib_Tag i = tag \<and>
    (cn_Protocol c \<noteq> ''shadowsocks'' \<longrightarrow>
      (let tls = tls_of (ib_Options i); sec = node_security c in
       it_Enabled tls = (sec = ''reality'' \<or> sec = ''tls'' \<and> (\<exists>cc. op_CertConfig opt = Some cc \<and> cc_CertMode cc \<notin> {''none'', ''''})) \<and>
       (sec = ''tls'' \<and> it_Enabled tls \<longrightarrow> (\<exists>cc. op_CertConfig opt = Some cc \<and>
          it_CertificatePath tls = cc_CertFile cc \<and> it_KeyPath tls = cc_KeyFile cc))))"
proof -
  from assms(1) obtain c' port sec sn so tls addr where h: "ni_Common info = Some c'" "sing_head c' = Ret (port, sec, sn)"
    "sing_tls c' opt sec sn = Ret tls" "ib_Tag i = tag"
    "sing_body V c' so \<lparr>sl_Listen = addr, sl_ListenPort = port, sl_TCPFastOpen = so_TCPFastOpen so\<rparr> tls = Ret (ib_Type i, ib_Options i)"
    "sv_ParseAddr V (op_ListenIP opt) = Some addr" by (rule inbound_parts)
  with assms(3) have c: "c' = c" by simp
  note b = sing_body_listen [OF h(5)]
  note sec = sing_head_security [OF h(2)]
  have tls: "it_Enabled tls = (sec = ''reality'' \<or> sec = ''tls'' \<and> (\<exists>cc. op_CertConfig opt = Some cc \<and> cc_CertMode cc \<notin> {''none'', ''''})) \<and>
      (sec = ''tls'' \<and> it_Enabled tls \<longrightarrow> (\<exists>cc. op_CertConfig opt = Some cc \<and>
          it_CertificatePath tls = cc_CertFile cc \<and> it_KeyPath tls = cc_KeyFile cc))"
    using h(3) by (auto simp: sing_tls_def sing_reality_def no_tls_def bindR_Ret Let_def split: if_split_asm option.splits)
  from sing_head_port [OF h(2,1)] listenerSpecsFor_shape [OF assms(2)]
  have "\<forall>sp \<in> set specs. ls_port sp = port \<and> ls_addr sp = op_ListenIP opt" by auto
  with b h(4,6) sec c tls show ?thesis by (auto simp: Let_def)
qed

definition demo_lib :: "string sing_lib" where
  "demo_lib = \<lparr>sv_ParseAddr = Some, sv_ParseURL = (\<lambda>s. Some (s, '''')), sv_rand = (\<lambda>n. replicate n (CHR ''r'')),
     sv_b64enc = (\<lambda>s. s), sv_b64dec = Some\<rparr>"

definition tuic_protocol :: ProtocolConfig where
  "tuic_protocol = \<lparr>pr_Type = ''tuic'', pr_Port = 443, pr_Security = ''tls'', pr_SNI = ''h'', pr_RealityServerAddr = '''',
     pr_RealityServerPort = 0, pr_RealityPrivateKey = '''', pr_RealityShortID = '''', pr_RealityMldsa65seed = '''',
     pr_Transport = '''', pr_Host = '''', pr_Path = '''', pr_ServiceName = '''', pr_XhttpMode = '''', pr_XhttpExtra = '''',
     pr_Cipher = '''', pr_ServerKey = '''', pr_Flow = '''', pr_ObfsPassword = '''', pr_PaddingScheme = '''', pr_UpMbps = 0,
     pr_DownMbps = 0, pr_EnableProxyProtocol = False, pr_CertMode = ''self'', pr_CertDNSProvider = '''', pr_CertDNSEnv = '''',
     pr_CertConfig = None\<rparr>"

definition tuic_node :: NodeInfo where
  "tuic_node = \<lparr>ni_Id = 1, ni_Type = ''tuic'', ni_PushInterval = 0, ni_PullInterval = 0,
     ni_Common = Some ((empty_common ''tuic'')\<lparr>cn_Tuic := Some \<lparr>tu_Port = 443, tu_SecurityConfig = Some (sni_only tuic_protocol)\<rparr>\<rparr>)\<rparr>"

definition tuic_options :: Options where
  "tuic_options = zero_options\<lparr>op_Core := ''sing'', op_ListenIP := ''::'', op_SingOptions := Some NewSingOptions,
     op_CertConfig := Some (NewCertConfig\<lparr>cc_CertMode := ''file'', cc_CertFile := ''c'', cc_KeyFile := ''k''\<rparr>)\<rparr>"

theorem sing_listens_where_reserved_witness:
  "\<exists>i. getInboundOptions demo_lib ''sing|n'' tuic_node tuic_options = Ret i \<and>
     sl_ListenPort (listen_of (ib_Options i)) = 443 \<and> it_Enabled (tls_of (ib_Options i))"
proof -
  let ?g = "getInboundOptions demo_lib ''sing|n'' tuic_node tuic_options"
  have "case ?g of Ret _ \<Rightarrow> True | Fail _ \<Rightarrow> False | Panic \<Rightarrow> False" by code_simp
  then obtain i where i: "?g = Ret i" by (cases ?g) simp_all
  have l: "listenerSpecsFor tuic_node (op_ListenIP tuic_options) = Ret [\<lparr>ls_addr = ''::'', ls_port = 443, ls_transport = ''udp''\<rparr>]"
    by (simp add: listenerSpecsFor_def protocolPort_def payload_port_def protocolTransports_def empty_common_def
        tuic_node_def tuic_options_def)
  obtain c where c: "ni_Common tuic_node = Some c" "cn_Protocol c = ''tuic''" by (simp add: tuic_node_def empty_common_def)
  have cc: "op_CertConfig tuic_options = Some cc \<longleftrightarrow> cc = NewCertConfig\<lparr>cc_CertMode := ''file'', cc_CertFile := ''c'', cc_KeyFile := ''k''\<rparr>" for cc
    by (auto simp: tuic_options_def)
  from sing_listens_where_reserved [OF i l c(1)] c(2) i show ?thesis
    by (simp add: cc node_security_def Let_def)
qed

section \<open>Panel-driven sing nodes\<close>

lemma no_sing_options: "op_SingOptions opt = None \<Longrightarrow> getInboundOptions V tag info opt \<noteq> Ret i"
  by (auto elim: inbound_parts)

lemma start_frames_options:
  "start_fetch_node E s = (o1, s') \<Longrightarrow> ct_options (snd (snd s')) = ct_options (snd (snd s))"
  "start_fetch_users E s = (o2, s') \<Longrightarrow> ct_options (snd (snd s')) = ct_options (snd (snd s))"
  "start_fetch_alive E s = (o2, s') \<Longrightarrow> ct_options (snd (snd s')) = ct_options (snd (snd s))"
  "start_identify n s = (o3, s') \<Longrightarrow> ct_options (snd (snd s')) = ct_options (snd (snd s))"
  "start_reserve node s = (o2, s') \<Longrightarrow> ct_options (snd (snd s')) = ct_options (snd (snd s))"
  "start_cert E node s = (o2, s') \<Longrightarrow> ct_options (snd (snd s')) = ct_options (snd (snd s))"
  "start_limiter s = (o2, s') \<Longrightarrow> ct_options (snd (snd s')) = ct_options (snd (snd s))"
  by (auto simp: start_fetch_node_def start_fetch_users_def start_fetch_alive_def start_identify_def start_reserve_def
      start_cert_def start_limiter_def Let_def split: prod.splits outcome.splits option.splits if_split_asm)

lemma started_added_node:
  assumes "Controller_Start E (w, c) = (Ret (), w', c')"
  shows "\<exists>k rk n opt' k'. co_AddNode (ev_core E) rk n (ct_options c) k = (Ret (), opt', k')"
proof -
  obtain fl where b: "start_body E (start_of w c) = (Ret (), fl, w', c')"
    using assms by (auto simp: Controller_Start_def start_of_def split: prod.splits outcome.splits)
  from b [unfolded start_body_def bindO_Ret] obtain no n s1 s2 s3 s4 s5 s6 s7 s8 where
    s: "start_fetch_node E (start_of w c) = (Ret no, s1)" "start_fetch_users E s1 = (Ret (), s2)"
    "start_fetch_alive E s2 = (Ret (), s3)" "start_identify no s3 = (Ret n, s4)" "start_reserve n s4 = (Ret (), s5)"
    "start_cert E n s5 = (Ret (), s6)" "start_limiter s6 = (Ret (), s7)" "start_node E n s7 = (Ret (), s8)"
    by auto
  have "ct_options (snd (snd s7)) = ct_options c"
    using start_frames_options(1) [OF s(1)] start_frames_options(2) [OF s(2)] start_frames_options(3) [OF s(3)]
      start_frames_options(4) [OF s(4)] start_frames_options(5) [OF s(5)] start_frames_options(6) [OF s(6)]
      start_frames_options(7) [OF s(7)] by (simp add: start_of_def)
  with s(8) show ?thesis by (cases s7) (auto simp: start_node_def split: prod.splits outcome.splits, blast)
qed

lemma built_options:
  "buildServerController a p pushI pullI reg = Ret ctl \<Longrightarrow> op_SingOptions (ct_options ctl) = None"
  by (auto simp: buildServerController_def server_options_def zero_options_def NewController_def Let_def
      split: outcome.splits if_split_asm)

lemma started_server_controllers:
  "start_server a pushI pullI envs ps done w = Some (Ret (), cs, w') \<Longrightarrow> p \<in> set ps \<Longrightarrow>
     \<exists>ctl w1 w2 c2. buildServerController a p pushI pullI True = Ret ctl \<and> Controller_Start (envs p) (w1, ctl) = (Ret (), w2, c2)"
proof (induction ps arbitrary: "done" w)
  case (Cons q ps)
  show ?case
  proof (cases "buildServerController a q pushI pullI True")
    case (Ret ctl)
    obtain r w1 c1 where st: "Controller_Start (envs q) (w, ctl) = (r, w1, c1)" by (metis prod_cases3)
    with Ret Cons show ?thesis by (cases r) (auto simp: rolled_def)
  qed (use Cons.prems in \<open>auto simp: rolled_def\<close>)
qed simp

text \<open>C30: A server with a sing protocol never comes up. The options the node builds for a protocol of the
  panel's list have no sing section, and building a sing inbound dereferences it: whatever the panel
  answers and in whatever state the process is, when the list names a tuic, hysteria or anytls
  protocol and sing serves it, starting the node's controllers does not succeed.\<close>

theorem panel_sing_nodes_never_start:
  assumes "GetServerNodeConfigs dec resp = Ret (protocols, basic)"
    and "p \<in> set protocols" and "co_AddNode (ev_core (envs p)) = Sing_AddNode V B"
  shows "Node_StartNodes dec resp a envs w \<noteq> Some (Ret (), cs, w')"
proof
  assume n: "Node_StartNodes dec resp a envs w = Some (Ret (), cs, w')"
  obtain pushI pullI where i: "resolveIntervals basic = (pushI, pullI)" by force
  from n assms(1) i have "start_server a pushI pullI envs protocols [] w = Some (Ret (), cs, w')"
    by (simp add: Node_StartNodes_def)
  from started_server_controllers [OF this assms(2)] obtain ctl w1 w2 c2 where
    b: "buildServerController a p pushI pullI True = Ret ctl" and st: "Controller_Start (envs p) (w1, ctl) = (Ret (), w2, c2)" by blast
  from started_added_node [OF st] obtain k rk n' opt' k' where
    "Sing_AddNode V B rk n' (ct_options ctl) k = (Ret (), opt', k')" by (auto simp: assms(3))
  with no_sing_options [OF built_options [OF b]] show False
    by (auto simp: Sing_AddNode_def split: outcome.splits)
qed

theorem panel_sing_nodes_never_start_witness:
  "Node_StartNodes (\<lambda>_. Some ([tuic_protocol], None)) (ev_node demo_env ''x'') \<lparr>sa_ApiHost = ''h'', sa_ServerId = 1, sa_SecretKey = '''', sa_Timeout = 0\<rparr>
     (\<lambda>_. demo_env\<lparr>ev_core := demo_core\<lparr>co_AddNode := Sing_AddNode demo_lib \<lparr>sb_Create = (\<lambda>t _ _ b. (Ret (), t # b)), sb_Remove = (\<lambda>t b. (Ret (), b))\<rparr>\<rparr>\<rparr>)
     demo_world \<noteq> Some (Ret (), [], demo_world)"
  (is "Node_StartNodes ?dec ?resp ?a ?envs _ \<noteq> _")
proof -
  have "GetServerNodeConfigs ?dec ?resp = Ret ([tuic_protocol], None)"
    by (simp add: GetServerNodeConfigs_def demo_env_def)
  from panel_sing_nodes_never_start [OF this, of tuic_protocol ?envs demo_lib] show ?thesis by simp
qed

end
