(* ===== verification/CoreUsers.thy ===== *)
theory CoreUsers
  imports XrayInbound SingInbound TrafficSlices
begin

text \<open>
  The users of a node inside the two cores: \<open>core/xray/user.go\<close> with the account builders of \<open>ss.go\<close>,
  \<open>trojan.go\<close> and \<open>vmess.go\<close>, the link manager of \<open>app/dispatcher/linkmanager.go\<close>, and
  \<open>core/sing/user.go\<close>. The user managers of the embedded servers are parameters.
\<close>

section \<open>Links of xray connections\<close>

text \<open>
  Objects shared by pointer live in heaps and are named by their position. A writer counts how often
  its release function ran; \<open>mw_closed\<close> and \<open>lk_interrupted\<close> record the calls on the wrapped
  writers and readers.
\<close>

record ManagedWriter =
  mw_manager :: nat
  mw_release :: bool
  mw_releaseOnce :: bool
  mw_released :: nat
  mw_closed :: nat

type_synonym LinkManager = "(nat, nat) gomap"

record link_world =
  lk_managers :: "LinkManager list"
  lk_writers :: "ManagedWriter list"
  lk_interrupted :: "nat list"

definition AddLink :: "nat \<Rightarrow> nat \<Rightarrow> nat \<Rightarrow> link_world \<Rightarrow> link_world" where
  "AddLink m writer reader lw = lw\<lparr>lk_managers := (lk_managers lw)[m := mstore (lk_managers lw ! m) writer reader]\<rparr>"

definition RemoveWriter :: "nat \<Rightarrow> nat \<Rightarrow> link_world \<Rightarrow> link_world" where
  "RemoveWriter m writer lw = lw\<lparr>lk_managers := (lk_managers lw)[m := mdelete (lk_managers lw ! m) writer]\<rparr>"

definition ManagedWriter_Close :: "nat \<Rightarrow> link_world \<Rightarrow> link_world" where
  "ManagedWriter_Close a lw =
    (let w = lk_writers lw ! a;
         lw1 = RemoveWriter (mw_manager w) a lw;
         w1 = (if mw_release w \<and> \<not> mw_releaseOnce w then w\<lparr>mw_releaseOnce := True, mw_released := mw_released w + 1\<rparr> else w)
     in lw1\<lparr>lk_writers := (lk_writers lw1)[a := w1\<lparr>mw_closed := mw_closed w1 + 1\<rparr>]\<rparr>)"

fun close_links :: "(nat \<times> nat) list \<Rightarrow> link_world \<Rightarrow> link_world" where
  "close_links [] lw = lw"
| "close_links ((w, r) # links) lw =
     (let lw1 = ManagedWriter_Close w lw in close_links links (lw1\<lparr>lk_interrupted := lk_interrupted lw1 @ [r]\<rparr>))"

definition CloseAll :: "nat \<Rightarrow> link_world \<Rightarrow> link_world" where
  "CloseAll m lw = close_links (lk_managers lw ! m) lw"

section \<open>Xray accounts\<close>

datatype cipher_type = AES_128_GCM | AES_256_GCM | CHACHA20_POLY1305 | UNKNOWN

datatype account =
    VMessAccount string string
  | VLessAccount string string
  | TrojanAccount string
  | ShadowsocksAccount string cipher_type
  | Shadowsocks2022Account string

record protocol_user =
  pu_Level :: nat
  pu_Email :: string
  pu_Account :: account

definition getCipherFromString :: "string \<Rightarrow> cipher_type" where
  "getCipherFromString c =
    (let t = ToLower c in
     if t = ''aes-128-gcm'' \<or> t = ''aead_aes_128_gcm'' then AES_128_GCM
     else if t = ''aes-256-gcm'' \<or> t = ''aead_aes_256_gcm'' then AES_256_GCM
     else if t = ''chacha20-poly1305'' \<or> t = ''aead_chacha20_poly1305'' \<or> t = ''chacha20-ietf-poly1305'' then CHACHA20_POLY1305
     else UNKNOWN)"

text \<open>\<open>s[:n]\<close> panics beyond the length of the string.\<close>

definition upto :: "string \<Rightarrow> nat \<Rightarrow> string outcome" where
  "upto s n = (if n \<le> length s then Ret (take n s) else Panic)"

definition buildSSUser :: "(string \<Rightarrow> string) \<Rightarrow> string \<Rightarrow> UserInfo \<Rightarrow> string \<Rightarrow> string \<Rightarrow> protocol_user outcome" where
  "buildSSUser b64 tag u cypher serverKey =
    (if \<not> contains2022 cypher then
       Ret \<lparr>pu_Level = 0, pu_Email = UserTag tag (u_Uuid u), pu_Account = ShadowsocksAccount (u_Uuid u) (getCipherFromString cypher)\<rparr>
     else
       (let keyLength = (if cypher = ''2022-blake3-aes-128-gcm'' then 16
              else if cypher = ''2022-blake3-aes-256-gcm'' \<or> cypher = ''2022-blake3-chacha20-poly1305'' then 32 else 0)
        in bindR (upto (u_Uuid u) keyLength) (\<lambda>k.
          Ret \<lparr>pu_Level = 0, pu_Email = UserTag tag (u_Uuid u), pu_Account = Shadowsocks2022Account (b64 k)\<rparr>)))"

definition buildSSUsers :: "(string \<Rightarrow> string) \<Rightarrow> string \<Rightarrow> UserInfo list \<Rightarrow> string \<Rightarrow> string \<Rightarrow> protocol_user list outcome" where
  "buildSSUsers b64 tag us cypher serverKey = each (\<lambda>u. buildSSUser b64 tag u cypher serverKey) us"

definition buildTrojanUser :: "string \<Rightarrow> UserInfo \<Rightarrow> protocol_user" where
  "buildTrojanUser tag u = \<lparr>pu_Level = 0, pu_Email = UserTag tag (u_Uuid u), pu_Account = TrojanAccount (u_Uuid u)\<rparr>"

definition buildTrojanUsers :: "string \<Rightarrow> UserInfo list \<Rightarrow> protocol_user list" where
  "buildTrojanUsers tag us = map (buildTrojanUser tag) us"

definition buildVmessUser :: "string \<Rightarrow> UserInfo \<Rightarrow> protocol_user" where
  "buildVmessUser tag u = \<lparr>pu_Level = 0, pu_Email = UserTag tag (u_Uuid u), pu_Account = VMessAccount (u_Uuid u) ''auto''\<rparr>"

definition buildVmessUsers :: "string \<Rightarrow> UserInfo list \<Rightarrow> protocol_user list" where
  "buildVmessUsers tag us = map (buildVmessUser tag) us"

definition buildVlessUser :: "string \<Rightarrow> UserInfo \<Rightarrow> string \<Rightarrow> protocol_user" where
  "buildVlessUser tag u flow = \<lparr>pu_Level = 0, pu_Email = UserTag tag (u_Uuid u), pu_Account = VLessAccount (u_Uuid u) flow\<rparr>"

definition buildVlessUsers :: "string \<Rightarrow> UserInfo list \<Rightarrow> string \<Rightarrow> protocol_user list" where
  "buildVlessUsers tag us flow = map (\<lambda>u. buildVlessUser tag u flow) us"

section \<open>Users of the xray core\<close>

text \<open>The inbound's user manager, looked up by tag, and the server's conversion of a user.\<close>

record 'x user_manager =
  ug_Get :: "string \<Rightarrow> 'x \<Rightarrow> unit outcome"
  ug_ToMemoryUser :: "protocol_user \<Rightarrow> unit outcome"
  ug_AddUser :: "string \<Rightarrow> protocol_user \<Rightarrow> 'x \<Rightarrow> unit outcome \<times> 'x"
  ug_RemoveUser :: "string \<Rightarrow> string \<Rightarrow> 'x \<Rightarrow> unit outcome \<times> 'x"

record 'x Xray =
  xr_Server :: 'x
  xr_maps :: UserMaps
  xr_LinkManagers :: "(string, nat) gomap"
  xr_links :: link_world

definition GetUserManager :: "'x user_manager \<Rightarrow> string \<Rightarrow> 'x Xray \<Rightarrow> unit outcome" where
  "GetUserManager M tag x =
    (case ug_Get M tag (xr_Server x) of Ret u \<Rightarrow> Ret u | Fail e \<Rightarrow> Fail ''get user manager error'' | Panic \<Rightarrow> Panic)"

definition forget_user :: "string \<Rightarrow> string \<Rightarrow> 'x Xray \<Rightarrow> 'x Xray" where
  "forget_user tag user x =
    (let maps = (xr_maps x)\<lparr>um_uidMap := mdelete (um_uidMap (xr_maps x)) user\<rparr>;
         maps1 = (case mload (um_Counter maps) tag of
                    None \<Rightarrow> maps
                  | Some tc \<Rightarrow> maps\<lparr>um_Counter := mstore (um_Counter maps) tag (TC_Delete tc user)\<rparr>);
         x1 = x\<lparr>xr_maps := maps1\<rparr>
     in case mload (xr_LinkManagers x1) user of
          None \<Rightarrow> x1
        | Some m \<Rightarrow> x1\<lparr>xr_links := CloseAll m (xr_links x1), xr_LinkManagers := mdelete (xr_LinkManagers x1) user\<rparr>)"

fun del_users :: "'x user_manager \<Rightarrow> string \<Rightarrow> UserInfo list \<Rightarrow> 'x Xray \<Rightarrow> unit outcome \<times> 'x Xray" where
  "del_users M tag [] x = (Ret (), x)"
| "del_users M tag (u # us) x =
     (case ug_RemoveUser M tag (UserTag tag (u_Uuid u)) (xr_Server x) of
        (Ret _, s) \<Rightarrow> del_users M tag us (forget_user tag (UserTag tag (u_Uuid u)) (x\<lparr>xr_Server := s\<rparr>))
      | (e, s) \<Rightarrow> (e, x\<lparr>xr_Server := s\<rparr>))"

definition Xray_DelUsers :: "'x user_manager \<Rightarrow> UserInfo list \<Rightarrow> string \<Rightarrow> 'x Xray \<Rightarrow> unit outcome \<times> 'x Xray" where
  "Xray_DelUsers M users tag x =
    (case GetUserManager M tag x of Ret _ \<Rightarrow> del_users M tag users x | e \<Rightarrow> (e, x))"

definition note_ids :: "('a \<Rightarrow> string) \<Rightarrow> ('a \<Rightarrow> int) \<Rightarrow> 'a list \<Rightarrow> (string, int) gomap \<Rightarrow> (string, int) gomap" where
  "note_ids key uid us m = foldl (\<lambda>m u. mstore m (key u) (uid u)) m us"

definition xray_accounts :: "(string \<Rightarrow> string) \<Rightarrow> string \<Rightarrow> UserInfo list \<Rightarrow> NodeInfo \<Rightarrow> protocol_user list outcome" where
  "xray_accounts b64 tag us info =
    (if ni_Type info = ''vmess'' then Ret (buildVmessUsers tag us)
     else if ni_Type info = ''vless'' then
       bindR (deref (ni_Common info)) (\<lambda>c. bindR (deref (cn_Vless c)) (\<lambda>v. Ret (buildVlessUsers tag us (vl_Flow v))))
     else if ni_Type info = ''trojan'' then Ret (buildTrojanUsers tag us)
     else if ni_Type info = ''shadowsocks'' then
       bindR (deref (ni_Common info)) (\<lambda>c. bindR (deref (cn_Shadowsocks c)) (\<lambda>s.
         buildSSUsers b64 tag us (ss_Cipher s) (ss_ServerKey s)))
     else Fail ''unsupported node type'')"

fun add_accounts :: "'x user_manager \<Rightarrow> string \<Rightarrow> protocol_user list \<Rightarrow> 'x \<Rightarrow> unit outcome \<times> 'x" where
  "add_accounts M tag [] x = (Ret (), x)"
| "add_accounts M tag (u # us) x =
     (case ug_ToMemoryUser M u of
        Ret _ \<Rightarrow> (case ug_AddUser M tag u x of (Ret _, x') \<Rightarrow> add_accounts M tag us x' | (e, x') \<Rightarrow> (e, x'))
      | e \<Rightarrow> (e, x))"

definition Xray_AddUsers :: "(string \<Rightarrow> string) \<Rightarrow> 'x user_manager \<Rightarrow> string \<Rightarrow> UserInfo list \<Rightarrow> NodeInfo \<Rightarrow> 'x Xray
    \<Rightarrow> nat outcome \<times> 'x Xray" where
  "Xray_AddUsers b64 M tag users info x =
    (let x1 = x\<lparr>xr_maps := (xr_maps x)\<lparr>um_uidMap :=
           note_ids (\<lambda>u. UserTag tag (u_Uuid u)) u_Id users (um_uidMap (xr_maps x))\<rparr>\<rparr>
     in case xray_accounts b64 tag users info of
          Fail e \<Rightarrow> (Fail e, x1)
        | Panic \<Rightarrow> (Panic, x1)
        | Ret us \<Rightarrow>
            (case GetUserManager M tag x1 of
               Fail e \<Rightarrow> (Fail e, x1)
             | Panic \<Rightarrow> (Panic, x1)
             | Ret _ \<Rightarrow>
                 (case add_accounts M tag us (xr_Server x1) of
                    (Ret _, s) \<Rightarrow> (Ret (length us), x1\<lparr>xr_Server := s\<rparr>)
                  | (Fail e, s) \<Rightarrow> (Fail e, x1\<lparr>xr_Server := s\<rparr>)
                  | (Panic, s) \<Rightarrow> (Panic, x1\<lparr>xr_Server := s\<rparr>))))"

section \<open>Closing all links of a user\<close>

definition closed_writer :: "ManagedWriter \<Rightarrow> ManagedWriter" where
  "closed_writer w =
    (if mw_release w \<and> \<not> mw_releaseOnce w
     then w\<lparr>mw_releaseOnce := True, mw_released := mw_released w + 1, mw_closed := mw_closed w + 1\<rparr>
     else w\<lparr>mw_closed := mw_closed w + 1\<rparr>)"

lemma Close_writers: "lk_writers (ManagedWriter_Close a lw) = (lk_writers lw)[a := closed_writer (lk_writers lw ! a)]"
  by (simp add: ManagedWriter_Close_def RemoveWriter_def closed_writer_def Let_def)

lemma Close_rest:
  "lk_managers (ManagedWriter_Close a lw) =
     (let m = mw_manager (lk_writers lw ! a) in (lk_managers lw)[m := mdelete (lk_managers lw ! m) a])"
  "lk_interrupted (ManagedWriter_Close a lw) = lk_interrupted lw"
  by (simp_all add: ManagedWriter_Close_def RemoveWriter_def Let_def)

lemma closed_writer_manager [simp]: "mw_manager (closed_writer w) = mw_manager w"
  by (simp add: closed_writer_def)

lemma close_links_spec:
  assumes "distinct (map fst links)" and "\<forall>w \<in> fst ` set links. w < length (lk_writers lw) \<and> mw_manager (lk_writers lw ! w) = m"
    and "m < length (lk_managers lw)"
  shows "lk_managers (close_links links lw) =
      (lk_managers lw)[m := filter (\<lambda>(w, r). w \<notin> fst ` set links) (lk_managers lw ! m)]" (is "?A links lw")
    and "lk_writers (close_links links lw) =
      map (\<lambda>a. if a \<in> fst ` set links then closed_writer (lk_writers lw ! a) else lk_writers lw ! a) [0..<length (lk_writers lw)]" (is "?B links lw")
    and "lk_interrupted (close_links links lw) = lk_interrupted lw @ map snd links" (is "?C links lw")
proof -
  have "?A links lw \<and> ?B links lw \<and> ?C links lw"
    using assms
  proof (induction links lw rule: close_links.induct)
    case (1 lw)
    then show ?case by (simp add: map_nth)
  next
    case (2 w r links lw)
    define lw1 where "lw1 = (ManagedWriter_Close w lw)\<lparr>lk_interrupted := lk_interrupted (ManagedWriter_Close w lw) @ [r]\<rparr>"
    have w: "w < length (lk_writers lw)" "mw_manager (lk_writers lw ! w) = m" "w \<notin> fst ` set links" using 2(2,3) by auto
    have wr: "lk_writers lw1 = (lk_writers lw)[w := closed_writer (lk_writers lw ! w)]" by (simp add: lw1_def Close_writers)
    have mg: "lk_managers lw1 = (lk_managers lw)[m := mdelete (lk_managers lw ! m) w]"
      using w(2) by (simp add: lw1_def Close_rest Let_def)
    have IH: "?A links lw1 \<and> ?B links lw1 \<and> ?C links lw1"
      using 2(1) [OF refl, folded lw1_def] 2(2,3,4) w by (auto simp: wr mg nth_list_update)
    have step: "close_links ((w, r) # links) lw = close_links links lw1" by (simp add: lw1_def Let_def)
    have "lk_managers (close_links links lw1) = (lk_managers lw)[m := filter (\<lambda>(a, r). a \<notin> fst ` set ((w, r) # links)) (lk_managers lw ! m)]"
      using IH 2(4) by (simp add: mg AList.delete_eq filter_filter) (rule arg_cong [of _ _ "\<lambda>x. (lk_managers lw)[m := x]"], rule filter_cong, auto)
    moreover have "lk_writers (close_links links lw1) =
        map (\<lambda>a. if a \<in> fst ` set ((w, r) # links) then closed_writer (lk_writers lw ! a) else lk_writers lw ! a) [0..<length (lk_writers lw)]"
      using IH w by (auto simp: wr nth_list_update)
    moreover have "lk_interrupted (close_links links lw1) = lk_interrupted lw @ map snd ((w, r) # links)"
      using IH by (simp add: lw1_def Close_rest)
    ultimately show ?case unfolding step by simp
  qed
  then show "?A links lw" "?B links lw" "?C links lw" by blast+
qed

text \<open>Writers are listed by their own manager, and a release function that ran did so once.\<close>

definition link_wf :: "link_world \<Rightarrow> bool" where
  "link_wf lw \<longleftrightarrow> (\<forall>m < length (lk_managers lw). mwf (lk_managers lw ! m) \<and>
       (\<forall>w \<in> set (mkeys (lk_managers lw ! m)). w < length (lk_writers lw) \<and> mw_manager (lk_writers lw ! w) = m)) \<and>
     (\<forall>w \<in> set (lk_writers lw). mw_released w = (if mw_releaseOnce w then 1 else 0) \<and> (mw_releaseOnce w \<longrightarrow> mw_release w))"

text \<open>C33: Deleting a user releases each of the user's connections once. Closing all links of a manager
  empties it, interrupts the readers, closes every linked writer and has run each release function
  exactly once, also when the writer had been closed before; other managers and writers are
  untouched, and closing a writer once more later does not release again.\<close>

theorem close_all_releases_once:
  assumes "link_wf lw" and "m < length (lk_managers lw)"
  shows "lk_managers (CloseAll m lw) = (lk_managers lw)[m := []] \<and>
    lk_interrupted (CloseAll m lw) = lk_interrupted lw @ map snd (lk_managers lw ! m) \<and>
    length (lk_writers (CloseAll m lw)) = length (lk_writers lw) \<and>
    (\<forall>a < length (lk_writers lw). let w = lk_writers lw ! a; w' = lk_writers (CloseAll m lw) ! a in
       if a \<in> set (mkeys (lk_managers lw ! m))
       then mw_closed w' = mw_closed w + 1 \<and> mw_released w' = (if mw_release w then 1 else 0) \<and>
            mw_released (lk_writers (ManagedWriter_Close a (CloseAll m lw)) ! a) = mw_released w'
       else w' = w)"
proof -
  let ?links = "lk_managers lw ! m"
  have d: "distinct (map fst ?links)" and r: "\<forall>w \<in> fst ` set ?links. w < length (lk_writers lw) \<and> mw_manager (lk_writers lw ! w) = m"
    using assms by (auto simp: link_wf_def)
  note c = close_links_spec [OF d r assms(2)]
  have none: "filter (\<lambda>(w, r). w \<notin> fst ` set ?links) ?links = []" by (auto simp: filter_empty_conv intro: rev_image_eqI)
  have once: "mw_released w = (if mw_releaseOnce w then 1 else 0) \<and> (mw_releaseOnce w \<longrightarrow> mw_release w)"
    if "w \<in> set (lk_writers lw)" for w using assms(1) that by (simp add: link_wf_def)
  have "let w = lk_writers lw ! a; w' = lk_writers (CloseAll m lw) ! a in
       if a \<in> set (mkeys ?links)
       then mw_closed w' = mw_closed w + 1 \<and> mw_released w' = (if mw_release w then 1 else 0) \<and>
            mw_released (lk_writers (ManagedWriter_Close a (CloseAll m lw)) ! a) = mw_released w'
       else w' = w" if "a < length (lk_writers lw)" for a
    using that once [of "lk_writers lw ! a"] unfolding CloseAll_def Let_def c(2)
    by (auto simp: Close_writers c(2) closed_writer_def)
  then show ?thesis using c(1,3) none c(2) by (simp add: CloseAll_def)
qed

definition demo_links :: link_world where
  "demo_links = \<lparr>lk_managers = [[(0, 5), (1, 6)]],
     lk_writers = [\<lparr>mw_manager = 0, mw_release = True, mw_releaseOnce = True, mw_released = 1, mw_closed = 1\<rparr>,
       \<lparr>mw_manager = 0, mw_release = True, mw_releaseOnce = False, mw_released = 0, mw_closed = 0\<rparr>], lk_interrupted = []\<rparr>"

theorem close_all_releases_once_witness:
  "lk_managers (CloseAll 0 demo_links) = [[]] \<and> map mw_released (lk_writers (CloseAll 0 demo_links)) = [1, 1]"
proof -
  have "link_wf demo_links" "0 < length (lk_managers demo_links)" by (simp_all add: link_wf_def demo_links_def less_Suc_eq)
  from close_all_releases_once [OF this]
  have c: "lk_managers (CloseAll 0 demo_links) = [[]]" "length (lk_writers (CloseAll 0 demo_links)) = 2"
    "mw_released (lk_writers (CloseAll 0 demo_links) ! 0) = 1" "mw_released (lk_writers (CloseAll 0 demo_links) ! 1) = 1"
    by (simp_all add: demo_links_def Let_def less_Suc_eq_0_disj all_conj_distrib)
  then show ?thesis by (cases "lk_writers (CloseAll 0 demo_links)") (auto simp: length_Suc_conv numeral_2_eq_2)
qed

section \<open>Adding and deleting users\<close>

abbreviation user_emails :: "string \<Rightarrow> UserInfo list \<Rightarrow> string set" where
  "user_emails tag users \<equiv> (\<lambda>u. UserTag tag (u_Uuid u)) ` set users"

text \<open>What is known of a server's user managers: \<open>us\<close> are the emails an inbound knows.\<close>

definition manager_laws :: "'x user_manager \<Rightarrow> ('x \<Rightarrow> string \<Rightarrow> string set) \<Rightarrow> bool" where
  "manager_laws M us \<longleftrightarrow>
     (\<forall>t u x r x'. ug_AddUser M t u x = (r, x') \<longrightarrow> ug_Get M t x' = ug_Get M t x \<and>
        us x' = (if r = Ret () then (us x)(t := insert (pu_Email u) (us x t)) else us x)) \<and>
     (\<forall>t e x r x'. ug_RemoveUser M t e x = (r, x') \<longrightarrow> (e \<in> us x t \<longrightarrow> r = Ret ()) \<and> us x' = (us x)(t := us x t - {e}))"

lemma each_map: "each f xs = Ret ys \<Longrightarrow> (\<And>x y. f x = Ret y \<Longrightarrow> g y = h x) \<Longrightarrow> map g ys = map h xs"
  by (induction xs arbitrary: ys) (auto split: outcome.splits)

lemma SSUser_email: "buildSSUser b64 tag u c k = Ret p \<Longrightarrow> pu_Email p = UserTag tag (u_Uuid u)"
  by (auto simp: buildSSUser_def Let_def bindR_Ret split: if_split_asm)

lemma accounts_emails:
  assumes "xray_accounts b64 tag users info = Ret ps"
  shows "map pu_Email ps = map (\<lambda>u. UserTag tag (u_Uuid u)) users"
  using assms unfolding xray_accounts_def
  by (elim if_Ret bindR_elim)
    (auto simp: buildVmessUsers_def buildVmessUser_def buildVlessUsers_def buildVlessUser_def buildTrojanUsers_def
      buildTrojanUser_def buildSSUsers_def intro: each_map SSUser_email)

lemma add_accounts_known:
  assumes "manager_laws M us"
  shows "add_accounts M tag ps x = (Ret v, x') \<Longrightarrow>
    us x' = (us x)(tag := us x tag \<union> pu_Email ` set ps) \<and> ug_Get M tag x' = ug_Get M tag x"
proof (induction ps arbitrary: x)
  case (Cons p ps)
  obtain r x1 where a: "ug_AddUser M tag p x = (r, x1)" by force
  with Cons.prems have r: "r = Ret ()" and rest: "add_accounts M tag ps x1 = (Ret v, x')"
    by (cases "ug_ToMemoryUser M p"; cases r; simp)+
  from assms a r have "us x1 = (us x)(tag := insert (pu_Email p) (us x tag))" "ug_Get M tag x1 = ug_Get M tag x"
    unfolding manager_laws_def by simp_all
  with Cons.IH [OF rest] show ?case by (auto simp: fun_eq_iff)
qed simp

lemma note_ids_load:
  "mload (note_ids key uid us m) k =
     (if k \<in> key ` set us then Some (uid (last (filter (\<lambda>u. key u = k) us))) else mload m k)"
proof (induction us rule: rev_induct)
  case (snoc u us)
  then show ?case by (auto simp: note_ids_def)
qed (simp add: note_ids_def)

lemma note_ids_distinct:
  "distinct (map key us) \<Longrightarrow> u \<in> set us \<Longrightarrow> mload (note_ids key uid us m) (key u) = Some (uid u)"
proof -
  assume d: "distinct (map key us)" and u: "u \<in> set us"
  have "filter (\<lambda>v. key v = key u) us = filter (\<lambda>v. v = u) us"
    by (rule filter_cong) (use d u in \<open>auto simp: distinct_map dest: inj_onD\<close>)
  moreover have "last (filter (\<lambda>v. v = u) us) \<in> set (filter (\<lambda>v. v = u) us)"
    by (rule last_in_set) (use u in \<open>auto simp: filter_empty_conv\<close>)
  ultimately show ?thesis using u by (auto simp: note_ids_load)
qed

lemma forget_user_parts [simp]:
  "xr_Server (forget_user tag e x) = xr_Server x"
  "um_uidMap (xr_maps (forget_user tag e x)) = mdelete (um_uidMap (xr_maps x)) e"
  by (simp_all add: forget_user_def Let_def split: option.split)

lemma del_users_known:
  assumes "manager_laws M us"
  shows "distinct (map u_Uuid users) \<Longrightarrow> user_emails tag users \<subseteq> us (xr_Server x) tag \<Longrightarrow>
    \<exists>x2. del_users M tag users x = (Ret (), x2) \<and> us (xr_Server x2) = (us (xr_Server x))(tag := us (xr_Server x) tag - user_emails tag users) \<and>
      (\<forall>k. mload (um_uidMap (xr_maps x2)) k = (if k \<in> user_emails tag users then None else mload (um_uidMap (xr_maps x)) k))"
proof (induction users arbitrary: x)
  case (Cons u users)
  let ?e = "UserTag tag (u_Uuid u)"
  obtain r s where rm: "ug_RemoveUser M tag ?e (xr_Server x) = (r, s)" by force
  from Cons.prems(2) have "?e \<in> us (xr_Server x) tag" by simp
  with assms rm have r: "r = Ret ()" and s: "us s = (us (xr_Server x))(tag := us (xr_Server x) tag - {?e})"
    unfolding manager_laws_def by blast+
  define x1 where "x1 = forget_user tag ?e (x\<lparr>xr_Server := s\<rparr>)"
  have "?e \<notin> user_emails tag users" using Cons.prems(1) by auto
  then have "user_emails tag users \<subseteq> us (xr_Server x) tag - {?e}"
    using Cons.prems(2) by (simp del: UserTag_inj) blast
  then have "user_emails tag users \<subseteq> us (xr_Server x1) tag" by (simp add: x1_def s)
  moreover have "distinct (map u_Uuid users)" using Cons.prems(1) by simp
  ultimately obtain x2 where x2: "del_users M tag users x1 = (Ret (), x2)"
    "us (xr_Server x2) = (us (xr_Server x1))(tag := us (xr_Server x1) tag - user_emails tag users)"
    "\<forall>k. mload (um_uidMap (xr_maps x2)) k = (if k \<in> user_emails tag users then None else mload (um_uidMap (xr_maps x1)) k)" using Cons.IH by blast
  have "us (xr_Server x2) = (us (xr_Server x))(tag := us (xr_Server x) tag - user_emails tag (u # users))"
    unfolding x2(2) by (simp add: x1_def s, rule arg_cong [of _ _ "\<lambda>z. (us (xr_Server x))(tag := z)"], blast)
  moreover have "\<forall>k. mload (um_uidMap (xr_maps x2)) k =
      (if k \<in> user_emails tag (u # users) then None else mload (um_uidMap (xr_maps x)) k)"
    unfolding x2(3) [rule_format] by (auto simp: x1_def)
  ultimately show ?case using rm r x2(1) by (auto simp: x1_def)
qed simp

text \<open>C34: Adding users to an xray inbound and deleting them again. When users the inbound does not know
  are added and the core reports success, it reports their number, the inbound knows exactly them in
  addition, each under the email that joins the inbound's tag and the user's uuid, and the core has
  each one's id for accounting; deleting them then succeeds and leaves the inbound's users as they
  were and no id behind.\<close>

theorem xray_users_roundtrip:
  assumes laws: "manager_laws M us" and add: "Xray_AddUsers b64 M tag users info x = (Ret n, x1)"
    and "distinct (map u_Uuid users)" and "user_emails tag users \<inter> us (xr_Server x) tag = {}"
  shows "n = length users \<and> us (xr_Server x1) = (us (xr_Server x))(tag := us (xr_Server x) tag \<union> user_emails tag users) \<and>
    (\<forall>u \<in> set users. mload (um_uidMap (xr_maps x1)) (UserTag tag (u_Uuid u)) = Some (u_Id u)) \<and>
    (\<exists>x2. Xray_DelUsers M users tag x1 = (Ret (), x2) \<and> us (xr_Server x2) = us (xr_Server x) \<and>
      (\<forall>k. mload (um_uidMap (xr_maps x2)) k = (if k \<in> user_emails tag users then None else mload (um_uidMap (xr_maps x)) k)))"
proof -
  let ?key = "\<lambda>u. UserTag tag (u_Uuid u)"
  obtain ps where ps: "xray_accounts b64 tag users info = Ret ps"
    using add by (cases "xray_accounts b64 tag users info") (simp_all add: Xray_AddUsers_def Let_def)
  obtain g where g: "ug_Get M tag (xr_Server x) = Ret g"
    using add ps by (cases "ug_Get M tag (xr_Server x)") (simp_all add: Xray_AddUsers_def GetUserManager_def Let_def)
  obtain r s where a: "add_accounts M tag ps (xr_Server x) = (r, s)" by force
  obtain v where r: "r = Ret v"
    using add ps g a by (cases r) (simp_all add: Xray_AddUsers_def GetUserManager_def Let_def)
  have n: "n = length ps" and x1: "xr_Server x1 = s" "um_uidMap (xr_maps x1) = note_ids ?key u_Id users (um_uidMap (xr_maps x))"
    using add ps g a r by (auto simp: Xray_AddUsers_def GetUserManager_def Let_def)
  from accounts_emails [OF ps] have em: "pu_Email ` set ps = user_emails tag users" and len: "length ps = length users"
    by (metis list.set_map, metis length_map)
  from add_accounts_known [OF laws, of tag ps "xr_Server x" v s] a r em
  have s: "us s = (us (xr_Server x))(tag := us (xr_Server x) tag \<union> user_emails tag users)" "ug_Get M tag s = Ret g" using g by simp_all
  have d: "distinct (map ?key users)" using assms(3) by (simp add: distinct_map inj_on_def)
  have sub: "user_emails tag users \<subseteq> us (xr_Server x1) tag" by (simp add: x1 s)
  from del_users_known [OF laws assms(3) sub] obtain x2 where x2: "del_users M tag users x1 = (Ret (), x2)"
    "us (xr_Server x2) = (us (xr_Server x1))(tag := us (xr_Server x1) tag - user_emails tag users)"
    "\<forall>k. mload (um_uidMap (xr_maps x2)) k = (if k \<in> user_emails tag users then None else mload (um_uidMap (xr_maps x1)) k)" by blast
  have "Xray_DelUsers M users tag x1 = (Ret (), x2)"
    using x2(1) s(2) by (simp add: Xray_DelUsers_def GetUserManager_def x1)
  moreover have "us (xr_Server x2) = us (xr_Server x)"
  proof
    fix t
    show "us (xr_Server x2) t = us (xr_Server x) t"
      unfolding x2(2) x1 s using assms(4) by auto
  qed
  moreover have "\<forall>k. mload (um_uidMap (xr_maps x2)) k = (if k \<in> user_emails tag users then None else mload (um_uidMap (xr_maps x)) k)"
    unfolding x2(3) [rule_format] x1 by (simp add: note_ids_load)
  moreover have "\<forall>u \<in> set users. mload (um_uidMap (xr_maps x1)) (UserTag tag (u_Uuid u)) = Some (u_Id u)"
    unfolding x1 using note_ids_distinct [OF d] by blast
  ultimately show ?thesis using n len x1(1) s(1) by blast
qed

definition demo_manager :: "(string \<times> string) list user_manager" where
  "demo_manager = \<lparr>ug_Get = (\<lambda>t x. Ret ()), ug_ToMemoryUser = (\<lambda>u. Ret ()),
     ug_AddUser = (\<lambda>t u x. (Ret (), (t, pu_Email u) # x)),
     ug_RemoveUser = (\<lambda>t e x. (Ret (), filter (\<lambda>p. p \<noteq> (t, e)) x))\<rparr>"

definition demo_emails :: "(string \<times> string) list \<Rightarrow> string \<Rightarrow> string set" where
  "demo_emails x t = {e. (t, e) \<in> set x}"

definition demo_xray :: "(string \<times> string) list Xray" where
  "demo_xray = \<lparr>xr_Server = [], xr_maps = \<lparr>um_uidMap = [], um_Counter = []\<rparr>, xr_LinkManagers = [], xr_links = demo_links\<rparr>"

definition one_user :: UserInfo where
  "one_user = \<lparr>u_Id = 1, u_Uuid = ''a'', u_SpeedLimit = 0, u_DeviceLimit = 0\<rparr>"

definition vmess_info :: NodeInfo where
  "vmess_info = \<lparr>ni_Id = 1, ni_Type = ''vmess'', ni_PushInterval = 0, ni_PullInterval = 0, ni_Common = None\<rparr>"

theorem xray_users_roundtrip_witness:
  "\<exists>x1 x2. Xray_AddUsers (\<lambda>s. s) demo_manager ''t'' [one_user] vmess_info demo_xray = (Ret 1, x1) \<and>
     Xray_DelUsers demo_manager [one_user] ''t'' x1 = (Ret (), x2) \<and> demo_emails (xr_Server x2) = demo_emails []"
proof -
  let ?r = "Xray_AddUsers (\<lambda>s. s) demo_manager ''t'' [one_user] vmess_info demo_xray"
  have "fst ?r = Ret 1"
    by (simp add: Xray_AddUsers_def xray_accounts_def buildVmessUsers_def buildVmessUser_def GetUserManager_def
        demo_manager_def demo_xray_def vmess_info_def one_user_def Let_def)
  then obtain x1 where r: "?r = (Ret 1, x1)" by (cases ?r) simp
  have laws: "manager_laws demo_manager demo_emails"
    by (auto simp: manager_laws_def demo_manager_def demo_emails_def fun_eq_iff)
  have d: "distinct (map u_Uuid [one_user])" by simp
  have e: "user_emails ''t'' [one_user] \<inter> demo_emails (xr_Server demo_xray) ''t'' = {}"
    by (simp add: demo_emails_def demo_xray_def)
  have x: "xr_Server demo_xray = []" by (simp add: demo_xray_def)
  from xray_users_roundtrip [OF laws r d e] r show ?thesis unfolding x by blast
qed

section \<open>Users of the sing core\<close>

text \<open>The users handed to an inbound, per kind of inbound, as the option structs of sing-box.\<close>

datatype sing_users =
    VLESSUsers "(string \<times> string \<times> string) list"
  | VMessUsers "(string \<times> string) list"
  | ShadowsocksUsers "(string \<times> string) list"
  | TrojanUsers "(string \<times> string) list"
  | TUICUsers "(string \<times> string \<times> string) list" "int list"
  | Hysteria2Users "(string \<times> string) list" "int list"
  | AnyTLSUsers "(string \<times> string) list"

fun users_kind :: "sing_users \<Rightarrow> string" where
  "users_kind (VLESSUsers _) = ''vless''" | "users_kind (VMessUsers _) = ''vmess''"
| "users_kind (ShadowsocksUsers _) = ''shadowsocks''" | "users_kind (TrojanUsers _) = ''trojan''"
| "users_kind (TUICUsers _ _) = ''tuic''" | "users_kind (Hysteria2Users _ _) = ''hysteria2''"
| "users_kind (AnyTLSUsers _) = ''anytls''"

text \<open>\<open>bx_Get\<close> gives the type of the inbound of a tag; a type assertion on another type panics.\<close>

record 'b sing_inbounds =
  bx_Get :: "string \<Rightarrow> 'b \<Rightarrow> string option"
  bx_AddUsers :: "string \<Rightarrow> sing_users \<Rightarrow> 'b \<Rightarrow> unit outcome \<times> 'b"
  bx_DelUsers :: "string \<Rightarrow> string list \<Rightarrow> 'b \<Rightarrow> unit outcome \<times> 'b"

record 'b Sing =
  sg_box :: 'b
  sg_maps :: UserMaps

definition ss_password :: "(string \<Rightarrow> string) \<Rightarrow> string \<Rightarrow> string \<Rightarrow> string outcome" where
  "ss_password b64 cipher uuid =
    (if cipher = ''2022-blake3-aes-128-gcm'' then bindR (upto uuid 16) (\<lambda>k. Ret (b64 k))
     else if cipher = ''2022-blake3-aes-256-gcm'' then bindR (upto uuid 32) (\<lambda>k. Ret (b64 k))
     else Ret uuid)"

text \<open>\<open>None\<close>: the switch has no case for the type, and nothing is added.\<close>

definition sing_accounts :: "(string \<Rightarrow> string) \<Rightarrow> UserInfo list \<Rightarrow> NodeInfo \<Rightarrow> sing_users option outcome" where
  "sing_accounts b64 us info =
    (let named = map (\<lambda>u. (u_Uuid u, u_Uuid u)) us; ids = map u_Id us; t = ni_Type info in
     if t = ''vless'' then
       bindR (if us = [] then Ret '''' else bindR (deref (ni_Common info)) (\<lambda>c. bindR (deref (cn_Vless c)) (\<lambda>v. Ret (vl_Flow v))))
         (\<lambda>flow. Ret (Some (VLESSUsers (map (\<lambda>u. (u_Uuid u, flow, u_Uuid u)) us))))
     else if t = ''vmess'' then Ret (Some (VMessUsers named))
     else if t = ''shadowsocks'' then
       bindR (each (\<lambda>u. bindR (deref (ni_Common info)) (\<lambda>c. bindR (deref (cn_Shadowsocks c)) (\<lambda>s.
           bindR (ss_password b64 (ss_Cipher s) (u_Uuid u)) (\<lambda>p. Ret (u_Uuid u, p))))) us)
         (\<lambda>ps. Ret (Some (ShadowsocksUsers ps)))
     else if t = ''trojan'' then Ret (Some (TrojanUsers named))
     else if t = ''tuic'' then Ret (Some (TUICUsers (map (\<lambda>u. (u_Uuid u, u_Uuid u, u_Uuid u)) us) ids))
     else if t = ''hysteria2'' then Ret (Some (Hysteria2Users named ids))
     else if t = ''anytls'' then Ret (Some (AnyTLSUsers named))
     else Ret None)"

definition Sing_AddUsers :: "(string \<Rightarrow> string) \<Rightarrow> 'b sing_inbounds \<Rightarrow> string \<Rightarrow> UserInfo list \<Rightarrow> NodeInfo \<Rightarrow> 'b Sing
    \<Rightarrow> nat outcome \<times> 'b Sing" where
  "Sing_AddUsers b64 B tag users info s =
    (case bx_Get B tag (sg_box s) of
       None \<Rightarrow> (Fail ''the inbound not found'', s)
     | Some ty \<Rightarrow>
         (let s1 = s\<lparr>sg_maps := (sg_maps s)\<lparr>um_uidMap := note_ids u_Uuid u_Id users (um_uidMap (sg_maps s))\<rparr>\<rparr>
          in case sing_accounts b64 users info of
               Fail e \<Rightarrow> (Fail e, s1)
             | Panic \<Rightarrow> (Panic, s1)
             | Ret None \<Rightarrow> (Ret (length users), s1)
             | Ret (Some us) \<Rightarrow>
                 if users_kind us \<noteq> ty then (Panic, s1)
                 else (case bx_AddUsers B tag us (sg_box s1) of
                         (Ret _, b) \<Rightarrow> (Ret (length users), s1\<lparr>sg_box := b\<rparr>)
                       | (Fail e, b) \<Rightarrow> (Fail e, s1\<lparr>sg_box := b\<rparr>)
                       | (Panic, b) \<Rightarrow> (Panic, s1\<lparr>sg_box := b\<rparr>))))"

definition forget_uuid :: "string \<Rightarrow> UserMaps \<Rightarrow> UserInfo \<Rightarrow> UserMaps" where
  "forget_uuid tag maps u =
    (let maps1 = (case mload (um_Counter maps) tag of
                    None \<Rightarrow> maps
                  | Some tc \<Rightarrow> maps\<lparr>um_Counter := mstore (um_Counter maps) tag (TC_Delete tc (u_Uuid u))\<rparr>)
     in maps1\<lparr>um_uidMap := mdelete (um_uidMap maps1) (u_Uuid u)\<rparr>)"

text \<open>An inbound of a type the switch does not list leaves the deleter nil.\<close>

definition Sing_DelUsers :: "'b sing_inbounds \<Rightarrow> UserInfo list \<Rightarrow> string \<Rightarrow> 'b Sing \<Rightarrow> unit outcome \<times> 'b Sing" where
  "Sing_DelUsers B users tag s =
    (case bx_Get B tag (sg_box s) of
       None \<Rightarrow> (Fail ''the inbound not found'', s)
     | Some ty \<Rightarrow>
         (let s1 = s\<lparr>sg_maps := foldl (forget_uuid tag) (sg_maps s) users\<rparr>
          in if ty \<notin> {''vmess'', ''vless'', ''shadowsocks'', ''trojan'', ''tuic'', ''hysteria'', ''hysteria2'', ''anytls''} then (Panic, s1)
             else (case bx_DelUsers B tag (map u_Uuid users) (sg_box s1) of (r, b) \<Rightarrow> (r, s1\<lparr>sg_box := b\<rparr>))))"

definition Sing_GetUserTrafficSlice :: "string \<Rightarrow> bool \<Rightarrow> 'b Sing \<Rightarrow> UserTraffic list outcome \<times> 'b Sing" where
  "Sing_GetUserTrafficSlice tag reset s =
    (case GetUserTrafficSlice (sg_maps s) tag reset of (sl, maps) \<Rightarrow> (Ret sl, s\<lparr>sg_maps := maps\<rparr>))"

definition Sing_AddUserTrafficSlice :: "string \<Rightarrow> UserTraffic list \<Rightarrow> 'b Sing \<Rightarrow> unit outcome \<times> 'b Sing" where
  "Sing_AddUserTrafficSlice tag traffic s =
    (case AddUserTrafficSlice (sg_maps s) tag traffic of (r, maps) \<Rightarrow> (r, s\<lparr>sg_maps := maps\<rparr>))"

text \<open>A node of type hysteria serves no users. For such a node the sing core reports every user as
  added, takes down the ids, and hands none of them to the inbound.\<close>

lemma hysteria_users_dropped:
  assumes "bx_Get B tag (sg_box s) \<noteq> None" and "ni_Type info = ''hysteria''"
  shows "\<exists>s'. Sing_AddUsers b64 B tag users info s = (Ret (length users), s') \<and> sg_box s' = sg_box s"
  using assms by (auto simp: Sing_AddUsers_def sing_accounts_def Let_def)

lemma hysteria_users_dropped_example:
  "\<exists>s'. Sing_AddUsers (\<lambda>k. k) \<lparr>bx_Get = (\<lambda>t b. Some ''hysteria''), bx_AddUsers = (\<lambda>t u b. (Ret (), u # b)),
      bx_DelUsers = (\<lambda>t u b. (Ret (), b))\<rparr> ''t'' [one_user] (vmess_info\<lparr>ni_Type := ''hysteria''\<rparr>)
      \<lparr>sg_box = [], sg_maps = \<lparr>um_uidMap = [], um_Counter = []\<rparr>\<rparr> = (Ret 1, s') \<and> sg_box s' = []"
  using hysteria_users_dropped
    [where B = "\<lparr>bx_Get = (\<lambda>t b. Some ''hysteria''), bx_AddUsers = (\<lambda>t u b. (Ret (), u # b)), bx_DelUsers = (\<lambda>t u b. (Ret (), b))\<rparr>"
      and tag = "''t''" and users = "[one_user]" and info = "vmess_info\<lparr>ni_Type := ''hysteria''\<rparr>" and ?b64.0 = "\<lambda>k. k"
      and s = "\<lparr>sg_box = [], sg_maps = \<lparr>um_uidMap = [], um_Counter = []\<rparr>\<rparr>"]
  by simp

text \<open>One user map serves all inbounds of the sing core, keyed by uuid alone: deleting a user from one
  inbound makes the traffic of another inbound anonymous.\<close>

lemma shared_uuid_forgotten:
  assumes "u \<in> set users"
  shows "mload (um_uidMap (foldl (forget_uuid tag) maps users)) (u_Uuid u) = None"
proof -
  have keep: "mload (um_uidMap maps) k = None \<Longrightarrow> mload (um_uidMap (foldl (forget_uuid tag) maps us)) k = None" for k maps us
    by (induction us arbitrary: maps) (auto simp: forget_uuid_def Let_def split: option.split)
  show ?thesis
    using assms
  proof (induction users arbitrary: maps)
    case (Cons v users)
    then show ?case
    proof (cases "u = v")
      case True
      have "mload (um_uidMap (forget_uuid tag maps v)) (u_Uuid v) = None" by (simp add: forget_uuid_def Let_def)
      with True show ?thesis by (simp add: keep)
    qed simp
  qed simp
qed

end
