(* ===== verification/Dispatch.thy ===== *)
theory Dispatch
  imports Sniffing Sessions CoreUsers
begin

text \<open>
  The dispatcher of the xray core, \<open>default.go\<close> and \<open>countreader.go\<close> of \<open>core/xray/app/dispatcher\<close>: for every
  connection it asks the limiter, wraps reader and writer, sniffs, and hands the link to an outbound.
  Pipes are numbered; a link is a reader and a writer, each a stack of wrappers around an end of a pipe.
  The router, the outbound handlers and the session are parameters.
\<close>

section \<open>Links and the state of the dispatcher\<close>

datatype writer =
    PipeWriter nat
  | Managed nat
  | RateLimitWriter writer Bucket
  | SizeStatWriter writer dir string nat

datatype reader =
    PipeReader nat
  | CounterReader reader string nat
  | CachedReader reader

record Link =
  ln_Reader :: reader
  ln_Writer :: writer

text \<open>What a managed writer wraps, beside its entry in the link world.\<close>

record writer_info =
  wi_pipe :: nat
  wi_release :: "release_fn option"

record DefaultDispatcher =
  dd_lim :: limworld
  dd_links :: link_world
  dd_infos :: "writer_info list"
  dd_LinkManagers :: "(string, nat) gomap"
  dd_Counter :: "(string, TrafficCounter) gomap"
  dd_pipes :: nat
  dd_closed :: "nat list"
  dd_interrupted :: "nat list"

definition managed_Close :: "nat \<Rightarrow> DefaultDispatcher \<Rightarrow> unit outcome \<times> DefaultDispatcher" where
  "managed_Close a d =
    (let w = lk_writers (dd_links d) ! a; i = dd_infos d ! a;
         released = (case (mw_release w \<and> \<not> mw_releaseOnce w, wi_release i) of
            (True, Some f) \<Rightarrow> run_release f (dd_lim d) | _ \<Rightarrow> (Ret (), dd_lim d))
     in case released of
          (Ret _, lim) \<Rightarrow> (Ret (), d\<lparr>dd_lim := lim, dd_links := ManagedWriter_Close a (dd_links d), dd_closed := dd_closed d @ [wi_pipe i]\<rparr>)
        | (e, lim) \<Rightarrow> (e, d\<lparr>dd_lim := lim, dd_links := RemoveWriter (mw_manager w) a (dd_links d)\<rparr>))"

fun close_writer :: "writer \<Rightarrow> DefaultDispatcher \<Rightarrow> unit outcome \<times> DefaultDispatcher" where
  "close_writer (PipeWriter n) d = (Ret (), d\<lparr>dd_closed := dd_closed d @ [n]\<rparr>)"
| "close_writer (Managed a) d = managed_Close a d"
| "close_writer (RateLimitWriter w b) d = close_writer w d"
| "close_writer (SizeStatWriter w t tag s) d = close_writer w d"

fun interrupt_reader :: "reader \<Rightarrow> DefaultDispatcher \<Rightarrow> DefaultDispatcher" where
  "interrupt_reader (PipeReader n) d = d\<lparr>dd_interrupted := dd_interrupted d @ [n]\<rparr>"
| "interrupt_reader (CounterReader r tag s) d = d"
| "interrupt_reader (CachedReader r) d = (case r of PipeReader n \<Rightarrow> d\<lparr>dd_interrupted := dd_interrupted d @ [n]\<rparr> | _ \<Rightarrow> d)"

text \<open>\<open>CounterReader\<close> counts what it reads, with and without a timeout alike.\<close>

definition CounterReader_Read :: "string option \<Rightarrow> TrafficStorage \<Rightarrow> string option \<times> TrafficStorage" where
  "CounterReader_Read mb s =
    (case mb of
       None \<Rightarrow> (None, s)
     | Some b \<Rightarrow> (Some b, if length b > 0 then s\<lparr>ts_Up := ts_Up s + of_nat (length b)\<rparr> else s))"

section \<open>Admission\<close>

text \<open>The session's inbound: tag, the email of its user (empty without one), address, and whether the
  source is TCP.\<close>

record session_inbound =
  sx_Tag :: string
  sx_Email :: string
  sx_IP :: string
  sx_SourceTCP :: bool
  sx_CanSpliceCopy :: int

definition check_session :: "int \<Rightarrow> network \<Rightarrow> session_inbound \<Rightarrow> DefaultDispatcher \<Rightarrow> (nat \<times> Bucket option) outcome \<times> DefaultDispatcher" where
  "check_session now net s d =
    (case GetLimiterByRuntimeKey (dd_lim d) (sx_Tag s) of
       Fail e \<Rightarrow> (Fail ''get limiter'', d)
     | Panic \<Rightarrow> (Panic, d)
     | Ret a \<Rightarrow>
         (case CheckLimit (limiter_at (dd_lim d) a) (sx_Email s) (sx_IP s) (net = Network_TCP) (sx_SourceTCP s) now of
            None \<Rightarrow> (Panic, d)
          | Some ((b, r), l) \<Rightarrow>
              (if r then Fail ''Limited by conn or ip'' else Ret (a, b), d\<lparr>dd_lim := heap_update a (\<lambda>_. l) (dd_lim d)\<rparr>)))"

definition link_manager :: "string \<Rightarrow> DefaultDispatcher \<Rightarrow> nat \<times> DefaultDispatcher" where
  "link_manager email d =
    (case mload (dd_LinkManagers d) email of
       Some m \<Rightarrow> (m, d)
     | None \<Rightarrow>
         (let m = length (lk_managers (dd_links d))
          in (m, d\<lparr>dd_links := (dd_links d)\<lparr>lk_managers := lk_managers (dd_links d) @ [[]]\<rparr>,
                   dd_LinkManagers := mstore (dd_LinkManagers d) email m\<rparr>)))"

definition managed_writer :: "nat \<Rightarrow> nat \<Rightarrow> release_fn option \<Rightarrow> DefaultDispatcher \<Rightarrow> nat \<times> DefaultDispatcher" where
  "managed_writer m pipe rel d =
    (length (lk_writers (dd_links d)),
     d\<lparr>dd_links := (dd_links d)\<lparr>lk_writers := lk_writers (dd_links d) @
          [\<lparr>mw_manager = m, mw_release = (rel \<noteq> None), mw_releaseOnce = False, mw_released = 0, mw_closed = 0\<rparr>]\<rparr>,
       dd_infos := dd_infos d @ [\<lparr>wi_pipe = pipe, wi_release = rel\<rparr>]\<rparr>)"

definition user_counter :: "string \<Rightarrow> string \<Rightarrow> DefaultDispatcher \<Rightarrow> nat \<times> DefaultDispatcher" where
  "user_counter tag email d =
    (let t = (case mload (dd_Counter d) tag of None \<Rightarrow> NewTrafficCounter | Some t \<Rightarrow> t)
     in case GetCounter t email of (s, t') \<Rightarrow> (s, d\<lparr>dd_Counter := mstore (dd_Counter d) tag t'\<rparr>))"

text \<open>The release function of a TCP session in realtime mode.\<close>

definition session_release :: "network \<Rightarrow> session_inbound \<Rightarrow> nat \<Rightarrow> DefaultDispatcher \<Rightarrow> release_fn option" where
  "session_release net s a d =
    (if net = Network_TCP \<and> cl_realtime (lm_ConnLimiter (limiter_at (dd_lim d) a))
     then Some \<lparr>rf_limiter = a, rf_user = sx_Email s, rf_ip = sx_IP s\<rparr> else None)"

definition limit_writer :: "Bucket option \<Rightarrow> writer \<Rightarrow> writer" where
  "limit_writer b w = (case b of None \<Rightarrow> w | Some bk \<Rightarrow> RateLimitWriter w bk)"

definition splice :: "Bucket option \<Rightarrow> session_inbound \<Rightarrow> session_inbound" where
  "splice b s = (if b = None then s else s\<lparr>sx_CanSpliceCopy := 3\<rparr>)"

section \<open>New links\<close>

text \<open>The pipes of \<open>getLink\<close>: uplink first, downlink second.\<close>

definition getLink :: "int \<Rightarrow> network \<Rightarrow> session_inbound option \<Rightarrow> DefaultDispatcher
    \<Rightarrow> (Link \<times> Link \<times> nat option \<times> session_inbound option) outcome \<times> DefaultDispatcher" where
  "getLink now net sess d0 =
    (let up = dd_pipes d0; down = up + 1; d = d0\<lparr>dd_pipes := up + 2\<rparr>;
         inLink = \<lparr>ln_Reader = PipeReader down, ln_Writer = PipeWriter up\<rparr>;
         outLink = \<lparr>ln_Reader = PipeReader up, ln_Writer = PipeWriter down\<rparr>
     in case sess of
          None \<Rightarrow> (Ret (inLink, outLink, None, None), d)
        | Some s \<Rightarrow>
            if sx_Email s = '''' then (Ret (inLink, outLink, None, Some s), d)
            else (case check_session now net s d of
               (Panic, d1) \<Rightarrow> (Panic, d1)
             | (Fail e, d1) \<Rightarrow> (Fail e, d1\<lparr>dd_closed := dd_closed d1 @ [down, up], dd_interrupted := dd_interrupted d1 @ [up, down]\<rparr>)
             | (Ret (a, b), d1) \<Rightarrow>
                 (let (m, d2) = link_manager (sx_Email s) d1;
                      (wa, d3) = managed_writer m up (session_release net s a d2) d2;
                      d4 = d3\<lparr>dd_links := AddLink m wa up (dd_links d3)\<rparr>;
                      (sa, d5) = user_counter (sx_Tag s) (sx_Email s) d4
                  in (Ret (inLink\<lparr>ln_Writer := SizeStatWriter (limit_writer b (Managed wa)) Up (sx_Tag s) sa\<rparr>,
                           outLink\<lparr>ln_Writer := SizeStatWriter (limit_writer b (PipeWriter down)) Down (sx_Tag s) sa\<rparr>,
                           Some a, Some (splice b s)), d5))))"

text \<open>The same for the link that \<open>DispatchLink\<close> is given, with the pipe \<open>p\<close> behind its writer and \<open>q\<close> behind
  its reader; the new writer is not added to the link manager.\<close>

definition link_session :: "int \<Rightarrow> network \<Rightarrow> session_inbound option \<Rightarrow> nat \<Rightarrow> nat \<Rightarrow> DefaultDispatcher
    \<Rightarrow> (Link \<times> nat option \<times> session_inbound option) outcome \<times> DefaultDispatcher" where
  "link_session now net sess p q d =
    (let link = \<lparr>ln_Reader = PipeReader q, ln_Writer = PipeWriter p\<rparr>
     in case sess of
          None \<Rightarrow> (Ret (link, None, None), d)
        | Some s \<Rightarrow>
            if sx_Email s = '''' then (Ret (link, None, Some s), d)
            else (case check_session now net s d of
               (Panic, d1) \<Rightarrow> (Panic, d1)
             | (Fail e, d1) \<Rightarrow> (Fail e, d1\<lparr>dd_closed := dd_closed d1 @ [p], dd_interrupted := dd_interrupted d1 @ [q]\<rparr>)
             | (Ret (a, b), d1) \<Rightarrow>
                 (let (m, d2) = link_manager (sx_Email s) d1;
                      (wa, d3) = managed_writer m p (session_release net s a d2) d2;
                      (sa, d4) = user_counter (sx_Tag s) (sx_Email s) d3
                  in (Ret (\<lparr>ln_Reader = CounterReader (PipeReader q) (sx_Tag s) sa,
                            ln_Writer = SizeStatWriter (limit_writer b (Managed wa)) Down (sx_Tag s) sa\<rparr>,
                           Some a, Some (splice b s)), d4))))"

section \<open>Where a connection goes\<close>

record Outbound =
  ob_OriginalTarget :: Destination
  ob_Target :: Destination
  ob_RouteTarget :: "Destination option"
  ob_Tag :: string

definition zero_destination :: Destination where
  "zero_destination = \<lparr>dn_Network = Network_Unknown, dn_Address = IPAddr '''', dn_Port = 0\<rparr>"

definition new_outbound :: "Outbound list \<Rightarrow> Destination \<Rightarrow> Outbound" where
  "new_outbound obs destination =
    (let ob = (if obs = [] then \<lparr>ob_OriginalTarget = zero_destination, ob_Target = zero_destination, ob_RouteTarget = None, ob_Tag = ''''\<rparr>
               else last obs)
     in ob\<lparr>ob_OriginalTarget := destination, ob_Target := destination\<rparr>)"

text \<open>What the connection turns into when something was found.\<close>

definition retarget :: "(string \<Rightarrow> (string \<Rightarrow> bool) option) \<Rightarrow> FakeDNSEngine option \<Rightarrow> (string \<Rightarrow> address) \<Rightarrow> SniffingRequest
    \<Rightarrow> Destination \<Rightarrow> SniffResult \<Rightarrow> Outbound \<Rightarrow> Outbound" where
  "retarget rx fdns parse request destination result ob =
    (if shouldOverride rx fdns result request destination then
       (let destination1 = destination\<lparr>dn_Address := parse (Domain result)\<rparr>; protocol = domain_protocol result;
            isFakeIP = in_pool fdns (dn_Address (ob_Target ob))
        in if sq_RouteOnly request \<and> protocol \<noteq> ''fakedns'' \<and> protocol \<noteq> ''fakedns+others'' \<and> \<not> isFakeIP
           then ob\<lparr>ob_RouteTarget := Some destination1\<rparr> else ob\<lparr>ob_Target := destination1\<rparr>)
     else ob)"

text \<open>The outbound manager and the router; a handler is named by its tag, which may be empty.\<close>

record 'h routing =
  rt_forced :: string
  rt_GetHandler :: "string \<Rightarrow> 'h option"
  rt_router :: "(Outbound \<Rightarrow> (string \<times> string) option) option"
  rt_default :: "'h option"
  rt_Tag :: "'h \<Rightarrow> string"
  rt_inTag :: string

datatype route_kind = DefaultRoute | ForcedRoute | PickedRoute

text \<open>The handler with the way it was chosen, or \<open>None\<close> where the link is closed.\<close>

definition choose_handler :: "'h routing \<Rightarrow> Outbound \<Rightarrow> ('h \<times> route_kind) option" where
  "choose_handler R ob =
    (let default = map_option (\<lambda>h. (h, DefaultRoute)) (rt_default R) in
     if rt_forced R \<noteq> '''' then map_option (\<lambda>h. (h, ForcedRoute)) (rt_GetHandler R (rt_forced R))
     else case rt_router R of
            None \<Rightarrow> default
          | Some pick \<Rightarrow>
              (case pick ob of
                 None \<Rightarrow> default
               | Some (outTag, ruleTag) \<Rightarrow> map_option (\<lambda>h. (h, PickedRoute)) (rt_GetHandler R outTag)))"

text \<open>The line of the access log.\<close>

definition detour :: "string \<Rightarrow> string \<Rightarrow> route_kind \<Rightarrow> string" where
  "detour inTag tag k =
    (if inTag = '''' then tag
     else inTag @ (case k of ForcedRoute \<Rightarrow> '' ==> '' | PickedRoute \<Rightarrow> '' -> '' | DefaultRoute \<Rightarrow> '' >> '') @ tag)"

definition routedDispatch :: "'h routing \<Rightarrow> Link \<Rightarrow> Outbound \<Rightarrow> DefaultDispatcher
    \<Rightarrow> ('h \<times> Outbound \<times> string option) option outcome \<times> DefaultDispatcher" where
  "routedDispatch R link ob d =
    (case choose_handler R ob of
       None \<Rightarrow>
         (case close_writer (ln_Writer link) d of
            (Panic, d1) \<Rightarrow> (Panic, d1)
          | (_, d1) \<Rightarrow> (Ret None, interrupt_reader (ln_Reader link) d1))
     | Some (h, k) \<Rightarrow>
         (let tag = rt_Tag R h
          in (Ret (Some (h, ob\<lparr>ob_Tag := tag\<rparr>, if tag = '''' then None else Some (detour (rt_inTag R) tag k))), d)))"

section \<open>Dispatching\<close>

text \<open>The context of a connection: its session, the sniffing request, and what the pipe will deliver while
  it is sniffed.\<close>

record dispatch_ctx =
  cx_inbound :: "session_inbound option"
  cx_outbounds :: "Outbound list"
  cx_request :: SniffingRequest
  cx_steps :: "read_step list"

record server_lib =
  sl_sniff :: sniff_lib
  sl_cap :: nat
  sl_engine :: "FakeDNSEngine option"
  sl_fdns :: "FakeDNSEngine option"
  sl_regexp :: "string \<Rightarrow> (string \<Rightarrow> bool) option"
  sl_ParseAddress :: "string \<Rightarrow> address"

definition sniff_and_route :: "server_lib \<Rightarrow> 'h routing \<Rightarrow> dispatch_ctx \<Rightarrow> Destination \<Rightarrow> bool \<Rightarrow> Link \<Rightarrow> Outbound \<Rightarrow> DefaultDispatcher
    \<Rightarrow> (('h \<times> Outbound \<times> string option) option outcome \<times> DefaultDispatcher) option" where
  "sniff_and_route V R cx destination is_pipe link ob d =
    (if \<not> sq_Enabled (cx_request cx) then Some (routedDispatch R link ob d)
     else
       (let link1 = link\<lparr>ln_Reader := CachedReader (ln_Reader link)\<rparr>
        in case sniffer (sl_sniff V) (sl_cap V) (sl_engine V) (ob_Target ob) (sq_MetadataOnly (cx_request cx)) (dn_Network destination)
               (cx_steps cx) \<lparr>cr_cache = '''', cr_is_pipe = is_pipe, cr_interrupted = False\<rparr> of
             None \<Rightarrow> None
           | Some (Ret (Found result, _)) \<Rightarrow>
               Some (routedDispatch R link1 (retarget (sl_regexp V) (sl_fdns V) (sl_ParseAddress V) (cx_request cx) destination result ob) d)
           | Some (Ret (_, _)) \<Rightarrow> Some (routedDispatch R link1 ob d)
           | Some (Fail e) \<Rightarrow> Some (Fail e, d)
           | Some Panic \<Rightarrow> Some (Panic, d)))"

definition valid_destination :: "Destination \<Rightarrow> bool" where
  "valid_destination dst \<longleftrightarrow> dn_Network dst \<noteq> Network_Unknown"

text \<open>\<open>Dispatch\<close> returns the inbound link at once and routes in a goroutine of its own; the second component
  is what the goroutine comes to, \<open>None\<close> while it still waits for data.\<close>

definition Dispatch :: "int \<Rightarrow> server_lib \<Rightarrow> 'h routing \<Rightarrow> dispatch_ctx \<Rightarrow> Destination \<Rightarrow> DefaultDispatcher
    \<Rightarrow> (Link outcome \<times> DefaultDispatcher) \<times> (('h \<times> Outbound \<times> string option) option outcome \<times> DefaultDispatcher) option" where
  "Dispatch now V R cx destination d =
    (if \<not> valid_destination destination then ((Panic, d), None)
     else
       (let ob = new_outbound (cx_outbounds cx) destination
        in case getLink now (dn_Network destination) (cx_inbound cx) d of
             (Panic, d1) \<Rightarrow> ((Panic, d1), None)
           | (Fail e, d1) \<Rightarrow> ((Fail e, d1), None)
           | (Ret (inLink, outLink, l, s), d1) \<Rightarrow>
               ((Ret inLink, d1), sniff_and_route V R cx destination True outLink ob d1)))"

text \<open>\<open>DispatchLink\<close> works on the link it is given, and returns when the link was routed; without a user the
  given reader has to be able to time out when it is to be sniffed, and it may or may not be a pipe.\<close>

definition DispatchLink :: "int \<Rightarrow> server_lib \<Rightarrow> 'h routing \<Rightarrow> dispatch_ctx \<Rightarrow> Destination \<Rightarrow> bool \<Rightarrow> bool \<Rightarrow> nat \<Rightarrow> nat \<Rightarrow> DefaultDispatcher
    \<Rightarrow> (unit outcome \<times> ('h \<times> Outbound \<times> string option) option \<times> DefaultDispatcher) option" where
  "DispatchLink now V R cx destination can_time_out is_pipe p q d =
    (if \<not> valid_destination destination then Some (Fail ''Dispatcher: Invalid destination.'', None, d)
     else
       (let ob = new_outbound (cx_outbounds cx) destination
        in case link_session now (dn_Network destination) (cx_inbound cx) p q d of
             (Panic, d1) \<Rightarrow> Some (Panic, None, d1)
           | (Fail e, d1) \<Rightarrow> Some (Fail e, None, d1)
           | (Ret (link, l, s), d1) \<Rightarrow>
               (if sq_Enabled (cx_request cx) \<and> l = None \<and> \<not> can_time_out then Some (Panic, None, d1)
                else case sniff_and_route V R cx destination (is_pipe \<and> l = None) link ob d1 of
                  None \<Rightarrow> None
                | Some (Ret h, d2) \<Rightarrow> Some (Ret (), h, d2)
                | Some (Fail e, d2) \<Rightarrow> Some (Fail e, None, d2)
                | Some (Panic, d2) \<Rightarrow> Some (Panic, None, d2))))"

section \<open>Well-formed dispatchers\<close>

definition dispatcher_ok :: "DefaultDispatcher \<Rightarrow> bool" where
  "dispatcher_ok d \<longleftrightarrow> link_wf (dd_links d) \<and> length (dd_infos d) = length (lk_writers (dd_links d)) \<and>
     (\<forall>e m. mload (dd_LinkManagers d) e = Some m \<longrightarrow> m < length (lk_managers (dd_links d))) \<and>
     (\<forall>i < length (dd_infos d). mw_release (lk_writers (dd_links d) ! i) \<longleftrightarrow> wi_release (dd_infos d ! i) \<noteq> None)"

text \<open>Everything but the links.\<close>

definition rest_same :: "DefaultDispatcher \<Rightarrow> DefaultDispatcher \<Rightarrow> bool" where
  "rest_same d d' \<longleftrightarrow> dd_lim d' = dd_lim d \<and> dd_pipes d' = dd_pipes d \<and> dd_closed d' = dd_closed d \<and> dd_interrupted d' = dd_interrupted d"

lemma link_wf_load:
  "link_wf lw \<longleftrightarrow> (\<forall>m < length (lk_managers lw). mwf (lk_managers lw ! m) \<and>
       (\<forall>w r. mload (lk_managers lw ! m) w = Some r \<longrightarrow> w < length (lk_writers lw) \<and> mw_manager (lk_writers lw ! w) = m)) \<and>
     (\<forall>w \<in> set (lk_writers lw). mw_released w = (if mw_releaseOnce w then 1 else 0) \<and> (mw_releaseOnce w \<longrightarrow> mw_release w))"
proof -
  have "(\<forall>w \<in> set (mkeys m). P w) \<longleftrightarrow> (\<forall>w r. mload m w = Some r \<longrightarrow> P w)" for m :: LinkManager and P
    unfolding Ball_def mkeys_mload by auto
  then show ?thesis by (simp only: link_wf_def)
qed

lemma check_session_effect:
  "check_session now net s d = (r, d') \<Longrightarrow> dd_links d' = dd_links d \<and> dd_infos d' = dd_infos d \<and> dd_LinkManagers d' = dd_LinkManagers d \<and>
     dd_Counter d' = dd_Counter d \<and> dd_pipes d' = dd_pipes d \<and> dd_closed d' = dd_closed d \<and> dd_interrupted d' = dd_interrupted d"
  by (auto simp: check_session_def split: outcome.splits option.splits prod.splits)

lemma check_session_Ret:
  "check_session now net s d = (Ret (a, b), d') \<Longrightarrow> GetLimiterByRuntimeKey (dd_lim d) (sx_Tag s) = Ret a \<and>
     (\<exists>l. CheckLimit (limiter_at (dd_lim d) a) (sx_Email s) (sx_IP s) (net = Network_TCP) (sx_SourceTCP s) now = Some ((b, False), l) \<and>
       dd_lim d' = heap_update a (\<lambda>_. l) (dd_lim d))"
  by (auto simp: check_session_def split: outcome.splits option.splits prod.splits if_splits)

lemma link_manager_effect:
  assumes "link_manager e d = (m, d')" and "dispatcher_ok d"
  shows "dispatcher_ok d' \<and> m < length (lk_managers (dd_links d')) \<and> lk_writers (dd_links d') = lk_writers (dd_links d) \<and>
    dd_infos d' = dd_infos d \<and> rest_same d d' \<and> mload (dd_LinkManagers d') e = Some m \<and> dd_Counter d' = dd_Counter d"
proof (cases "mload (dd_LinkManagers d) e")
  case None
  then have d': "m = length (lk_managers (dd_links d))"
    "d' = d\<lparr>dd_links := (dd_links d)\<lparr>lk_managers := lk_managers (dd_links d) @ [[]]\<rparr>, dd_LinkManagers := mstore (dd_LinkManagers d) e m\<rparr>"
    using assms(1) by (auto simp: link_manager_def Let_def)
  have "link_wf (dd_links d')"
    using assms(2) by (auto simp: d' dispatcher_ok_def link_wf_load nth_append less_Suc_eq)
  with assms(2) show ?thesis by (auto simp: d' dispatcher_ok_def rest_same_def less_Suc_eq split: if_split_asm)
next
  case (Some k)
  with assms show ?thesis by (auto simp: link_manager_def dispatcher_ok_def rest_same_def)
qed

lemma managed_writer_effect:
  assumes "managed_writer m p rel d = (a, d')" and "dispatcher_ok d"
  shows "dispatcher_ok d' \<and> a = length (lk_writers (dd_links d)) \<and> lk_managers (dd_links d') = lk_managers (dd_links d) \<and>
    lk_writers (dd_links d') = lk_writers (dd_links d) @
      [\<lparr>mw_manager = m, mw_release = (rel \<noteq> None), mw_releaseOnce = False, mw_released = 0, mw_closed = 0\<rparr>] \<and>
    dd_infos d' = dd_infos d @ [\<lparr>wi_pipe = p, wi_release = rel\<rparr>] \<and> rest_same d d' \<and> dd_LinkManagers d' = dd_LinkManagers d \<and>
    dd_Counter d' = dd_Counter d"
proof -
  have d': "a = length (lk_writers (dd_links d))" "d' = d\<lparr>dd_links := (dd_links d)\<lparr>lk_writers := lk_writers (dd_links d) @
      [\<lparr>mw_manager = m, mw_release = (rel \<noteq> None), mw_releaseOnce = False, mw_released = 0, mw_closed = 0\<rparr>]\<rparr>,
      dd_infos := dd_infos d @ [\<lparr>wi_pipe = p, wi_release = rel\<rparr>]\<rparr>"
    using assms(1) by (simp_all add: managed_writer_def)
  have "link_wf (dd_links d')"
    using assms(2) by (fastforce simp: d' dispatcher_ok_def link_wf_load nth_append)
  with assms(2) show ?thesis by (auto simp: d' dispatcher_ok_def rest_same_def nth_append less_Suc_eq)
qed

lemma user_counter_effect:
  "user_counter tag e d = (s, d') \<Longrightarrow> dd_links d' = dd_links d \<and> dd_infos d' = dd_infos d \<and> dd_LinkManagers d' = dd_LinkManagers d \<and>
     rest_same d d'"
  by (auto simp: user_counter_def rest_same_def Let_def split: option.splits prod.splits)

lemma dispatcher_ok_cong:
  "dispatcher_ok d \<Longrightarrow> dd_links d' = dd_links d \<Longrightarrow> dd_infos d' = dd_infos d \<Longrightarrow> dd_LinkManagers d' = dd_LinkManagers d \<Longrightarrow> dispatcher_ok d'"
  by (simp add: dispatcher_ok_def)

lemma link_wf_AddLink:
  assumes wf: "link_wf lw" and m: "m < length (lk_managers lw)" "a < length (lk_writers lw)" "mw_manager (lk_writers lw ! a) = m"
  shows "link_wf (AddLink m a q lw)"
proof -
  have w: "lk_writers (AddLink m a q lw) = lk_writers lw" by (simp add: AddLink_def)
  have k: "mwf (lk_managers (AddLink m a q lw) ! i) \<and> (\<forall>x r. mload (lk_managers (AddLink m a q lw) ! i) x = Some r \<longrightarrow>
      x < length (lk_writers lw) \<and> mw_manager (lk_writers lw ! x) = i)" if "i < length (lk_managers lw)" for i
    using wf that m unfolding link_wf_load by (cases "i = m") (auto simp: AddLink_def split: if_split_asm)
  have "length (lk_managers (AddLink m a q lw)) = length (lk_managers lw)" by (simp add: AddLink_def)
  with k wf show ?thesis unfolding link_wf_load w by simp
qed

lemma dispatcher_ok_AddLink:
  assumes "dispatcher_ok d" and "m < length (lk_managers (dd_links d))" and "a < length (lk_writers (dd_links d))"
    and "mw_manager (lk_writers (dd_links d) ! a) = m"
  shows "dispatcher_ok (d\<lparr>dd_links := AddLink m a q (dd_links d)\<rparr>)"
  using assms link_wf_AddLink [of "dd_links d" m a q] by (simp add: dispatcher_ok_def) (simp add: AddLink_def)

lemma closed_writer_ok:
  "mw_released w = (if mw_releaseOnce w then 1 else 0) \<and> (mw_releaseOnce w \<longrightarrow> mw_release w) \<Longrightarrow>
   mw_released (closed_writer w) = (if mw_releaseOnce (closed_writer w) then 1 else 0) \<and>
   (mw_releaseOnce (closed_writer w) \<longrightarrow> mw_release (closed_writer w)) \<and> mw_release (closed_writer w) = mw_release w"
  by (auto simp: closed_writer_def)

lemma link_wf_Remove:
  assumes "link_wf lw"
  shows "link_wf (RemoveWriter m a lw)"
proof -
  have w: "lk_writers (RemoveWriter m a lw) = lk_writers lw" "length (lk_managers (RemoveWriter m a lw)) = length (lk_managers lw)"
    by (simp_all add: RemoveWriter_def)
  have "mwf (lk_managers (RemoveWriter m a lw) ! i) \<and> (\<forall>x r. mload (lk_managers (RemoveWriter m a lw) ! i) x = Some r \<longrightarrow>
      x < length (lk_writers lw) \<and> mw_manager (lk_writers lw ! x) = i)" if "i < length (lk_managers lw)" for i
    using assms that unfolding link_wf_load by (cases "i = m") (auto simp: RemoveWriter_def split: if_split_asm)
  with assms w show ?thesis unfolding link_wf_load by simp
qed

lemma link_wf_Close:
  assumes "link_wf lw" and "a < length (lk_writers lw)"
  shows "link_wf (ManagedWriter_Close a lw)"
proof -
  let ?m = "mw_manager (lk_writers lw ! a)"
  let ?lw = "RemoveWriter ?m a lw"
  have e: "ManagedWriter_Close a lw = ?lw\<lparr>lk_writers := (lk_writers lw)[a := closed_writer (lk_writers lw ! a)]\<rparr>"
    by (simp add: ManagedWriter_Close_def RemoveWriter_def closed_writer_def Let_def)
  have m: "mw_manager ((lk_writers lw)[a := closed_writer (lk_writers lw ! a)] ! x) = mw_manager (lk_writers lw ! x)" for x
    using assms(2) by (cases "x = a") simp_all
  have r: "\<forall>w \<in> set ((lk_writers lw)[a := closed_writer (lk_writers lw ! a)]).
      mw_released w = (if mw_releaseOnce w then 1 else 0) \<and> (mw_releaseOnce w \<longrightarrow> mw_release w)"
  proof
    fix w assume "w \<in> set ((lk_writers lw)[a := closed_writer (lk_writers lw ! a)])"
    then have "w \<in> insert (closed_writer (lk_writers lw ! a)) (set (lk_writers lw))" using set_update_subset_insert by fast
    then show "mw_released w = (if mw_releaseOnce w then 1 else 0) \<and> (mw_releaseOnce w \<longrightarrow> mw_release w)"
      using assms closed_writer_ok [of "lk_writers lw ! a"] unfolding link_wf_load by auto
  qed
  have wf: "link_wf ?lw" using assms(1) by (rule link_wf_Remove)
  have lk: "lk_writers ?lw = lk_writers lw" by (simp add: RemoveWriter_def)
  have ms: "lk_managers (ManagedWriter_Close a lw) = lk_managers ?lw" by (simp add: e)
  have ws: "lk_writers (ManagedWriter_Close a lw) = (lk_writers lw)[a := closed_writer (lk_writers lw ! a)]" by (rule Close_writers)
  note wf' = wf [unfolded link_wf_load lk]
  show ?thesis
    unfolding link_wf_load ms ws m length_list_update using wf' r by (intro conjI) (rule conjunct1, assumption)+
qed

lemma managed_Close_ok:
  assumes "managed_Close a d = (t, d')" and "dispatcher_ok d" and "a < length (lk_writers (dd_links d))"
  shows "dispatcher_ok d'"
proof -
  have c: "length (lk_writers (ManagedWriter_Close a (dd_links d))) = length (lk_writers (dd_links d))"
    "mw_release (lk_writers (ManagedWriter_Close a (dd_links d)) ! i) = mw_release (lk_writers (dd_links d) ! i)"
    "length (lk_managers (ManagedWriter_Close a (dd_links d))) = length (lk_managers (dd_links d))" for i
    using assms(3) by (cases "i = a"; simp add: Close_writers Close_rest Let_def closed_writer_def)+
  have r: "lk_writers (RemoveWriter m a (dd_links d)) = lk_writers (dd_links d)"
    "length (lk_managers (RemoveWriter m a (dd_links d))) = length (lk_managers (dd_links d))" for m
    by (simp_all add: RemoveWriter_def)
  have "dd_infos d' = dd_infos d \<and> dd_LinkManagers d' = dd_LinkManagers d \<and>
     (dd_links d' = ManagedWriter_Close a (dd_links d) \<or> dd_links d' = RemoveWriter (mw_manager (lk_writers (dd_links d) ! a)) a (dd_links d))"
    using assms(1) by (auto simp: managed_Close_def Let_def split: prod.splits outcome.splits)
  with assms(2,3) c r link_wf_Close link_wf_Remove show ?thesis by (auto simp: dispatcher_ok_def)
qed

section \<open>Sessions of a user\<close>

lemma rest_sameD: "rest_same d d' \<Longrightarrow> dd_lim d' = dd_lim d" "rest_same d d' \<Longrightarrow> dd_pipes d' = dd_pipes d"
  "rest_same d d' \<Longrightarrow> dd_closed d' = dd_closed d" "rest_same d d' \<Longrightarrow> dd_interrupted d' = dd_interrupted d"
  by (simp_all add: rest_same_def)

text \<open>The managed writer of a new session: its entry, and whether its link manager lists it.\<close>

definition session_writer :: "nat \<Rightarrow> nat \<Rightarrow> release_fn option \<Rightarrow> bool \<Rightarrow> DefaultDispatcher \<Rightarrow> DefaultDispatcher \<Rightarrow> bool" where
  "session_writer wa p rel listed d d1 \<longleftrightarrow> dispatcher_ok d1 \<and> wa = length (lk_writers (dd_links d)) \<and>
     lk_writers (dd_links d1) = lk_writers (dd_links d) @ [lk_writers (dd_links d1) ! wa] \<and>
     mw_release (lk_writers (dd_links d1) ! wa) = (rel \<noteq> None) \<and> \<not> mw_releaseOnce (lk_writers (dd_links d1) ! wa) \<and>
     mw_closed (lk_writers (dd_links d1) ! wa) = 0 \<and> dd_infos d1 ! wa = \<lparr>wi_pipe = p, wi_release = rel\<rparr> \<and>
     (\<forall>i < length (lk_managers (dd_links d1)). mload (lk_managers (dd_links d1) ! i) wa \<noteq> None \<longrightarrow> listed) \<and>
     (listed \<longrightarrow> mload (lk_managers (dd_links d1) ! mw_manager (lk_writers (dd_links d1) ! wa)) wa \<noteq> None)"

lemma session_writer_less:
  assumes "session_writer wa p rel listed d d1"
  shows "wa < length (lk_writers (dd_links d1))"
proof -
  from assms have "length (lk_writers (dd_links d1)) = length (lk_writers (dd_links d) @ [lk_writers (dd_links d1) ! wa])"
    and "wa = length (lk_writers (dd_links d))" unfolding session_writer_def by metis+
  then show ?thesis by simp
qed

lemma session_writerD:
  assumes "session_writer wa p rel listed d d1"
  shows "mw_release (lk_writers (dd_links d1) ! wa) \<longleftrightarrow> rel \<noteq> None" and "\<not> mw_releaseOnce (lk_writers (dd_links d1) ! wa)"
    and "mw_closed (lk_writers (dd_links d1) ! wa) = 0" and "dd_infos d1 ! wa = \<lparr>wi_pipe = p, wi_release = rel\<rparr>"
    and "dispatcher_ok d1"
    and "i < length (lk_managers (dd_links d1)) \<Longrightarrow> mload (lk_managers (dd_links d1) ! i) wa \<noteq> None \<Longrightarrow> listed"
    and "listed \<Longrightarrow> mload (lk_managers (dd_links d1) ! mw_manager (lk_writers (dd_links d1) ! wa)) wa \<noteq> None"
  using assms unfolding session_writer_def by blast+

lemma new_session_writer:
  assumes "dispatcher_ok d" and "link_manager e d = (m, d2)" and "managed_writer m p rel d2 = (wa, d3)"
    and "d4 = (if listed then d3\<lparr>dd_links := AddLink m wa q (dd_links d3)\<rparr> else d3)" and "user_counter tag e d4 = (sa, d5)"
  shows "session_writer wa p rel listed d d5 \<and> rest_same d d5"
proof -
  note e2 = link_manager_effect [OF assms(2,1)]
  note e3 = managed_writer_effect [OF assms(3) conjunct1 [OF e2]]
  note e5 = user_counter_effect [OF assms(5)]
  let ?w = "\<lparr>mw_manager = m, mw_release = (rel \<noteq> None), mw_releaseOnce = False, mw_released = 0, mw_closed = 0\<rparr>"
  have wa: "wa = length (lk_writers (dd_links d))" "lk_writers (dd_links d4) = lk_writers (dd_links d) @ [?w]"
    "dd_infos d4 = dd_infos d @ [\<lparr>wi_pipe = p, wi_release = rel\<rparr>]" "m < length (lk_managers (dd_links d3))" "m < length (lk_managers (dd_links d4))"
    using e2 e3 assms(4) by (auto simp: AddLink_def)
  have len: "length (dd_infos d) = length (lk_writers (dd_links d))" using assms(1) by (simp add: dispatcher_ok_def)
  have "dispatcher_ok d4"
    using e2 e3 assms(4) dispatcher_ok_AddLink [of d3 m wa q] by (cases listed) (auto simp: nth_append)
  then have ok: "dispatcher_ok d5" using e5 by (metis dispatcher_ok_cong)
  have fresh: "mload (lk_managers (dd_links d3) ! i) wa = None" if "i < length (lk_managers (dd_links d3))" for i
  proof (rule ccontr)
    assume "mload (lk_managers (dd_links d3) ! i) wa \<noteq> None"
    moreover have "link_wf (dd_links d2)" "lk_managers (dd_links d3) = lk_managers (dd_links d2)" "lk_writers (dd_links d2) = lk_writers (dd_links d)"
      using e2 e3 by (auto simp: dispatcher_ok_def)
    ultimately have "wa < length (lk_writers (dd_links d))" using that unfolding link_wf_load by auto
    with wa show False by simp
  qed
  have listed: "mload (lk_managers (dd_links d4) ! i) wa \<noteq> None \<longrightarrow> listed" if "i < length (lk_managers (dd_links d4))" for i
    using fresh that assms(4) by (cases listed) auto
  have listed2: "listed \<longrightarrow> mload (lk_managers (dd_links d4) ! m) wa \<noteq> None" using assms(4) wa(4) by (simp add: AddLink_def)
  have nth: "lk_writers (dd_links d4) ! wa = ?w" using wa(1,2) by (simp add: nth_append)
  have info: "dd_infos d4 ! wa = \<lparr>wi_pipe = p, wi_release = rel\<rparr>" using wa(1,3) len by (simp add: nth_append)
  have same: "rest_same d d5" using e2 e3 e5 assms(4) by (cases listed) (simp_all add: rest_same_def)
  have l5: "dd_links d5 = dd_links d4" "dd_infos d5 = dd_infos d4" using e5 by simp_all
  have "session_writer wa p rel listed d d5"
    unfolding session_writer_def l5 nth
  proof (intro conjI)
    show "\<forall>i < length (lk_managers (dd_links d4)). mload (lk_managers (dd_links d4) ! i) wa \<noteq> None \<longrightarrow> listed" using listed by blast
    show "listed \<longrightarrow> mload (lk_managers (dd_links d4) ! mw_manager ?w) wa \<noteq> None" using listed2 by simp
  qed (use ok wa(1,2) info in simp_all)
  with same show ?thesis by blast
qed

lemma check_session_ok: "check_session now net s d = (r, d') \<Longrightarrow> dispatcher_ok d \<Longrightarrow> dispatcher_ok d'"
  using check_session_effect by (metis dispatcher_ok_cong)

text \<open>An admitted link of a user, from \<open>getLink\<close> and from \<open>DispatchLink\<close>.\<close>

lemma getLink_admitted:
  assumes "getLink now net (Some s) d = (Ret (inL, outL, Some a, s'), d1)" and "dispatcher_ok d"
  obtains l b wa sa where "GetLimiterByRuntimeKey (dd_lim d) (sx_Tag s) = Ret a"
    "CheckLimit (limiter_at (dd_lim d) a) (sx_Email s) (sx_IP s) (net = Network_TCP) (sx_SourceTCP s) now = Some ((b, False), l)"
    "dd_lim d1 = heap_update a (\<lambda>_. l) (dd_lim d)" "dd_closed d1 = dd_closed d" "dd_interrupted d1 = dd_interrupted d"
    "inL = \<lparr>ln_Reader = PipeReader (dd_pipes d + 1), ln_Writer = SizeStatWriter (limit_writer b (Managed wa)) Up (sx_Tag s) sa\<rparr>"
    "outL = \<lparr>ln_Reader = PipeReader (dd_pipes d), ln_Writer = SizeStatWriter (limit_writer b (PipeWriter (dd_pipes d + 1))) Down (sx_Tag s) sa\<rparr>"
    "session_writer wa (dd_pipes d) (if net = Network_TCP \<and> cl_realtime (lm_ConnLimiter (limiter_at (dd_lim d1) a))
       then Some \<lparr>rf_limiter = a, rf_user = sx_Email s, rf_ip = sx_IP s\<rparr> else None) True d d1"
proof -
  let ?d = "d\<lparr>dd_pipes := dd_pipes d + 2\<rparr>"
  have ok: "dispatcher_ok ?d" using assms(2) by (simp add: dispatcher_ok_def)
  have e: "sx_Email s \<noteq> ''''" using assms(1) by (auto simp: getLink_def Let_def)
  obtain a' b d2 where c: "check_session now net s ?d = (Ret (a', b), d2)"
    using assms(1) e by (auto simp: getLink_def Let_def split: prod.splits outcome.splits)
  obtain m d3 where lm: "link_manager (sx_Email s) d2 = (m, d3)" by force
  obtain wa d4 where mw: "managed_writer m (dd_pipes d) (session_release net s a' d3) d3 = (wa, d4)" by force
  obtain sa d5 where uc: "user_counter (sx_Tag s) (sx_Email s) (d4\<lparr>dd_links := AddLink m wa (dd_pipes d) (dd_links d4)\<rparr>) = (sa, d5)" by force
  have r: "a' = a" "d5 = d1" "inL = \<lparr>ln_Reader = PipeReader (dd_pipes d + 1), ln_Writer = SizeStatWriter (limit_writer b (Managed wa)) Up (sx_Tag s) sa\<rparr>"
    "outL = \<lparr>ln_Reader = PipeReader (dd_pipes d), ln_Writer = SizeStatWriter (limit_writer b (PipeWriter (dd_pipes d + 1))) Down (sx_Tag s) sa\<rparr>"
    using assms(1) e c lm mw uc by (simp_all add: getLink_def Let_def)
  note ok2 = check_session_ok [OF c ok]
  from check_session_Ret [OF c] obtain l where l: "GetLimiterByRuntimeKey (dd_lim d) (sx_Tag s) = Ret a'"
    "CheckLimit (limiter_at (dd_lim d) a') (sx_Email s) (sx_IP s) (net = Network_TCP) (sx_SourceTCP s) now = Some ((b, False), l)"
    "dd_lim d2 = heap_update a' (\<lambda>_. l) (dd_lim d)" by auto
  from new_session_writer [OF ok2 lm mw _ uc, of True "dd_pipes d"]
  have w: "session_writer wa (dd_pipes d) (session_release net s a' d3) True d2 d5" "rest_same d2 d5" by simp_all
  note ce = check_session_effect [OF c] and rs = rest_sameD [OF w(2)]
  have lim: "dd_lim d1 = heap_update a (\<lambda>_. l) (dd_lim d)" using rs(1) l(3) r(1,2) by simp
  have "dd_lim d3 = dd_lim d1" using link_manager_effect [OF lm ok2] rs(1) r(2) by (simp add: rest_same_def)
  then have sr: "session_release net s a' d3 = (if net = Network_TCP \<and> cl_realtime (lm_ConnLimiter (limiter_at (dd_lim d1) a))
       then Some \<lparr>rf_limiter = a, rf_user = sx_Email s, rf_ip = sx_IP s\<rparr> else None)"
    by (simp add: session_release_def r(1))
  have links: "dd_links d2 = dd_links d" using ce by simp
  have sw: "session_writer wa (dd_pipes d) (session_release net s a' d3) True d d1"
    using w(1) unfolding session_writer_def links r(2) .
  show ?thesis
    by (rule that [OF l(1) [unfolded r(1)] l(2) [unfolded r(1)] lim _ _ r(3,4) sw [unfolded sr]]) (use rs ce r(2) in simp_all)
qed

lemma link_session_admitted:
  assumes "link_session now net (Some s) p q d = (Ret (link, Some a, s'), d1)" and "dispatcher_ok d"
  obtains b wa sa rel where
    "link = \<lparr>ln_Reader = CounterReader (PipeReader q) (sx_Tag s) sa, ln_Writer = SizeStatWriter (limit_writer b (Managed wa)) Down (sx_Tag s) sa\<rparr>"
    "session_writer wa p rel False d d1"
proof -
  have e: "sx_Email s \<noteq> ''''" using assms(1) by (auto simp: link_session_def Let_def)
  obtain a' b d2 where c: "check_session now net s d = (Ret (a', b), d2)"
    using assms(1) e by (auto simp: link_session_def Let_def split: prod.splits outcome.splits)
  obtain m d3 where lm: "link_manager (sx_Email s) d2 = (m, d3)" by force
  obtain wa d4 where mw: "managed_writer m p (session_release net s a' d3) d3 = (wa, d4)" by force
  obtain sa d5 where uc: "user_counter (sx_Tag s) (sx_Email s) d4 = (sa, d5)" by force
  have r: "d5 = d1" "link = \<lparr>ln_Reader = CounterReader (PipeReader q) (sx_Tag s) sa,
      ln_Writer = SizeStatWriter (limit_writer b (Managed wa)) Down (sx_Tag s) sa\<rparr>"
    using assms(1) e c lm mw uc by (simp_all add: link_session_def Let_def)
  from new_session_writer [OF check_session_ok [OF c assms(2)] lm mw _ uc, of False]
  have sw: "session_writer wa p (session_release net s a' d3) False d2 d5" by simp
  have links: "dd_links d2 = dd_links d" using check_session_effect [OF c] by simp
  have "session_writer wa p (session_release net s a' d3) False d d1" using sw unfolding session_writer_def links r(1) .
  with that r(2) show ?thesis by blast
qed

lemma close_limit_writer [simp]: "close_writer (limit_writer b w) d = close_writer w d"
  by (cases b) (simp_all add: limit_writer_def)

text \<open>C37: A TCP session on the xray core gives its slots back exactly once. In realtime mode, when a link
  was made for a user's session whose source address is printed plainly, closing the link's writer
  closes the uplink pipe and leaves the limiter's counts as they were before the session; closing it
  again changes nothing in the limiter.\<close>

theorem xray_session_roundtrip:
  assumes "getLink now Network_TCP (Some s) d = (Ret (inL, outL, Some a, s'), d1)" and "dispatcher_ok d"
    and "a < length (lw_heap (dd_lim d))" and "cl_realtime (lm_ConnLimiter (limiter_at (dd_lim d) a))"
    and "counting (lm_ConnLimiter (limiter_at (dd_lim d) a))" and "trimmed (sx_IP s) = sx_IP s"
  shows "\<exists>d2. close_writer (ln_Writer inL) d1 = (Ret (), d2) \<and> dd_closed d2 = dd_closed d @ [dd_pipes d] \<and>
    same_slots (lm_ConnLimiter (limiter_at (dd_lim d) a)) (lm_ConnLimiter (limiter_at (dd_lim d2) a)) \<and>
    (\<exists>d3. close_writer (ln_Writer inL) d2 = (Ret (), d3) \<and> dd_lim d3 = dd_lim d2)"
proof -
  let ?f = "\<lparr>rf_limiter = a, rf_user = sx_Email s, rf_ip = sx_IP s\<rparr>"
  obtain l b wa sa where
    c0: "CheckLimit (limiter_at (dd_lim d) a) (sx_Email s) (sx_IP s) (Network_TCP = Network_TCP) (sx_SourceTCP s) now = Some ((b, False), l)" and
    lim: "dd_lim d1 = heap_update a (\<lambda>_. l) (dd_lim d)" and cl: "dd_closed d1 = dd_closed d" and
    inL: "inL = \<lparr>ln_Reader = PipeReader (dd_pipes d + 1), ln_Writer = SizeStatWriter (limit_writer b (Managed wa)) Up (sx_Tag s) sa\<rparr>" and
    sw: "session_writer wa (dd_pipes d) (if Network_TCP = Network_TCP \<and> cl_realtime (lm_ConnLimiter (limiter_at (dd_lim d1) a)) then Some ?f else None) True d d1"
    by (rule getLink_admitted [OF assms(1,2)], rule that, assumption+)
  have c: "CheckLimit (limiter_at (dd_lim d) a) (sx_Email s) (sx_IP s) True (sx_SourceTCP s) now = Some ((b, False), l)" using c0 by simp
  have at: "limiter_at (dd_lim d1) a = l" "a < length (lw_heap (dd_lim d1))" using assms(3) lim by simp_all
  have rt: "cl_realtime (lm_ConnLimiter l)" using AddConnCount_frame [OF CheckLimit_conn [OF c]] assms(4) by simp
  have w: "mw_release (lk_writers (dd_links d1) ! wa)" "\<not> mw_releaseOnce (lk_writers (dd_links d1) ! wa)"
    "dd_infos d1 ! wa = \<lparr>wi_pipe = dd_pipes d, wi_release = Some ?f\<rparr>"
    using session_writerD(1,2,4) [OF sw] rt at by simp_all
  note wa = session_writer_less [OF sw]
  from run_release_restores [OF c assms(6,4,5) at] obtain w' where
    rel: "run_release ?f (dd_lim d1) = (Ret (), w')" and
    same: "same_slots (lm_ConnLimiter (limiter_at (dd_lim d) a)) (lm_ConnLimiter (limiter_at w' a))" by blast
  define d2 where "d2 = d1\<lparr>dd_lim := w', dd_links := ManagedWriter_Close wa (dd_links d1), dd_closed := dd_closed d1 @ [dd_pipes d]\<rparr>"
  have "close_writer (ln_Writer inL) d1 = (Ret (), d2)"
    using w rel by (simp add: inL managed_Close_def Let_def d2_def)
  moreover have "mw_releaseOnce (lk_writers (dd_links d2) ! wa)" "dd_infos d2 ! wa = \<lparr>wi_pipe = dd_pipes d, wi_release = Some ?f\<rparr>"
    using w wa by (simp_all add: d2_def Close_writers closed_writer_def)
  then have "\<exists>d3. close_writer (ln_Writer inL) d2 = (Ret (), d3) \<and> dd_lim d3 = dd_lim d2"
    by (simp add: inL managed_Close_def Let_def)
  moreover have "dd_closed d2 = dd_closed d @ [dd_pipes d]" "dd_lim d2 = w'" by (simp_all add: d2_def cl)
  ultimately show ?thesis using same by metis
qed

text \<open>Deleting a user does not end the connections that were handed over as links. A session that came
  through \<open>DispatchLink\<close> is wrapped for its user's link manager but never listed by it, so closing all
  links of that manager, or of any other, leaves its writer open.\<close>

lemma given_links_survive_deletion:
  assumes "link_session now net (Some s) p q d = (Ret (link, Some a, s'), d1)" and "dispatcher_ok d"
    and "m < length (lk_managers (dd_links d1))"
  shows "\<exists>b wa sa. ln_Writer link = SizeStatWriter (limit_writer b (Managed wa)) Down (sx_Tag s) sa \<and>
    mw_closed (lk_writers (CloseAll m (dd_links d1)) ! wa) = 0"
proof -
  obtain b wa sa rel where
    link: "link = \<lparr>ln_Reader = CounterReader (PipeReader q) (sx_Tag s) sa, ln_Writer = SizeStatWriter (limit_writer b (Managed wa)) Down (sx_Tag s) sa\<rparr>"
    and sw: "session_writer wa p rel False d d1"
    by (rule link_session_admitted [OF assms(1,2)], rule that, assumption+)
  have wf: "link_wf (dd_links d1)" using session_writerD(5) [OF sw] by (simp add: dispatcher_ok_def)
  have none: "wa \<notin> fst ` set (lk_managers (dd_links d1) ! m)"
    using session_writerD(6) [OF sw assms(3)] by (auto simp: map_of_eq_None_iff)
  have "lk_writers (CloseAll m (dd_links d1)) ! wa = lk_writers (dd_links d1) ! wa"
    using wf assms(3) none session_writer_less [OF sw] unfolding CloseAll_def
    by (subst close_links_spec(2) [of _ _ m]) (auto simp: link_wf_def)
  with link session_writerD(3) [OF sw] show ?thesis by (intro exI [of _ b] exI [of _ wa] exI [of _ sa]) simp
qed

definition live_dispatcher :: DefaultDispatcher where
  "live_dispatcher = \<lparr>dd_lim = snd (AddLimiter ''xray'' ''n''
        \<lparr>lc_EnableRealtime = True, lc_SpeedLimit = 0, lc_IPLimit = 1, lc_ConnLimit = 3, lc_EnableDynamicSpeedLimit = False,
         lc_DynamicSpeedLimitConfig = None, lc_MaxReportFailureRollbacks = 0\<rparr>
        [\<lparr>u_Id = 1, u_Uuid = ''a'', u_SpeedLimit = 8, u_DeviceLimit = 0\<rparr>] [] limiter_Init),
     dd_links = \<lparr>lk_managers = [], lk_writers = [], lk_interrupted = []\<rparr>, dd_infos = [], dd_LinkManagers = [], dd_Counter = [],
     dd_pipes = 0, dd_closed = [], dd_interrupted = []\<rparr>"

definition live_session :: session_inbound where
  "live_session = \<lparr>sx_Tag = ''xray|n'', sx_Email = ''xray|n|a'', sx_IP = ''1.1.1.1'', sx_SourceTCP = True, sx_CanSpliceCopy = 0\<rparr>"

lemma live_facts:
  "dispatcher_ok live_dispatcher" "length (lw_heap (dd_lim live_dispatcher)) = 1"
  "cl_realtime (lm_ConnLimiter (limiter_at (dd_lim live_dispatcher) 0))" "counting (lm_ConnLimiter (limiter_at (dd_lim live_dispatcher) 0))"
  "trimmed (sx_IP live_session) = sx_IP live_session"
  by (simp_all add: live_dispatcher_def dispatcher_ok_def link_wf_def AddLimiter_def limiter_Init_def RuntimeKey_def Let_def
      limiter_at_def new_limiter_def NewConnLimiter_def counting_def cl_wf_def live_session_def trimmed_def TrimPrefix_def HasPrefix_def)

lemma live_runs:
  "case getLink 0 Network_TCP (Some live_session) live_dispatcher of (Ret (i, out, l, s), d1) \<Rightarrow> l = Some 0 | _ \<Rightarrow> False"
  "case link_session 0 Network_TCP (Some live_session) 7 8 live_dispatcher of
     (Ret (link, l, s), d1) \<Rightarrow> l = Some 0 \<and> length (lk_managers (dd_links d1)) = 1 | _ \<Rightarrow> False"
  by code_simp+

theorem xray_session_roundtrip_witness:
  "\<exists>inL out s d1 d2. getLink 0 Network_TCP (Some live_session) live_dispatcher = (Ret (inL, out, Some 0, s), d1) \<and>
     close_writer (ln_Writer inL) d1 = (Ret (), d2) \<and> dd_closed d2 = [0] \<and>
     same_slots (lm_ConnLimiter (limiter_at (dd_lim live_dispatcher) 0)) (lm_ConnLimiter (limiter_at (dd_lim d2) 0))"
proof -
  obtain inL out s d1 where g: "getLink 0 Network_TCP (Some live_session) live_dispatcher = (Ret (inL, out, Some 0, s), d1)"
    using live_runs(1) by (auto split: prod.splits outcome.splits)
  have e: "dd_closed live_dispatcher = []" "dd_pipes live_dispatcher = 0" by (simp_all add: live_dispatcher_def)
  have "0 < length (lw_heap (dd_lim live_dispatcher))" using live_facts(2) by simp
  from xray_session_roundtrip [OF g live_facts(1) this live_facts(3-5)] g show ?thesis unfolding e by auto
qed

lemma given_links_survive_deletion_example:
  "\<exists>link s d1 wa b sa. link_session 0 Network_TCP (Some live_session) 7 8 live_dispatcher = (Ret (link, Some 0, s), d1) \<and>
     ln_Writer link = SizeStatWriter (limit_writer b (Managed wa)) Down ''xray|n'' sa \<and>
     mw_closed (lk_writers (CloseAll 0 (dd_links d1)) ! wa) = 0"
proof -
  obtain link s d1 where g: "link_session 0 Network_TCP (Some live_session) 7 8 live_dispatcher = (Ret (link, Some 0, s), d1)"
    using live_runs(2) by (auto split: prod.splits outcome.splits)
  with live_runs(2) have "0 < length (lk_managers (dd_links d1))" by simp
  from given_links_survive_deletion [OF g live_facts(1) this] g show ?thesis by (auto simp: live_session_def)
qed

section \<open>Refused and dropped connections\<close>

lemma getLink_Fail:
  "getLink now net sess d = (Fail e, d1) \<Longrightarrow> {dd_pipes d, dd_pipes d + 1} \<subseteq> set (dd_closed d1) \<inter> set (dd_interrupted d1)"
  by (auto simp: getLink_def Let_def split: option.splits if_splits outcome.splits prod.splits)

lemma getLink_outbound:
  assumes "getLink now net sess d = (Ret (inL, outL, l, s'), d1)"
  shows "ln_Reader outL = PipeReader (dd_pipes d) \<and>
    (\<forall>x. close_writer (ln_Writer outL) x = (Ret (), x\<lparr>dd_closed := dd_closed x @ [dd_pipes d + 1]\<rparr>))"
  using assms by (auto simp: getLink_def Let_def split: option.splits if_splits outcome.splits prod.splits)

lemma getLink_inbound: "getLink now net sess d = (Ret (inL, outL, l, s'), d1) \<Longrightarrow> ln_Reader inL = PipeReader (dd_pipes d + 1)"
  by (auto simp: getLink_def Let_def split: option.splits if_splits outcome.splits prod.splits)

lemma routedDispatch_cases:
  assumes "routedDispatch R link ob d = (r, d')" and "\<And>x. close_writer (ln_Writer link) x = (Ret (), x\<lparr>dd_closed := dd_closed x @ [n]\<rparr>)"
  shows "(\<exists>h. r = Ret (Some h) \<and> d' = d) \<or>
    r = Ret None \<and> d' = interrupt_reader (ln_Reader link) (d\<lparr>dd_closed := dd_closed d @ [n]\<rparr>)"
  using assms by (auto simp: routedDispatch_def Let_def split: option.splits)

text \<open>C38: Every connection is either handed to an outbound or shut on both ends. When \<open>Dispatch\<close> refuses a
  connection, both ends of both of its pipes are closed or interrupted and nothing is routed; when the
  router names an outbound that does not exist, or there is none, the downlink is closed and the uplink
  interrupted, so the client sees the end; and only otherwise the link goes to a handler, untouched.\<close>

theorem dispatch_closes_what_it_drops:
  assumes "Dispatch now V R cx dst d = ((r, d1), g)"
  shows "(\<forall>e. r = Fail e \<longrightarrow> {dd_pipes d, dd_pipes d + 1} \<subseteq> set (dd_closed d1) \<inter> set (dd_interrupted d1) \<and> g = None) \<and>
    (\<forall>d2. g = Some (Ret None, d2) \<longrightarrow> dd_pipes d + 1 \<in> set (dd_closed d2) \<and> dd_pipes d \<in> set (dd_interrupted d2)) \<and>
    (\<forall>h d2. g = Some (Ret (Some h), d2) \<longrightarrow> d2 = d1 \<and> (\<exists>inL. r = Ret inL \<and> ln_Reader inL = PipeReader (dd_pipes d + 1)))"
proof (cases "valid_destination dst")
  case False
  with assms show ?thesis by (auto simp: Dispatch_def)
next
  case valid: True
  let ?ob = "new_outbound (cx_outbounds cx) dst"
  obtain t d' where gl: "getLink now (dn_Network dst) (cx_inbound cx) d = (t, d')" by force
  show ?thesis
  proof (cases t)
    case (Fail e)
    with assms valid gl getLink_Fail [of now "dn_Network dst" "cx_inbound cx" d e d'] show ?thesis by (auto simp: Dispatch_def Let_def)
  next
    case Panic
    with assms valid gl show ?thesis by (auto simp: Dispatch_def Let_def)
  next
    case (Ret q)
    obtain inL outL l s where q: "q = (inL, outL, l, s)" by (metis prod_cases4)
    note gl' = gl [unfolded Ret q]
    have e: "r = Ret inL" "d1 = d'" "g = sniff_and_route V R cx dst True outL ?ob d'"
      using assms valid gl' by (auto simp: Dispatch_def Let_def)
    note out = getLink_outbound [OF gl']
    have routed: "(\<exists>h. x = Ret (Some h) \<and> d2 = d') \<or>
        x = Ret None \<and> dd_pipes d + 1 \<in> set (dd_closed d2) \<and> dd_pipes d \<in> set (dd_interrupted d2)"
      if "routedDispatch R link ob d' = (x, d2)" "ln_Writer link = ln_Writer outL" "ln_Reader link \<in> {ln_Reader outL, CachedReader (ln_Reader outL)}"
      for link ob x d2
      using routedDispatch_cases [OF that(1), of "dd_pipes d + 1"] that(2,3) out by auto
    have "(\<exists>h. x = Ret (Some h) \<and> d2 = d') \<or> (\<exists>h. x = Fail h) \<or> x = Panic \<or>
        x = Ret None \<and> dd_pipes d + 1 \<in> set (dd_closed d2) \<and> dd_pipes d \<in> set (dd_interrupted d2)"
      if "g = Some (x, d2)" for x d2
      using that unfolding e(3) sniff_and_route_def Let_def
      by (auto split: if_splits option.splits outcome.splits prod.splits sniff_reply.splits dest!: routed)
    then show ?thesis using getLink_inbound [OF gl'] e(1,2) by fastforce
  qed
qed

definition lost_routing :: "nat routing" where
  "lost_routing = \<lparr>rt_forced = ''x'', rt_GetHandler = (\<lambda>_. None), rt_router = None, rt_default = Some 1, rt_Tag = (\<lambda>_. ''direct''),
     rt_inTag = ''n''\<rparr>"

definition live_lib :: server_lib where
  "live_lib = \<lparr>sl_sniff = hello_lib, sl_cap = 32768, sl_engine = None, sl_fdns = None, sl_regexp = (\<lambda>_. None), sl_ParseAddress = DomainAddr\<rparr>"

definition live_ctx :: dispatch_ctx where
  "live_ctx = \<lparr>cx_inbound = Some live_session, cx_outbounds = [], cx_request = \<lparr>sq_Enabled = False, sq_MetadataOnly = False,
     sq_RouteOnly = False, sq_ExcludeForDomain = [], sq_OverrideDestinationForProtocol = []\<rparr>, cx_steps = []\<rparr>"

theorem dispatch_closes_what_it_drops_witness:
  "\<exists>inL d1 d2. Dispatch 0 live_lib lost_routing live_ctx hello_target live_dispatcher = ((Ret inL, d1), Some (Ret None, d2)) \<and>
     dd_closed d1 = [] \<and> 1 \<in> set (dd_closed d2) \<and> 0 \<in> set (dd_interrupted d2)"
proof -
  obtain inL out s d1 where g: "getLink 0 Network_TCP (Some live_session) live_dispatcher = (Ret (inL, out, Some 0, s), d1)"
    using live_runs(1) by (auto split: prod.splits outcome.splits)
  have c: "dd_closed d1 = []" by (rule getLink_admitted [OF g live_facts(1)]) (simp add: live_dispatcher_def)
  have "\<exists>d2. Dispatch 0 live_lib lost_routing live_ctx hello_target live_dispatcher = ((Ret inL, d1), Some (Ret None, d2))"
    using g getLink_outbound [OF g]
    by (simp add: Dispatch_def Let_def live_ctx_def hello_target_def valid_destination_def sniff_and_route_def routedDispatch_def
        choose_handler_def lost_routing_def)
  then obtain d2 where d2: "Dispatch 0 live_lib lost_routing live_ctx hello_target live_dispatcher = ((Ret inL, d1), Some (Ret None, d2))" by blast
  have "dd_pipes live_dispatcher = 0" by (simp add: live_dispatcher_def)
  with dispatch_closes_what_it_drops [OF d2] d2 c show ?thesis by auto
qed

text \<open>A link that came through \<open>DispatchLink\<close> for a user and is dropped keeps its reader: the wrapper that counts
  the traffic cannot be interrupted.\<close>

lemma dropped_link_reader_stays:
  assumes "link_session now net (Some s) p q d = (Ret (link, Some a, s'), d1)" and "dispatcher_ok d"
  shows "interrupt_reader (ln_Reader link) d2 = d2 \<and> interrupt_reader (CachedReader (ln_Reader link)) d2 = d2"
  by (rule link_session_admitted [OF assms]) simp

text \<open>The routing decision never falls back to the default outbound when a tag was named.\<close>

lemma named_outbound_or_none:
  "choose_handler R ob = Some (h, k) \<Longrightarrow>
     (rt_forced R \<noteq> '''' \<longrightarrow> rt_GetHandler R (rt_forced R) = Some h) \<and>
     (rt_forced R = '''' \<and> rt_router R = Some pick \<and> pick ob = Some (t, r) \<longrightarrow> rt_GetHandler R t = Some h)"
  by (auto simp: choose_handler_def Let_def)

end
