(* ===== verification/CertProps.thy ===== *)
theory CertProps
  imports CertManager
begin

text \<open>
  What the certificate manager promises: a crash or a fault never leaves a partial certificate, a
  certificate file belongs to one domain for the life of the process, the lifecycle decides as its
  table says, and a fresh certificate is reused. One promise fails where the code's parts disagree:
  a path with a placeholder is expanded when it is written and not when it is looked up.
\<close>

section \<open>Frames\<close>

definition not_tmp :: "cert_env \<Rightarrow> string \<Rightarrow> bool" where
  "not_tmp E q \<longleftrightarrow> (\<forall>p. ce_tmp E p \<noteq> q)"

lemma writeFileAtomic_frame:
  assumes "writeFileAtomic E p data st = (r, st')"
  shows "cs_claims st' = cs_claims st \<and> cs_env st' = cs_env st \<and>
     (\<forall>q. not_tmp E q \<longrightarrow> mload (cs_fs st') q = (if q = p \<and> r = Ret () then Some data else mload (cs_fs st) q))"
proof -
  have "not_tmp E q \<Longrightarrow> q \<noteq> ce_tmp E p" for q by (auto simp: not_tmp_def)
  with assms show ?thesis
    by (auto simp: writeFileAtomic_def writeFileAtomic_states_def Let_def split: write_fault.splits)
qed

lemma write_pair_frame:
  assumes "write_pair E cp kp ck st = (r, st')"
  shows "cs_claims st' = cs_claims st \<and> cs_env st' = cs_env st \<and>
     (\<forall>q. not_tmp E q \<longrightarrow> mload (cs_fs st') q = mload (cs_fs st) q \<or>
        (q = cp \<and> mload (cs_fs st') q = Some (fst ck)) \<or> (q = kp \<and> mload (cs_fs st') q = Some (snd ck))) \<and>
     (r = Ret () \<and> not_tmp E cp \<and> cp \<noteq> kp \<longrightarrow> mload (cs_fs st') cp = Some (fst ck))"
proof (cases "writeFileAtomic E cp (fst ck) st")
  case (Pair r1 st1)
  note f1 = writeFileAtomic_frame [OF Pair]
  show ?thesis
  proof (cases "r1 = Ret ()")
    case True
    with assms Pair have "writeFileAtomic E kp (snd ck) st1 = (r, st')" by (simp add: write_pair_def)
    from writeFileAtomic_frame [OF this] f1 True show ?thesis by auto
  next
    case False
    with assms Pair have "(r, st') = (r1, st1)" by (cases r1) (auto simp: write_pair_def)
    with f1 False show ?thesis by auto
  qed
qed

text \<open>Everything the signer and the ACME server can hand out for a configuration.\<close>

definition issued :: "cert_env \<Rightarrow> CertConfig \<Rightarrow> string set" where
  "issued E cfg = {d. \<exists>a b. (d = a \<or> d = b) \<and>
     (ce_selfsign E (cc_CertDomain cfg) (ce_now E) = Some (a, b) \<or> ce_obtain E (cc_CertDomain cfg) = Some (a, b) \<or>
      (\<exists>pem. ce_renew E (cc_CertDomain cfg) pem = Some (a, b)))}"

text \<open>The two files a configuration writes; the ACME client expands placeholders in them.\<close>

definition targets :: "CertConfig \<Rightarrow> string set" where
  "targets cfg = (if cc_CertMode cfg = ''self'' then {cc_CertFile cfg, cc_KeyFile cfg}
     else {parseParams cfg (cc_CertFile cfg), parseParams cfg (cc_KeyFile cfg)})"

definition fs_step :: "cert_env \<Rightarrow> CertConfig \<Rightarrow> string \<Rightarrow> cert_state \<Rightarrow> cert_state \<Rightarrow> bool" where
  "fs_step E cfg up st st' \<longleftrightarrow> cs_claims st' = cs_claims st \<and>
     (\<forall>q. not_tmp E q \<and> q \<noteq> up \<longrightarrow> mload (cs_fs st') q = mload (cs_fs st) q \<or>
        (q \<in> targets cfg \<and> (\<exists>d \<in> issued E cfg. mload (cs_fs st') q = Some d)))"

lemma fs_step_refl [simp]: "fs_step E cfg up st st"
  by (simp add: fs_step_def)

lemma fs_step_trans: "fs_step E cfg up a b \<Longrightarrow> fs_step E cfg up b c \<Longrightarrow> fs_step E cfg up a c"
  unfolding fs_step_def by metis

lemma fs_step_pair:
  assumes "write_pair E cp kp (a, b) st = (r, st')" and "a \<in> issued E cfg" and "b \<in> issued E cfg"
    and "cp \<in> targets cfg" and "kp \<in> targets cfg"
  shows "fs_step E cfg up st st'"
  using write_pair_frame [OF assms(1)] assms(2,3,4,5) unfolding fs_step_def by (metis fst_conv snd_conv)

lemma writeCert_step:
  assumes "writeCert E cfg (a, b) st = (r, st')" and "a \<in> issued E cfg" and "b \<in> issued E cfg"
    and "cc_CertMode cfg \<noteq> ''self''"
  shows "fs_step E cfg up st st'"
  by (rule fs_step_pair [OF assms(1) [unfolded writeCert_def] assms(2,3)]) (simp_all add: targets_def assms(4))

lemma Obtain_step: "cc_CertMode cfg \<noteq> ''self'' \<Longrightarrow> Obtain E cfg st = (r, st') \<Longrightarrow> fs_step E cfg up st st'"
proof (cases "ce_obtain E (cc_CertDomain cfg)")
  case (Some ab)
  obtain a b where ab: "ab = (a, b)" by force
  assume ns: "cc_CertMode cfg \<noteq> ''self''" and o: "Obtain E cfg st = (r, st')"
  have "a \<in> issued E cfg" "b \<in> issued E cfg" using Some ab by (auto simp: issued_def)
  with o Some ab ns show ?thesis by (auto simp: Obtain_def intro: writeCert_step)
qed (simp add: Obtain_def)

lemma Renew_step: "cc_CertMode cfg \<noteq> ''self'' \<Longrightarrow> Renew E cfg st = (r, st') \<Longrightarrow> fs_step E cfg up st st'"
proof -
  assume ns: "cc_CertMode cfg \<noteq> ''self''" and rn: "Renew E cfg st = (r, st')"
  show ?thesis
  proof (cases "\<exists>pem a b. mload (cs_fs st) (cc_CertFile cfg) = Some pem \<and>
      \<not> ce_unreadable E (cc_CertFile cfg) \<and> ce_renew E (cc_CertDomain cfg) pem = Some (a, b)")
    case True
    then obtain pem a b where t: "mload (cs_fs st) (cc_CertFile cfg) = Some pem"
      "\<not> ce_unreadable E (cc_CertFile cfg)" "ce_renew E (cc_CertDomain cfg) pem = Some (a, b)" by blast
    then have "a \<in> issued E cfg" "b \<in> issued E cfg" by (auto simp: issued_def)
    with rn t ns show ?thesis by (auto simp: Renew_def intro: writeCert_step)
  next
    case False
    then have "st' = st" using rn by (auto simp: Renew_def split: option.splits if_splits prod.splits)
    then show ?thesis by simp
  qed
qed

lemma registerUser_step: "registerUser E email up st = (r, st') \<Longrightarrow> fs_step E cfg up st st'"
  by (auto simp: registerUser_def fs_step_def split: option.splits dest!: writeFileAtomic_frame)

lemma NewLego_step: "NewLego E cfg up st = (r, st') \<Longrightarrow> fs_step E cfg up st st'"
proof -
  assume nl: "NewLego E cfg up st = (r, st')"
  obtain r1 st1 where u: "NewLegoUser E up (cc_Email cfg) st = (r1, st1)" by force
  have 1: "fs_step E cfg up st st1"
    using u by (auto simp: NewLegoUser_def intro: registerUser_step split: outcome.splits if_splits)
  have sp: "SetProvider E cfg st1 = (r2, st2) \<Longrightarrow> fs_step E cfg up st1 st2" for r2 st2
    by (auto simp: SetProvider_def fs_step_def Let_def split: if_splits)
  have "fs_step E cfg up st1 st'"
    using nl u sp by (auto simp: NewLego_def split: outcome.splits if_splits)
  with 1 show ?thesis by (rule fs_step_trans)
qed

lemma acquire_step: "acquire E cfg up action st = (r, st') \<Longrightarrow> fs_step E cfg up st st'"
proof -
  assume aq: "acquire E cfg up action st = (r, st')"
  show ?thesis
  proof (cases "cc_CertMode cfg = ''self''")
    case True
    obtain r1 st1 where w: "writeSelfSignedCert E (cc_CertDomain cfg) (cc_CertFile cfg) (cc_KeyFile cfg) st = (r1, st1)"
      by force
    have "st' = st1" using aq w True by (auto simp: acquire_def split: outcome.splits)
    moreover have "fs_step E cfg up st st1"
    proof (cases "ce_selfsign E (cc_CertDomain cfg) (ce_now E)")
      case (Some ab)
      obtain a b where ab: "ab = (a, b)" by force
      have "a \<in> issued E cfg" "b \<in> issued E cfg" using Some ab by (auto simp: issued_def)
      with w Some ab show ?thesis by (auto simp: writeSelfSignedCert_def targets_def True intro: fs_step_pair)
    qed (use w in \<open>simp add: writeSelfSignedCert_def\<close>)
    ultimately show ?thesis by simp
  next
    case False
    obtain r1 st1 where n: "NewLego E cfg up st = (r1, st1)" by force
    obtain r2 st2 where re: "Renew E cfg st1 = (r2, st2)" by force
    obtain r3 st3 where o2: "Obtain E cfg st2 = (r3, st3)" by force
    obtain r4 st4 where o1: "Obtain E cfg st1 = (r4, st4)" by force
    note s = NewLego_step [OF n] Renew_step [OF False re] Obtain_step [OF False o2] Obtain_step [OF False o1]
    have "st' \<in> {st1, st2, st3, st4}"
      using aq False n re o1 o2 by (auto simp: acquire_def split: outcome.splits if_splits)
    with s show ?thesis by (blast intro: fs_step_trans)
  qed
qed

lemma ensureLifecycle_step: "ensureLifecycle E cfg up st = (r, st') \<Longrightarrow> fs_step E cfg up st st'"
  by (auto simp: ensureLifecycle_def Let_def intro: acquire_step split: parsed.splits if_splits)

lemma claim_frame: "claimCertFiles f k d st = (r, st') \<Longrightarrow> cs_fs st' = cs_fs st \<and> cs_env st' = cs_env st"
  by (auto simp: claimCertFiles_def Let_def split: option.splits if_splits)

section \<open>Properties of the file writes\<close>



section \<open>Properties of the lifecycle\<close>

definition managed :: "CertConfig \<Rightarrow> bool" where
  "managed cfg \<longleftrightarrow> cc_CertMode cfg \<in> {''self'', ''http'', ''dns''} \<and> cc_CertFile cfg \<noteq> '''' \<and>
     cc_KeyFile cfg \<noteq> '''' \<and> cc_CertDomain cfg \<noteq> ''''"

lemma Ensure_managed:
  "managed cfg \<Longrightarrow> EnsureCertificate E (Some cfg) up st =
     (case claimCertFiles (cc_CertFile cfg) (cc_KeyFile cfg) (cc_CertDomain cfg) st of
        (Ret _, st1) \<Rightarrow> ensureLifecycle E cfg up st1 | (Fail e, st1) \<Rightarrow> (Fail e, st1) | (Panic, st1) \<Rightarrow> (Panic, st1))"
  by (auto simp: EnsureCertificate_def managed_def)

lemma Ensure_unmanaged:
  "\<not> managed cfg \<Longrightarrow> snd (EnsureCertificate E (Some cfg) up st) = st"
  by (auto simp: EnsureCertificate_def managed_def)

lemma claim_fail: "claimCertFiles f k d st = (r, st1) \<Longrightarrow> r = Ret () \<or> ((\<exists>e. r = Fail e) \<and> st1 = st)"
  by (auto simp: claimCertFiles_def Let_def split: option.splits if_splits)

lemma Ensure_cases:
  assumes "EnsureCertificate E (Some cfg) up st = (r, st')"
  shows "st' = st \<or> (managed cfg \<and> (\<exists>st1. claimCertFiles (cc_CertFile cfg) (cc_KeyFile cfg) (cc_CertDomain cfg) st = (Ret (), st1)
     \<and> ensureLifecycle E cfg up st1 = (r, st')))"
proof (cases "managed cfg")
  case True
  obtain r1 st1 where c: "claimCertFiles (cc_CertFile cfg) (cc_KeyFile cfg) (cc_CertDomain cfg) st = (r1, st1)" by force
  from claim_fail [OF c] show ?thesis
  proof
    assume "r1 = Ret ()"
    with assms c True show ?thesis by (simp add: Ensure_managed)
  next
    assume "(\<exists>e. r1 = Fail e) \<and> st1 = st"
    with assms c True show ?thesis by (auto simp: Ensure_managed)
  qed
next
  case False
  with Ensure_unmanaged [OF False, of E up st] assms show ?thesis by simp
qed


definition demo_cert_env :: cert_env where
  "demo_cert_env = \<lparr>ce_now = 0, ce_parse = (\<lambda>d. if d = ''good'' then
       Some \<lparr>x_DNSNames = [''a.example''], x_CommonName = '''', x_NotAfter = 10000000000000000\<rparr> else None),
     ce_unreadable = (\<lambda>_. False), ce_fault = (\<lambda>_. WOk), ce_tmp = (\<lambda>p. CHR ''.'' # p),
     ce_selfsign = (\<lambda>_ _. None), ce_user_json = (\<lambda>d. Some ('''', d)), ce_pem = (\<lambda>k. if k = ''junk'' then None else Some k), ce_ec_key = (\<lambda>_. True), ce_register = (\<lambda>_. Some ''u''),
     ce_client = True, ce_dns_provider = (\<lambda>_. True), ce_challenge = (\<lambda>_. True), ce_obtain = (\<lambda>_. Some (''good'', ''key'')),
     ce_renew = (\<lambda>_ _. None)\<rparr>"

definition demo_cert_config :: CertConfig where
  "demo_cert_config = \<lparr>cc_CertMode = ''http'', cc_RejectUnknownSni = False, cc_CertDomain = ''a.example'',
     cc_CertFile = ''c'', cc_KeyFile = ''k'', cc_Provider = '''', cc_Email = '''', cc_DNSEnv = None,
     cc_RenewBeforeDays = 30\<rparr>"

definition demo_cert_state :: cert_state where
  "demo_cert_state = \<lparr>cs_fs = [(''c'', ''good'')], cs_claims = [], cs_env = []\<rparr>"

lemma renew_30: "renewBefore demo_cert_config = 2592000000000000"
  by (simp add: renewBefore_def demo_cert_config_def hour_def minute_def second_def)


section \<open>One domain per file\<close>

definition owner_of :: "cert_state \<Rightarrow> string \<Rightarrow> string option" where
  "owner_of st f = map_option cl_domain (mload (cs_claims st) f)"

lemma claim_owner:
  "claimCertFiles f k d st = (r, st') \<Longrightarrow> owner_of st g = Some e \<Longrightarrow> owner_of st' g = Some e"
  by (auto simp: claimCertFiles_def owner_of_def Let_def split: option.splits if_splits)

lemma claim_owns: "claimCertFiles f k d st = (Ret (), st') \<Longrightarrow> owner_of st' f = Some d \<and> owner_of st' k = Some d"
  by (auto simp: claimCertFiles_def owner_of_def Let_def split: option.splits if_splits)

lemma claim_refused:
  "owner_of st f = Some e \<or> owner_of st k = Some e \<Longrightarrow> e \<noteq> d \<Longrightarrow> \<exists>m. claimCertFiles f k d st = (Fail m, st)"
  by (auto simp: claimCertFiles_def owner_of_def Let_def split: option.splits)

lemma Ensure_owner:
  assumes "EnsureCertificate E (Some cfg) up st = (r, st')" and "owner_of st g = Some e"
  shows "owner_of st' g = Some e"
  using Ensure_cases [OF assms(1)]
proof
  assume "managed cfg \<and> (\<exists>st1. claimCertFiles (cc_CertFile cfg) (cc_KeyFile cfg) (cc_CertDomain cfg) st = (Ret (), st1)
     \<and> ensureLifecycle E cfg up st1 = (r, st'))"
  then obtain st1 where c: "claimCertFiles (cc_CertFile cfg) (cc_KeyFile cfg) (cc_CertDomain cfg) st = (Ret (), st1)"
    and l: "ensureLifecycle E cfg up st1 = (r, st')" by blast
  from claim_owner [OF c assms(2)] ensureLifecycle_step [OF l] show ?thesis
    by (simp add: fs_step_def owner_of_def)
qed (use assms in simp)

text \<open>The calls of all controllers of the process, each in its own environment (time, faults).\<close>

fun ensure_run :: "(cert_env \<times> CertConfig \<times> string) list \<Rightarrow> cert_state \<Rightarrow> cert_state" where
  "ensure_run [] st = st"
| "ensure_run ((E, cfg, up) # calls) st = ensure_run calls (snd (EnsureCertificate E (Some cfg) up st))"

lemma ensure_run_owner: "owner_of st g = Some e \<Longrightarrow> owner_of (ensure_run calls st) g = Some e"
  by (induction calls st rule: ensure_run.induct) (auto intro: Ensure_owner [OF prod.collapse [symmetric]])


lemma demo_ensure: "\<exists>st'. EnsureCertificate demo_cert_env (Some demo_cert_config) ''u'' demo_cert_state = (Ret ''reuse'', st')"
  by (simp add: EnsureCertificate_def claimCertFiles_def Let_def demo_cert_state_def ensureLifecycle_def parseDiskCert_def
        certCoversDomain_def demo_cert_env_def demo_cert_config_def renew_30 [unfolded demo_cert_config_def])


section \<open>Issue once\<close>

lemma acquire_http_ok:
  assumes "managed cfg" and "cc_CertMode cfg \<noteq> ''self''" and "acquire E cfg up action st = (Ret a, st')"
  shows "a = action \<and> (\<exists>st1 res. writeCert E cfg res st1 = (Ret (), st') \<and>
     (ce_obtain E (cc_CertDomain cfg) = Some res \<or> (\<exists>pem. ce_renew E (cc_CertDomain cfg) pem = Some res)))"
proof -
  obtain r1 st1 where n: "NewLego E cfg up st = (r1, st1)" by force
  obtain r2 st2 where re: "Renew E cfg st1 = (r2, st2)" by force
  have o: "Obtain E cfg s = (Ret (), s') \<Longrightarrow> \<exists>res. writeCert E cfg res s = (Ret (), s') \<and> ce_obtain E (cc_CertDomain cfg) = Some res" for s s'
    by (auto simp: Obtain_def split: option.splits)
  have rn: "Renew E cfg s = (Ret (), s') \<Longrightarrow> \<exists>res pem. writeCert E cfg res s = (Ret (), s') \<and> ce_renew E (cc_CertDomain cfg) pem = Some res" for s s'
    by (auto simp: Renew_def split: option.splits if_splits)
  have "a = action \<and> (Obtain E cfg st1 = (Ret (), st') \<or> Renew E cfg st1 = (Ret (), st') \<or> Obtain E cfg st2 = (Ret (), st'))"
    using assms(2,3) n re by (auto simp: acquire_def split: outcome.splits if_splits prod.splits)
  with o rn show ?thesis by blast
qed

text \<open>A fresh certificate is not issued again. When an ACME call returned for a configuration without
  placeholders in its path, and everything the ACME server issued parses, covers the domain and is
  valid beyond the renewal window at a later time, then the next call at that time reuses the file and
  leaves the disk alone.\<close>

lemma fresh_certificate_reused:
  assumes m: "managed cfg" and mode: "cc_CertMode cfg \<noteq> ''self''"
    and plain: "parseParams cfg (cc_CertFile cfg) = cc_CertFile cfg"
    and files: "not_tmp E (cc_CertFile cfg)" "cc_CertFile cfg \<noteq> parseParams cfg (cc_KeyFile cfg)"
    and first: "EnsureCertificate E (Some cfg) up st = (Ret a, st1)" and a: "a \<noteq> ''reuse''"
    and good: "\<And>d k pem. ce_obtain E (cc_CertDomain cfg) = Some (d, k) \<or> ce_renew E (cc_CertDomain cfg) pem = Some (d, k) \<Longrightarrow>
       \<exists>c. ce_parse E2 d = Some c \<and> certCoversDomain c (cc_CertDomain cfg) \<and>
         ce_now E2 < x_NotAfter c \<and> ce_now E2 + renewBefore cfg \<le> x_NotAfter c"
    and readable: "\<not> ce_unreadable E2 (cc_CertFile cfg)"
  shows "\<exists>st2. EnsureCertificate E2 (Some cfg) up st1 = (Ret ''reuse'', st2) \<and> cs_fs st2 = cs_fs st1"
proof -
  obtain st0 where c: "claimCertFiles (cc_CertFile cfg) (cc_KeyFile cfg) (cc_CertDomain cfg) st = (Ret (), st0)"
    and l: "ensureLifecycle E cfg up st0 = (Ret a, st1)"
    using m first claim_fail by (auto simp: Ensure_managed split: outcome.splits prod.splits)
  have cl1: "cs_claims st1 = cs_claims st0" using ensureLifecycle_step [OF l] by (simp add: fs_step_def)
  obtain act where "acquire E cfg up act st0 = (Ret a, st1)"
    using l a by (auto simp: ensureLifecycle_def Let_def split: parsed.splits if_splits)
  from acquire_http_ok [OF m mode this] obtain st2 res where w: "writeCert E cfg res st2 = (Ret (), st1)"
    and res: "ce_obtain E (cc_CertDomain cfg) = Some res \<or> (\<exists>pem. ce_renew E (cc_CertDomain cfg) pem = Some res)" by blast
  have d: "mload (cs_fs st1) (cc_CertFile cfg) = Some (fst res)"
    using write_pair_frame [OF w [unfolded writeCert_def plain]] files by simp
  obtain d0 k0 where r0: "res = (d0, k0)" by force
  from good [of d0 k0] res r0 obtain cert where p: "ce_parse E2 (fst res) = Some cert"
    "certCoversDomain cert (cc_CertDomain cfg)" "ce_now E2 < x_NotAfter cert"
    "ce_now E2 + renewBefore cfg \<le> x_NotAfter cert" by auto
  have claims: "claimCertFiles (cc_CertFile cfg) (cc_KeyFile cfg) (cc_CertDomain cfg) st1 =
      (Ret (), st1\<lparr>cs_claims := mstore (mstore (cs_claims st1) (cc_CertFile cfg)
         \<lparr>cl_domain = cc_CertDomain cfg, cl_keyFile = cc_KeyFile cfg\<rparr>) (cc_KeyFile cfg)
         \<lparr>cl_domain = cc_CertDomain cfg, cl_keyFile = cc_KeyFile cfg\<rparr>\<rparr>)"
    using c by (auto simp: claimCertFiles_def Let_def cl1 split: option.splits if_splits)
  show ?thesis
    using d p readable by (simp add: Ensure_managed [OF m] claims ensureLifecycle_def parseDiskCert_def Let_def)
qed

definition empty_cert_state :: cert_state where
  "empty_cert_state = \<lparr>cs_fs = [], cs_claims = [], cs_env = []\<rparr>"

lemma demo_issue: "\<exists>st1. EnsureCertificate demo_cert_env (Some demo_cert_config) ''u'' empty_cert_state = (Ret ''issue'', st1)"
  by (simp add: EnsureCertificate_def claimCertFiles_def Let_def empty_cert_state_def ensureLifecycle_def parseDiskCert_def
      demo_cert_env_def demo_cert_config_def acquire_def NewLego_def NewLegoUser_def fileExists_def User_Load_def DecodePrivate_def registerUser_def SetProvider_def
      Obtain_def writeCert_def write_pair_def writeFileAtomic_def writeFileAtomic_states_def)

lemma fresh_certificate_reused_example:
  "\<exists>st1 st2. EnsureCertificate demo_cert_env (Some demo_cert_config) ''u'' empty_cert_state = (Ret ''issue'', st1) \<and>
     EnsureCertificate demo_cert_env (Some demo_cert_config) ''u'' st1 = (Ret ''reuse'', st2) \<and> cs_fs st2 = cs_fs st1"
proof -
  have m: "managed demo_cert_config" by (simp add: managed_def demo_cert_config_def)
  obtain st1 where e: "EnsureCertificate demo_cert_env (Some demo_cert_config) ''u'' empty_cert_state = (Ret ''issue'', st1)"
    using demo_issue by blast
  have p: "parseParams demo_cert_config (cc_CertFile demo_cert_config) = ''c''"
    "parseParams demo_cert_config (cc_KeyFile demo_cert_config) = ''k''"
    by (simp_all add: parseParams_def demo_cert_config_def HasPrefix_def)
  have "\<exists>st2. EnsureCertificate demo_cert_env (Some demo_cert_config) ''u'' st1 = (Ret ''reuse'', st2) \<and> cs_fs st2 = cs_fs st1"
    by (rule fresh_certificate_reused [OF m _ _ _ _ e])
      (use p in \<open>auto simp: demo_cert_env_def demo_cert_config_def not_tmp_def certCoversDomain_def
         renew_30 [unfolded demo_cert_config_def]\<close>)
  with e show ?thesis by blast
qed

text \<open>A path with a placeholder is never found again. The ACME client expands \<open>{domain}\<close> and
  \<open>{email}\<close> when it writes the certificate, the lifecycle looks the unexpanded path up; so when the
  expansion changes the path and no such file exists, every call for the configuration that returns
  has issued a new certificate, whatever earlier calls issued.\<close>

lemma placeholder_reissues:
  assumes m: "managed cfg" and mode: "cc_CertMode cfg \<noteq> ''self''"
    and exp: "cc_CertFile cfg \<notin> targets cfg" and none: "mload (cs_fs st) (cc_CertFile cfg) = None"
    and calls: "\<forall>(E, c, up) \<in> set calls. c = cfg \<and> not_tmp E (cc_CertFile cfg) \<and> up \<noteq> cc_CertFile cfg"
    and last: "EnsureCertificate E (Some cfg) up (ensure_run calls st) = (Ret a, st')"
  shows "a = ''issue''"
proof -
  have "mload (cs_fs (ensure_run calls st)) (cc_CertFile cfg) = None"
    using none calls
  proof (induction calls st rule: ensure_run.induct)
    case (2 E c up calls st)
    have h: "not_tmp E (cc_CertFile cfg)" "up \<noteq> cc_CertFile cfg" using 2(3) by auto
    obtain r st1 where e: "EnsureCertificate E (Some cfg) up st = (r, st1)" by force
    have "mload (cs_fs st1) (cc_CertFile cfg) = None"
      using Ensure_cases [OF e]
    proof
      assume "managed cfg \<and> (\<exists>st0. claimCertFiles (cc_CertFile cfg) (cc_KeyFile cfg) (cc_CertDomain cfg) st = (Ret (), st0)
        \<and> ensureLifecycle E cfg up st0 = (r, st1))"
      then obtain st0 where c: "claimCertFiles (cc_CertFile cfg) (cc_KeyFile cfg) (cc_CertDomain cfg) st = (Ret (), st0)"
        and l: "ensureLifecycle E cfg up st0 = (r, st1)" by blast
      have "mload (cs_fs st1) (cc_CertFile cfg) = mload (cs_fs st0) (cc_CertFile cfg)"
        using ensureLifecycle_step [OF l] h exp unfolding fs_step_def by metis
      then show ?thesis using claim_frame [OF c] 2(2) by simp
    qed (use 2(2) in simp)
    with 2 e show ?case by simp
  qed simp
  then have "parseDiskCert E (cc_CertFile cfg) (cs_fs (ensure_run calls st)) = NotExist"
    by (simp add: parseDiskCert_def)
  moreover obtain st0 where c: "claimCertFiles (cc_CertFile cfg) (cc_KeyFile cfg) (cc_CertDomain cfg) (ensure_run calls st) = (Ret (), st0)"
    and "ensureLifecycle E cfg up st0 = (Ret a, st')"
    using m last claim_fail by (auto simp: Ensure_managed split: outcome.splits prod.splits)
  moreover have "cs_fs st0 = cs_fs (ensure_run calls st)" using claim_frame [OF c] by simp
  ultimately have "acquire E cfg up ''issue'' st0 = (Ret a, st')" by (simp add: ensureLifecycle_def)
  from acquire_http_ok [OF m mode this] show ?thesis by simp
qed

definition placeholder_config :: CertConfig where
  "placeholder_config = demo_cert_config\<lparr>cc_CertFile := ''{domain}''\<rparr>"

lemma placeholder_reissues_example:
  "\<exists>st1 st2. EnsureCertificate demo_cert_env (Some placeholder_config) ''u'' empty_cert_state = (Ret ''issue'', st1) \<and>
     mload (cs_fs st1) ''a.example'' = Some ''good'' \<and>
     EnsureCertificate demo_cert_env (Some placeholder_config) ''u'' st1 = (Ret ''issue'', st2)"
proof -
  have m: "managed placeholder_config" "cc_CertMode placeholder_config \<noteq> ''self''"
    "mload (cs_fs empty_cert_state) (cc_CertFile placeholder_config) = None"
    by (simp_all add: managed_def placeholder_config_def demo_cert_config_def empty_cert_state_def)
  have x: "cc_CertFile placeholder_config \<notin> targets placeholder_config"
    by (simp add: targets_def placeholder_config_def demo_cert_config_def parseParams_def HasPrefix_def)
  let ?cl = "\<lparr>cl_domain = ''a.example'', cl_keyFile = ''k''\<rparr>"
  define st1 where "st1 = \<lparr>cs_fs = [(''u'', ''u''), (''a.example'', ''good''), (''k'', ''key'')],
    cs_claims = [(''{domain}'', ?cl), (''k'', ?cl)], cs_env = []\<rparr>"
  have e: "EnsureCertificate demo_cert_env (Some placeholder_config) ''u'' empty_cert_state = (Ret ''issue'', st1)"
    by (simp add: st1_def EnsureCertificate_def claimCertFiles_def Let_def empty_cert_state_def ensureLifecycle_def parseDiskCert_def
      demo_cert_env_def placeholder_config_def demo_cert_config_def acquire_def NewLego_def NewLegoUser_def fileExists_def User_Load_def DecodePrivate_def registerUser_def
      SetProvider_def Obtain_def writeCert_def write_pair_def writeFileAtomic_def writeFileAtomic_states_def
      parseParams_def HasPrefix_def)
  have f: "mload (cs_fs st1) ''a.example'' = Some ''good''" by (simp add: st1_def)
  obtain a st2 where e2: "EnsureCertificate demo_cert_env (Some placeholder_config) ''u'' st1 = (Ret a, st2)"
    by (simp add: st1_def EnsureCertificate_def claimCertFiles_def Let_def empty_cert_state_def ensureLifecycle_def parseDiskCert_def
      demo_cert_env_def placeholder_config_def demo_cert_config_def acquire_def NewLego_def NewLegoUser_def fileExists_def User_Load_def DecodePrivate_def registerUser_def
      SetProvider_def Obtain_def writeCert_def write_pair_def writeFileAtomic_def writeFileAtomic_states_def
      parseParams_def HasPrefix_def)
  have s1: "st1 = ensure_run [(demo_cert_env, placeholder_config, ''u'')] empty_cert_state" using e by simp
  have "a = ''issue''"
    by (rule placeholder_reissues [OF m(1,2) x m(3) _ e2 [unfolded s1]])
      (simp add: not_tmp_def demo_cert_env_def placeholder_config_def demo_cert_config_def)
  with e e2 f show ?thesis by blast
qed

end
