(* ===== verification/Paths.thy ===== *)
theory Paths
  imports PanelTypes
begin

text \<open>
  Go's package \<open>path\<close> on slash-separated paths, as far as the program uses it: \<open>Clean\<close>, \<open>Dir\<close>,
  \<open>Join\<close>, and the place of the ACME account file that \<open>NewLego\<close> in \<open>node/lego.go\<close> computes with them.
\<close>

section \<open>Splitting and joining at a separator\<close>

fun split_on :: "char \<Rightarrow> string \<Rightarrow> string list" where
  "split_on s [] = [[]]"
| "split_on s (c # cs) =
     (if c = s then [] # split_on s cs
      else (case split_on s cs of [] \<Rightarrow> [[c]] | e # es \<Rightarrow> (c # e) # es))"

fun join_with :: "char \<Rightarrow> string list \<Rightarrow> string" where
  "join_with s [] = []"
| "join_with s [e] = e"
| "join_with s (e # es) = e @ s # join_with s es"

abbreviation split_slash :: "string \<Rightarrow> string list" where "split_slash \<equiv> split_on CHR ''/''"
abbreviation join_slash :: "string list \<Rightarrow> string" where "join_slash \<equiv> join_with CHR ''/''"

lemma split_on_nonempty [simp]: "split_on s p \<noteq> []"
  by (cases p) (auto split: list.splits)

lemma split_plain: "s \<notin> set e \<Longrightarrow> split_on s e = [e]"
  by (induction e) auto

lemma split_append: "s \<notin> set e \<Longrightarrow> split_on s (e @ s # p) = e # split_on s p"
  by (induction e) auto

lemma split_join: "es \<noteq> [] \<Longrightarrow> \<forall>e \<in> set es. s \<notin> set e \<Longrightarrow> split_on s (join_with s es) = es"
  by (induction s es rule: join_with.induct) (auto simp: split_plain split_append)

lemma join_inj:
  "join_with s es = join_with s fs \<Longrightarrow> es \<noteq> [] \<Longrightarrow> fs \<noteq> [] \<Longrightarrow> \<forall>e \<in> set es \<union> set fs. s \<notin> set e \<Longrightarrow> es = fs"
  by (metis UnI1 UnI2 split_join)

lemma split_no_sep: "e \<in> set (split_on s p) \<Longrightarrow> s \<notin> set e"
  by (induction p arbitrary: e) (auto split: if_splits list.splits)

section \<open>Clean, Dir and Join\<close>

text \<open>The elements that stay: a dot is dropped, two dots drop the element before them.\<close>

fun clean_elems :: "bool \<Rightarrow> string list \<Rightarrow> string list \<Rightarrow> string list" where
  "clean_elems rooted st [] = rev st"
| "clean_elems rooted st (e # es) =
     (if e = '''' \<or> e = ''.'' then clean_elems rooted st es
      else if e = ''..'' then
        (case st of
           [] \<Rightarrow> if rooted then clean_elems rooted [] es else clean_elems rooted [e] es
         | t # ts \<Rightarrow> if t = ''..'' then clean_elems rooted (e # st) es else clean_elems rooted ts es)
      else clean_elems rooted (e # st) es)"

definition path_Clean :: "string \<Rightarrow> string" where
  "path_Clean p =
    (let rooted = HasPrefix p ''/''; es = clean_elems rooted [] (split_slash p)
     in if rooted then CHR ''/'' # join_slash es
        else if es = [] then ''.'' else join_slash es)"

definition path_Dir :: "string \<Rightarrow> string" where
  "path_Dir p = path_Clean (rev (dropWhile (\<lambda>c. c \<noteq> CHR ''/'') (rev p)))"

definition path_Join :: "string list \<Rightarrow> string" where
  "path_Join es = (let ne = filter (\<lambda>e. e \<noteq> '''') es in if ne = [] then '''' else path_Clean (join_slash ne))"

text \<open>The stack of a clean path: no empty element, no dot, and two dots only below a relative path's
  other elements. A clean path is left as it is.\<close>

fun clean_stack :: "bool \<Rightarrow> string list \<Rightarrow> bool" where
  "clean_stack r [] = True"
| "clean_stack r (t # ts) =
     (clean_stack r ts \<and> t \<noteq> '''' \<and> t \<noteq> ''.'' \<and> CHR ''/'' \<notin> set t \<and> (t = ''..'' \<longrightarrow> \<not> r \<and> set ts \<subseteq> {''..''}))"

lemma clean_elems_stack:
  "clean_stack r st \<Longrightarrow> \<forall>e \<in> set es. CHR ''/'' \<notin> set e \<Longrightarrow> clean_stack r (rev (clean_elems r st es))"
  by (induction r st es rule: clean_elems.induct) (auto split: list.splits)

lemma clean_stack_append: "clean_stack r (us @ ts) \<Longrightarrow> clean_stack r ts"
  by (induction us) auto

lemma clean_elems_clean: "clean_stack r (rev es @ st) \<Longrightarrow> clean_elems r st es = rev st @ es"
proof (induction es arbitrary: st)
  case (Cons e es)
  have "clean_stack r (rev es @ e # st)" using Cons.prems by simp
  with Cons.IH [OF this] clean_stack_append [OF this] show ?case by (auto split: list.splits)
qed simp

lemma clean_stack_elems: "clean_stack r (rev es) \<Longrightarrow> \<forall>e \<in> set es. CHR ''/'' \<notin> set e \<and> e \<noteq> ''''"
  by (induction es rule: rev_induct) auto

lemma HasPrefix_slash: "HasPrefix s ''/'' \<longleftrightarrow> (\<exists>t. s = CHR ''/'' # t)"
  by (cases s) (auto simp: HasPrefix_def)

lemma path_Clean_rooted: "path_Clean (CHR ''/'' # s) = CHR ''/'' # join_slash (clean_elems True [] (split_slash s))"
  by (simp add: path_Clean_def HasPrefix_slash)

lemma path_Clean_relative:
  "\<not> HasPrefix s ''/'' \<Longrightarrow> path_Clean s =
     (let es = clean_elems False [] (split_slash s) in if es = [] then ''.'' else join_slash es)"
  by (simp add: path_Clean_def)

lemma clean_elems_again:
  fixes s :: string and r :: bool
  defines "es \<equiv> clean_elems r [] (split_slash s)"
  shows "clean_elems r [] es = es" and "\<forall>e \<in> set es. CHR ''/'' \<notin> set e \<and> e \<noteq> ''''"
proof -
  have st: "clean_stack r (rev es)"
    unfolding es_def by (rule clean_elems_stack) (auto dest: split_no_sep)
  show "clean_elems r [] es = es" using clean_elems_clean [of r es "[]"] st by simp
  show "\<forall>e \<in> set es. CHR ''/'' \<notin> set e \<and> e \<noteq> ''''" by (rule clean_stack_elems [OF st])
qed

lemma path_Clean_idem: "path_Clean (path_Clean p) = path_Clean p"
proof (cases "HasPrefix p ''/''")
  case True
  then obtain s where p: "p = CHR ''/'' # s" by (auto simp: HasPrefix_slash)
  let ?es = "clean_elems True [] (split_slash s)"
  have "split_slash (join_slash ?es) = (if ?es = [] then [[]] else ?es)"
    using split_join [of ?es] clean_elems_again(2) [of True s] by simp
  with clean_elems_again(1) [of True s] show ?thesis by (simp add: p path_Clean_rooted)
next
  case False
  let ?es = "clean_elems False [] (split_slash p)"
  show ?thesis
  proof (cases "?es = []")
    case True
    with False show ?thesis by (simp add: path_Clean_relative Let_def) (simp add: path_Clean_def HasPrefix_def)
  next
    case ne: False
    have "\<not> HasPrefix (join_slash ?es) ''/''"
      using ne clean_elems_again(2) [of False p]
      by (cases "(CHR ''/'', ?es)" rule: join_with.cases) (auto simp: HasPrefix_slash append_eq_Cons_conv)
    with ne split_join [of ?es] clean_elems_again [of False p] have "path_Clean (join_slash ?es) = join_slash ?es"
      by (simp add: path_Clean_relative)
    with False ne show ?thesis by (simp add: path_Clean_relative)
  qed
qed

section \<open>The account file\<close>

definition lego_user_path :: "CertConfig \<Rightarrow> string" where
  "lego_user_path cfg = path_Join [path_Dir (cc_CertFile cfg), ''user'', ''user-'' @ cc_Email cfg @ ''.json'']"

lemma lego_user_path_example:
  "path_Dir ''/etc/n/cert.pem'' = ''/etc/n''"
  "path_Join [path_Dir ''/etc/n/cert.pem'', ''user'', ''user-a.json''] = ''/etc/n/user/user-a.json''"
  "path_Clean ''a/./b//../../../c'' = ''../c''"
  by code_simp+

end
