(* ===== verification/CertFlight.thy ===== *)
theory CertFlight
  imports CertProps Paths
begin

text \<open>
  The calls of \<open>EnsureCertificate\<close> (\<open>node/cert_manager.go\<close>) that several controllers make at once. The
  claim table, the singleflight group, which runs one lifecycle per task key, and the mutex around the
  ACME client are the only synchronisation; their interleavings are a step relation. A caller is at the
  claim table, before the group, waiting for a flight, or has its result. The group is a library: it is
  a parameter, and what the code relies on is the law \<open>group_lawful\<close>.
\<close>

section \<open>The task key\<close>

definition flight_fields :: "CertConfig \<Rightarrow> string list" where
  "flight_fields cfg = [cc_CertMode cfg, cc_CertDomain cfg, cc_CertFile cfg, cc_KeyFile cfg, cc_Provider cfg, cc_Email cfg]"

definition certTaskKey :: "CertConfig \<Rightarrow> string" where
  "certTaskKey cfg = join_with CHR 0x00 (flight_fields cfg)"

definition nul_free :: "CertConfig \<Rightarrow> bool" where
  "nul_free cfg \<longleftrightarrow> (\<forall>e \<in> set (flight_fields cfg). CHR 0x00 \<notin> set e)"

lemma flight_fields_ne: "flight_fields cfg = [] \<longleftrightarrow> False"
  by (simp add: flight_fields_def)

lemma certTaskKey_inj:
  "nul_free a \<Longrightarrow> nul_free b \<Longrightarrow> certTaskKey a = certTaskKey b \<longleftrightarrow> flight_fields a = flight_fields b"
  using join_inj [of "CHR 0x00" "flight_fields a" "flight_fields b"]
  by (auto simp only: nul_free_def certTaskKey_def Un_iff flight_fields_ne)

text \<open>Neither the variables of the DNS provider nor the renewal window are part of the key: a call with
  other ones joins the flight of the first.\<close>

lemma key_ignores_dns_env: "certTaskKey (cfg\<lparr>cc_DNSEnv := env, cc_RenewBeforeDays := d\<rparr>) = certTaskKey cfg"
  by (simp add: certTaskKey_def flight_fields_def)

section \<open>Flights\<close>

text \<open>What \<open>ensureLifecycle\<close> decides from the disk: a result, or an action to take.\<close>

definition lifecycle_decision :: "cert_env \<Rightarrow> CertConfig \<Rightarrow> cert_state \<Rightarrow> string outcome + string" where
  "lifecycle_decision E cfg st =
    (case parseDiskCert E (cc_CertFile cfg) (cs_fs st) of
       NotExist \<Rightarrow> Inr ''issue''
     | BadCert \<Rightarrow> Inr ''reissue''
     | Parsed cert \<Rightarrow>
         if \<not> certCoversDomain cert (cc_CertDomain cfg) then Inl (Fail ''cert does not cover domain'')
         else let remaining = x_NotAfter cert - ce_now E
           in if remaining \<le> 0 then Inr ''renew''
              else if remaining < renewBefore cfg then Inr ''renew''
              else Inl (Ret ''reuse''))"

text \<open>A flight that will take the action \<open>a\<close> waits for the mutex in the state \<open>Acquiring a\<close>; a
  self-signed one has written its certificate and not yet the key \<open>k\<close> in \<open>Pairing k a\<close>.\<close>

datatype phase = Deciding | Acquiring string | Pairing string string | Holding string

record flight =
  fl_cfg :: CertConfig
  fl_phase :: phase

datatype flight_out = Go phase bool | Finish "string outcome" bool | Blocked

definition flight_act :: "cert_env \<Rightarrow> flight \<Rightarrow> bool \<Rightarrow> cert_state \<Rightarrow> flight_out \<times> cert_state" where
  "flight_act E f m st =
    (let cfg = fl_cfg f
     in case fl_phase f of
       Deciding \<Rightarrow>
         (case lifecycle_decision E cfg st of
            Inl r \<Rightarrow> (Finish r m, st)
          | Inr a \<Rightarrow> (Go (Acquiring a) m, st))
     | Acquiring a \<Rightarrow>
         if cc_CertMode cfg = ''self'' then
           (case ce_selfsign E (cc_CertDomain cfg) (ce_now E) of
              None \<Rightarrow> (Finish (Fail ''self'') m, st)
            | Some ck \<Rightarrow>
                (case writeFileAtomic E (cc_CertFile cfg) (fst ck) st of
                   (Ret _, st1) \<Rightarrow> (Go (Pairing (snd ck) a) m, st1)
                 | (_, st1) \<Rightarrow> (Finish (Fail ''self'') m, st1)))
         else if m then (Blocked, st)
         else (Go (Holding a) True, st)
     | Pairing k a \<Rightarrow>
         (case writeFileAtomic E (cc_KeyFile cfg) k st of
            (Ret _, st1) \<Rightarrow> (Finish (Ret a) m, st1)
          | (_, st1) \<Rightarrow> (Finish (Fail ''self'') m, st1))
     | Holding a \<Rightarrow>
         (case acquire E cfg (lego_user_path cfg) a st of (r, st1) \<Rightarrow> (Finish r False, st1)))"

text \<open>A flight that nothing interrupts does what \<open>ensureLifecycle\<close> does.\<close>

fun run_flight :: "nat \<Rightarrow> cert_env \<Rightarrow> flight \<Rightarrow> bool \<Rightarrow> cert_state \<Rightarrow> (string outcome \<times> cert_state) option" where
  "run_flight 0 E f m st = None"
| "run_flight (Suc n) E f m st =
     (case flight_act E f m st of
        (Go p m', st') \<Rightarrow> run_flight n E (f\<lparr>fl_phase := p\<rparr>) m' st'
      | (Finish r m', st') \<Rightarrow> Some (r, st')
      | (Blocked, st') \<Rightarrow> None)"

lemma ensureLifecycle_decision:
  "ensureLifecycle E cfg up st = (case lifecycle_decision E cfg st of Inl r \<Rightarrow> (r, st) | Inr a \<Rightarrow> acquire E cfg up a st)"
  by (simp add: ensureLifecycle_def lifecycle_decision_def Let_def split: parsed.splits)

lemma run_flight_alone:
  "run_flight 4 E \<lparr>fl_cfg = cfg, fl_phase = Deciding\<rparr> False st = Some (ensureLifecycle E cfg (lego_user_path cfg) st)"
  by (simp add: numeral_eq_Suc flight_act_def ensureLifecycle_decision acquire_def writeSelfSignedCert_def
        write_pair_def split: sum.splits option.splits prod.splits outcome.splits)

section \<open>All calls of the process\<close>

text \<open>The group: \<open>Do\<close> enters a key and tells whether the caller leads, the end of the flight leaves it.\<close>

record 'g group_ops =
  gr_enter :: "'g \<Rightarrow> string \<Rightarrow> 'g \<times> bool"
  gr_leave :: "'g \<Rightarrow> string \<Rightarrow> 'g"
  gr_has :: "'g \<Rightarrow> string \<Rightarrow> bool"

definition group_lawful :: "'g group_ops \<Rightarrow> bool" where
  "group_lawful G \<longleftrightarrow>
    (\<forall>g k. snd (gr_enter G g k) \<longleftrightarrow> \<not> gr_has G g k) \<and>
    (\<forall>g k k'. gr_has G (fst (gr_enter G g k)) k' \<longleftrightarrow> k' = k \<or> gr_has G g k') \<and>
    (\<forall>g k k'. gr_has G (gr_leave G g k) k' \<longleftrightarrow> k' \<noteq> k \<and> gr_has G g k')"

datatype caller = Calling CertConfig | Claimed CertConfig | Waiting CertConfig | Returned "string outcome"

record 'g cert_calls =
  cf_st :: cert_state
  cf_group :: 'g
  cf_mutex :: bool
  cf_flights :: "(string, flight) gomap"
  cf_callers :: "caller list"
  cf_crashed :: bool

definition calls_init :: "cert_state \<Rightarrow> 'g \<Rightarrow> CertConfig list \<Rightarrow> 'g cert_calls" where
  "calls_init st g cfgs = \<lparr>cf_st = st, cf_group = g, cf_mutex = False, cf_flights = [],
     cf_callers = map Calling cfgs, cf_crashed = False\<rparr>"

text \<open>The end of a flight hands its result to everyone who waits for its key.\<close>

definition deliver :: "string \<Rightarrow> string outcome \<Rightarrow> caller \<Rightarrow> caller" where
  "deliver k r c = (case c of Waiting cfg \<Rightarrow> if certTaskKey cfg = k then Returned r else c | _ \<Rightarrow> c)"

definition land :: "'g group_ops \<Rightarrow> string \<Rightarrow> string outcome \<Rightarrow> 'g cert_calls \<Rightarrow> 'g cert_calls" where
  "land G k r s = s\<lparr>cf_group := gr_leave G (cf_group s) k, cf_flights := mdelete (cf_flights s) k,
     cf_callers := map (deliver k r) (cf_callers s)\<rparr>"

definition enter_flight :: "bool \<Rightarrow> CertConfig \<Rightarrow> (string, flight) gomap \<Rightarrow> (string, flight) gomap" where
  "enter_flight leads cfg m = (if leads then mstore m (certTaskKey cfg) \<lparr>fl_cfg = cfg, fl_phase = Deciding\<rparr> else m)"

inductive cf_step :: "'g group_ops \<Rightarrow> 'g cert_calls \<Rightarrow> 'g cert_calls \<Rightarrow> bool" for G where
  cf_direct: "\<not> cf_crashed s \<Longrightarrow> i < length (cf_callers s) \<Longrightarrow> cf_callers s ! i = Calling cfg \<Longrightarrow> \<not> managed cfg \<Longrightarrow>
     cf_step G s (s\<lparr>cf_callers := (cf_callers s)
       [i := Returned (fst (EnsureCertificate E (Some cfg) (lego_user_path cfg) (cf_st s)))]\<rparr>)"
| cf_claim: "\<not> cf_crashed s \<Longrightarrow> i < length (cf_callers s) \<Longrightarrow> cf_callers s ! i = Calling cfg \<Longrightarrow> managed cfg \<Longrightarrow>
     claimCertFiles (cc_CertFile cfg) (cc_KeyFile cfg) (cc_CertDomain cfg) (cf_st s) = (r, st) \<Longrightarrow>
     cf_step G s (s\<lparr>cf_st := st, cf_callers := (cf_callers s)
       [i := (case r of Ret _ \<Rightarrow> Claimed cfg | Fail e \<Rightarrow> Returned (Fail e) | Panic \<Rightarrow> Returned Panic)]\<rparr>)"
| cf_enter: "\<not> cf_crashed s \<Longrightarrow> i < length (cf_callers s) \<Longrightarrow> cf_callers s ! i = Claimed cfg \<Longrightarrow>
     gr_enter G (cf_group s) (certTaskKey cfg) = (g, leads) \<Longrightarrow>
     cf_step G s (s\<lparr>cf_group := g,
       cf_flights := enter_flight leads cfg (cf_flights s),
       cf_callers := (cf_callers s)[i := Waiting cfg]\<rparr>)"
| cf_go: "\<not> cf_crashed s \<Longrightarrow> mload (cf_flights s) k = Some f \<Longrightarrow> flight_act E f (cf_mutex s) (cf_st s) = (Go p m, st) \<Longrightarrow>
     cf_step G s (s\<lparr>cf_st := st, cf_mutex := m, cf_flights := mstore (cf_flights s) k (f\<lparr>fl_phase := p\<rparr>)\<rparr>)"
| cf_land: "\<not> cf_crashed s \<Longrightarrow> mload (cf_flights s) k = Some f \<Longrightarrow> flight_act E f (cf_mutex s) (cf_st s) = (Finish r m, st) \<Longrightarrow>
     r \<noteq> Panic \<Longrightarrow> cf_step G s (land G k r (s\<lparr>cf_st := st, cf_mutex := m\<rparr>))"
| cf_crash: "\<not> cf_crashed s \<Longrightarrow> mload (cf_flights s) k = Some f \<Longrightarrow> flight_act E f (cf_mutex s) (cf_st s) = (Finish Panic m, st) \<Longrightarrow>
     cf_step G s (s\<lparr>cf_st := st, cf_mutex := m, cf_crashed := True\<rparr>)"

inductive_cases cf_stepE: "cf_step G s s'"

inductive cf_run :: "'g group_ops \<Rightarrow> 'g cert_calls \<Rightarrow> nat \<Rightarrow> 'g cert_calls \<Rightarrow> bool" for G s0 where
  cf_start: "cf_run G s0 0 s0"
| cf_next: "cf_run G s0 n s \<Longrightarrow> cf_step G s s' \<Longrightarrow> cf_run G s0 (Suc n) s'"

section \<open>The invariant\<close>

definition owns :: "cert_state \<Rightarrow> CertConfig \<Rightarrow> bool" where
  "owns st cfg \<longleftrightarrow> owner_of st (cc_CertFile cfg) = Some (cc_CertDomain cfg) \<and> owner_of st (cc_KeyFile cfg) = Some (cc_CertDomain cfg)"

definition holds_mutex :: "flight \<Rightarrow> bool" where
  "holds_mutex f \<longleftrightarrow> (\<exists>a. fl_phase f = Holding a)"

definition flights_ok :: "'g cert_calls \<Rightarrow> bool" where
  "flights_ok s \<longleftrightarrow> (\<forall>k f. mload (cf_flights s) k = Some f \<longrightarrow>
     certTaskKey (fl_cfg f) = k \<and> owns (cf_st s) (fl_cfg f))"

definition mutex_ok :: "'g cert_calls \<Rightarrow> bool" where
  "mutex_ok s \<longleftrightarrow> (\<forall>k f. mload (cf_flights s) k = Some f \<longrightarrow> holds_mutex f \<longrightarrow>
       cf_mutex s \<and> (\<forall>k' f'. mload (cf_flights s) k' = Some f' \<longrightarrow> holds_mutex f' \<longrightarrow> k' = k)) \<and>
     (cf_mutex s \<longrightarrow> (\<exists>k f. mload (cf_flights s) k = Some f \<and> holds_mutex f))"

definition group_ok :: "'g group_ops \<Rightarrow> 'g cert_calls \<Rightarrow> bool" where
  "group_ok G s \<longleftrightarrow> (\<forall>k. gr_has G (cf_group s) k \<longleftrightarrow> mload (cf_flights s) k \<noteq> None) \<and>
     (\<forall>cfg. Waiting cfg \<in> set (cf_callers s) \<longrightarrow> mload (cf_flights s) (certTaskKey cfg) \<noteq> None) \<and>
     (\<forall>cfg. Claimed cfg \<in> set (cf_callers s) \<longrightarrow> owns (cf_st s) cfg)"

definition calls_inv :: "'g group_ops \<Rightarrow> 'g cert_calls \<Rightarrow> bool" where
  "calls_inv G s \<longleftrightarrow> flights_ok s \<and> mutex_ok s \<and> group_ok G s"

lemma flight_act_claims: "flight_act E f m st = (r, st') \<Longrightarrow> cs_claims st' = cs_claims st"
  by (auto simp: flight_act_def Let_def split: phase.splits sum.splits if_splits option.splits prod.splits outcome.splits
      dest!: writeFileAtomic_frame acquire_step [where up = "lego_user_path (fl_cfg f)"] simp: fs_step_def)

lemma owns_claims: "cs_claims st' = cs_claims st \<Longrightarrow> owns st' cfg = owns st cfg"
  by (simp add: owns_def owner_of_def)

lemma owns_claim: "claimCertFiles f k d st = (r, st') \<Longrightarrow> owns st cfg \<Longrightarrow> owns st' cfg"
  by (auto simp: owns_def dest: claim_owner)

lemma flight_go_mutex:
  "flight_act E f m st = (Go p m', st') \<Longrightarrow> \<not> holds_mutex f \<and>
     (if holds_mutex (f\<lparr>fl_phase := p\<rparr>) then \<not> m \<and> m' else m' = m)"
  by (auto simp: flight_act_def Let_def holds_mutex_def
      split: phase.splits sum.splits if_splits option.splits prod.splits outcome.splits)

lemma flight_finish_mutex: "flight_act E f m st = (Finish r m', st') \<Longrightarrow> m' = (m \<and> \<not> holds_mutex f)"
  by (auto simp: flight_act_def Let_def holds_mutex_def
      split: phase.splits sum.splits if_splits option.splits prod.splits outcome.splits)

lemma flight_blocked: "flight_act E f m st = (Blocked, st') \<Longrightarrow> m \<and> \<not> holds_mutex f"
  by (auto simp: flight_act_def Let_def holds_mutex_def
      split: phase.splits sum.splits if_splits option.splits prod.splits outcome.splits)

lemma deliver_simps [simp]:
  "deliver k r c = Waiting cfg \<longleftrightarrow> c = Waiting cfg \<and> certTaskKey cfg \<noteq> k"
  "deliver k r c = Claimed cfg \<longleftrightarrow> c = Claimed cfg"
  "deliver k r c = Calling cfg \<longleftrightarrow> c = Calling cfg"
  "Waiting cfg = deliver k r c \<longleftrightarrow> c = Waiting cfg \<and> certTaskKey cfg \<noteq> k"
  "Claimed cfg = deliver k r c \<longleftrightarrow> c = Claimed cfg"
  by (auto simp: deliver_def split: caller.splits)

lemma caller_update: "c \<in> set (cs[i := d]) \<Longrightarrow> c = d \<or> c \<in> set cs"
  using set_update_subset_insert [of cs i d] by blast

text \<open>A step of a flight that goes on, and one that ends, keep the invariant.\<close>

lemma inv_go:
  assumes inv: "calls_inv G s" and f: "mload (cf_flights s) k = Some f"
    and a: "flight_act E f (cf_mutex s) (cf_st s) = (Go p m, st)"
  shows "calls_inv G (s\<lparr>cf_st := st, cf_mutex := m, cf_flights := mstore (cf_flights s) k (f\<lparr>fl_phase := p\<rparr>)\<rparr>)"
proof -
  note o = owns_claims [OF flight_act_claims [OF a]]
  have "flights_ok (s\<lparr>cf_st := st, cf_mutex := m, cf_flights := mstore (cf_flights s) k (f\<lparr>fl_phase := p\<rparr>)\<rparr>)"
    using inv f by (auto simp: calls_inv_def flights_ok_def o)
  moreover have "mutex_ok (s\<lparr>cf_st := st, cf_mutex := m, cf_flights := mstore (cf_flights s) k (f\<lparr>fl_phase := p\<rparr>)\<rparr>)"
    using inv f flight_go_mutex [OF a] unfolding calls_inv_def mutex_ok_def by (auto split: if_splits) (metis option.inject)
  moreover have "group_ok G (s\<lparr>cf_st := st, cf_mutex := m, cf_flights := mstore (cf_flights s) k (f\<lparr>fl_phase := p\<rparr>)\<rparr>)"
    using inv f by (auto simp: calls_inv_def group_ok_def o)
  ultimately show ?thesis by (simp add: calls_inv_def)
qed

lemma inv_land:
  assumes G: "group_lawful G" and inv: "calls_inv G s" and f: "mload (cf_flights s) k = Some f"
    and a: "flight_act E f (cf_mutex s) (cf_st s) = (Finish r m, st)"
  shows "calls_inv G (land G k r (s\<lparr>cf_st := st, cf_mutex := m\<rparr>))"
proof -
  note o = owns_claims [OF flight_act_claims [OF a]]
  have "flights_ok (land G k r (s\<lparr>cf_st := st, cf_mutex := m\<rparr>))"
    using inv by (auto simp: calls_inv_def flights_ok_def land_def o split: if_splits)
  moreover have "mutex_ok (land G k r (s\<lparr>cf_st := st, cf_mutex := m\<rparr>))"
    using inv f flight_finish_mutex [OF a] unfolding calls_inv_def mutex_ok_def land_def by (auto split: if_splits) (metis option.inject)
  moreover have "group_ok G (land G k r (s\<lparr>cf_st := st, cf_mutex := m\<rparr>))"
    using inv f G by (auto simp: calls_inv_def group_ok_def land_def o group_lawful_def)
  ultimately show ?thesis by (simp add: calls_inv_def)
qed

lemma inv_claim:
  assumes inv: "calls_inv G s" and c: "claimCertFiles (cc_CertFile cfg) (cc_KeyFile cfg) (cc_CertDomain cfg) (cf_st s) = (r, st)"
  shows "calls_inv G (s\<lparr>cf_st := st, cf_callers := (cf_callers s)
     [i := (case r of Ret _ \<Rightarrow> Claimed cfg | Fail e \<Rightarrow> Returned (Fail e) | Panic \<Rightarrow> Returned Panic)]\<rparr>)"
proof -
  have own: "r = Ret () \<Longrightarrow> owns st cfg" using claim_owns [of _ _ _ _ st] c by (simp add: owns_def)
  from inv own show ?thesis
    by (auto simp: calls_inv_def flights_ok_def mutex_ok_def group_ok_def intro: owns_claim [OF c]
        dest!: caller_update split: outcome.splits)
qed

lemma inv_enter:
  assumes G: "group_lawful G" and inv: "calls_inv G s" and i: "i < length (cf_callers s)" "cf_callers s ! i = Claimed cfg"
    and e: "gr_enter G (cf_group s) (certTaskKey cfg) = (g, leads)"
  shows "calls_inv G (s\<lparr>cf_group := g,
       cf_flights := enter_flight leads cfg (cf_flights s),
       cf_callers := (cf_callers s)[i := Waiting cfg]\<rparr>)"
proof -
  let ?k = "certTaskKey cfg"
  have mem: "Claimed cfg \<in> set (cf_callers s)" using i by (metis nth_mem)
  have l: "leads \<longleftrightarrow> mload (cf_flights s) ?k = None" "gr_has G g k' \<longleftrightarrow> k' = ?k \<or> gr_has G (cf_group s) k'" for k'
    using G e inv unfolding group_lawful_def calls_inv_def group_ok_def by (metis fst_conv snd_conv)+
  show ?thesis
  proof (cases leads)
    case True
    with inv l mem show ?thesis
      by (auto simp: calls_inv_def flights_ok_def mutex_ok_def group_ok_def holds_mutex_def enter_flight_def dest!: caller_update)
         (metis option.distinct(1))
  next
    case False
    with inv l mem show ?thesis
      by (auto simp: calls_inv_def flights_ok_def mutex_ok_def group_ok_def enter_flight_def dest!: caller_update)
  qed
qed

lemma inv_step:
  assumes "group_lawful G" and "calls_inv G s" and "cf_step G s s'"
  shows "cf_crashed s' \<or> calls_inv G s'"
  using assms(3)
proof (cases rule: cf_step.cases)
  case (cf_direct i cfg E)
  with assms(2) show ?thesis
    by (auto simp: calls_inv_def flights_ok_def mutex_ok_def group_ok_def dest!: caller_update)
next
  case (cf_claim i cfg r st)
  from inv_claim [OF assms(2) cf_claim(6)] cf_claim(1) show ?thesis by simp
next
  case (cf_enter i cfg g leads)
  from inv_enter [OF assms(1,2) cf_enter(3-5)] cf_enter(1) show ?thesis by simp
next
  case (cf_go k f E p m st)
  from inv_go [OF assms(2) cf_go(3,4)] cf_go(1) show ?thesis by simp
next
  case (cf_land k f E r m st)
  from inv_land [OF assms(1,2) cf_land(3,4)] cf_land(1) show ?thesis by simp
qed simp

lemma inv_run:
  assumes "group_lawful G" and "cf_run G s0 n s" and "calls_inv G s0"
  shows "cf_crashed s \<or> calls_inv G s"
  using assms(2)
proof induction
  case (cf_next n s s')
  then have "\<not> cf_crashed s" by (auto elim: cf_stepE)
  with cf_next assms(1) show ?case using inv_step by blast
qed (use assms(3) in simp)

lemma inv_init:
  "\<forall>k. \<not> gr_has G g k \<Longrightarrow> calls_inv G (calls_init st g cfgs)"
  by (auto simp: calls_init_def calls_inv_def flights_ok_def mutex_ok_def group_ok_def)

section \<open>Every call returns\<close>

fun caller_work :: "caller \<Rightarrow> nat" where
  "caller_work (Calling cfg) = 5"
| "caller_work (Claimed cfg) = 4"
| "caller_work (Waiting cfg) = 0"
| "caller_work (Returned r) = 0"

fun phase_work :: "phase \<Rightarrow> nat" where
  "phase_work Deciding = 3"
| "phase_work (Acquiring a) = 2"
| "phase_work (Pairing k a) = 1"
| "phase_work (Holding a) = 1"

definition flights_work :: "(string, flight) gomap \<Rightarrow> nat" where
  "flights_work m = sum_list (map (\<lambda>(k, f). phase_work (fl_phase f)) m)"

definition calls_work :: "'g cert_calls \<Rightarrow> nat" where
  "calls_work s = sum_list (map caller_work (cf_callers s)) + flights_work (cf_flights s) + (if cf_crashed s then 0 else 1)"

lemma flights_work_store: "flights_work (mstore m k f) \<le> flights_work m + phase_work (fl_phase f)"
  by (induction m) (auto simp: flights_work_def)

lemma flights_work_update:
  "mload m k = Some f \<Longrightarrow> phase_work (fl_phase f') < phase_work (fl_phase f) \<Longrightarrow> flights_work (mstore m k f') < flights_work m"
  by (induction m) (auto simp: flights_work_def split: if_splits)

lemma flights_work_delete_le: "flights_work (mdelete m k) \<le> flights_work m"
  by (induction m) (auto simp: flights_work_def)

lemma flights_work_delete: "mload m k = Some f \<Longrightarrow> flights_work (mdelete m k) < flights_work m"
proof (induction m)
  case (Cons p m)
  obtain k' f' where p: "p = (k', f')" by force
  have "0 < phase_work (fl_phase f')" by (cases "fl_phase f'") simp_all
  with Cons flights_work_delete_le [of k m] p show ?case by (auto simp: flights_work_def split: if_splits)
qed simp

lemma callers_work_update:
  assumes "i < length cs"
  shows "sum_list (map caller_work (cs[i := c])) + caller_work (cs ! i) = sum_list (map caller_work cs) + caller_work c"
  using assms by (induction cs arbitrary: i) (auto split: nat.splits)

lemma callers_work_deliver: "sum_list (map caller_work (map (deliver k r) cs)) = sum_list (map caller_work cs)"
  by (induction cs) (auto simp: deliver_def split: caller.splits)

lemma flight_go_work: "flight_act E f m st = (Go p m', st') \<Longrightarrow> phase_work p < phase_work (fl_phase f)"
  by (auto simp: flight_act_def Let_def split: phase.splits sum.splits if_splits option.splits prod.splits outcome.splits)

lemma step_work: "cf_step G s s' \<Longrightarrow> calls_work s' < calls_work s"
proof (induction rule: cf_step.induct)
  case (cf_direct s i cfg E)
  then show ?case using callers_work_update [of i "cf_callers s"
      "Returned (fst (EnsureCertificate E (Some cfg) (lego_user_path cfg) (cf_st s)))"] by (simp add: calls_work_def)
next
  case (cf_claim s i cfg r st)
  then show ?case using callers_work_update [of i "cf_callers s" "case r of Ret _ \<Rightarrow> Claimed cfg | Fail e \<Rightarrow> Returned (Fail e) | Panic \<Rightarrow> Returned Panic"]
    by (auto simp: calls_work_def split: outcome.splits)
next
  case (cf_enter s i cfg g leads)
  then show ?case using callers_work_update [of i "cf_callers s" "Waiting cfg"]
      flights_work_store [of "certTaskKey cfg" "\<lparr>fl_cfg = cfg, fl_phase = Deciding\<rparr>" "cf_flights s"]
    by (auto simp: calls_work_def enter_flight_def)
next
  case (cf_go s k f E p m st)
  then show ?case using flights_work_update [OF cf_go(2), of "f\<lparr>fl_phase := p\<rparr>"] flight_go_work [OF cf_go(3)]
    by (simp add: calls_work_def)
next
  case (cf_land s k f E r m st)
  then show ?case using flights_work_delete [OF cf_land(2)] callers_work_deliver [of k r "cf_callers s"]
    by (simp add: calls_work_def land_def)
qed (simp add: calls_work_def)

lemma run_work: "cf_run G s0 n s \<Longrightarrow> n + calls_work s \<le> calls_work s0"
  by (induction rule: cf_run.induct) (auto dest: step_work)

lemma init_work: "calls_work (calls_init st g cfgs) = 5 * length cfgs + 1"
  by (induction cfgs) (auto simp: calls_work_def calls_init_def flights_work_def)

text \<open>A flight can act unless it waits for the mutex, and then its holder can.\<close>

lemma flight_moves:
  assumes "\<not> cf_crashed s" and "mload (cf_flights s) k = Some f"
    and "fst (flight_act E f (cf_mutex s) (cf_st s)) \<noteq> Blocked"
  shows "\<exists>s'. cf_step G s s'"
proof -
  obtain out st where o: "flight_act E f (cf_mutex s) (cf_st s) = (out, st)" by force
  show ?thesis
  proof (cases out)
    case (Finish r m)
    with o assms(1,2) show ?thesis by (cases "r = Panic") (blast intro: cf_land cf_crash)+
  next
    case (Go p m)
    with o assms(1,2) show ?thesis by (blast intro: cf_go)
  qed (use o assms(3) in simp)
qed

lemma calls_progress:
  assumes G: "group_lawful G" and inv: "calls_inv G s" and c: "\<not> cf_crashed s"
    and w: "\<nexists>s'. cf_step G s s'" and x: "x \<in> set (cf_callers s)"
  shows "\<exists>r. x = Returned r"
proof (cases x)
  case (Calling cfg)
  with x obtain i where i: "i < length (cf_callers s)" "cf_callers s ! i = Calling cfg" by (auto simp: in_set_conv_nth)
  obtain r st where "claimCertFiles (cc_CertFile cfg) (cc_KeyFile cfg) (cc_CertDomain cfg) (cf_st s) = (r, st)" by force
  with i c w show ?thesis by (cases "managed cfg") (blast intro: cf_direct cf_claim)+
next
  case (Claimed cfg)
  with x obtain i where i: "i < length (cf_callers s)" "cf_callers s ! i = Claimed cfg" by (auto simp: in_set_conv_nth)
  obtain g l where "gr_enter G (cf_group s) (certTaskKey cfg) = (g, l)" by force
  with i c w show ?thesis by (blast intro: cf_enter)
next
  case (Waiting cfg)
  with x inv obtain f where f: "mload (cf_flights s) (certTaskKey cfg) = Some f"
    by (auto simp: calls_inv_def group_ok_def)
  define E where "E = demo_cert_env"
  have "\<exists>s'. cf_step G s s'"
  proof (cases "fst (flight_act E f (cf_mutex s) (cf_st s)) = Blocked")
    case True
    then obtain st where "flight_act E f (cf_mutex s) (cf_st s) = (Blocked, st)" by (metis prod.collapse)
    then have "cf_mutex s" using flight_blocked by blast
    with inv obtain k' f' where h: "mload (cf_flights s) k' = Some f'" "holds_mutex f'"
      by (auto simp: calls_inv_def mutex_ok_def)
    show ?thesis by (rule flight_moves [OF c h(1), of E]) (use h(2) flight_blocked in \<open>metis prod.collapse\<close>)
  next
    case False
    show ?thesis by (rule flight_moves [OF c f, of E]) (use False in auto)
  qed
  with w show ?thesis by blast
qed simp

section \<open>Properties\<close>

text \<open>C11: However the controllers' calls for certificates interleave, at most one of them drives the ACME
  client; a caller that waits for another's flight waits for one with the same mode, domain, files,
  provider and email (names without NUL bytes); and two flights that share a file are for one domain.\<close>

theorem certificate_flights_disciplined:
  assumes "group_lawful G" and "\<forall>k. \<not> gr_has G g k"
    and "cf_run G (calls_init st g cfgs) n s" and "\<not> cf_crashed s"
  shows "(\<forall>k f k' f'. mload (cf_flights s) k = Some f \<and> holds_mutex f \<and>
      mload (cf_flights s) k' = Some f' \<and> holds_mutex f' \<longrightarrow> k = k')
    \<and> (\<forall>cfg. Waiting cfg \<in> set (cf_callers s) \<longrightarrow> (\<exists>f. mload (cf_flights s) (certTaskKey cfg) = Some f \<and>
      (nul_free cfg \<and> nul_free (fl_cfg f) \<longrightarrow> flight_fields (fl_cfg f) = flight_fields cfg)))
    \<and> (\<forall>k f k' f'. mload (cf_flights s) k = Some f \<and> mload (cf_flights s) k' = Some f' \<and>
      {cc_CertFile (fl_cfg f), cc_KeyFile (fl_cfg f)} \<inter> {cc_CertFile (fl_cfg f'), cc_KeyFile (fl_cfg f')} \<noteq> {} \<longrightarrow>
      cc_CertDomain (fl_cfg f) = cc_CertDomain (fl_cfg f'))"
proof -
  from inv_run [OF assms(1,3) inv_init [OF assms(2)]] assms(4)
  have inv: "flights_ok s" "mutex_ok s" "group_ok G s" by (simp_all add: calls_inv_def)
  have "k = k'" if "mload (cf_flights s) k = Some f" "holds_mutex f" "mload (cf_flights s) k' = Some f'" "holds_mutex f'" for k f k' f'
    using inv(2) that unfolding mutex_ok_def by metis
  moreover have "\<exists>f. mload (cf_flights s) (certTaskKey cfg) = Some f \<and>
      (nul_free cfg \<and> nul_free (fl_cfg f) \<longrightarrow> flight_fields (fl_cfg f) = flight_fields cfg)"
    if "Waiting cfg \<in> set (cf_callers s)" for cfg
  proof -
    from that inv(3) obtain f where f: "mload (cf_flights s) (certTaskKey cfg) = Some f" by (auto simp: group_ok_def)
    with inv(1) have "certTaskKey (fl_cfg f) = certTaskKey cfg" by (auto simp: flights_ok_def)
    with f certTaskKey_inj show ?thesis by blast
  qed
  moreover have "cc_CertDomain (fl_cfg f) = cc_CertDomain (fl_cfg f')"
    if "mload (cf_flights s) k = Some f" "mload (cf_flights s) k' = Some f'"
      "{cc_CertFile (fl_cfg f), cc_KeyFile (fl_cfg f)} \<inter> {cc_CertFile (fl_cfg f'), cc_KeyFile (fl_cfg f')} \<noteq> {}" for k f k' f'
  proof -
    have "owns (cf_st s) (fl_cfg f)" "owns (cf_st s) (fl_cfg f')" using inv(1) that(1,2) by (auto simp: flights_ok_def)
    with that(3) show ?thesis by (auto simp: owns_def)
  qed
  ultimately show ?thesis by blast
qed

text \<open>C12: No call for a certificate hangs. Whatever the schedule, the calls of the controllers take at most
  five steps each in all, and when no step is left every caller has its result: the flights that others
  wait for end, and the mutex around the ACME client is given back on every path.\<close>

theorem certificate_calls_return:
  assumes "group_lawful G" and "\<forall>k. \<not> gr_has G g k" and "cf_run G (calls_init st g cfgs) n s"
  shows "n \<le> 5 * length cfgs + 1 \<and>
    (\<not> cf_crashed s \<longrightarrow> (\<nexists>s'. cf_step G s s') \<longrightarrow> (\<forall>c \<in> set (cf_callers s). \<exists>r. c = Returned r))"
proof (intro conjI impI ballI)
  show "n \<le> 5 * length cfgs + 1" using run_work [OF assms(3)] init_work [of st g cfgs] by simp
next
  fix c assume s: "\<not> cf_crashed s" "\<nexists>s'. cf_step G s s'" "c \<in> set (cf_callers s)"
  with inv_run [OF assms(1,3) inv_init [OF assms(2)]] have "calls_inv G s" by simp
  from calls_progress [OF assms(1) this s] show "\<exists>r. c = Returned r" .
qed

section \<open>Schedules that are run\<close>

text \<open>The steps as a function of who moves, to follow a schedule.\<close>

datatype move = MCaller nat | MFlight string

definition cf_exec :: "'g group_ops \<Rightarrow> cert_env \<times> move \<Rightarrow> 'g cert_calls \<Rightarrow> 'g cert_calls option" where
  "cf_exec G em s =
    (let E = fst em
     in if cf_crashed s then None
     else case snd em of
       MCaller i \<Rightarrow>
         if i < length (cf_callers s) then
           (case cf_callers s ! i of
              Calling cfg \<Rightarrow>
                if \<not> managed cfg then Some (s\<lparr>cf_callers := (cf_callers s)
                  [i := Returned (fst (EnsureCertificate E (Some cfg) (lego_user_path cfg) (cf_st s)))]\<rparr>)
                else (case claimCertFiles (cc_CertFile cfg) (cc_KeyFile cfg) (cc_CertDomain cfg) (cf_st s) of
                  (r, st) \<Rightarrow> Some (s\<lparr>cf_st := st, cf_callers := (cf_callers s)
                    [i := (case r of Ret _ \<Rightarrow> Claimed cfg | Fail e \<Rightarrow> Returned (Fail e) | Panic \<Rightarrow> Returned Panic)]\<rparr>))
            | Claimed cfg \<Rightarrow>
                (case gr_enter G (cf_group s) (certTaskKey cfg) of
                   (g, leads) \<Rightarrow> Some (s\<lparr>cf_group := g,
                     cf_flights := enter_flight leads cfg (cf_flights s), cf_callers := (cf_callers s)[i := Waiting cfg]\<rparr>))
            | _ \<Rightarrow> None)
         else None
     | MFlight k \<Rightarrow>
         (case mload (cf_flights s) k of
            None \<Rightarrow> None
          | Some f \<Rightarrow>
              (case flight_act E f (cf_mutex s) (cf_st s) of
                 (Go p m, st) \<Rightarrow> Some (s\<lparr>cf_st := st, cf_mutex := m, cf_flights := mstore (cf_flights s) k (f\<lparr>fl_phase := p\<rparr>)\<rparr>)
               | (Finish r m, st) \<Rightarrow>
                   if r = Panic then Some (s\<lparr>cf_st := st, cf_mutex := m, cf_crashed := True\<rparr>)
                   else Some (land G k r (s\<lparr>cf_st := st, cf_mutex := m\<rparr>))
               | (Blocked, st) \<Rightarrow> None)))"

lemma cf_exec_step: "cf_exec G em s = Some s' \<Longrightarrow> cf_step G s s'"
  unfolding cf_exec_def Let_def
  by (auto split: if_split_asm move.splits caller.splits prod.splits option.splits flight_out.splits
      intro: cf_direct cf_claim cf_go cf_land cf_crash dest: cf_enter)

fun cf_sched :: "'g group_ops \<Rightarrow> (cert_env \<times> move) list \<Rightarrow> 'g cert_calls \<Rightarrow> 'g cert_calls option" where
  "cf_sched G [] s = Some s"
| "cf_sched G (em # ems) s = (case cf_exec G em s of None \<Rightarrow> None | Some s' \<Rightarrow> cf_sched G ems s')"

lemma cf_sched_run: "cf_run G s0 n s \<Longrightarrow> cf_sched G ems s = Some s' \<Longrightarrow> cf_run G s0 (n + length ems) s'"
proof (induction ems arbitrary: n s)
  case (Cons em ems)
  then obtain s1 where "cf_exec G em s = Some s1" "cf_sched G ems s1 = Some s'" by (auto split: option.splits)
  with Cons.IH [OF cf_next [OF Cons.prems(1) cf_exec_step]] show ?case by simp
qed simp

text \<open>A group that keeps its keys in a list.\<close>

definition list_group :: "string list group_ops" where
  "list_group = \<lparr>gr_enter = (\<lambda>g k. if List.member g k then (g, False) else (k # g, True)),
     gr_leave = (\<lambda>g k. removeAll k g), gr_has = (\<lambda>g k. List.member g k)\<rparr>"

lemma list_group_lawful: "group_lawful list_group" "\<not> gr_has list_group [] k"
  by (auto simp: group_lawful_def list_group_def)

text \<open>Two nodes with one self-signed certificate, whose configurations differ in the email only.\<close>

definition pair_env :: "string \<Rightarrow> cert_env" where
  "pair_env n = demo_cert_env\<lparr>ce_selfsign := (\<lambda>d t. Some (''cert'' @ n, ''key'' @ n))\<rparr>"

definition pair_config :: "string \<Rightarrow> CertConfig" where
  "pair_config e = demo_cert_config\<lparr>cc_CertMode := ''self'', cc_Email := e\<rparr>"

definition pair_calls :: "string list cert_calls" where
  "pair_calls = calls_init \<lparr>cs_fs = [], cs_claims = [], cs_env = []\<rparr> [] [pair_config ''a'', pair_config ''b'']"

definition pair_sched :: "(cert_env \<times> move) list" where
  "pair_sched = (let ka = MFlight (certTaskKey (pair_config ''a'')); kb = MFlight (certTaskKey (pair_config ''b''));
     E = pair_env ''1''; F = pair_env ''2''
     in [(E, MCaller 0), (F, MCaller 1), (E, MCaller 0), (F, MCaller 1), (E, ka), (F, kb), (E, ka), (F, kb), (F, kb), (E, ka)])"

lemma pair_sched_result:
  "map_option (\<lambda>s. (cf_callers s, mload (cs_fs (cf_st s)) ''c'', mload (cs_fs (cf_st s)) ''k'', cf_crashed s))
     (cf_sched list_group pair_sched pair_calls) =
   Some ([Returned (Ret ''issue''), Returned (Ret ''issue'')], Some ''cert2'', Some ''key1'', False)"
  by code_simp

lemma pair_sched_waits:
  "map_option (\<lambda>s. (map_option fl_cfg (mload (cf_flights s) (certTaskKey (pair_config ''b''))),
       length (cf_flights s), cf_crashed s, cf_callers s))
     (cf_sched list_group (take 5 pair_sched) pair_calls) =
   Some (Some (pair_config ''b''), 2, False, [Waiting (pair_config ''a''), Waiting (pair_config ''b'')])"
  by code_simp

text \<open>Self-signed pairs are written without the mutex, so the two flights can interleave: both calls
  succeed, and the disk holds the certificate of one with the key of the other.\<close>

lemma self_signed_pairs_mix:
  "\<exists>s. cf_run list_group pair_calls (length pair_sched) s \<and>
     cf_callers s = [Returned (Ret ''issue''), Returned (Ret ''issue'')] \<and>
     mload (cs_fs (cf_st s)) ''c'' = Some ''cert2'' \<and> mload (cs_fs (cf_st s)) ''k'' = Some ''key1''"
  using cf_sched_run [OF cf_start, of list_group pair_sched pair_calls] pair_sched_result by auto

theorem certificate_flights_disciplined_witness:
  "\<exists>s f. cf_run list_group pair_calls 5 s \<and> Waiting (pair_config ''b'') \<in> set (cf_callers s) \<and>
     mload (cf_flights s) (certTaskKey (pair_config ''b'')) = Some f \<and>
     flight_fields (fl_cfg f) = flight_fields (pair_config ''b'')"
proof -
  from pair_sched_waits obtain s where s: "cf_sched list_group (take 5 pair_sched) pair_calls = Some s" "\<not> cf_crashed s"
    "cf_callers s = [Waiting (pair_config ''a''), Waiting (pair_config ''b'')]"
    "map_option fl_cfg (mload (cf_flights s) (certTaskKey (pair_config ''b''))) = Some (pair_config ''b'')" by auto
  have "length (take 5 pair_sched) = 5" by (simp add: pair_sched_def Let_def)
  with cf_sched_run [OF cf_start s(1)] have r: "cf_run list_group pair_calls 5 s" by simp
  have n: "nul_free (pair_config ''b'')" by code_simp
  from certificate_flights_disciplined [OF list_group_lawful(1) _ r [unfolded pair_calls_def] s(2)] list_group_lawful(2) s(3,4) n r
  show ?thesis by auto
qed

theorem certificate_calls_return_witness:
  "\<exists>s. cf_run list_group pair_calls 10 s \<and> 10 \<le> 5 * length [pair_config ''a'', pair_config ''b''] + 1 \<and>
     cf_callers s = [Returned (Ret ''issue''), Returned (Ret ''issue'')]"
proof -
  have l: "length pair_sched = 10" by (simp add: pair_sched_def Let_def)
  with self_signed_pairs_mix obtain s where r: "cf_run list_group pair_calls 10 s"
    and c: "cf_callers s = [Returned (Ret ''issue''), Returned (Ret ''issue'')]" by auto
  have "10 \<le> 5 * length [pair_config ''a'', pair_config ''b''] + 1"
    using certificate_calls_return [OF list_group_lawful(1) _ r [unfolded pair_calls_def]] list_group_lawful(2) by blast
  with r c show ?thesis by blast
qed

text \<open>The claim table looks at the pairing of the certificate file only: two certificates of one domain may
  name one key file, and the second certificate's key replaces the first's.\<close>

lemma shared_key_file_claimed:
  assumes "owner_of st ''a'' = None" and "owner_of st ''b'' = None" and "owner_of st ''k'' = None"
  shows "\<exists>st1 st2. claimCertFiles ''a'' ''k'' d st = (Ret (), st1) \<and> claimCertFiles ''b'' ''k'' d st1 = (Ret (), st2)"
  using assms by (simp add: claimCertFiles_def owner_of_def Let_def)

end
