(* ===== verification/Accounts.thy ===== *)
theory Accounts
  imports CertProps Paths
begin

text \<open>
  The ACME account of \<open>node/lego.go\<close>: the user with its private key, its file, and its registration.
  Marshalling of keys and of the account, PEM blocks and the ACME server are fields of \<open>account_env\<close>;
  a key is its DER text. \<open>CertManager\<close> keeps of an account what the certificates need, its email; the
  last section shows that it does so faithfully.
\<close>

section \<open>Files and directories\<close>

text \<open>\<open>os.Stat\<close>, and \<open>file.IsExist\<close>: an error that does not say the file is missing counts as existing.\<close>

datatype stat = StatOk | StatNotExist | StatError

definition IsExist :: "stat \<Rightarrow> bool" where
  "IsExist r \<longleftrightarrow> r = StatOk \<or> r \<noteq> StatNotExist"

record account_env =
  ae_marshal :: "string \<Rightarrow> string option"
  ae_parse :: "string \<Rightarrow> string option"
  ae_pem :: "string \<Rightarrow> string"
  ae_unpem :: "string \<Rightarrow> string option"
  ae_json :: "string \<times> string option \<times> string \<Rightarrow> string option"
  ae_unjson :: "string \<Rightarrow> (string \<times> string option \<times> string) option"
  ae_dir :: "string \<Rightarrow> stat"
  ae_mkdir :: "string \<Rightarrow> bool"
  ae_stat_error :: "string \<Rightarrow> bool"
  ae_generate :: "string option"
  ae_client :: bool
  ae_register :: "string \<Rightarrow> string option"

definition stat_of :: "account_env \<Rightarrow> string \<Rightarrow> fs \<Rightarrow> stat" where
  "stat_of A p s = (if ae_stat_error A p then StatError else if fileExists p s then StatOk else StatNotExist)"

definition checkPath :: "account_env \<Rightarrow> string \<Rightarrow> unit outcome" where
  "checkPath A p =
    (if \<not> IsExist (ae_dir A (path_Dir p)) then
       if \<not> ae_mkdir A (path_Dir p) then Fail ''create dir error'' else Ret ()
     else Ret ())"

section \<open>The user\<close>

record LegoUser =
  lu_Email :: string
  lu_Registration :: "string option"
  lu_key :: "string option"
  lu_KeyEncoded :: string

definition GetEmail :: "LegoUser \<Rightarrow> string" where "GetEmail u = lu_Email u"
definition GetRegistration :: "LegoUser \<Rightarrow> string option" where "GetRegistration u = lu_Registration u"
definition GetPrivateKey :: "LegoUser \<Rightarrow> string option" where "GetPrivateKey u = lu_key u"

definition EncodePrivate :: "account_env \<Rightarrow> string \<Rightarrow> string outcome" where
  "EncodePrivate A privKey =
    (case ae_marshal A privKey of None \<Rightarrow> Fail ''marshal'' | Some encoded \<Rightarrow> Ret (ae_pem A encoded))"

text \<open>The error of \<open>EncodePrivate\<close> is dropped; a user without a key panics at the type assertion.\<close>

definition User_Save :: "account_env \<Rightarrow> cert_env \<Rightarrow> string \<Rightarrow> LegoUser \<Rightarrow> cert_state \<Rightarrow> LegoUser outcome \<times> cert_state" where
  "User_Save A E p u st =
    (case checkPath A p of
       Ret _ \<Rightarrow>
         (case lu_key u of
            None \<Rightarrow> (Panic, st)
          | Some key \<Rightarrow>
              (let encoded = (case EncodePrivate A key of Ret s \<Rightarrow> s | _ \<Rightarrow> '''')
               in case ae_json A (lu_Email u, lu_Registration u, encoded) of
                 None \<Rightarrow> (Fail ''marshal json error'', st)
               | Some data \<Rightarrow>
                   (case writeFileAtomic E p data st of
                      (Ret _, st1) \<Rightarrow> (Ret (u\<lparr>lu_KeyEncoded := ''''\<rparr>), st1)
                    | (_, st1) \<Rightarrow> (Fail ''write'', st1))))
     | _ \<Rightarrow> (Fail ''check path error'', st))"

definition User_DecodePrivate :: "account_env \<Rightarrow> string \<Rightarrow> string outcome" where
  "User_DecodePrivate A pemEncodedPriv =
    (case ae_unpem A pemEncodedPriv of
       None \<Rightarrow> Panic
     | Some b \<Rightarrow> (case ae_parse A b of None \<Rightarrow> Fail ''decode private key error'' | Some k \<Rightarrow> Ret k))"

definition LegoUser_Load :: "account_env \<Rightarrow> cert_env \<Rightarrow> string \<Rightarrow> fs \<Rightarrow> LegoUser outcome" where
  "LegoUser_Load A E path s =
    (case mload s path of
       None \<Rightarrow> Fail ''open file error''
     | Some data \<Rightarrow>
         if ce_unreadable E path then Fail ''open file error''
         else (case ae_unjson A data of
            None \<Rightarrow> Fail ''unmarshal json error''
          | Some (email, reg, encoded) \<Rightarrow>
              (case User_DecodePrivate A encoded of
                 Ret k \<Rightarrow> Ret \<lparr>lu_Email = email, lu_Registration = reg, lu_key = Some k, lu_KeyEncoded = encoded\<rparr>
               | Fail e \<Rightarrow> Fail e
               | Panic \<Rightarrow> Panic)))"

section \<open>Registration\<close>

definition LegoUser_register ::
  "account_env \<Rightarrow> cert_env \<Rightarrow> LegoUser \<Rightarrow> string \<Rightarrow> cert_state \<Rightarrow> LegoUser outcome \<times> cert_state" where
  "LegoUser_register A E user path st =
    (case ae_generate A of
       None \<Rightarrow> (Fail ''generate key error'', st)
     | Some privateKey \<Rightarrow>
         if \<not> ae_client A then (Fail ''create lego client error'', st)
         else (case ae_register A (lu_Email user) of
            None \<Rightarrow> (Fail ''register'', st)
          | Some reg \<Rightarrow>
              (case User_Save A E path (user\<lparr>lu_key := Some privateKey, lu_Registration := Some reg\<rparr>) st of
                 (Fail e, st1) \<Rightarrow> (Fail ''save user error'', st1)
               | (r, st1) \<Rightarrow> (r, st1))))"

definition LegoUser_New :: "account_env \<Rightarrow> cert_env \<Rightarrow> string \<Rightarrow> string \<Rightarrow> cert_state \<Rightarrow> LegoUser outcome \<times> cert_state" where
  "LegoUser_New A E path email st =
    (if IsExist (stat_of A path (cs_fs st)) then
       (case LegoUser_Load A E path (cs_fs st) of
          Ret user \<Rightarrow>
            if lu_Email user \<noteq> email then
              LegoUser_register A E (user\<lparr>lu_Registration := None, lu_Email := email\<rparr>) path st
            else (Ret user, st)
        | Fail e \<Rightarrow> (Fail e, st)
        | Panic \<Rightarrow> (Panic, st))
     else LegoUser_register A E \<lparr>lu_Email = email, lu_Registration = None, lu_key = None, lu_KeyEncoded = ''''\<rparr> path st)"

section \<open>Properties\<close>

text \<open>What the account relies on: what a marshaller writes, its parser reads back.\<close>

definition codec_lawful :: "account_env \<Rightarrow> bool" where
  "codec_lawful A \<longleftrightarrow>
    (\<forall>k b. ae_marshal A k = Some b \<longrightarrow> ae_parse A b = Some k) \<and>
    (\<forall>b. ae_unpem A (ae_pem A b) = Some b) \<and>
    (\<forall>t d. ae_json A t = Some d \<longrightarrow> ae_unjson A d = Some t)"

lemma Save_then_Load:
  assumes "codec_lawful A" and "User_Save A E p u st = (Ret v, st')" and "not_tmp E p"
    and "\<not> ce_unreadable F p" and k: "lu_key u = Some k" and m: "ae_marshal A k = Some b"
  shows "LegoUser_Load A F p (cs_fs st') = Ret (u\<lparr>lu_KeyEncoded := ae_pem A b\<rparr>) \<and> v = u\<lparr>lu_KeyEncoded := ''''\<rparr>"
proof -
  from assms(2) k m obtain data st1 where d: "ae_json A (lu_Email u, lu_Registration u, ae_pem A b) = Some data"
    and w: "writeFileAtomic E p data st = (Ret (), st')" and v: "v = u\<lparr>lu_KeyEncoded := ''''\<rparr>"
    by (auto simp: User_Save_def EncodePrivate_def Let_def split: outcome.splits option.splits prod.splits)
  have "mload (cs_fs st') p = Some data" using writeFileAtomic_frame [OF w] assms(3) by simp
  with assms(1,4) d m k v show ?thesis
    by (simp add: LegoUser_Load_def User_DecodePrivate_def codec_lawful_def)
qed

text \<open>A key that cannot be marshalled is saved as an empty text, which a later start cannot read.\<close>

lemma unmarshalled_key_panics:
  assumes "User_Save A E p u st = (Ret v, st')" and "not_tmp E p" and "\<not> ce_unreadable F p"
    and "lu_key u = Some k" and "ae_marshal A k = None" and "ae_unpem A '''' = None"
    and j: "\<forall>t d. ae_json A t = Some d \<longrightarrow> ae_unjson A d = Some t"
  shows "LegoUser_Load A F p (cs_fs st') = Panic"
proof -
  from assms(1,4,5) obtain data where d: "ae_json A (lu_Email u, lu_Registration u, '''') = Some data"
    and w: "writeFileAtomic E p data st = (Ret (), st')"
    by (auto simp: User_Save_def EncodePrivate_def Let_def split: outcome.splits option.splits prod.splits)
  have "mload (cs_fs st') p = Some data" using writeFileAtomic_frame [OF w] assms(2) by simp
  with assms(3,6) j d show ?thesis by (simp add: LegoUser_Load_def User_DecodePrivate_def)
qed

lemma New_cases:
  assumes "LegoUser_New A E p email st = (Ret u, st')"
  shows "(LegoUser_Load A E p (cs_fs st) = Ret u \<and> lu_Email u = email \<and> st' = st) \<or>
    (\<exists>v k reg. ae_generate A = Some k \<and> lu_Email v = email \<and>
       User_Save A E p (v\<lparr>lu_key := Some k, lu_Registration := Some reg\<rparr>) st = (Ret u, st'))"
proof (cases "IsExist (stat_of A p (cs_fs st))")
  case True
  with assms obtain w where w: "LegoUser_Load A E p (cs_fs st) = Ret w"
    by (auto simp: LegoUser_New_def split: outcome.splits)
  show ?thesis
  proof (cases "lu_Email w = email")
    case False
    with assms True w have "LegoUser_register A E (w\<lparr>lu_Registration := None, lu_Email := email\<rparr>) p st = (Ret u, st')"
      by (simp add: LegoUser_New_def)
    then show ?thesis
      by (intro disjI2 exI [of _ "w\<lparr>lu_Registration := None, lu_Email := email\<rparr>"])
         (auto simp: LegoUser_register_def split: option.splits if_splits prod.splits outcome.splits)
  qed (use assms True w in \<open>simp add: LegoUser_New_def\<close>)
next
  case False
  with assms show ?thesis
    by (intro disjI2 exI [of _ "\<lparr>lu_Email = email, lu_Registration = None, lu_key = None, lu_KeyEncoded = ''''\<rparr>"])
       (auto simp: LegoUser_New_def LegoUser_register_def split: option.splits if_splits prod.splits outcome.splits)
qed

lemma Load_exists: "LegoUser_Load A E p s = Ret u \<Longrightarrow> IsExist (stat_of B p s)"
  by (auto simp: LegoUser_Load_def stat_of_def IsExist_def fileExists_def split: option.splits)

lemma Load_readable: "LegoUser_Load A E p s = Ret u \<Longrightarrow> \<not> ce_unreadable F p \<Longrightarrow> LegoUser_Load A F p s = Ret u"
  by (auto simp: LegoUser_Load_def split: option.splits if_splits)

lemma Load_env: "LegoUser_Load (A\<lparr>ae_generate := g, ae_client := c, ae_register := r\<rparr>) E p s = LegoUser_Load A E p s"
  by (auto simp: LegoUser_Load_def User_DecodePrivate_def split: option.splits)

text \<open>C13: An account is registered once. After a call of \<open>NewLegoUser\<close> that succeeded, every later call for
  the same email reads the account back, with the registration and the private key of the first, asks
  the ACME server for nothing and writes nothing, whatever key or registration it could have got.\<close>

theorem account_registered_once:
  assumes codec: "codec_lawful A" and keys: "\<forall>k. ae_generate A = Some k \<longrightarrow> ae_marshal A k \<noteq> None"
    and new: "LegoUser_New A E p email st = (Ret u, st')" and "not_tmp E p" and "\<not> ce_unreadable F p"
  shows "\<exists>u'. LegoUser_New (A\<lparr>ae_generate := g, ae_client := c, ae_register := r\<rparr>) F p email st' = (Ret u', st') \<and>
    lu_Email u' = email \<and> lu_Registration u' = lu_Registration u \<and> lu_key u' = lu_key u"
proof -
  have "\<exists>u'. LegoUser_Load A F p (cs_fs st') = Ret u' \<and>
      lu_Email u' = email \<and> lu_Registration u' = lu_Registration u \<and> lu_key u' = lu_key u"
    using New_cases [OF new]
  proof (elim disjE exE conjE)
    assume "LegoUser_Load A E p (cs_fs st) = Ret u" "lu_Email u = email" "st' = st"
    with Load_readable [OF _ assms(5)] show ?thesis by blast
  next
    fix v k reg
    assume k: "ae_generate A = Some k" "lu_Email v = email"
      and s: "User_Save A E p (v\<lparr>lu_key := Some k, lu_Registration := Some reg\<rparr>) st = (Ret u, st')"
    from keys k(1) obtain b where "ae_marshal A k = Some b" by auto
    from Save_then_Load [OF codec s assms(4,5) _ this] k(2) show ?thesis by simp
  qed
  then obtain u' where u': "LegoUser_Load A F p (cs_fs st') = Ret u'"
    "lu_Email u' = email" "lu_Registration u' = lu_Registration u" "lu_key u' = lu_key u" by blast
  from Load_exists [OF u'(1)] u'(2-4) show ?thesis by (simp add: LegoUser_New_def Load_env u'(1))
qed

definition demo_account :: account_env where
  "demo_account = \<lparr>ae_marshal = (\<lambda>k. Some k), ae_parse = (\<lambda>b. Some b), ae_pem = (\<lambda>b. CHR ''P'' # b),
     ae_unpem = (\<lambda>s. case s of [] \<Rightarrow> None | c # b \<Rightarrow> if c = CHR ''P'' then Some b else None),
     ae_json = (\<lambda>(e, r, k). if r = Some ''reg'' \<and> e = ''a@b'' then Some (CHR ''J'' # k) else None),
     ae_unjson = (\<lambda>d. case d of [] \<Rightarrow> None | c # k \<Rightarrow> if c = CHR ''J'' then Some (''a@b'', Some ''reg'', k) else None),
     ae_dir = (\<lambda>_. StatNotExist), ae_mkdir = (\<lambda>_. True), ae_stat_error = (\<lambda>_. False),
     ae_generate = Some ''key'', ae_client = True, ae_register = (\<lambda>_. Some ''reg'')\<rparr>"

theorem account_registered_once_witness:
  "\<exists>st'. LegoUser_New demo_account demo_cert_env ''u'' ''a@b'' \<lparr>cs_fs = [], cs_claims = [], cs_env = []\<rparr> =
      (Ret \<lparr>lu_Email = ''a@b'', lu_Registration = Some ''reg'', lu_key = Some ''key'', lu_KeyEncoded = ''''\<rparr>, st') \<and>
    (\<exists>u'. LegoUser_New (demo_account\<lparr>ae_generate := None, ae_client := False, ae_register := (\<lambda>_. None)\<rparr>) demo_cert_env ''u'' ''a@b'' st' = (Ret u', st') \<and>
       lu_key u' = Some ''key'')"
proof -
  have c: "codec_lawful demo_account" by (auto simp: codec_lawful_def demo_account_def)
  have k: "\<forall>k. ae_generate demo_account = Some k \<longrightarrow> ae_marshal demo_account k \<noteq> None" by (simp add: demo_account_def)
  have t: "not_tmp demo_cert_env ''u''" "\<not> ce_unreadable demo_cert_env ''u''"
    by (auto simp: not_tmp_def demo_cert_env_def)
  have "fst (LegoUser_New demo_account demo_cert_env ''u'' ''a@b'' \<lparr>cs_fs = [], cs_claims = [], cs_env = []\<rparr>) =
      Ret \<lparr>lu_Email = ''a@b'', lu_Registration = Some ''reg'', lu_key = Some ''key'', lu_KeyEncoded = ''''\<rparr>" by code_simp
  then obtain st' where n: "LegoUser_New demo_account demo_cert_env ''u'' ''a@b'' \<lparr>cs_fs = [], cs_claims = [], cs_env = []\<rparr> =
      (Ret \<lparr>lu_Email = ''a@b'', lu_Registration = Some ''reg'', lu_key = Some ''key'', lu_KeyEncoded = ''''\<rparr>, st')"
    by (metis prod.collapse)
  from account_registered_once [OF c k n t, where g = None and c = False and r = "\<lambda>_. None"] n show ?thesis by auto
qed

section \<open>What the certificate manager keeps of it\<close>

definition kind :: "'a outcome \<Rightarrow> unit outcome" where
  "kind r = (case r of Ret _ \<Rightarrow> Ret () | Fail _ \<Rightarrow> Fail '''' | Panic \<Rightarrow> Panic)"

text \<open>The text that a registration writes.\<close>

definition register_data :: "account_env \<Rightarrow> string \<Rightarrow> string \<Rightarrow> string option" where
  "register_data A p email =
    (case ae_generate A of
       None \<Rightarrow> None
     | Some k \<Rightarrow>
         if \<not> ae_client A then None
         else (case ae_register A email of
            None \<Rightarrow> None
          | Some reg \<Rightarrow>
              if checkPath A p \<noteq> Ret () then None
              else ae_json A (email, Some reg, (case EncodePrivate A k of Ret s \<Rightarrow> s | _ \<Rightarrow> ''''))))"

definition account_view :: "account_env \<Rightarrow> string \<Rightarrow> cert_env \<Rightarrow> cert_env" where
  "account_view A p E = E\<lparr>ce_user_json := (\<lambda>d. map_option (\<lambda>(e, r, k). (e, k)) (ae_unjson A d)),
     ce_pem := ae_unpem A, ce_ec_key := (\<lambda>b. ae_parse A b \<noteq> None), ce_register := register_data A p\<rparr>"

lemma write_view: "writeFileAtomic (account_view A p E) = writeFileAtomic E"
  by (simp add: account_view_def writeFileAtomic_def fun_eq_iff)

lemma register_account_view: "ce_register (account_view A p E) = register_data A p"
  by (simp add: account_view_def)

lemma Load_view:
  "(case LegoUser_Load A E p s of Ret u \<Rightarrow> Ret (lu_Email u) | Fail e \<Rightarrow> Fail e | Panic \<Rightarrow> Panic) = User_Load (account_view A p E) p s"
  by (auto simp: LegoUser_Load_def User_Load_def DecodePrivate_def User_DecodePrivate_def account_view_def
      split: option.splits)

lemma register_view:
  "(case LegoUser_register A E u p st of (r, st') \<Rightarrow> (kind r, st')) =
   (case registerUser (account_view A p E) (lu_Email u) p st of (r, st') \<Rightarrow> (kind r, st'))"
proof -
  have "writeFileAtomic E q d st = (r, st') \<Longrightarrow> r \<noteq> Panic" for q d r st'
    by (auto simp: writeFileAtomic_def Let_def split: if_splits)
  then show ?thesis
    by (auto simp: LegoUser_register_def registerUser_def User_Save_def write_view register_data_def checkPath_def
        register_account_view kind_def Let_def split: option.splits outcome.splits prod.splits)
qed

text \<open>The account as the certificate manager sees it succeeds, fails and panics with the full one, and leaves
  the same files.\<close>

lemma New_view:
  assumes "\<not> ae_stat_error A p"
  shows "(case LegoUser_New A E p email st of (r, st') \<Rightarrow> (kind r, st')) =
    (case NewLegoUser (account_view A p E) p email st of (r, st') \<Rightarrow> (kind r, st'))"
proof (cases "fileExists p (cs_fs st)")
  case True
  show ?thesis
  proof (cases "LegoUser_Load A E p (cs_fs st)")
    case (Ret u)
    with True assms register_view [of A E "u\<lparr>lu_Registration := None, lu_Email := email\<rparr>" p st] show ?thesis
      by (simp add: LegoUser_New_def NewLegoUser_def stat_of_def IsExist_def Load_view [symmetric] kind_def)
  qed (use True assms in \<open>simp_all add: LegoUser_New_def NewLegoUser_def stat_of_def IsExist_def Load_view [symmetric] kind_def\<close>)
next
  case False
  with assms show ?thesis
    by (auto simp: LegoUser_New_def NewLegoUser_def stat_of_def IsExist_def register_view)
qed

end
