(* ===== verification/Crypt.thy ===== *)
theory Crypt
  imports PanelTypes
begin

text \<open>
  \<open>common/crypt/\<close> and the command \<open>x25519\<close> (\<open>cmd/x25519.go\<close>, \<open>cmd/common.go\<close>): base 64 as the standard
  library has it, the AES wrapper, the clamped private key derived from a node's data, and what the
  command prints. SHA-256, the block cipher and the curve are parameters. A byte is an 8-bit word.
\<close>

unbundle bit_operations_syntax

type_synonym byte = "8 word"

section \<open>Base 64\<close>

definition b64_alphabet :: "bool \<Rightarrow> string" where
  "b64_alphabet url = ''ABCDEFGHIJKLMNOPQRSTUVWXYZabcdefghijklmnopqrstuvwxyz0123456789'' @ (if url then ''-_'' else ''+/'')"

definition b64_char :: "bool \<Rightarrow> nat \<Rightarrow> char" where
  "b64_char url n = b64_alphabet url ! n"

fun index_of :: "nat \<Rightarrow> char \<Rightarrow> string \<Rightarrow> nat option" where
  "index_of i c [] = None"
| "index_of i c (x # xs) = (if x = c then Some i else index_of (Suc i) c xs)"

definition b64_val :: "bool \<Rightarrow> char \<Rightarrow> nat option" where
  "b64_val url c = index_of 0 c (b64_alphabet url)"

text \<open>\<open>EncodeToString\<close> of an encoding with the URL alphabet or the standard one, padded or not.\<close>

fun b64_encode :: "bool \<Rightarrow> bool \<Rightarrow> byte list \<Rightarrow> string" where
  "b64_encode url pad [] = []"
| "b64_encode url pad [a] =
     (let x = unat a
      in [b64_char url (x div 4), b64_char url (x mod 4 * 16)] @ (if pad then ''=='' else ''''))"
| "b64_encode url pad [a, b] =
     (let x = unat a; y = unat b
      in [b64_char url (x div 4), b64_char url (x mod 4 * 16 + y div 16), b64_char url (y mod 16 * 4)]
         @ (if pad then ''='' else ''''))"
| "b64_encode url pad (a # b # c # rest) =
     (let x = unat a; y = unat b; z = unat c
      in [b64_char url (x div 4), b64_char url (x mod 4 * 16 + y div 16), b64_char url (y mod 16 * 4 + z div 64),
          b64_char url (z mod 64)] @ b64_encode url pad rest)"

definition b64_byte1 :: "nat \<Rightarrow> nat \<Rightarrow> byte" where "b64_byte1 p q = of_nat (p * 4 + q div 16)"
definition b64_byte2 :: "nat \<Rightarrow> nat \<Rightarrow> byte" where "b64_byte2 q r = of_nat (q mod 16 * 16 + r div 4)"
definition b64_byte3 :: "nat \<Rightarrow> nat \<Rightarrow> byte" where "b64_byte3 r s = of_nat (r mod 4 * 64 + s)"

text \<open>\<open>DecodeString\<close> after its line breaks are dropped, in groups of four characters.\<close>

fun b64_groups :: "bool \<Rightarrow> bool \<Rightarrow> string \<Rightarrow> byte list option" where
  "b64_groups url pad [] = Some []"
| "b64_groups url pad [a, b] =
     (if pad then None
      else (case (b64_val url a, b64_val url b) of
         (Some p, Some q) \<Rightarrow> Some [b64_byte1 p q] | _ \<Rightarrow> None))"
| "b64_groups url pad [a, b, c] =
     (if pad then None
      else (case (b64_val url a, b64_val url b, b64_val url c) of
         (Some p, Some q, Some r) \<Rightarrow> Some [b64_byte1 p q, b64_byte2 q r] | _ \<Rightarrow> None))"
| "b64_groups url pad (a # b # c # d # rest) =
     (case (b64_val url a, b64_val url b) of
        (Some p, Some q) \<Rightarrow>
          (if pad \<and> c = CHR ''='' \<and> d = CHR ''='' \<and> rest = [] then Some [b64_byte1 p q]
           else (case b64_val url c of
              None \<Rightarrow> None
            | Some r \<Rightarrow>
                if pad \<and> d = CHR ''='' \<and> rest = [] then Some [b64_byte1 p q, b64_byte2 q r]
                else (case (b64_val url d, b64_groups url pad rest) of
                   (Some s, Some bs) \<Rightarrow> Some (b64_byte1 p q # b64_byte2 q r # b64_byte3 r s # bs)
                 | _ \<Rightarrow> None)))
      | _ \<Rightarrow> None)"
| "b64_groups url pad _ = None"

definition b64_decode :: "bool \<Rightarrow> bool \<Rightarrow> string \<Rightarrow> byte list option" where
  "b64_decode url pad s = b64_groups url pad (filter (\<lambda>c. c \<noteq> CHR 0x0A \<and> c \<noteq> CHR 0x0D) s)"

lemma b64_val_char: "n < 64 \<Longrightarrow> b64_val url (b64_char url n) = Some n \<and>
  b64_char url n \<notin> {CHR ''='', CHR 0x0A, CHR 0x0D}"
proof -
  have "\<forall>url \<in> {True, False}. \<forall>n \<in> set [0..<64]. b64_val url (b64_char url n) = Some n \<and>
    b64_char url n \<notin> {CHR ''='', CHR 0x0A, CHR 0x0D}" by code_simp
  moreover assume "n < 64"
  ultimately show ?thesis by (cases url) auto
qed

lemma unat_byte: "unat (a :: byte) < 256"
  using unsigned_less [of a] by simp

lemma split_digit: "v < k \<Longrightarrow> (u * k + v) div k = u \<and> (u * k + v) mod k = (v :: nat)"
  by simp

lemma b64_bytes:
  fixes a b c :: byte
  defines "x \<equiv> unat a" and "y \<equiv> unat b" and "z \<equiv> unat c"
  shows "b64_byte1 (x div 4) (x mod 4 * 16) = a" "b64_byte1 (x div 4) (x mod 4 * 16 + y div 16) = a"
    "b64_byte2 (x mod 4 * 16 + y div 16) (y mod 16 * 4) = b"
    "b64_byte2 (x mod 4 * 16 + y div 16) (y mod 16 * 4 + z div 64) = b"
    "b64_byte3 (y mod 16 * 4 + z div 64) (z mod 64) = c"
    "x div 4 < 64" "x mod 4 * 16 < 64" "x mod 4 * 16 + y div 16 < 64" "y mod 16 * 4 < 64"
    "y mod 16 * 4 + z div 64 < 64" "z mod 64 < 64"
proof -
  have l: "x < 256" "y < 256" "z < 256" by (simp_all add: x_def y_def z_def unat_byte)
  then show "x div 4 < 64" "x mod 4 * 16 < 64" "x mod 4 * 16 + y div 16 < 64" "y mod 16 * 4 < 64"
    "y mod 16 * 4 + z div 64 < 64" "z mod 64 < 64" by linarith+
  have "x div 4 * 4 + x mod 4 * 16 div 16 = x" "x div 4 * 4 + (x mod 4 * 16 + y div 16) div 16 = x"
    "(x mod 4 * 16 + y div 16) mod 16 * 16 + y mod 16 * 4 div 4 = y"
    "(x mod 4 * 16 + y div 16) mod 16 * 16 + (y mod 16 * 4 + z div 64) div 4 = y"
    "(y mod 16 * 4 + z div 64) mod 4 * 64 + z mod 64 = z"
    using l split_digit [of "y div 16" 16 "x mod 4"] split_digit [of "z div 64" 4 "y mod 16"] by simp_all
  then show "b64_byte1 (x div 4) (x mod 4 * 16) = a" "b64_byte1 (x div 4) (x mod 4 * 16 + y div 16) = a"
    "b64_byte2 (x mod 4 * 16 + y div 16) (y mod 16 * 4) = b"
    "b64_byte2 (x mod 4 * 16 + y div 16) (y mod 16 * 4 + z div 64) = b"
    "b64_byte3 (y mod 16 * 4 + z div 64) (z mod 64) = c"
    by (simp_all only: b64_byte1_def b64_byte2_def b64_byte3_def) (simp_all add: x_def y_def z_def)
qed

lemma b64_encode_plain: "c \<in> set (b64_encode url pad bs) \<Longrightarrow> c \<noteq> CHR 0x0A \<and> c \<noteq> CHR 0x0D"
proof (induction url pad bs rule: b64_encode.induct)
  case (2 url pad a)
  then show ?case using b64_val_char by (auto simp: Let_def b64_bytes split: if_splits)
next
  case (3 url pad a b)
  then show ?case using b64_val_char by (auto simp: Let_def b64_bytes split: if_splits)
next
  case (4 url pad a b c rest)
  then show ?case using b64_val_char by (auto simp: Let_def b64_bytes)
qed simp

lemma b64_groups_encode: "b64_groups url pad (b64_encode url pad bs) = Some bs"
proof (induction url pad bs rule: b64_encode.induct)
  case (2 url pad a)
  then show ?case using b64_val_char by (simp add: Let_def b64_val_char b64_bytes)
next
  case (3 url pad a b)
  then show ?case using b64_val_char by (simp add: Let_def b64_val_char b64_bytes)
next
  case (4 url pad a b c rest)
  then show ?case using b64_val_char by (simp add: Let_def b64_val_char b64_bytes)
qed simp

lemma b64_roundtrip [simp]: "b64_decode url pad (b64_encode url pad bs) = Some bs"
proof -
  have "filter (\<lambda>c. c \<noteq> CHR 0x0A \<and> c \<noteq> CHR 0x0D) (b64_encode url pad bs) = b64_encode url pad bs"
    using b64_encode_plain by (intro filter_True) blast
  then show ?thesis by (simp add: b64_decode_def b64_groups_encode)
qed

lemma length_b64_padded: "length (b64_encode url True bs) = 4 * ((length bs + 2) div 3)"
  by (induction url True bs rule: b64_encode.induct) (simp_all add: Let_def, presburger)

section \<open>AES\<close>

text \<open>The block cipher of a key: encryption and decryption of one block of 16 bytes; none for a key of a
  wrong length. Both methods read one block of the source, write one block of the destination, and
  panic when either is shorter.\<close>

type_synonym block_cipher = "byte list \<Rightarrow> ((byte list \<Rightarrow> byte list) \<times> (byte list \<Rightarrow> byte list)) option"

definition aes_block :: "(byte list \<Rightarrow> byte list) \<Rightarrow> byte list \<Rightarrow> byte list \<Rightarrow> byte list outcome" where
  "aes_block f dst src = (if length src < 16 \<or> length dst < 16 then Panic else Ret (f (take 16 src) @ drop 16 dst))"

definition AesEncrypt :: "block_cipher \<Rightarrow> byte list \<Rightarrow> byte list \<Rightarrow> string outcome" where
  "AesEncrypt C data key =
    (case C key of
       None \<Rightarrow> Fail ''invalid key size''
     | Some (encrypt, decrypt) \<Rightarrow>
         (let en = replicate (length data) 0
          in case aes_block encrypt en data of
            Ret en \<Rightarrow> Ret (b64_encode False True en) | Fail e \<Rightarrow> Fail e | Panic \<Rightarrow> Panic))"

definition AesDecrypt :: "block_cipher \<Rightarrow> string \<Rightarrow> byte list \<Rightarrow> byte list outcome" where
  "AesDecrypt C data key =
    (case b64_decode False True data of
       None \<Rightarrow> Fail ''illegal base64 data''
     | Some d \<Rightarrow>
         (case C key of
            None \<Rightarrow> Fail ''invalid key size''
          | Some (encrypt, decrypt) \<Rightarrow>
              (let de = replicate (length data) 0 in aes_block decrypt de d)))"

definition cipher_lawful :: "block_cipher \<Rightarrow> bool" where
  "cipher_lawful C \<longleftrightarrow> (\<forall>key en de b. C key = Some (en, de) \<longrightarrow> length b = 16 \<longrightarrow> length (en b) = 16 \<and> de (en b) = b)"

text \<open>The AES wrapper does not give a text back. Of a text of at least one block it encrypts the first
  block only and leaves zeros for the rest, and its decryption is as long as the base 64 text: what comes
  back is the first block and zeros, longer than the text, and a text shorter than a block panics.\<close>

lemma aes_keeps_one_block:
  assumes "cipher_lawful C" and "C key = Some (en, de)"
  shows "(16 \<le> length data \<longrightarrow> (\<exists>t d. AesEncrypt C data key = Ret t \<and> AesDecrypt C t key = Ret d \<and>
      d = take 16 data @ replicate (4 * ((length data + 2) div 3) - 16) 0 \<and> length data < length d))
    \<and> (length data < 16 \<longrightarrow> AesEncrypt C data key = Panic)"
proof (intro conjI impI)
  assume l: "16 \<le> length data"
  let ?e = "en (take 16 data) @ replicate (length data - 16) 0"
  have b: "length (en (take 16 data)) = 16" "de (en (take 16 data)) = take 16 data"
    using assms l unfolding cipher_lawful_def by (metis length_take min.absorb2)+
  have e: "AesEncrypt C data key = Ret (b64_encode False True ?e)"
    using assms(2) l by (simp add: AesEncrypt_def aes_block_def)
  have len: "length (b64_encode False True ?e) = 4 * ((length data + 2) div 3)"
    using b l by (simp add: length_b64_padded)
  have "AesDecrypt C (b64_encode False True ?e) key = Ret (take 16 data @ replicate (4 * ((length data + 2) div 3) - 16) 0)"
    using assms(2) b l len by (simp add: AesDecrypt_def aes_block_def)
  with e l show "\<exists>t d. AesEncrypt C data key = Ret t \<and> AesDecrypt C t key = Ret d \<and>
      d = take 16 data @ replicate (4 * ((length data + 2) div 3) - 16) 0 \<and> length data < length d"
    by (auto simp: min_def)
next
  assume "length data < 16"
  with assms(2) show "AesEncrypt C data key = Panic" by (simp add: AesEncrypt_def aes_block_def)
qed

text \<open>A cipher that adds its key's first byte to every byte.\<close>

definition demo_cipher :: block_cipher where
  "demo_cipher key = (if length key = 16 then Some (map (\<lambda>x. x + hd key), map (\<lambda>x. x - hd key)) else None)"

lemma aes_keeps_one_block_example:
  "\<exists>t d. AesEncrypt demo_cipher (replicate 17 7) (replicate 16 1) = Ret t \<and>
     AesDecrypt demo_cipher t (replicate 16 1) = Ret d \<and> d = replicate 16 7 @ replicate 8 0"
proof -
  have c: "cipher_lawful demo_cipher" by (auto simp: cipher_lawful_def demo_cipher_def comp_def split: if_splits)
  have k: "demo_cipher (replicate 16 1) = Some (map (\<lambda>x. x + 1), map (\<lambda>x. x - 1))" by (simp add: demo_cipher_def)
  from aes_keeps_one_block [OF c k, of "replicate 17 7"] show ?thesis by auto
qed

section \<open>The x25519 command\<close>

definition GenX25519Private :: "(byte list \<Rightarrow> byte list) \<Rightarrow> byte list \<Rightarrow> byte list" where
  "GenX25519Private sha256 data =
    (let key = sha256 data;
         key = key[0 := key ! 0 AND 248];
         key = key[31 := key ! 31 AND 127];
         key = key[31 := key ! 31 OR 64]
     in take 32 key)"

text \<open>\<open>fmt.Scan\<close> of one string: at the end of the input the variable keeps its value.\<close>

definition scan :: "string \<Rightarrow> string list \<Rightarrow> string \<times> string list" where
  "scan old inp = (case inp of [] \<Rightarrow> (old, []) | w # ws \<Rightarrow> (w, ws))"

definition red :: string where "red = CHR 0x1B # ''[0;31m''"
definition green :: string where "green = CHR 0x1B # ''[0;32m''"
definition yellow :: string where "yellow = CHR 0x1B # ''[0;33m''"
definition plain :: string where "plain = CHR 0x1B # ''[0m''"

definition Err :: "string list \<Rightarrow> string" where "Err msg = red @ concat msg @ plain"
definition Ok :: "string list \<Rightarrow> string" where "Ok msg = green @ concat msg @ plain"
definition Warn :: "string list \<Rightarrow> string" where "Warn msg = yellow @ concat msg @ plain"

text \<open>What the command reads of the world: the words typed, random bytes or the error of reading them, and the
  curve, which may refuse a scalar. The text it prints last is the result.\<close>

record x25519_env =
  xe_sha256 :: "byte list \<Rightarrow> byte list"
  xe_random :: "byte list + string"
  xe_base :: "byte list \<Rightarrow> byte list + string"

definition string_bytes :: "string \<Rightarrow> byte list" where
  "string_bytes s = map (\<lambda>c. of_nat (of_char c)) s"

definition typed_key :: "string list \<Rightarrow> string" where
  "typed_key inp =
    (case scan '''' inp of (nid, inp1) \<Rightarrow>
       (case scan nid inp1 of (ntype, inp2) \<Rightarrow>
          (case scan ntype inp2 of (token, _) \<Rightarrow> nid @ ToLower ntype @ token)))"

definition executeX25519 :: "x25519_env \<Rightarrow> string list \<Rightarrow> string" where
  "executeX25519 X inp =
    (case scan '''' inp of (yes, inp1) \<Rightarrow>
       (case (if ToLower yes = ''y'' then Inl (GenX25519Private (xe_sha256 X) (string_bytes (typed_key inp1)))
              else xe_random X) of
          Inr e \<Rightarrow> Err [''read rand error: '', e]
        | Inl privateKey \<Rightarrow>
            (case xe_base X privateKey of
               Inr e \<Rightarrow> Err [''gen X25519 error: '', e]
             | Inl publicKey \<Rightarrow>
                 ''Private key: '' @ b64_encode True False privateKey @ CHR 0x0A # ''Public key: '' @
                 b64_encode True False publicKey)))"

text \<open>A scalar as the curve wants it: a multiple of 8 below the top bit, with the bit below that set.\<close>

definition clamped :: "byte list \<Rightarrow> bool" where
  "clamped k \<longleftrightarrow> length k = 32 \<and> k ! 0 AND 7 = 0 \<and> k ! 31 AND 192 = 64"

lemma ToLower_idem [simp]: "ToLower (ToLower s) = ToLower s"
proof -
  have "to_lower_char (to_lower_char c) = to_lower_char c" for c
    by (auto simp: to_lower_char_def Let_def)
  then show ?thesis by (simp add: ToLower_def comp_def)
qed

lemma clamp_low: "(x AND 248) AND 7 = (0 :: byte)"
  by (simp add: and.assoc)

lemma clamp_high: "(x AND 127 OR 64) AND 192 = (64 :: byte)"
  by (simp add: bit.conj_disj_distrib2 and.assoc)

lemma GenX25519Private_clamped:
  assumes "length (sha256 d) = 32"
  shows "clamped (GenX25519Private sha256 d) \<and> (\<forall>i. 0 < i \<and> i < 31 \<longrightarrow> GenX25519Private sha256 d ! i = sha256 d ! i)"
  using assms by (simp add: clamped_def GenX25519Private_def Let_def clamp_low clamp_high)

text \<open>The keys that are printed can be used. When the command answers for a node, the private key is a
  clamped scalar that depends on the typed id, the type in any case, and the token only, and the two
  texts it prints decode, in URL base 64, to that key and to its public key.\<close>

lemma x25519_prints_usable_keys:
  assumes "length (xe_sha256 X (string_bytes (nid @ ToLower ntype @ token))) = 32"
    and "ToLower yes = ''y''"
    and "xe_base X (GenX25519Private (xe_sha256 X) (string_bytes (nid @ ToLower ntype @ token))) = Inl pub"
  shows "\<exists>priv p q. executeX25519 X (yes # nid # ntype # token # rest) =
      ''Private key: '' @ p @ CHR 0x0A # ''Public key: '' @ q \<and>
    b64_decode True False p = Some priv \<and> b64_decode True False q = Some pub \<and> clamped priv \<and> xe_base X priv = Inl pub \<and>
    executeX25519 X [yes, nid, ToLower ntype, token] = executeX25519 X (yes # nid # ntype # token # rest)"
proof -
  let ?priv = "GenX25519Private (xe_sha256 X) (string_bytes (nid @ ToLower ntype @ token))"
  have t: "typed_key (nid # ntype # token # rest) = nid @ ToLower ntype @ token"
    "typed_key [nid, ToLower ntype, token] = nid @ ToLower ntype @ token"
    by (simp_all add: typed_key_def scan_def)
  have "executeX25519 X (yes # nid # ntype # token # rest) = ''Private key: '' @ b64_encode True False ?priv @
      CHR 0x0A # ''Public key: '' @ b64_encode True False pub"
    and "executeX25519 X [yes, nid, ToLower ntype, token] = ''Private key: '' @ b64_encode True False ?priv @
      CHR 0x0A # ''Public key: '' @ b64_encode True False pub"
    using assms(2,3) by (simp_all add: executeX25519_def scan_def t)
  with assms(3) GenX25519Private_clamped [of "xe_sha256 X", OF assms(1)] show ?thesis by (intro exI [of _ ?priv] exI [of _ "b64_encode True False ?priv"] exI [of _ "b64_encode True False pub"]) simp
qed

definition demo_x25519 :: x25519_env where
  "demo_x25519 = \<lparr>xe_sha256 = (\<lambda>d. replicate 32 255), xe_random = Inr ''no entropy'', xe_base = (\<lambda>k. Inl (map (\<lambda>x. x + 1) k))\<rparr>"

lemma x25519_prints_usable_keys_example:
  "\<exists>priv p q. executeX25519 demo_x25519 [''Y'', ''1'', ''VLESS'', ''t''] =
      ''Private key: '' @ p @ CHR 0x0A # ''Public key: '' @ q \<and>
    b64_decode True False p = Some priv \<and> clamped priv"
proof -
  have "length (xe_sha256 demo_x25519 d) = 32" for d by (simp add: demo_x25519_def)
  moreover have "ToLower ''Y'' = ''y''" by code_simp
  moreover have "\<exists>pub. xe_base demo_x25519 k = Inl pub" for k by (simp add: demo_x25519_def)
  then obtain pub where "xe_base demo_x25519 (GenX25519Private (xe_sha256 demo_x25519)
      (string_bytes (''1'' @ ToLower ''VLESS'' @ ''t''))) = Inl pub" by blast
  ultimately show ?thesis
    using x25519_prints_usable_keys [of demo_x25519 "''1''" "''VLESS''" "''t''" "''Y''" pub "[]"] by blast
qed

end
