(* ===== verification/Commands.thy ===== *)
theory Commands
  imports Crypt
begin

text \<open>
  The commands an operator types (\<open>cmd/action_linux.go\<close>, \<open>cmd/common.go\<close>, \<open>cmd/synctime.go\<close>), with the
  shell they run (\<open>common/exec/exec.go\<close>) and the system clock (\<open>common/systime/\<close>). The operating system
  is a parameter with a state of its own; what a command prints is the list of its messages, each in
  the colour of \<open>Err\<close> or \<open>Ok\<close>.
\<close>

section \<open>The shell\<close>

datatype exec_error = ErrNotFound | ErrOther string

record 'w os =
  os_exec :: "string \<Rightarrow> string \<Rightarrow> 'w \<Rightarrow> (string \<times> exec_error option) \<times> 'w"
  os_sleep :: "int \<Rightarrow> 'w \<Rightarrow> 'w"
  os_ntp :: "string \<Rightarrow> 'w \<Rightarrow> int outcome \<times> 'w"
  os_settime :: "int \<Rightarrow> 'w \<Rightarrow> unit outcome \<times> 'w"

definition RunCommandByShell :: "'w os \<Rightarrow> string \<Rightarrow> 'w \<Rightarrow> (string \<times> exec_error option) \<times> 'w" where
  "RunCommandByShell S cmd w =
    (case os_exec S ''bash'' cmd w of
       ((out, err), w1) \<Rightarrow> if err = Some ErrNotFound then os_exec S ''sh'' cmd w1 else ((out, err), w1))"

fun Contains :: "string \<Rightarrow> string \<Rightarrow> bool" where
  "Contains [] sub \<longleftrightarrow> sub = []"
| "Contains (c # cs) sub \<longleftrightarrow> HasPrefix (c # cs) sub \<or> Contains cs sub"

lemma Contains_iff: "Contains s sub \<longleftrightarrow> (\<exists>a b. s = a @ sub @ b)"
proof (induction s)
  case (Cons c s)
  have "HasPrefix (c # s) sub \<longleftrightarrow> (\<exists>b. c # s = sub @ b)"
    by (metis HasPrefix_def append_eq_conv_conj append_take_drop_id)
  moreover have "(\<exists>a b. c # s = a @ sub @ b) \<longleftrightarrow> (\<exists>b. c # s = sub @ b) \<or> (\<exists>a b. s = a @ sub @ b)" (is "?l \<longleftrightarrow> ?r")
  proof
    assume ?l
    then obtain a b where ab: "c # s = a @ sub @ b" by blast
    show ?r
    proof (cases a)
      case Nil
      with ab show ?thesis by auto
    next
      case (Cons x xs)
      with ab show ?thesis by auto
    qed
  next
    assume ?r
    then show ?l
    proof (elim disjE exE)
      fix b assume "c # s = sub @ b"
      then show ?l by (intro exI [of _ "[]"] exI [of _ b]) simp
    next
      fix a b assume "s = a @ sub @ b"
      then show ?l by (intro exI [of _ "c # a"] exI [of _ b]) simp
    qed
  qed
  ultimately show ?case using Cons by simp
qed simp

definition checkRunning :: "'w os \<Rightarrow> 'w \<Rightarrow> (bool \<times> exec_error option) \<times> 'w" where
  "checkRunning S w =
    (case RunCommandByShell S ''systemctl status yunzes-node | grep Active'' w of
       ((out, Some err), w1) \<Rightarrow> ((False, Some err), w1)
     | ((out, None), w1) \<Rightarrow> ((Contains out ''running'', None), w1))"

section \<open>Start, stop, restart\<close>

datatype notice =
    CheckError exec_error | ExecError exec_error
  | StartFailed | AlreadyRunning | MaybeFailed | Started
  | StopFailed | StopSlow | Stopped
  | RestartFailed | Restarted
  | TimeError string | SyncFailed | Synced

datatype line = InRed notice | InGreen notice

definition startHandle :: "'w os \<Rightarrow> 'w \<Rightarrow> line list \<times> 'w" where
  "startHandle S w =
    (case checkRunning S w of
       ((r, Some e), w1) \<Rightarrow> ([InRed (CheckError e), InRed StartFailed], w1)
     | ((r, None), w1) \<Rightarrow>
         (let running = (if r then [InGreen AlreadyRunning] else [])
          in case RunCommandByShell S ''systemctl start yunzes-node.service'' w1 of
            ((_, Some e), w2) \<Rightarrow> (running @ [InRed (ExecError e), InRed StartFailed], w2)
          | ((_, None), w2) \<Rightarrow>
              (case checkRunning S (os_sleep S (3 * sint second) w2) of
                 ((r, err), w3) \<Rightarrow>
                   (let failed = (case err of None \<Rightarrow> [] | Some e \<Rightarrow> [InRed (CheckError e), InRed StartFailed])
                    in if \<not> r then (running @ failed @ [InRed MaybeFailed], w3)
                       else (running @ failed @ [InGreen Started], w3)))))"

definition stopHandle :: "'w os \<Rightarrow> 'w \<Rightarrow> line list \<times> 'w" where
  "stopHandle S w =
    (case RunCommandByShell S ''systemctl stop yunzes-node.service'' w of
       ((_, Some e), w1) \<Rightarrow> ([InRed (ExecError e), InRed StopFailed], w1)
     | ((_, None), w1) \<Rightarrow>
         (case checkRunning S (os_sleep S (2 * sint second) w1) of
            ((r, Some e), w2) \<Rightarrow> ([InRed (CheckError e), InRed StopFailed], w2)
          | ((r, None), w2) \<Rightarrow> if r then ([InRed StopSlow], w2) else ([InGreen Stopped], w2)))"

definition restartHandle :: "'w os \<Rightarrow> 'w \<Rightarrow> line list \<times> 'w" where
  "restartHandle S w =
    (case RunCommandByShell S ''systemctl restart yunzes-node.service'' w of
       ((_, Some e), w1) \<Rightarrow> ([InRed (ExecError e), InRed RestartFailed], w1)
     | ((_, None), w1) \<Rightarrow>
         (case checkRunning S w1 of
            ((r, Some e), w2) \<Rightarrow> ([InRed (CheckError e), InRed RestartFailed], w2)
          | ((r, None), w2) \<Rightarrow> if \<not> r then ([InRed MaybeFailed], w2) else ([InGreen Restarted], w2)))"

text \<open>Each command reports success exactly when its \<open>systemctl\<close> call succeeded and the status read after it
  says what it should.\<close>

lemma checkRunning_error [simp]: "checkRunning S w \<noteq> ((True, Some e), w')"
  by (auto simp: checkRunning_def split: prod.splits option.splits)

lemma start_reports:
  "InGreen Started \<in> set (fst (startHandle S w)) \<longleftrightarrow>
    (\<exists>r w1 out w2. checkRunning S w = ((r, None), w1) \<and>
       RunCommandByShell S ''systemctl start yunzes-node.service'' w1 = ((out, None), w2) \<and>
       fst (checkRunning S (os_sleep S (3 * sint second) w2)) = (True, None))"
  by (auto simp: startHandle_def Let_def split: prod.splits option.splits if_splits)

lemma stop_reports:
  "InGreen Stopped \<in> set (fst (stopHandle S w)) \<longleftrightarrow>
    (\<exists>out w1. RunCommandByShell S ''systemctl stop yunzes-node.service'' w = ((out, None), w1) \<and>
       fst (checkRunning S (os_sleep S (2 * sint second) w1)) = (False, None))"
  by (auto simp: stopHandle_def split: prod.splits option.splits if_splits)

lemma restart_reports:
  "InGreen Restarted \<in> set (fst (restartHandle S w)) \<longleftrightarrow>
    (\<exists>out w1. RunCommandByShell S ''systemctl restart yunzes-node.service'' w = ((out, None), w1) \<and>
       fst (checkRunning S w1) = (True, None))"
  by (auto simp: restartHandle_def split: prod.splits option.splits if_splits)

text \<open>A service that runs is told that it need not be started, and started all the same.\<close>

lemma start_twice:
  assumes "checkRunning S w = ((True, None), w1)"
    and "RunCommandByShell S ''systemctl start yunzes-node.service'' w1 = ((out, Some e), w2)"
  shows "startHandle S w = ([InGreen AlreadyRunning, InRed (ExecError e), InRed StartFailed], w2)"
  using assms by (simp add: startHandle_def)

section \<open>The clock\<close>

definition synctimeHandle :: "'w os \<Rightarrow> string \<Rightarrow> 'w \<Rightarrow> line list \<times> 'w" where
  "synctimeHandle S ntpServer w =
    (case os_ntp S ntpServer w of
       (Ret t, w1) \<Rightarrow>
         (case os_settime S t w1 of
            (Ret _, w2) \<Rightarrow> ([InGreen Synced], w2)
          | (Fail e, w2) \<Rightarrow> ([InRed (TimeError e), InRed SyncFailed], w2)
          | (Panic, w2) \<Rightarrow> ([], w2))
     | (Fail e, w1) \<Rightarrow> ([InRed (TimeError e), InRed SyncFailed], w1)
     | (Panic, w1) \<Rightarrow> ([], w1))"

text \<open>A time as the program reads it, and what it hands to Windows: every field is cut to 16 bits.\<close>

record civil_time =
  ct_Year :: int
  ct_Month :: int
  ct_Day :: int
  ct_Hour :: int
  ct_Minute :: int
  ct_Second :: int
  ct_UnixNano :: int

record Systemtime =
  st_Year :: uint16
  st_Month :: uint16
  st_Day :: uint16
  st_Hour :: uint16
  st_Minute :: uint16
  st_Second :: uint16
  st_Milliseconds :: uint16

definition UnixMilli :: "civil_time \<Rightarrow> int" where "UnixMilli t = ct_UnixNano t div 1000000"
definition Unix :: "civil_time \<Rightarrow> int" where "Unix t = ct_UnixNano t div 1000000000"

definition windows_time :: "civil_time \<Rightarrow> Systemtime" where
  "windows_time t = \<lparr>st_Year = word_of_int (ct_Year t), st_Month = word_of_int (ct_Month t),
     st_Day = word_of_int (ct_Day t), st_Hour = word_of_int (ct_Hour t), st_Minute = word_of_int (ct_Minute t),
     st_Second = word_of_int (ct_Second t), st_Milliseconds = word_of_int (UnixMilli t - Unix t * 1000)\<rparr>"

definition SetSystemTime_windows :: "(Systemtime \<Rightarrow> string) \<Rightarrow> civil_time \<Rightarrow> unit outcome" where
  "SetSystemTime_windows call t =
    (let err = call (windows_time t)
     in if err \<noteq> ''The operation completed successfully.'' then Fail err else Ret ())"

text \<open>Elsewhere the nanoseconds are converted by the system library and set at once, or nothing can be set.\<close>

definition SetSystemTime_unix :: "(int \<Rightarrow> 'tv) \<Rightarrow> ('tv \<Rightarrow> unit outcome) \<Rightarrow> civil_time \<Rightarrow> unit outcome" where
  "SetSystemTime_unix nsecToTimeval settimeofday t = settimeofday (nsecToTimeval (ct_UnixNano t))"

definition SetSystemTime_stub :: "civil_time \<Rightarrow> unit outcome" where
  "SetSystemTime_stub t = Fail ''invalid argument''"

text \<open>The milliseconds are those of the second, and survive the cut to 16 bits.\<close>

lemma windows_milliseconds: "uint (st_Milliseconds (windows_time t)) = ct_UnixNano t div 1000000 mod 1000"
proof -
  have "ct_UnixNano t div 1000000000 = ct_UnixNano t div 1000000 div 1000"
    by (simp add: zdiv_zmult2_eq [symmetric])
  then have "UnixMilli t - Unix t * 1000 = ct_UnixNano t div 1000000 mod 1000"
    by (simp add: UnixMilli_def Unix_def minus_div_mult_eq_mod)
  moreover have "0 \<le> ct_UnixNano t div 1000000 mod 1000" "ct_UnixNano t div 1000000 mod 1000 < 2 ^ 16"
    using pos_mod_bound [of 1000 "ct_UnixNano t div 1000000"] by simp_all
  ultimately show ?thesis by (simp add: windows_time_def uint_word_of_int_eq take_bit_int_eq_self)
qed

end
