(* ===== verification/RateLimit.thy ===== *)
theory RateLimit
  imports CheckLimits
begin

text \<open>
  \<open>common/rate/\<close>: connections and writers that wait for their share of a token bucket. The bucket is a
  library: \<open>take\<close> reserves tokens and tells how long to wait until they are available, which is what
  its \<open>Wait\<close> sleeps; \<open>avail\<close> is the number of tokens at a time. What is known of them is the law below,
  for a bucket that gets a quantum of tokens every second, up to a capacity. All connections of a user
  share one bucket, so a run is a sequence of operations on them.
\<close>

section \<open>The bucket\<close>

record 'b bucket_ops =
  bo_take :: "'b \<Rightarrow> int \<Rightarrow> int \<Rightarrow> 'b \<times> int"
  bo_avail :: "'b \<Rightarrow> int \<Rightarrow> int"

definition ticks :: "int \<Rightarrow> int" where
  "ticks t = t div sint second"

definition bucket_lawful :: "'b bucket_ops \<Rightarrow> int \<Rightarrow> bool" where
  "bucket_lawful B limit \<longleftrightarrow>
    (\<forall>b t. bo_avail B b t \<le> limit) \<and>
    (\<forall>b t t'. t \<le> t' \<longrightarrow> bo_avail B b t' \<le> bo_avail B b t + limit * (ticks t' - ticks t)) \<and>
    (\<forall>b t c. 0 \<le> c \<longrightarrow> bo_avail B (fst (bo_take B b t c)) t \<le> bo_avail B b t - c) \<and>
    (\<forall>b t c. 0 \<le> snd (bo_take B b t c) \<and>
       (0 < c \<longrightarrow> 0 \<le> bo_avail B (fst (bo_take B b t c)) (t + snd (bo_take B b t c))))"

section \<open>Limited connections\<close>

text \<open>An operation of a limited connection or writer, by the sizes it is called with: the buffer of a read,
  the bytes of a write, the buffers of a vectored write.\<close>

datatype rate_op = OpRead nat | OpWrite nat | OpMulti "nat list"

fun op_len :: "rate_op \<Rightarrow> nat" where
  "op_len (OpRead n) = n"
| "op_len (OpWrite n) = n"
| "op_len (OpMulti ns) = sum_list ns"

text \<open>The connection or writer under the limiter: an operation at a time moves bytes and may fail.\<close>

type_synonym 'c io = "'c \<Rightarrow> rate_op \<Rightarrow> int \<Rightarrow> 'c \<times> nat \<times> bool"

record ('b, 'c) rate_Conn =
  rl_conn :: 'c
  rl_limiter :: 'b

definition NewConnRateLimiter :: "'c \<Rightarrow> 'b \<Rightarrow> ('b, 'c) rate_Conn" where
  "NewConnRateLimiter c l = \<lparr>rl_conn = c, rl_limiter = l\<rparr>"

text \<open>A limited writer has the same two fields; closing it closes the writer under it.\<close>

definition NewRateLimitWriter :: "'c \<Rightarrow> 'b \<Rightarrow> ('b, 'c) rate_Conn" where
  "NewRateLimitWriter writer limiter = \<lparr>rl_conn = writer, rl_limiter = limiter\<rparr>"

definition rate_Writer_Close :: "('c \<Rightarrow> 'c \<times> unit outcome) \<Rightarrow> ('b, 'c) rate_Conn \<Rightarrow> ('b, 'c) rate_Conn \<times> unit outcome" where
  "rate_Writer_Close close w = (case close (rl_conn w) of (c, r) \<Rightarrow> (w\<lparr>rl_conn := c\<rparr>, r))"

definition rate_wait :: "'b bucket_ops \<Rightarrow> nat \<Rightarrow> int \<Rightarrow> 'b \<Rightarrow> 'b \<times> int" where
  "rate_wait B n t b = (case bo_take B b t (int n) of (b', d) \<Rightarrow> (b', t + d))"

text \<open>The result is the connection, the time at which the inner operation starts, and what it did.\<close>

definition rate_Read :: "'b bucket_ops \<Rightarrow> 'c io \<Rightarrow> nat \<Rightarrow> int \<Rightarrow> ('b, 'c) rate_Conn \<Rightarrow> ('b, 'c) rate_Conn \<times> int \<times> nat \<times> bool" where
  "rate_Read B io n t c =
    (case rate_wait B n t (rl_limiter c) of (l, t') \<Rightarrow>
       (case io (rl_conn c) (OpRead n) t' of (inner, m, err) \<Rightarrow> (\<lparr>rl_conn = inner, rl_limiter = l\<rparr>, t', m, err)))"

definition rate_Write :: "'b bucket_ops \<Rightarrow> 'c io \<Rightarrow> nat \<Rightarrow> int \<Rightarrow> ('b, 'c) rate_Conn \<Rightarrow> ('b, 'c) rate_Conn \<times> int \<times> nat \<times> bool" where
  "rate_Write B io n t c =
    (case rate_wait B n t (rl_limiter c) of (l, t') \<Rightarrow>
       (case io (rl_conn c) (OpWrite n) t' of (inner, m, err) \<Rightarrow> (\<lparr>rl_conn = inner, rl_limiter = l\<rparr>, t', m, err)))"

definition WriteMultiBuffer :: "'b bucket_ops \<Rightarrow> 'c io \<Rightarrow> nat list \<Rightarrow> int \<Rightarrow> ('b, 'c) rate_Conn \<Rightarrow> ('b, 'c) rate_Conn \<times> int \<times> nat \<times> bool" where
  "WriteMultiBuffer B io mb t c =
    (case rate_wait B (sum_list mb) t (rl_limiter c) of (l, t') \<Rightarrow>
       (case io (rl_conn c) (OpMulti mb) t' of (inner, m, err) \<Rightarrow> (\<lparr>rl_conn = inner, rl_limiter = l\<rparr>, t', m, err)))"

fun rate_do :: "'b bucket_ops \<Rightarrow> 'c io \<Rightarrow> rate_op \<Rightarrow> int \<Rightarrow> ('b, 'c) rate_Conn \<Rightarrow> ('b, 'c) rate_Conn \<times> int \<times> nat \<times> bool" where
  "rate_do B io (OpRead n) t c = rate_Read B io n t c"
| "rate_do B io (OpWrite n) t c = rate_Write B io n t c"
| "rate_do B io (OpMulti ns) t c = WriteMultiBuffer B io ns t c"

lemma rate_do_wait:
  "rate_do B io op t c = (case rate_wait B (op_len op) t (rl_limiter c) of (l, t') \<Rightarrow>
     (case io (rl_conn c) op t' of (inner, m, err) \<Rightarrow> (\<lparr>rl_conn = inner, rl_limiter = l\<rparr>, t', m, err)))"
  by (cases op) (simp_all add: rate_Read_def rate_Write_def WriteMultiBuffer_def)

text \<open>The connections of one user: a list of inner connections and their common bucket. An event is an
  operation that some connection begins at a time; the log has, for each, the time its inner operation
  starts, the tokens taken and the bytes moved.\<close>

type_synonym event = "int \<times> nat \<times> rate_op"

fun run_limited :: "'b bucket_ops \<Rightarrow> 'c io \<Rightarrow> event list \<Rightarrow> 'b \<Rightarrow> 'c list \<Rightarrow> (int \<times> nat \<times> nat) list" where
  "run_limited B io [] b cs = []"
| "run_limited B io ((t, i, op) # evs) b cs =
     (case rate_do B io op t (NewConnRateLimiter (cs ! i) b) of
        (c, t', m, err) \<Rightarrow> (t', op_len op, m) # run_limited B io evs (rl_limiter c) (cs[i := rl_conn c]))"

fun ordered :: "int \<Rightarrow> event list \<Rightarrow> bool" where
  "ordered t0 [] = True"
| "ordered t0 ((t, i, op) # evs) = (t0 \<le> t \<and> ordered t evs)"

text \<open>Tokens taken and bytes moved by operations that had started by a time.\<close>

definition charged_by :: "int \<Rightarrow> (int \<times> nat \<times> nat) list \<Rightarrow> nat" where
  "charged_by T log = sum_list (map (\<lambda>(t, n, m). if t \<le> T then n else 0) log)"

definition moved_by :: "int \<Rightarrow> (int \<times> nat \<times> nat) list \<Rightarrow> nat" where
  "moved_by T log = sum_list (map (\<lambda>(t, n, m). if t \<le> T then m else 0) log)"

lemma rate_do_Some:
  assumes "bo_take B b t (int (op_len op)) = (b', d)"
  obtains inner m err where "io (cs ! i) op (t + d) = (inner, m, err)"
    and "run_limited B io ((t, i, op) # evs) b cs = (t + d, op_len op, m) # run_limited B io evs b' (cs[i := inner])"
proof -
  obtain inner m err where "io (cs ! i) op (t + d) = (inner, m, err)" by (metis prod_cases3)
  with assms that show ?thesis
    by (simp add: rate_do_wait rate_wait_def NewConnRateLimiter_def)
qed

lemma moved_le_charged:
  assumes "\<forall>c op t. fst (snd (io c op t)) \<le> op_len op"
  shows "moved_by T (run_limited B io evs b cs) \<le> charged_by T (run_limited B io evs b cs)"
proof (induction evs arbitrary: b cs)
  case (Cons ev evs)
  obtain t i op where ev: "ev = (t, i, op)" by (metis prod_cases3)
  obtain b' d where "bo_take B b t (int (op_len op)) = (b', d)" by force
  then obtain inner m err where m: "io (cs ! i) op (t + d) = (inner, m, err)"
    and r: "run_limited B io (ev # evs) b cs = (t + d, op_len op, m) # run_limited B io evs b' (cs[i := inner])"
    unfolding ev by (rule rate_do_Some)
  from assms m have "m \<le> op_len op" by (metis fst_conv snd_conv)
  with Cons.IH [of b' "cs[i := inner]"] show ?case unfolding r by (simp add: moved_by_def charged_by_def)
qed (simp add: moved_by_def charged_by_def)

lemma ticks_mono: "t \<le> t' \<Longrightarrow> ticks t \<le> ticks t'"
  unfolding ticks_def by (rule zdiv_mono1) (simp_all add: second_def)

text \<open>The tokens that a run has been given by a time are bounded by what the bucket held and got since.\<close>

lemma charged_bound:
  assumes B: "bucket_lawful B limit" and l: "0 \<le> limit"
  shows "ordered t0 evs \<Longrightarrow>
    int (charged_by T (run_limited B io evs b cs)) \<le> max 0 (bo_avail B b t0 + limit * (ticks T - ticks t0))"
proof (induction evs arbitrary: t0 b cs)
  case (Cons ev evs)
  obtain t i op where ev: "ev = (t, i, op)" by (metis prod_cases3)
  obtain b' d where k: "bo_take B b t (int (op_len op)) = (b', d)" by force
  then obtain inner m err where
    r: "run_limited B io (ev # evs) b cs = (t + d, op_len op, m) # run_limited B io evs b' (cs[i := inner])"
    unfolding ev by (rule rate_do_Some)
  let ?X = "bo_avail B b t0 + limit * (ticks T - ticks t0)" and ?n = "int (op_len op)"
  let ?rest = "int (charged_by T (run_limited B io evs b' (cs[i := inner])))"
  have t: "t0 \<le> t" "ordered t evs" using Cons.prems ev by simp_all
  have d: "0 \<le> d" "0 < ?n \<longrightarrow> 0 \<le> bo_avail B b' (t + d)" "bo_avail B b' t \<le> bo_avail B b t - ?n"
    using B k unfolding bucket_lawful_def by (metis fst_conv snd_conv of_nat_0_le_iff)+
  have g: "bo_avail B b t \<le> bo_avail B b t0 + limit * (ticks t - ticks t0)"
    "bo_avail B b' (t + d) \<le> bo_avail B b' t + limit * (ticks (t + d) - ticks t)"
    using B t(1) d(1) unfolding bucket_lawful_def by simp_all
  have "bo_avail B b' t + limit * (ticks T - ticks t) \<le> ?X - ?n"
    using d(3) g(1) by (simp add: algebra_simps)
  with Cons.IH [OF t(2), of b' "cs[i := inner]"] have rest: "?rest \<le> max 0 (?X - ?n)" by linarith
  have "?n \<le> max 0 ?X" if "t + d \<le> T"
  proof (cases "0 < ?n")
    case True
    have "limit * ticks (t + d) \<le> limit * ticks T" using ticks_mono [OF that] l by (rule mult_left_mono)
    with True d g show ?thesis by (simp add: algebra_simps)
  qed simp
  with rest show ?case unfolding r by (auto simp: charged_by_def)
qed (simp add: charged_by_def)

text \<open>C4: The speed limit holds. When a connection of a user without a cached bucket is admitted with one,
  the user's limit in megabits per second is what the node's and the user's limits say, and whatever the
  user's connections that share the bucket do from then on, reading, writing, in any order and any
  number of them, the bytes they have moved at a time are at most the limit of one second more than the
  limit of the seconds gone by; so are the tokens they have paid, where a read pays for its buffer.\<close>

theorem speed_limit_enforced:
  assumes adm: "CheckLimit l t raw isTcp noSSUDP now = Some ((Some (Bucket limit), False), l')"
    and u: "mload (lm_UserLimitInfo l) t = Some u" "ul_ExpireTime u = 0 \<or> unix now \<le> ul_ExpireTime u"
    and fresh: "mload (lm_SpeedLimiter l) t = None"
    and d: "d = determineSpeedLimit (lm_SpeedLimit l) (determineSpeedLimit (ul_SpeedLimit u) (ul_DynamicSpeedLimit u))"
      "0 \<le> d" "d \<le> 9000000000000"
    and B: "bucket_lawful B limit" and evs: "ordered t0 evs" and T: "t0 \<le> T"
    and io: "\<forall>c op t. fst (snd (io c op t)) \<le> op_len op"
  shows "int (moved_by T (run_limited B io evs b cs)) \<le> d * 125000 * (1 + (ticks T - ticks t0)) \<and>
    int (charged_by T (run_limited B io evs b cs)) \<le> d * 125000 * (1 + (ticks T - ticks t0))"
proof -
  from CheckLimit_bucket [OF adm u] d fresh have limit: "limit = d * 125000" by (auto simp: Let_def split: if_splits)
  have "bo_avail B b t0 \<le> limit" using B by (simp add: bucket_lawful_def)
  moreover have "0 \<le> limit * (1 + (ticks T - ticks t0))" using ticks_mono [OF T] d limit by simp
  ultimately have "int (charged_by T (run_limited B io evs b cs)) \<le> limit * (1 + (ticks T - ticks t0))"
    using charged_bound [OF B _ evs, of T io b cs] d(2) limit by (simp add: algebra_simps)
  with moved_le_charged [OF io, of T B evs b cs] show ?thesis unfolding limit by simp
qed

text \<open>A bucket that keeps when it was last used and how many tokens it had then.\<close>

definition demo_bucket :: "int \<Rightarrow> (int \<times> int) bucket_ops" where
  "demo_bucket limit = (let avail = (\<lambda>b t. min limit (snd b + limit * (ticks t - ticks (fst b))))
     in \<lparr>bo_take = (\<lambda>b t c. ((t, avail b t - c),
            if avail b t - c \<ge> 0 then 0 else sint second * ((c - avail b t + limit - 1) div limit))),
         bo_avail = avail\<rparr>)"

lemma ticks_add: "ticks (t + sint second * k) = ticks t + k"
  by (simp add: ticks_def second_def)

lemma demo_bucket_lawful:
  assumes "0 < limit"
  shows "bucket_lawful (demo_bucket limit) limit"
proof -
  have fill: "min limit (a + limit * (ticks t' - s)) \<le> min limit (a + limit * (ticks t - s)) + limit * (ticks t' - ticks t)"
    if "t \<le> t'" for a s t t'
  proof -
    have "0 \<le> limit * (ticks t' - ticks t)" using ticks_mono [OF that] assms by simp
    then show ?thesis by (auto simp: min_def algebra_simps)
  qed
  have ready: "0 \<le> min limit (a - c + limit * ((c - a + limit - 1) div limit))"
    and wait: "0 \<le> sint second * ((c - a + limit - 1) div limit)" if "a - c < 0" for a c
  proof -
    have "limit * ((c - a + limit - 1) div limit) = c - a + limit - 1 - (c - a + limit - 1) mod limit"
      by (rule minus_mod_eq_mult_div [symmetric])
    moreover have "(c - a + limit - 1) mod limit < limit" using assms by simp
    ultimately have "c - a \<le> limit * ((c - a + limit - 1) div limit)" by linarith
    then show "0 \<le> min limit (a - c + limit * ((c - a + limit - 1) div limit))" using assms by simp
    show "0 \<le> sint second * ((c - a + limit - 1) div limit)"
      using that assms by (simp add: second_def pos_imp_zdiv_nonneg_iff)
  qed
  show ?thesis
    using fill ready wait assms
    by (auto simp: bucket_lawful_def demo_bucket_def Let_def ticks_add simp del: min_le_iff_disj)
qed

definition demo_events :: "event list" where
  "demo_events = [(0, 0, OpWrite 900000), (0, 1, OpRead 900000), (0, 0, OpMulti [900000, 1])]"

theorem speed_limit_enforced_witness:
  "\<exists>l'. CheckLimit demo_limiter ''xray|n|a'' ''1.1.1.1'' True False 0 = Some ((Some (Bucket 1000000), False), l') \<and>
     int (moved_by (sint second) (run_limited (demo_bucket 1000000) (\<lambda>c op t. (c, op_len op, False))
       demo_events (0, 1000000) [(), ()])) \<le> 8 * 125000 * 2"
proof -
  let ?u = "\<lparr>ul_UID = 1, ul_SpeedLimit = 8, ul_DeviceLimit = 1, ul_DynamicSpeedLimit = 0,
     ul_ExpireTime = 0, ul_OverLimit = False\<rparr>"
  have u: "mload (lm_UserLimitInfo demo_limiter) ''xray|n|a'' = Some ?u"
    by (simp add: demo_limiter_def new_limiter_def demo_config_def UserTag_def user_limit_info_def)
  have l: "lm_SpeedLimit demo_limiter = 0" "mload (lm_SpeedLimiter demo_limiter) ''xray|n|a'' = None"
    by (simp_all add: demo_limiter_def new_limiter_def demo_config_def)
  obtain l' where c: "CheckLimit demo_limiter ''xray|n|a'' ''1.1.1.1'' True False 0 = Some ((Some (Bucket 1000000), False), l')"
    using CheckLimit_bucket_example by blast
  have d: "8 = determineSpeedLimit (lm_SpeedLimit demo_limiter) (determineSpeedLimit (ul_SpeedLimit ?u) (ul_DynamicSpeedLimit ?u))"
    by (simp add: l determineSpeedLimit_def)
  have t: "ticks (sint second) - ticks 0 = 1" by (simp add: ticks_def second_def)
  have "int (moved_by (sint second) (run_limited (demo_bucket 1000000) (\<lambda>c op t. (c, op_len op, False))
       demo_events (0, 1000000) [(), ()])) \<le> 8 * 125000 * (1 + (ticks (sint second) - ticks 0))"
    by (rule speed_limit_enforced [OF c u _ l(2) d _ _ demo_bucket_lawful, THEN conjunct1])
       (simp_all add: second_def demo_events_def)
  with c t show ?thesis by simp
qed

text \<open>A reader that asks with a buffer of \<open>n\<close> bytes pays for \<open>n\<close> however few arrive: the number of its
  reads is bounded by the limit over the size of its buffer.\<close>

lemma reads_pay_for_buffers:
  assumes "bucket_lawful B limit" and "0 \<le> limit" and "ordered t0 evs" and "t0 \<le> T"
    and "\<forall>(t, i, op) \<in> set evs. op = OpRead n"
  shows "int (length (filter (\<lambda>(t, k, m). t \<le> T) (run_limited B io evs b cs)) * n) \<le> limit * (1 + (ticks T - ticks t0))"
proof -
  have "charged_by T (run_limited B io evs b cs) = length (filter (\<lambda>(t, k, m). t \<le> T) (run_limited B io evs b cs)) * n"
    using assms(5)
  proof (induction evs arbitrary: b cs)
    case (Cons ev evs)
    obtain t i where ev: "ev = (t, i, OpRead n)" using Cons.prems by (cases ev) auto
    obtain b' d where "bo_take B b t (int (op_len (OpRead n))) = (b', d)" by force
    then obtain inner m err where
      "run_limited B io (ev # evs) b cs = (t + d, op_len (OpRead n), m) # run_limited B io evs b' (cs[i := inner])"
      unfolding ev by (rule rate_do_Some)
    with Cons.IH [of b' "cs[i := inner]"] Cons.prems show ?case by (simp add: charged_by_def)
  qed (simp add: charged_by_def)
  moreover have "bo_avail B b t0 \<le> limit" using assms(1) by (simp add: bucket_lawful_def)
  moreover have "0 \<le> limit * (1 + (ticks T - ticks t0))" using ticks_mono [OF assms(4)] assms(2) by simp
  ultimately show ?thesis
    using charged_bound [OF assms(1-3), of T io b cs] by (simp add: algebra_simps)
qed

end
