(* ===== verification/NodeMonitor.thy ===== *)
theory NodeMonitor
  imports Reload
begin

text \<open>
  \<open>nodeInfoMonitor\<close> and \<open>SpeedChecker\<close> of \<open>node/task.go\<close>, \<open>adjustPeriodicIntervals\<close> of
  \<open>node/reload.go\<close>, and the monitor as the function of its own periodic task.
\<close>

section \<open>Incremental user updates\<close>

definition monitor_apply ::
  "UserInfo list \<Rightarrow> UserInfo list \<Rightarrow> UserInfo list \<Rightarrow> nat \<Rightarrow> 'c cstate \<Rightarrow> unit outcome \<times> 'c cstate" where
  "monitor_apply deleted added newU a s = (case s of (w, c) \<Rightarrow>
     (let (w1, c1) =
        (if added \<noteq> [] \<or> deleted \<noteq> [] then
           (w\<lparr>wd_lim := heap_update a (\<lambda>l. UpdateUser l (ct_runtimeKey c) added deleted) (wd_lim w)\<rparr>,
            if lc_EnableDynamicSpeedLimit (op_LimitConfig (ct_options c))
            then c\<lparr>ct_traffic := foldl (\<lambda>t u. TS_Delete t (u_Uuid u)) (ct_traffic c) deleted\<rparr> else c)
         else (w, c))
      in (Ret (), w1, c1\<lparr>ct_userList := newU\<rparr>)))"

definition monitor_incremental ::
  "'c env \<Rightarrow> UserInfo list \<Rightarrow> (int, int) gomap \<Rightarrow> 'c cstate \<Rightarrow> unit outcome \<times> 'c cstate" where
  "monitor_incremental E newU newA s = (case s of (w, c) \<Rightarrow>
     (case ct_limiter c of
        None \<Rightarrow> (Panic, w, c)
      | Some a \<Rightarrow>
          (let w1 = w\<lparr>wd_lim := heap_update a (\<lambda>l. l\<lparr>lm_AliveList := Alive_Replace (lm_AliveList l) newA\<rparr>) (wd_lim w)\<rparr>
           in if newU = [] then (Ret (), w1, c)
           else (case compareUserList (ct_userList c) newU of (deleted, added) \<Rightarrow>
             (case (if deleted \<noteq> [] then co_DelUsers (ev_core E) deleted (ct_runtimeKey c) (wd_core w1)
                    else (Ret (), wd_core w1)) of
                (Panic, k) \<Rightarrow> (Panic, w1\<lparr>wd_core := k\<rparr>, c)
              | (Fail _, k) \<Rightarrow> (Ret (), w1\<lparr>wd_core := k\<rparr>, c)
              | (Ret _, k) \<Rightarrow>
                  (case (if added \<noteq> [] then
                           (case ct_info c of
                              None \<Rightarrow> (Panic, k)
                            | Some info \<Rightarrow> co_AddUsers (ev_core E) (ct_runtimeKey c) added info k)
                         else (Ret 0, k)) of
                     (Panic, k') \<Rightarrow> (Panic, w1\<lparr>wd_core := k'\<rparr>, c)
                   | (Fail _, k') \<Rightarrow> (Ret (), w1\<lparr>wd_core := k'\<rparr>, c)
                   | (Ret _, k') \<Rightarrow> monitor_apply deleted added newU a (w1\<lparr>wd_core := k'\<rparr>, c)))))))"

section \<open>Poll intervals\<close>

text \<open>\<open>None\<close>: the task is running on this goroutine and \<open>Close\<close> does not return.\<close>

definition adjust_task :: "int64 \<Rightarrow> Task option \<Rightarrow> Task option option" where
  "adjust_task i t = (case t of
     None \<Rightarrow> Some None
   | Some t \<Rightarrow>
       if tk_Interval t \<noteq> i \<and> i \<noteq> 0 then
         (case Task_Close (t\<lparr>tk_Interval := i\<rparr>) of
            None \<Rightarrow> None
          | Some t1 \<Rightarrow>
              (case Task_Start False (\<lambda>_. None) ((), t1) of
                 None \<Rightarrow> None | Some (_, _, t2) \<Rightarrow> Some (Some t2)))
       else Some (Some t))"

definition adjustPeriodicIntervals :: "NodeInfo \<Rightarrow> Controller \<Rightarrow> Controller option" where
  "adjustPeriodicIntervals newN c =
    (case adjust_task (ni_PullInterval newN) (ct_monitor c) of
       None \<Rightarrow> None
     | Some m \<Rightarrow>
         (case adjust_task (ni_PushInterval newN) (ct_report c) of
            None \<Rightarrow> None
          | Some r \<Rightarrow> Some (c\<lparr>ct_monitor := m, ct_report := r\<rparr>)))"

section \<open>The monitor\<close>

text \<open>Errors are logged and swallowed: the function's own result is always nil.\<close>

definition nodeInfoMonitor :: "'c env \<Rightarrow> 'c cstate \<Rightarrow> (unit outcome \<times> 'c cstate) option" where
  "nodeInfoMonitor E s = (case s of (w, c) \<Rightarrow>
     (case GetNodeInfo (ev_sha E) (ev_dec E) (ev_node E) (ct_api c) of
        (Panic, api) \<Rightarrow> Some (Panic, w, c\<lparr>ct_api := api\<rparr>)
      | (Fail _, api) \<Rightarrow> Some (Ret (), w, c\<lparr>ct_api := api\<rparr>)
      | (Ret newN, api) \<Rightarrow>
          (case GetUserList (ev_users E) api of
             (Panic, api1) \<Rightarrow> Some (Panic, w, c\<lparr>ct_api := api1\<rparr>)
           | (Fail _, api1) \<Rightarrow> Some (Ret (), w, c\<lparr>ct_api := api1\<rparr>)
           | (Ret newU, api1) \<Rightarrow>
               (case GetUserAlive (ev_dec E) (ev_alive E) api1 of
                  (newA, api2) \<Rightarrow>
                    (let c1 = c\<lparr>ct_api := api2\<rparr> in
                     case newN of
                       None \<Rightarrow> Some (monitor_incremental E newU newA (w, c1))
                     | Some n \<Rightarrow>
                         (case reloadNodeConfig E n newU newA (w, c1) of
                            (Panic, s2) \<Rightarrow> Some (Panic, s2)
                          | (Fail _, s2) \<Rightarrow> Some (Ret (), s2)
                          | (Ret _, w2, c2) \<Rightarrow>
                              (case adjustPeriodicIntervals n c2 of
                                 None \<Rightarrow> None
                               | Some c3 \<Rightarrow> Some (Ret (), w2, c3))))))))"

text \<open>The monitor's timer fires: the monitor runs while its own task is locked.\<close>

definition monitor_execute :: "'c env \<Rightarrow> (unit outcome \<times> 'c cstate) execute" where
  "monitor_execute E st = (case st of ((_, w, c), t) \<Rightarrow>
     (case nodeInfoMonitor E (w, c\<lparr>ct_monitor := Some t\<rparr>) of
        None \<Rightarrow> None
      | Some (r, w', c') \<Rightarrow>
          Some (False, (r, w', c'), case ct_monitor c' of Some t' \<Rightarrow> t' | None \<Rightarrow> t)))"

definition monitor_tick :: "'c env \<Rightarrow> Task \<Rightarrow> 'c cstate \<Rightarrow> (unit outcome \<times> 'c cstate) option" where
  "monitor_tick E t s =
    (case timer_fires (monitor_execute E) ((Ret (), s), t) of
       None \<Rightarrow> None
     | Some (_, (r, w', c'), t') \<Rightarrow> Some (r, w', c'\<lparr>ct_monitor := Some t'\<rparr>))"

section \<open>The speed checker\<close>

fun throttle_all :: "string \<Rightarrow> int \<Rightarrow> int \<Rightarrow> string list \<Rightarrow> Limiter \<Rightarrow> Limiter" where
  "throttle_all rk limit expire [] l = l"
| "throttle_all rk limit expire (uuid # us) l =
     throttle_all rk limit expire us (fst (UpdateDynamicSpeedLimit l rk uuid limit expire))"

definition SpeedChecker :: "int \<Rightarrow> 'c cstate \<Rightarrow> unit outcome \<times> 'c cstate" where
  "SpeedChecker now s = (case s of (w, c) \<Rightarrow>
     (case lc_DynamicSpeedLimitConfig (op_LimitConfig (ct_options c)) of
        None \<Rightarrow> (Ret (), w, c)
      | Some d \<Rightarrow>
          (let expire = now + sint (word_of_int (dc_ExpireTime d) * minute)
           in case TS_Drain (ct_traffic c) (dc_Traffic d) of
                (t, out) \<Rightarrow>
                  if out = [] then (Ret (), w, c\<lparr>ct_traffic := t\<rparr>)
                  else (case ct_limiter c of
                     None \<Rightarrow> (Panic, w, c\<lparr>ct_traffic := t\<rparr>)
                   | Some a \<Rightarrow>
                       (Ret (), w\<lparr>wd_lim := heap_update a (throttle_all (ct_runtimeKey c) (dc_SpeedLimit d) expire out) (wd_lim w)\<rparr>,
                        c\<lparr>ct_traffic := t\<rparr>)))))"

section \<open>Comparing user lists\<close>

lemma Cut_unique: "(c :: char) \<notin> set xs \<Longrightarrow> c \<notin> set xs' \<Longrightarrow> xs @ c # ys = xs' @ c # ys' \<Longrightarrow> xs = xs' \<and> ys = ys'"
  by (metis Cut_append option.inject prod.inject)

text \<open>A user's key determines all that the limiter reads of the user, whatever the uuid contains.\<close>

lemma userKey_eq:
  "userKey u = userKey v \<longleftrightarrow>
     u_Uuid u = u_Uuid v \<and> u_SpeedLimit u = u_SpeedLimit v \<and> u_DeviceLimit u = u_DeviceLimit v"
proof
  assume "userKey u = userKey v"
  then have "rev (userKey u) = rev (userKey v)" by simp
  then have "rev (Itoa (u_DeviceLimit u)) @ CHR ''|'' # rev (Itoa (u_SpeedLimit u)) @ CHR ''|'' # rev (u_Uuid u) =
      rev (Itoa (u_DeviceLimit v)) @ CHR ''|'' # rev (Itoa (u_SpeedLimit v)) @ CHR ''|'' # rev (u_Uuid v)"
    by (simp add: userKey_def)
  from Cut_unique [OF _ _ this]
  have "rev (Itoa (u_DeviceLimit u)) = rev (Itoa (u_DeviceLimit v))"
    and t: "rev (Itoa (u_SpeedLimit u)) @ CHR ''|'' # rev (u_Uuid u) = rev (Itoa (u_SpeedLimit v)) @ CHR ''|'' # rev (u_Uuid v)"
    by (simp_all add: bar_notin_Itoa)
  moreover from Cut_unique [OF _ _ t]
  have "rev (Itoa (u_SpeedLimit u)) = rev (Itoa (u_SpeedLimit v))" "rev (u_Uuid u) = rev (u_Uuid v)"
    by (simp_all add: bar_notin_Itoa)
  ultimately show "u_Uuid u = u_Uuid v \<and> u_SpeedLimit u = u_SpeedLimit v \<and> u_DeviceLimit u = u_DeviceLimit v"
    by (auto dest: Itoa_inj)
qed (simp add: userKey_def)

lemma index_users_wf: "mwf m \<Longrightarrow> mwf (index_users us i m)"
  by (induction us i m rule: index_users.induct) simp_all

lemma index_users_keys: "mload (index_users us i m) k = None \<longleftrightarrow> mload m k = None \<and> k \<notin> userKey ` set us"
  by (induction us i m rule: index_users.induct) auto

lemma index_users_load:
  "mload (index_users us i m) k = Some j \<Longrightarrow>
     mload m k = Some j \<or> (\<exists>n < length us. j = i + n \<and> userKey (us ! n) = k)"
proof (induction us i m rule: index_users.induct)
  case (2 u us i m)
  from 2(2) have "mload (index_users us (Suc i) (mstore m (userKey u) i)) k = Some j" by simp
  from 2(1) [OF this] show ?case
  proof
    assume "mload (mstore m (userKey u) i) k = Some j"
    then show ?thesis by (cases "k = userKey u") (auto intro!: exI [of _ 0])
  next
    assume "\<exists>n < length us. j = Suc i + n \<and> userKey (us ! n) = k"
    then obtain n where "n < length us" "j = Suc i + n" "userKey (us ! n) = k" by blast
    then show ?thesis by (intro disjI2 exI [of _ "Suc n"]) simp
  qed
qed simp

lemma match_users_spec:
  "mwf m \<Longrightarrow> distinct (map userKey us) \<Longrightarrow> match_users us m added = (m', added') \<Longrightarrow>
     mwf m' \<and> (\<forall>k. mload m' k = (if k \<in> userKey ` set us then None else mload m k)) \<and>
     added' = added @ filter (\<lambda>u. mload m (userKey u) = None) us"
proof (induction us m added arbitrary: m' added' rule: match_users.induct)
  case (2 u us m added)
  show ?case
  proof (cases "mload m (userKey u) = None")
    case True
    with 2 show ?thesis by auto
  next
    case False
    have eq: "filter (\<lambda>v. mload (mdelete m (userKey u)) (userKey v) = None) us = filter (\<lambda>v. mload m (userKey v) = None) us"
    proof (intro filter_cong refl)
      fix v assume "v \<in> set us"
      with 2(4) have "userKey v \<noteq> userKey u" by (metis distinct.simps(2) image_eqI list.simps(9) set_map)
      then show "(mload (mdelete m (userKey u)) (userKey v) = None) = (mload m (userKey v) = None)" by simp
    qed
    have "match_users us (mdelete m (userKey u)) added = (m', added')" using 2(5) False by simp
    from 2(2) [OF False _ _ this] 2(3,4) eq False show ?thesis by simp
  qed
qed simp

lemma compare_effect:
  assumes "distinct (map userKey new)" and "compareUserList old new = (deleted, added)"
  shows "added = filter (\<lambda>u. userKey u \<notin> userKey ` set old) new \<and> set deleted \<subseteq> set old \<and>
    userKey ` set deleted = userKey ` set old - userKey ` set new \<and>
    (\<forall>u v. userKey u = userKey v \<longleftrightarrow>
       u_Uuid u = u_Uuid v \<and> u_SpeedLimit u = u_SpeedLimit v \<and> u_DeviceLimit u = u_DeviceLimit v)"
proof -
  let ?i = "index_users old 0 []"
  obtain m ad where mu: "match_users new ?i [] = (m, ad)" by force
  have wi: "mwf ?i" by (rule index_users_wf) simp
  note m = match_users_spec [OF wi assms(1) mu]
  have del: "deleted = map (\<lambda>(k, idx). old ! idx) m" and ad: "added = ad"
    using assms(2) mu by (simp_all add: compareUserList_def)
  have entry: "\<exists>n < length old. j = n \<and> userKey (old ! n) = k" if "mload m k = Some j" for k j
  proof -
    have "mload ?i k = Some j" using that m by (auto split: if_split_asm)
    from index_users_load [OF this] show ?thesis by simp
  qed
  have mem: "u \<in> set deleted \<longleftrightarrow> (\<exists>k j. mload m k = Some j \<and> u = old ! j)" for u
    using mem_mload [OF conjunct1 [OF m]] by (fastforce simp: del)
  have "set deleted \<subseteq> set old" using entry by (fastforce simp: mem)
  moreover have "userKey ` set deleted = userKey ` set old - userKey ` set new"
  proof
    show "userKey ` set deleted \<subseteq> userKey ` set old - userKey ` set new"
    proof
      fix k assume "k \<in> userKey ` set deleted"
      then obtain k' j where kj: "mload m k' = Some j" "k = userKey (old ! j)" by (auto simp: mem)
      with entry [OF kj(1)] have "k' = k" "j < length old" by auto
      with kj m show "k \<in> userKey ` set old - userKey ` set new" by (auto split: if_split_asm)
    qed
    show "userKey ` set old - userKey ` set new \<subseteq> userKey ` set deleted"
    proof
      fix k assume k: "k \<in> userKey ` set old - userKey ` set new"
      then have "mload ?i k \<noteq> None" by (simp add: index_users_keys)
      with k m obtain j where j: "mload m k = Some j" by auto
      from entry [OF j] j show "k \<in> userKey ` set deleted" by (force simp: mem)
    qed
  qed
  ultimately show ?thesis using m ad by (simp add: index_users_keys userKey_eq)
qed

text \<open>What a changed user list makes the node do. When no two entries of the new list agree in
  uuid, speed limit and device limit, exactly the new entries without such an equal in the old list
  are added, in the list's order, and an old entry is deleted only if it has no equal in the new
  list, one for every combination that disappeared. Two entries count as equal exactly when uuid,
  speed limit and device limit agree.\<close>

lemma compareUserList_spec:
  assumes "distinct (map userKey new)" and "compareUserList old new = (deleted, added)"
  shows "added = filter (\<lambda>u. userKey u \<notin> userKey ` set old) new \<and> set deleted \<subseteq> set old \<and>
    userKey ` set deleted = userKey ` set old - userKey ` set new \<and>
    (\<forall>u v. userKey u = userKey v \<longleftrightarrow>
       u_Uuid u = u_Uuid v \<and> u_SpeedLimit u = u_SpeedLimit v \<and> u_DeviceLimit u = u_DeviceLimit v)"
  by (rule compare_effect [OF assms])

lemma compareUserList_spec_example:
  "snd (compareUserList [demo_user ''a'', demo_user ''b''] [demo_user ''b'', (demo_user ''a'')\<lparr>u_SpeedLimit := 5\<rparr>]) =
     [(demo_user ''a'')\<lparr>u_SpeedLimit := 5\<rparr>]"
proof -
  let ?n = "[demo_user ''b'', (demo_user ''a'')\<lparr>u_SpeedLimit := 5\<rparr>]"
  have d: "distinct (map userKey ?n)" by (simp add: userKey_eq demo_user_def)
  obtain de ad where c: "compareUserList [demo_user ''a'', demo_user ''b''] ?n = (de, ad)" by force
  from compareUserList_spec [OF d c] c show ?thesis by (simp add: userKey_eq demo_user_def)
qed

section \<open>The limiter follows the user list\<close>

lemma Replace_users: "lm_UserLimitInfo (l\<lparr>lm_AliveList := x\<rparr>) = lm_UserLimitInfo l"
  "known (l\<lparr>lm_AliveList := x\<rparr>) rk = known l rk" "agrees (l\<lparr>lm_AliveList := x\<rparr>) rk = agrees l rk"
  by (simp_all add: known_def agrees_def)

lemma heap_update_at: "a < length (lw_heap w) \<Longrightarrow> lw_heap (heap_update a f w) ! a = f (lw_heap w ! a)"
  "length (lw_heap (heap_update a f w)) = length (lw_heap w)"
  by (simp_all add: heap_update_def)

text \<open>The set of known uuids after deleting and adding what the comparison says.\<close>

lemma compare_uuids:
  assumes cmp: "userKey ` set deleted = userKey ` set old - userKey ` set new" "set deleted \<subseteq> set old"
      "added = filter (\<lambda>u. userKey u \<notin> userKey ` set old) new"
    and d: "distinct (map u_Uuid old)"
  shows "(u_Uuid ` set old - u_Uuid ` set deleted) \<union> u_Uuid ` set added = u_Uuid ` set new"
proof -
  have inj: "u = v" if "u \<in> set old" "v \<in> set old" "u_Uuid u = u_Uuid v" for u v
    using d that by (auto simp: distinct_map dest: inj_onD)
  have uuid: "userKey u = userKey v \<Longrightarrow> u_Uuid u = u_Uuid v" for u v by (simp add: userKey_eq)
  show ?thesis
  proof (intro equalityI subsetI)
    fix x assume "x \<in> (u_Uuid ` set old - u_Uuid ` set deleted) \<union> u_Uuid ` set added"
    then show "x \<in> u_Uuid ` set new"
    proof
      assume "x \<in> u_Uuid ` set old - u_Uuid ` set deleted"
      then obtain u where u: "u \<in> set old" "x = u_Uuid u" "u_Uuid u \<notin> u_Uuid ` set deleted" by blast
      then have "userKey u \<notin> userKey ` set deleted" using uuid by (metis (no_types, lifting) imageE imageI)
      with u(1) cmp(1) have "userKey u \<in> userKey ` set new" by blast
      then obtain v where "v \<in> set new" "userKey u = userKey v" by blast
      with u(2) uuid show ?thesis by blast
    qed (auto simp: cmp(3))
  next
    fix x assume "x \<in> u_Uuid ` set new"
    then obtain v where v: "v \<in> set new" "x = u_Uuid v" by blast
    show "x \<in> (u_Uuid ` set old - u_Uuid ` set deleted) \<union> u_Uuid ` set added"
    proof (cases "userKey v \<in> userKey ` set old")
      case True
      then obtain u where u: "u \<in> set old" "userKey v = userKey u" by blast
      have "u_Uuid u \<notin> u_Uuid ` set deleted"
      proof
        assume "u_Uuid u \<in> u_Uuid ` set deleted"
        then obtain e where e: "e \<in> set deleted" "u_Uuid u = u_Uuid e" by blast
        with inj u cmp(2) have "u = e" by blast
        with e u cmp(1) have "userKey v \<in> userKey ` set old - userKey ` set new" by blast
        with v show False by blast
      qed
      with u v uuid show ?thesis by (metis DiffI UnI1 imageI)
    qed (use v in \<open>auto simp: cmp(3)\<close>)
  qed
qed

lemma compare_facts:
  assumes "distinct (map u_Uuid new)" and "compareUserList old new = (deleted, added)"
  shows "added = filter (\<lambda>u. userKey u \<notin> userKey ` set old) new" "set deleted \<subseteq> set old"
    "userKey ` set deleted = userKey ` set old - userKey ` set new" "distinct (map u_Uuid added)"
proof -
  have "distinct (map userKey new)"
    using assms(1) by (auto simp: distinct_map inj_on_def userKey_eq)
  note c = compare_effect [OF this assms(2)]
  show "added = filter (\<lambda>u. userKey u \<notin> userKey ` set old) new" "set deleted \<subseteq> set old"
    "userKey ` set deleted = userKey ` set old - userKey ` set new" using c by blast+
  then show "distinct (map u_Uuid added)" using assms(1) by (simp add: distinct_map inj_on_def)
qed

lemma monitor_apply_users:
  assumes "a < length (lw_heap (wd_lim w))" and "monitor_apply deleted added newU a (w, c) = (r, w', c')"
    and "added = [] \<Longrightarrow> deleted = [] \<Longrightarrow> UpdateUser (lw_heap (wd_lim w) ! a) (ct_runtimeKey c) [] [] = lw_heap (wd_lim w) ! a"
  shows "r = Ret () \<and> ct_userList c' = newU \<and> ct_runtimeKey c' = ct_runtimeKey c \<and> ct_limiter c' = ct_limiter c \<and>
    lw_heap (wd_lim w') ! a = UpdateUser (lw_heap (wd_lim w) ! a) (ct_runtimeKey c) added deleted"
  using assms by (auto simp: monitor_apply_def heap_update_def Let_def split: if_split_asm)

text \<open>C20: The limiter follows the user list. When the core carries out the deletions and additions,
  an incremental update with a non-empty list of distinct users makes the controller's list the new
  one, and a limiter that knew exactly the old list's users knows exactly the new list's users, with
  the new limits for every user that is new or changed.\<close>

theorem user_update_syncs:
  assumes "ct_limiter c = Some a" and "a < length (lw_heap (wd_lim w))" and "ct_info c = Some info"
    and "agrees (lw_heap (wd_lim w) ! a) (ct_runtimeKey c)"
    and "known (lw_heap (wd_lim w) ! a) (ct_runtimeKey c) = u_Uuid ` set (ct_userList c)"
    and "distinct (map u_Uuid (ct_userList c))" and "newU \<noteq> []" and "distinct (map u_Uuid newU)"
    and "\<And>us k. fst (co_DelUsers (ev_core E) us (ct_runtimeKey c) k) = Ret ()"
    and "\<And>us k. is_Ret (fst (co_AddUsers (ev_core E) (ct_runtimeKey c) us info k))"
    and "monitor_incremental E newU newA (w, c) = (r, w', c')"
  shows "r = Ret () \<and> ct_userList c' = newU \<and> agrees (lw_heap (wd_lim w') ! a) (ct_runtimeKey c) \<and>
    known (lw_heap (wd_lim w') ! a) (ct_runtimeKey c) = u_Uuid ` set newU \<and>
    (\<forall>u \<in> set newU. userKey u \<notin> userKey ` set (ct_userList c) \<longrightarrow>
       mload (lm_UserLimitInfo (lw_heap (wd_lim w') ! a)) (UserTag (ct_runtimeKey c) (u_Uuid u)) = Some (user_limit_info u))"
proof -
  let ?rk = "ct_runtimeKey c"
  let ?l = "(lw_heap (wd_lim w) ! a)\<lparr>lm_AliveList := Alive_Replace (lm_AliveList (lw_heap (wd_lim w) ! a)) newA\<rparr>"
  let ?w1 = "w\<lparr>wd_lim := heap_update a (\<lambda>l. l\<lparr>lm_AliveList := Alive_Replace (lm_AliveList l) newA\<rparr>) (wd_lim w)\<rparr>"
  obtain deleted added where cmp: "compareUserList (ct_userList c) newU = (deleted, added)" by force
  note f = compare_facts [OF assms(8) cmp]
  obtain d k where d: "(if deleted \<noteq> [] then co_DelUsers (ev_core E) deleted ?rk (wd_core ?w1) else (Ret (), wd_core ?w1)) = (d, k)"
    by force
  then have dR: "d = Ret ()" using assms(9) [of deleted "wd_core ?w1"] by (auto split: if_split_asm)
  obtain ad k' where e: "(if added \<noteq> [] then (case ct_info c of None \<Rightarrow> (Panic, k)
      | Some info \<Rightarrow> co_AddUsers (ev_core E) ?rk added info k) else (Ret 0, k)) = (ad, k')" by force
  then have "is_Ret ad" using assms(3) assms(10) [of added k] by (auto split: if_split_asm)
  then obtain n where aR: "ad = Ret n" by (cases ad) (simp_all add: is_Ret_def)
  have "monitor_apply deleted added newU a (?w1\<lparr>wd_core := k'\<rparr>, c) = (r, w', c')"
    using assms(11) unfolding monitor_incremental_def prod.case assms(1) option.case Let_def cmp d dR e aR
    by (simp add: assms(7))
  from monitor_apply_users [OF _ this] assms(2)
  have m: "r = Ret ()" "ct_userList c' = newU" "lw_heap (wd_lim w') ! a = UpdateUser ?l ?rk added deleted"
    by (simp_all add: heap_update_at UpdateUser_def)
  have "agrees ?l ?rk" using assms(4) by (simp add: Replace_users)
  note u = UpdateUser_effect [OF this, of added deleted]
  have "known (UpdateUser ?l ?rk added deleted) ?rk = u_Uuid ` set newU"
    using u compare_uuids [OF f(3,2,1) assms(6)] assms(5) by (simp add: Replace_users)
  with m u f(1,4) show ?thesis by auto
qed

theorem user_update_syncs_witness:
  "\<exists>w' c'. monitor_incremental demo_env [demo_user ''b''] [] (running_world, running_controller) = (Ret (), w', c') \<and>
     known (lw_heap (wd_lim w') ! 0) ''sing|n'' = {''b''}"
proof -
  obtain r w' c' where r: "monitor_incremental demo_env [demo_user ''b''] [] (running_world, running_controller) = (r, w', c')"
    by (metis prod_cases3)
  have a: "ct_limiter running_controller = Some 0" "0 < length (lw_heap (wd_lim running_world))"
    "ct_info running_controller = Some demo_node" "ct_runtimeKey running_controller = ''sing|n''"
    "ct_userList running_controller = [demo_user ''a'']"
    and l: "lw_heap (wd_lim running_world) ! 0 = new_limiter ''sing|n'' (op_LimitConfig demo_options) [demo_user ''a''] []"
    by (simp_all add: running_controller_def running_world_def AddLimiter_def limiter_Init_def RuntimeKey_def Let_def)
  have d: "fst (co_DelUsers (ev_core demo_env) us ''sing|n'' k) = Ret ()" for us k
    by (simp add: demo_env_def demo_core_def)
  define E where "E = demo_env\<lparr>ev_core := demo_core\<lparr>co_AddUsers := (\<lambda>t us n k. (Ret (length us), k))\<rparr>\<rparr>"
  obtain r2 w2 c2 where r2: "monitor_incremental E [demo_user ''b''] [] (running_world, running_controller) = (r2, w2, c2)"
    by (metis prod_cases3)
  have "r2 = Ret () \<and> known (lw_heap (wd_lim w2) ! 0) ''sing|n'' = {''b''}"
    using user_update_syncs [OF a(1,2,3) _ _ _ _ _ _ _ r2] a(4,5) l
    by (simp add: new_limiter_known demo_user_def E_def demo_core_def)
  moreover have "monitor_incremental demo_env [demo_user ''b''] [] (running_world, running_controller) =
      monitor_incremental E [demo_user ''b''] [] (running_world, running_controller)"
    unfolding E_def by code_simp
  ultimately show ?thesis using r2 by auto
qed

section \<open>A changed poll interval\<close>

lemma commit_tasks: "reload_commit n us al ids l (w, c) = (r, w', c') \<Longrightarrow> ct_tasks c' = ct_tasks c"
  by (auto simp: reload_commit_def ct_tasks_def Let_def split: option.splits)

lemma bringup_tasks:
  assumes "reload_bringup E old n us al ids l (w, c) = (r, w', c')"
  shows "ct_tasks c' = ct_tasks c"
proof -
  obtain r1 opt k where a: "co_AddNode (ev_core E) (snd ids) n (ct_options c) (wd_core w) = (r1, opt, k)"
    by (metis prod_cases3)
  obtain r2 k2 where b: "co_AddUsers (ev_core E) (snd ids) us n k = (r2, k2)" by force
  obtain r3 k3 where d: "co_DelNode (ev_core E) (snd ids) k2 = (r3, k3)" by force
  have roll: "ct_tasks c' = ct_tasks c"
    if "reload_rollback E old t (w\<lparr>wd_core := kk\<rparr>, c\<lparr>ct_options := opt\<rparr>) = (r, w', c')" for t kk
    using rollback_frame [OF that] by (simp add: ct_tasks_def)
  have com: "ct_tasks c' = ct_tasks c"
    if "reload_commit n us' al ids l (w\<lparr>wd_core := kk\<rparr>, c\<lparr>ct_options := opt\<rparr>) = (r, w', c')" for kk us'
    using commit_tasks [OF that] by (simp add: ct_tasks_def)
  have opt: "ct_tasks (c\<lparr>ct_options := opt\<rparr>) = ct_tasks c" by (simp add: ct_tasks_def)
  show ?thesis
    using assms a b d opt by (cases r1; cases r2; cases r3; cases "us = []")
      (auto simp: reload_bringup_def dest: roll com)
qed

lemma prevalidate_ctrl: "reload_prevalidate E n (w, c) = (r, w', c') \<Longrightarrow> c' = c"
  unfolding reload_prevalidate_def Let_def prod.case by (auto split: outcome.splits prod.splits if_split_asm)

lemma reload_tasks:
  assumes "reloadNodeConfig E n us al (w, c) = (r, w', c')"
  shows "ct_tasks c' = ct_tasks c"
proof -
  obtain p w1 c1 where pre: "reload_prevalidate E n (w, c) = (p, w1, c1)" by (metis prod_cases3)
  have c1: "c1 = c" by (rule prevalidate_ctrl [OF pre])
  obtain r2 k where d: "co_DelNode (ev_core E) (ct_runtimeKey c) (wd_core w1) = (r2, k)" by force
  obtain l w2 where rl: "reload_limiter (fst (reload_ids c n)) (snapshot c) us al (w1\<lparr>wd_core := k\<rparr>, c) = (l, w2)" by force
  have "(p = Ret True \<and> r2 = Ret () \<and> reload_bringup E (snapshot c) n us al (reload_ids c n) l (w2, c) = (r, w', c')) \<or> c' = c"
    using assms pre c1 d rl
    by (cases p; cases r2) (auto simp: reloadNodeConfig_def Let_def snapshot_def split: bool.splits)
  then show ?thesis using bringup_tasks [of E "snapshot c" n us al "reload_ids c n" l w2 c r w' c'] by blast
qed

text \<open>C21: A changed poll interval stops the node monitor for good. The monitor runs as the function of its
  own periodic task. When a reload it carries out brings a new, non-zero poll interval, the
  adjustment closes the task it is running in, and the tick never returns. With the interval
  unchanged, or zero, and the report task not running, the tick returns and the timer is armed again.\<close>

theorem poll_interval_change_deadlocks:
  assumes "tk_running t" and "\<not> tk_locked t" and "GetNodeInfo (ev_sha E) (ev_dec E) (ev_node E) (ct_api c) = (Ret (Some n), api)"
    and "GetUserList (ev_users E) api = (Ret us, api1)" and "GetUserAlive (ev_dec E) (ev_alive E) api1 = (al, api2)"
    and "reloadNodeConfig E n us al (w, c\<lparr>ct_monitor := Some (t\<lparr>tk_timer := False, tk_locked := True\<rparr>), ct_api := api2\<rparr>) =
      (Ret (), w', c')"
    and "free_task (ct_report c)"
  shows "(monitor_tick E t (w, c) = None \<longleftrightarrow> ni_PullInterval n \<noteq> tk_Interval t \<and> ni_PullInterval n \<noteq> 0) \<and>
    (\<forall>r s. monitor_tick E t (w, c) = Some (r, s) \<longrightarrow>
       r = Ret () \<and> (\<exists>t'. ct_monitor (snd s) = Some t' \<and> tk_running t' \<and> tk_timer t' \<and> \<not> tk_locked t'))"
proof -
  let ?t = "t\<lparr>tk_timer := False, tk_locked := True\<rparr>"
  have tasks: "ct_monitor c' = Some ?t" "ct_report c' = ct_report c"
    using reload_tasks [OF assms(6)] by (simp_all add: ct_tasks_def)
  have rep: "adjust_task i (ct_report c) \<noteq> None" for i
    using assms(7) by (cases "ct_report c") (auto simp: adjust_task_def Task_Close_def Start_false)
  then obtain rt where rt: "adjust_task (ni_PushInterval n) (ct_report c) = Some rt" by blast
  have mon: "adjust_task (ni_PullInterval n) (Some ?t) =
      (if ni_PullInterval n \<noteq> tk_Interval t \<and> ni_PullInterval n \<noteq> 0 then None else Some (Some ?t))"
    by (auto simp: adjust_task_def Task_Close_def)
  have "nodeInfoMonitor E (w, c\<lparr>ct_monitor := Some ?t\<rparr>) =
      (if ni_PullInterval n \<noteq> tk_Interval t \<and> ni_PullInterval n \<noteq> 0 then None
       else Some (Ret (), w', c'\<lparr>ct_monitor := Some ?t, ct_report := rt\<rparr>))"
    using assms(3-6) tasks rt mon by (simp add: nodeInfoMonitor_def adjustPeriodicIntervals_def)
  then show ?thesis
    using assms(1,2) by (auto simp: monitor_tick_def timer_fires_def checkedExecute_def hasClosed_def monitor_execute_def Let_def)
qed

theorem poll_interval_change_deadlocks_witness:
  "monitor_tick demo_env \<lparr>tk_Interval = 60 * second, tk_locked = False, tk_timer = True, tk_running = True\<rparr>
     (running_world, running_controller) = None"
proof -
  let ?t = "\<lparr>tk_Interval = 60 * second, tk_locked = False, tk_timer = True, tk_running = True\<rparr>"
  have "case GetNodeInfo (ev_sha demo_env) (ev_dec demo_env) (ev_node demo_env) (ct_api running_controller) of
      (Ret (Some n), api) \<Rightarrow> ni_PullInterval n = 15 * second \<and>
        (case GetUserList (ev_users demo_env) api of
           (Ret us, api1) \<Rightarrow>
             (case GetUserAlive (ev_dec demo_env) (ev_alive demo_env) api1 of
                (al, api2) \<Rightarrow> fst (reloadNodeConfig demo_env n us al (running_world, running_controller\<lparr>ct_monitor :=
                   Some (?t\<lparr>tk_timer := False, tk_locked := True\<rparr>), ct_api := api2\<rparr>)) = Ret ())
         | _ \<Rightarrow> False)
    | _ \<Rightarrow> False"
    by code_simp
  then obtain n api us api1 al api2 w' c' where
    g: "GetNodeInfo (ev_sha demo_env) (ev_dec demo_env) (ev_node demo_env) (ct_api running_controller) = (Ret (Some n), api)"
      "GetUserList (ev_users demo_env) api = (Ret us, api1)"
      "GetUserAlive (ev_dec demo_env) (ev_alive demo_env) api1 = (al, api2)"
      "reloadNodeConfig demo_env n us al (running_world, running_controller\<lparr>ct_monitor :=
         Some (?t\<lparr>tk_timer := False, tk_locked := True\<rparr>), ct_api := api2\<rparr>) = (Ret (), w', c')"
    and i: "ni_PullInterval n = 15 * second"
    by (auto split: prod.splits outcome.splits option.splits) (metis fst_conv surj_pair)
  have f: "free_task (ct_report running_controller)"
    by (simp add: running_controller_def demo_controller_def NewController_def)
  have "(15 :: int64) * second \<noteq> 60 * second" "(15 :: int64) * second \<noteq> 0" by (simp_all add: second_def)
  with i poll_interval_change_deadlocks [OF _ _ g f] show ?thesis by simp
qed

section \<open>The speed checker\<close>

lemma throttle_all_frame:
  "lm_UUIDtoUID (throttle_all rk limit expire us l) = lm_UUIDtoUID l"
  "lm_SpeedLimiter (throttle_all rk limit expire us l) = lm_SpeedLimiter l"
  by (induction us arbitrary: l) (auto simp: UpdateDynamicSpeedLimit_def split: option.splits)

lemma throttle_all_info:
  "mload (lm_UserLimitInfo (throttle_all rk limit expire us l)) (UserTag rk uuid) =
     (if uuid \<in> set us
      then map_option (\<lambda>i. i\<lparr>ul_DynamicSpeedLimit := limit, ul_ExpireTime := unix expire\<rparr>) (mload (lm_UserLimitInfo l) (UserTag rk uuid))
      else mload (lm_UserLimitInfo l) (UserTag rk uuid))"
proof (induction us arbitrary: l)
  case (Cons u us)
  show ?case
    by (cases "mload (lm_UserLimitInfo l) (UserTag rk u)"; cases "u = uuid")
      (auto simp: UpdateDynamicSpeedLimit_def Cons option.map_comp comp_def)
qed simp

text \<open>The speed checker throttles the heavy users. With a positive threshold it gives exactly the
  known users whose accumulated bytes reached it the configured dynamic limit and its expiry, forgets
  the bytes of all users that reached it, and changes no other user's limits or bytes; with a
  non-positive threshold it changes no limits.\<close>

lemma speed_checker_throttles:
  assumes "ct_limiter c = Some a" and "a < length (lw_heap (wd_lim w))" and "ct_traffic c = Some m" and "mwf m"
    and "lc_DynamicSpeedLimitConfig (op_LimitConfig (ct_options c)) = Some d"
  shows "\<exists>w' c' m'. SpeedChecker now (w, c) = (Ret (), w', c') \<and> ct_traffic c' = Some m' \<and>
    (\<forall>uuid. let heavy = 0 < sint (dc_Traffic d) \<and> (\<exists>n. mload m uuid = Some n \<and> sint (dc_Traffic d) \<le> sint n) in
       mload m' uuid = (if heavy then None else mload m uuid) \<and>
       mload (lm_UserLimitInfo (lw_heap (wd_lim w') ! a)) (UserTag (ct_runtimeKey c) uuid) =
         (if heavy then map_option (\<lambda>i. i\<lparr>ul_DynamicSpeedLimit := dc_SpeedLimit d,
              ul_ExpireTime := unix (now + sint (word_of_int (dc_ExpireTime d) * minute))\<rparr>)
            (mload (lm_UserLimitInfo (lw_heap (wd_lim w) ! a)) (UserTag (ct_runtimeKey c) uuid))
          else mload (lm_UserLimitInfo (lw_heap (wd_lim w) ! a)) (UserTag (ct_runtimeKey c) uuid)))"
proof -
  obtain m' out where d: "TS_Drain (Some m) (dc_Traffic d) = (Some m', out)"
    and out: "set out = {u. 0 < sint (dc_Traffic d) \<and> (\<exists>n. mload m u = Some n \<and> sint (dc_Traffic d) \<le> sint n)}"
    and m': "\<forall>u. mload m' u = (if u \<in> set out then None else mload m u)"
    using drain_at_threshold [OF assms(4), of "dc_Traffic d"] by blast
  let ?e = "now + sint (word_of_int (dc_ExpireTime d) * minute)"
  let ?w = "if out = [] then w else w\<lparr>wd_lim := heap_update a
    (throttle_all (ct_runtimeKey c) (dc_SpeedLimit d) ?e out) (wd_lim w)\<rparr>"
  have "SpeedChecker now (w, c) = (Ret (), ?w, c\<lparr>ct_traffic := Some m'\<rparr>)"
    using assms(1,3,5) d by (simp add: SpeedChecker_def)
  moreover have "lw_heap (wd_lim ?w) ! a = throttle_all (ct_runtimeKey c) (dc_SpeedLimit d) ?e out (lw_heap (wd_lim w) ! a)"
    using assms(2) by (simp add: heap_update_at)
  moreover have "u \<in> set out \<longleftrightarrow> 0 < sint (dc_Traffic d) \<and> (\<exists>n. mload m u = Some n \<and> sint (dc_Traffic d) \<le> sint n)" for u
    unfolding out by simp
  ultimately show ?thesis using m' by (intro exI conjI) (auto simp: throttle_all_info Let_def)
qed

definition heavy_controller :: Controller where
  "heavy_controller = running_controller\<lparr>ct_traffic := Some [(''a'', 10)], ct_options := demo_options\<lparr>op_LimitConfig :=
     (op_LimitConfig demo_options)\<lparr>lc_DynamicSpeedLimitConfig := Some \<lparr>dc_Periodic = 60, dc_Traffic = 5,
       dc_SpeedLimit = 1, dc_ExpireTime = 10\<rparr>\<rparr>\<rparr>\<rparr>"

lemma speed_checker_throttles_example:
  "\<exists>w' c'. SpeedChecker 0 (running_world, heavy_controller) = (Ret (), w', c') \<and> ct_traffic c' \<noteq> Some [(''a'', 10)]"
proof -
  have h: "ct_limiter heavy_controller = Some 0" "0 < length (lw_heap (wd_lim running_world))"
    "ct_traffic heavy_controller = Some [(''a'', 10)]" "mwf [(''a'', 10 :: int64)]"
    "lc_DynamicSpeedLimitConfig (op_LimitConfig (ct_options heavy_controller)) =
       Some \<lparr>dc_Periodic = 60, dc_Traffic = 5, dc_SpeedLimit = 1, dc_ExpireTime = 10\<rparr>"
    by (simp_all add: heavy_controller_def running_controller_def running_world_def AddLimiter_def limiter_Init_def Let_def)
  obtain w' c' m' where s: "SpeedChecker 0 (running_world, heavy_controller) = (Ret (), w', c')" "ct_traffic c' = Some m'"
    "mload m' ''a'' = None"
    using speed_checker_throttles [OF h, of 0] by (auto simp: Let_def)
  then have "m' \<noteq> [(''a'', 10)]" by auto
  with s show ?thesis by auto
qed

end
