(* ===== verification/Report.thy ===== *)
theory Report
  imports NodeMonitor
begin

text \<open>
  \<open>reportUserTrafficTask\<close> of \<open>node/user.go\<close> with the rollback policy of \<open>node/config_validation.go\<close>:
  the drained traffic is split at the panel's threshold, pushed, and on failure owed to the core
  again until the consecutive failures exceed the configured cap. The host statistics that end the
  report are not modelled.
\<close>

section \<open>Policy\<close>

definition defaultReportFailureCap :: int where "defaultReportFailureCap = 5"

definition reportFailureCap :: "int \<Rightarrow> int" where
  "reportFailureCap configured =
    (if configured = 0 then defaultReportFailureCap else if configured < 0 then - 1 else configured)"

definition reportRollbackDecision :: "int \<Rightarrow> int \<Rightarrow> bool" where
  "reportRollbackDecision consecutiveFailures configuredCap =
    (let cap = reportFailureCap configuredCap in if cap < 0 then False else consecutiveFailures > cap)"

definition reportThreshold :: "Controller \<Rightarrow> int64" where
  "reportThreshold c = (case ct_info c of None \<Rightarrow> 0
     | Some n \<Rightarrow> (case ni_Common n of None \<Rightarrow> 0
        | Some cn \<Rightarrow> (case cn_Basic cn of None \<Rightarrow> 0 | Some b \<Rightarrow> bc_TrafficReportThreshold b)))"

fun split_loop :: "int64 \<Rightarrow> UserTraffic list \<Rightarrow> UserTraffic list \<Rightarrow> UserTraffic list \<Rightarrow> UserTraffic list \<times> UserTraffic list" where
  "split_loop th [] hi lo = (hi, lo)"
| "split_loop th (t # ts) hi lo =
     (if sint (ut_Upload t + ut_Download t) > sint th then split_loop th ts (hi @ [t]) lo
      else split_loop th ts hi (lo @ [t]))"

definition splitUserTrafficByThreshold :: "UserTraffic list \<Rightarrow> int64 \<Rightarrow> UserTraffic list \<times> UserTraffic list" where
  "splitUserTrafficByThreshold traffic threshold = split_loop threshold traffic [] []"

section \<open>The dynamic limit's feed\<close>

definition uid_index :: "UserInfo list \<Rightarrow> (int, string) gomap" where
  "uid_index us = foldl (\<lambda>m u. mstore m (u_Id u) (u_Uuid u)) [] us"

fun feed_loop :: "(int, string) gomap \<Rightarrow> UserTraffic list \<Rightarrow> trafficStore option \<Rightarrow> trafficStore option" where
  "feed_loop m [] s = s"
| "feed_loop m (t # ts) s =
     (case mload m (ut_UID t) of
        None \<Rightarrow> feed_loop m ts s
      | Some uuid \<Rightarrow> feed_loop m ts (TS_Add s uuid (ut_Upload t + ut_Download t)))"

definition feedDynamicTraffic :: "UserTraffic list \<Rightarrow> Controller \<Rightarrow> Controller" where
  "feedDynamicTraffic userTraffic c =
    (if ct_traffic c = None \<or> userTraffic = [] then c
     else c\<lparr>ct_traffic := feed_loop (uid_index (ct_userList c)) userTraffic (ct_traffic c)\<rparr>)"

section \<open>Traffic\<close>

text \<open>An error of giving traffic back is logged.\<close>

definition give_back :: "'c env \<Rightarrow> UserTraffic list \<Rightarrow> 'c cstate \<Rightarrow> unit outcome \<times> 'c cstate" where
  "give_back E sl s = (case s of (w, c) \<Rightarrow>
     (case co_AddUserTrafficSlice (ev_core E) (ct_runtimeKey c) sl (wd_core w) of
        (Panic, k) \<Rightarrow> (Panic, w\<lparr>wd_core := k\<rparr>, c)
      | (_, k) \<Rightarrow> (Ret (), w\<lparr>wd_core := k\<rparr>, c)))"

definition report_split :: "Controller \<Rightarrow> UserTraffic list \<Rightarrow> UserTraffic list \<times> UserTraffic list" where
  "report_split c ut =
    (if sint (reportThreshold c) > 0 then splitUserTrafficByThreshold ut (reportThreshold c) else (ut, []))"

definition report_push :: "'c env \<Rightarrow> UserTraffic list \<Rightarrow> UserTraffic list \<Rightarrow> 'c cstate \<Rightarrow> unit outcome \<times> 'c cstate" where
  "report_push E userTraffic skipped s = (case s of (w, c) \<Rightarrow>
     if userTraffic \<noteq> [] then
       (case ReportUserTraffic (ev_push E) userTraffic of
          Panic \<Rightarrow> (Panic, w, c)
        | Fail _ \<Rightarrow>
            (let c1 = c\<lparr>ct_reportFailures := ct_reportFailures c + 1\<rparr>
             in if reportRollbackDecision (ct_reportFailures c1)
                     (lc_MaxReportFailureRollbacks (op_LimitConfig (ct_options c)))
                then (Ret (), w, c1)
                else give_back E (if skipped \<noteq> [] then userTraffic @ skipped else userTraffic) (w, c1))
        | Ret _ \<Rightarrow>
            (let c1 = c\<lparr>ct_reportFailures := 0\<rparr>;
                 c2 = (if lc_EnableDynamicSpeedLimit (op_LimitConfig (ct_options c))
                       then feedDynamicTraffic userTraffic c1 else c1)
             in if skipped \<noteq> [] then give_back E skipped (w, c2) else (Ret (), w, c2)))
     else if skipped \<noteq> [] then give_back E skipped (w, c)
     else (Ret (), w, c))"

text \<open>The result carries the two parts of the slice.\<close>

definition report_traffic :: "'c env \<Rightarrow> 'c cstate \<Rightarrow> (UserTraffic list \<times> UserTraffic list) outcome \<times> 'c cstate" where
  "report_traffic E s = (case s of (w, c) \<Rightarrow>
     (case co_GetUserTrafficSlice (ev_core E) (ct_runtimeKey c) True (wd_core w) of
        (Panic, k) \<Rightarrow> (Panic, w\<lparr>wd_core := k\<rparr>, c)
      | (got, k) \<Rightarrow>
          (case report_split c (case got of Ret ut \<Rightarrow> ut | _ \<Rightarrow> []) of
             (userTraffic, skipped) \<Rightarrow>
               (case report_push E userTraffic skipped (w\<lparr>wd_core := k\<rparr>, c) of
                  (Ret _, s') \<Rightarrow> (Ret (userTraffic, skipped), s')
                | (Fail e, s') \<Rightarrow> (Fail e, s')
                | (Panic, s') \<Rightarrow> (Panic, s')))))"

section \<open>Online users\<close>

fun nocount_loop :: "int64 \<Rightarrow> UserTraffic list \<Rightarrow> (int, unit) gomap \<Rightarrow> (int, unit) gomap" where
  "nocount_loop lim [] m = m"
| "nocount_loop lim (t # ts) m =
     nocount_loop lim ts (if sint (ut_Upload t + ut_Download t) < sint lim then mstore m (ut_UID t) () else m)"

fun counted_online :: "(int, unit) gomap \<Rightarrow> OnlineUser list \<Rightarrow> OnlineUser list \<Rightarrow> OnlineUser list" where
  "counted_online m [] result = result"
| "counted_online m (u # us) result =
     counted_online m us (if mload m (ou_UID u) = None then result @ [u] else result)"

definition online_report :: "Controller \<Rightarrow> UserTraffic list \<Rightarrow> UserTraffic list \<Rightarrow> OnlineUser list \<Rightarrow> OnlineUser list" where
  "online_report c userTraffic skipped online =
    (let minOnlineBytes = op_DeviceOnlineMinTraffic (ct_options c) * 1000
     in counted_online (nocount_loop minOnlineBytes skipped (nocount_loop minOnlineBytes userTraffic [])) online [])"

definition report_online :: "'c env \<Rightarrow> UserTraffic list \<times> UserTraffic list \<Rightarrow> 'c cstate \<Rightarrow> unit outcome \<times> 'c cstate" where
  "report_online E parts s = (case s of (w, c) \<Rightarrow>
     (case ct_limiter c of
        None \<Rightarrow> (Panic, w, c)
      | Some a \<Rightarrow>
          (case GetOnlineDevice (lw_heap (wd_lim w) ! a) (ev_now E) of
             (l, online) \<Rightarrow>
               (let w1 = w\<lparr>wd_lim := heap_update a (\<lambda>_. l) (wd_lim w)\<rparr>
                in if online \<noteq> [] then
                     (case ReportNodeOnlineUsers (ev_online E) (online_report c (fst parts) (snd parts) online) of
                        Panic \<Rightarrow> (Panic, w1, c) | _ \<Rightarrow> (Ret (), w1, c))
                   else (Ret (), w1, c)))))"

definition reportUserTrafficTask :: "'c env \<Rightarrow> 'c cstate \<Rightarrow> unit outcome \<times> 'c cstate" where
  "reportUserTrafficTask E = bindO (report_traffic E) (report_online E)"

section \<open>Facts about the split\<close>

lemma split_loop_filter:
  "split_loop th ts hi lo =
     (hi @ filter (\<lambda>t. sint (ut_Upload t + ut_Download t) > sint th) ts,
      lo @ filter (\<lambda>t. \<not> sint (ut_Upload t + ut_Download t) > sint th) ts)"
  by (induction th ts hi lo rule: split_loop.induct) auto

lemma amount_filter: "amount d (filter P ts) u + amount d (filter (\<lambda>t. \<not> P t) ts) u = amount d ts u"
  by (induction ts) (auto simp: ac_simps)

lemma report_split_parts:
  assumes "report_split c ut = (hi, lo)"
  shows "amount d hi u + amount d lo u = amount d ut u" and "set hi \<union> set lo = set ut"
  using assms amount_filter [of d "\<lambda>t. sint (ut_Upload t + ut_Download t) > sint (reportThreshold c)" ut u]
  by (auto simp: report_split_def splitUserTrafficByThreshold_def split_loop_filter split: if_split_asm)

lemma checkResponse_no_panic [simp]: "checkResponse r \<noteq> Panic"
  by (simp add: checkResponse_def)

lemma push_no_panic [simp]: "ReportUserTraffic p ts \<noteq> Panic" "ReportNodeOnlineUsers q us \<noteq> Panic"
  by (simp_all add: ReportUserTraffic_def ReportNodeOnlineUsers_def split: outcome.split)

section \<open>Conservation\<close>

text \<open>A core whose two traffic operations are those of the user maps.\<close>

definition maps_core :: "UserMaps Core \<Rightarrow> bool" where
  "maps_core K \<longleftrightarrow>
     (\<forall>t b x. co_GetUserTrafficSlice K t b x = (case GetUserTrafficSlice x t b of (sl, x') \<Rightarrow> (Ret sl, x'))) \<and>
     (\<forall>t sl x. co_AddUserTrafficSlice K t sl x = AddUserTrafficSlice x t sl)"

lemma give_back_maps:
  assumes "maps_core (ev_core E)" and "give_back E sl (w, c) = (r, w', c')"
  shows "c' = c \<and> wd_core w' = refund_users (ct_runtimeKey c) sl (wd_core w) \<and> r = Ret ()"
proof -
  have "fst (AddUserTrafficSlice x t sl) \<noteq> Panic" for x t
    by (simp add: AddUserTrafficSlice_def split: option.split)
  with assms show ?thesis
    by (auto simp: give_back_def maps_core_def refund_users_def split: prod.splits outcome.splits) (metis fst_conv)+
qed

text \<open>What a push hands back, and what it makes of the failure count.\<close>

definition handed_back :: "'c env \<Rightarrow> Controller \<Rightarrow> UserTraffic list \<Rightarrow> UserTraffic list \<Rightarrow> UserTraffic list" where
  "handed_back E c pushed skipped =
    (if pushed = [] \<or> ReportUserTraffic (ev_push E) pushed = Ret () then skipped
     else if reportRollbackDecision (ct_reportFailures c + 1) (lc_MaxReportFailureRollbacks (op_LimitConfig (ct_options c))) then []
     else pushed @ skipped)"

lemma feed_frame [simp]:
  "ct_runtimeKey (feedDynamicTraffic ts c) = ct_runtimeKey c"
  "ct_reportFailures (feedDynamicTraffic ts c) = ct_reportFailures c"
  by (simp_all add: feedDynamicTraffic_def)

lemma report_push_effect:
  assumes "report_push E pushed skipped (w, c) = (r, w', c')"
  obtains cc where
    "(let sl = handed_back E c pushed skipped in if sl = [] then (Ret (), w, cc) else give_back E sl (w, cc)) = (r, w', c')"
    "ct_runtimeKey cc = ct_runtimeKey c"
    "ct_reportFailures cc = (if pushed = [] then ct_reportFailures c
       else if ReportUserTraffic (ev_push E) pushed = Ret () then 0 else ct_reportFailures c + 1)"
proof (cases "pushed = []")
  case True
  with assms show ?thesis by (intro that [of c]) (auto simp: report_push_def handed_back_def)
next
  case False
  show ?thesis
  proof (cases "ReportUserTraffic (ev_push E) pushed")
    case (Ret x)
    let ?fed = "if lc_EnableDynamicSpeedLimit (op_LimitConfig (ct_options c))
      then feedDynamicTraffic pushed (c\<lparr>ct_reportFailures := 0\<rparr>) else c\<lparr>ct_reportFailures := 0\<rparr>"
    from assms Ret False show ?thesis
      by (intro that [of ?fed])
        (auto simp: report_push_def handed_back_def Let_def split: if_split_asm)
  next
    case (Fail e)
    with assms False show ?thesis
      by (intro that [of "c\<lparr>ct_reportFailures := ct_reportFailures c + 1\<rparr>"])
        (auto simp: report_push_def handed_back_def Let_def split: if_split_asm)
  qed simp
qed

text \<open>C22: Traffic is reported once and never lost before the cap. On a core whose counters know every
  user, one report leaves the core owing, per user and direction: everything it owed before, when
  nothing was above the threshold or the push failed; everything but what was pushed, when the push
  succeeded; and only when the push failed for more than the configured number of consecutive times,
  nothing of what it had drained. The failure count follows the pushes.\<close>

theorem report_conserves:
  assumes "maps_core (ev_core E)" and "users_ok (ct_runtimeKey c) (wd_core w)" and "report_traffic E (w, c) = (r, w', c')"
  shows "\<exists>pushed skipped. r = Ret (pushed, skipped) \<and> (\<forall>d u.
    (let before = owed_users (ct_runtimeKey c) (wd_core w) d u; owed = owed_users (ct_runtimeKey c) (wd_core w') d u
     in if pushed = [] then owed = before \<and> ct_reportFailures c' = ct_reportFailures c
        else if ReportUserTraffic (ev_push E) pushed = Ret ()
          then owed + amount d pushed u = before \<and> ct_reportFailures c' = 0
        else ct_reportFailures c' = ct_reportFailures c + 1 \<and>
          (if reportRollbackDecision (ct_reportFailures c') (lc_MaxReportFailureRollbacks (op_LimitConfig (ct_options c)))
           then owed + amount d pushed u + amount d skipped u = before else owed = before)))"
    (is "\<exists>pushed skipped. _ \<and> (\<forall>d u. ?conserves d u pushed skipped)")
proof -
  let ?rk = "ct_runtimeKey c"
  obtain sl k where g: "GetUserTrafficSlice (wd_core w) ?rk True = (sl, k)" by force
  then have dr: "drain_users ?rk (wd_core w) = (sl, k)" by (simp add: drain_users_def)
  obtain pushed skipped where sp: "report_split c sl = (pushed, skipped)" by force
  note parts = report_split_parts [OF sp]
  obtain r1 w1 c1 where p: "report_push E pushed skipped (w\<lparr>wd_core := k\<rparr>, c) = (r1, w1, c1)" by (metis prod_cases3)
  let ?bk = "handed_back E c pushed skipped"
  from p obtain cc where cc: "(if ?bk = [] then (Ret (), w\<lparr>wd_core := k\<rparr>, cc) else give_back E ?bk (w\<lparr>wd_core := k\<rparr>, cc)) = (r1, w1, c1)"
      "ct_runtimeKey cc = ?rk"
    and n: "ct_reportFailures cc = (if pushed = [] then ct_reportFailures c
       else if ReportUserTraffic (ev_push E) pushed = Ret () then 0 else ct_reportFailures c + 1)"
    unfolding Let_def by (rule report_push_effect [unfolded Let_def])
  have bk: "set ?bk \<subseteq> set sl" using parts(2) by (auto simp: handed_back_def)
  have returned_owed: "r1 = Ret () \<and> c1 = cc \<and> owed_users ?rk (wd_core w1) d u + amount d kept u = owed_users ?rk (wd_core w) d u"
    if "\<And>d u. amount d sl u = amount d kept u + amount d ?bk u" for d u kept
  proof (cases "?bk = []")
    case True
    with cc(1) that tr.drain_owed [OF assms(2) dr, of d u] show ?thesis by auto
  next
    case False
    with cc(1) have "give_back E ?bk (w\<lparr>wd_core := k\<rparr>, cc) = (r1, w1, c1)" by simp
    from give_back_maps [OF assms(1) this] cc(2) tr.conservation [OF assms(2) dr _ bk, of kept] that
    show ?thesis by simp
  qed
  let ?kept = "if pushed = [] then [] else if ReportUserTraffic (ev_push E) pushed = Ret () then pushed
    else if reportRollbackDecision (ct_reportFailures c + 1) (lc_MaxReportFailureRollbacks (op_LimitConfig (ct_options c)))
      then pushed @ skipped else []"
  have "amount d sl u = amount d ?kept u + amount d ?bk u" for d u
    using parts(1) [of d u] by (cases "pushed = []") (auto simp: handed_back_def)
  from returned_owed [OF this]
  have all: "r1 = Ret ()" "c1 = cc" "owed_users ?rk (wd_core w1) d u + amount d ?kept u = owed_users ?rk (wd_core w) d u" for d u
    by blast+
  have r: "r = Ret (pushed, skipped)" "w' = w1" "c' = cc"
    using assms(1,3) g sp p all(1,2) by (auto simp: report_traffic_def maps_core_def)
  have "?conserves d u pushed skipped" for d u
    using all(3) [of d u] n by (cases "pushed = []") (auto simp: r Let_def add.assoc)
  with r(1) show ?thesis by blast
qed

definition report_env :: "nat \<Rightarrow> UserMaps env" where
  "report_env status = \<lparr>ev_core = \<lparr>
       co_AddNode = (\<lambda>t n opt k. (Ret (), opt, k)), co_DelNode = (\<lambda>t k. (Ret (), k)),
       co_AddUsers = (\<lambda>t us n k. (Ret (length us), k)),
       co_GetUserTrafficSlice = (\<lambda>t b x. case GetUserTrafficSlice x t b of (sl, x') \<Rightarrow> (Ret sl, x')),
       co_AddUserTrafficSlice = (\<lambda>t sl x. AddUserTrafficSlice x t sl), co_DelUsers = (\<lambda>us t k. (Ret (), k)),
       co_Protocols = (\<lambda>_. []), co_Type = (\<lambda>_. ''xray'')\<rparr>,
     ev_cert = ev_cert demo_env, ev_userPath = '''', ev_sha = ev_sha demo_env, ev_dec = demo_decoders, ev_now = 0,
     ev_node = ev_node demo_env, ev_users = ev_users demo_env, ev_alive = ev_alive demo_env,
     ev_push = (\<lambda>_. \<lparr>rs_err = False, rs_raw = True, rs_status = status, rs_body = '''', rs_etag = ''''\<rparr>),
     ev_online = ev_online demo_env\<rparr>"

definition report_controller :: Controller where
  "report_controller = running_controller\<lparr>ct_coreType := ''xray'', ct_runtimeKey := ''xray|n''\<rparr>"

theorem report_conserves_witness:
  "\<exists>pushed skipped w' c'. report_traffic (report_env 500) (\<lparr>wd_core = demo_users, wd_lim = limiter_Init,
      wd_reg = newPortRegistry, wd_cert = wd_cert demo_world\<rparr>, report_controller) = (Ret (pushed, skipped), w', c') \<and>
    owed_users ''xray|n'' (wd_core w') Up 7 = owed_users ''xray|n'' demo_users Up 7"
proof -
  let ?w = "\<lparr>wd_core = demo_users, wd_lim = limiter_Init, wd_reg = newPortRegistry, wd_cert = wd_cert demo_world\<rparr>"
  obtain r w' c' where r: "report_traffic (report_env 500) (?w, report_controller) = (r, w', c')" by (metis prod_cases3)
  have m: "maps_core (ev_core (report_env 500))" by (simp add: maps_core_def report_env_def)
  have rk: "ct_runtimeKey report_controller = ''xray|n''" by (simp add: report_controller_def)
  have ok: "users_ok (ct_runtimeKey report_controller) (wd_core ?w)"
    by (auto simp: rk users_ok_def demo_users_def uid_of_def tc_wf_def)
  have f: "ReportUserTraffic (ev_push (report_env 500)) sl \<noteq> Ret ()" for sl
    by (simp add: ReportUserTraffic_def report_env_def checkResponse_def)
  have c: "ct_reportFailures report_controller = 0"
    "lc_MaxReportFailureRollbacks (op_LimitConfig (ct_options report_controller)) = 0"
    by (simp_all add: report_controller_def running_controller_def demo_controller_def NewController_def demo_options_def)
  obtain pushed skipped where "r = Ret (pushed, skipped)" and
    "owed_users ''xray|n'' (wd_core w') Up 7 = owed_users ''xray|n'' demo_users Up 7"
    using report_conserves [OF m ok r] f unfolding rk
    by (auto simp: Let_def c reportRollbackDecision_def reportFailureCap_def defaultReportFailureCap_def split: if_split_asm)
  with r show ?thesis by auto
qed

section \<open>The cap and the online report\<close>

lemma nocount_loop_load:
  "mload (nocount_loop lim ts m) u \<noteq> None \<longleftrightarrow>
     mload m u \<noteq> None \<or> (\<exists>t \<in> set ts. ut_UID t = u \<and> sint (ut_Upload t + ut_Download t) < sint lim)"
  by (induction lim ts m rule: nocount_loop.induct) auto

lemma counted_online_filter: "counted_online m us acc = acc @ filter (\<lambda>u. mload m (ou_UID u) = None) us"
  by (induction m us acc rule: counted_online.induct) auto

lemma online_report_eq:
  "online_report c pushed skipped online = filter (\<lambda>u. \<not> (\<exists>t \<in> set pushed \<union> set skipped. ut_UID t = ou_UID u \<and>
     sint (ut_Upload t + ut_Download t) < sint (op_DeviceOnlineMinTraffic (ct_options c) * 1000))) online"
proof -
  let ?lim = "op_DeviceOnlineMinTraffic (ct_options c) * 1000"
  have "mload (nocount_loop ?lim skipped (nocount_loop ?lim pushed [])) u = None \<longleftrightarrow>
      \<not> (\<exists>t \<in> set pushed \<union> set skipped. ut_UID t = u \<and> sint (ut_Upload t + ut_Download t) < sint ?lim)" for u
    using nocount_loop_load [of ?lim skipped "nocount_loop ?lim pushed []" u] nocount_loop_load [of ?lim pushed "[]" u] by auto
  then show ?thesis by (simp only: online_report_def counted_online_filter Let_def append_Nil)
qed

lemma drop_iff:
  "reportRollbackDecision n cap \<longleftrightarrow> 0 \<le> cap \<and> n > (if cap = 0 then 5 else cap)"
  by (auto simp: reportRollbackDecision_def reportFailureCap_def defaultReportFailureCap_def Let_def)

end
