(* ===== verification/HostReport.thy ===== *)
theory HostReport
  imports Report
begin

text \<open>
  What the node tells about its host and itself: \<open>common/serverstatus/\<close> with \<open>ReportNodeStatus\<close> of
  \<open>api/panel/node.go\<close>, the end of the report task in \<open>node/user.go\<close>; the deprecation warnings of
  \<open>node/config_validation.go\<close>; and the fields of the log lines (\<open>node/controller.go\<close>, \<open>node/task.go\<close>,
  \<open>node/cert_manager.go\<close>). The probes of the host are parameters, and so is the type of the
  floating-point numbers, with its zero.
\<close>

section \<open>The status of the host\<close>

text \<open>The processor gives a list of percentages and may fail; an error prints as its text.\<close>

record 'f probe =
  pb_cpu :: "'f list \<times> string option"
  pb_mem :: "'f + string"
  pb_disk :: "'f + string"
  pb_uptime :: "nat + string"
  pb_zero :: 'f

record 'f NodeStatus =
  ns_CPU :: 'f
  ns_Mem :: 'f
  ns_Disk :: 'f
  ns_Uptime :: nat

definition failed_text :: "string \<Rightarrow> string option \<Rightarrow> string" where
  "failed_text what e = ''get '' @ what @ '' failed: '' @ (case e of None \<Rightarrow> ''%!s(<nil>)'' | Some m \<Rightarrow> m) @ '' ''"

definition read_probe :: "'f \<Rightarrow> string \<Rightarrow> 'f + string \<Rightarrow> 'f \<times> string" where
  "read_probe zero what p = (case p of Inl x \<Rightarrow> (x, '''') | Inr e \<Rightarrow> (zero, failed_text what (Some e)))"

definition GetSystemInfo :: "'f probe \<Rightarrow> 'f NodeStatus \<times> string option" where
  "GetSystemInfo p =
    (let (cpu, e1) = (case pb_cpu p of
            (x # xs, None) \<Rightarrow> (x, '''')
          | (_, e) \<Rightarrow> (pb_zero p, failed_text ''cpu usage'' e));
         (mem, e2) = read_probe (pb_zero p) ''mem usage'' (pb_mem p);
         (disk, e3) = read_probe (pb_zero p) ''disk usage'' (pb_disk p);
         (uptime, e4) = read_probe 0 ''uptime'' (pb_uptime p);
         errorString = e1 @ e2 @ e3 @ e4
     in (\<lparr>ns_CPU = cpu, ns_Mem = mem, ns_Disk = disk, ns_Uptime = uptime\<rparr>,
         if errorString \<noteq> '''' then Some errorString else None))"

text \<open>An error is reported exactly when some probe failed, and the numbers of the others are still read.\<close>

lemma GetSystemInfo_error:
  "snd (GetSystemInfo p) = None \<longleftrightarrow>
    (\<exists>x xs m d u. pb_cpu p = (x # xs, None) \<and> pb_mem p = Inl m \<and> pb_disk p = Inl d \<and> pb_uptime p = Inl u)"
  by (auto simp: GetSystemInfo_def read_probe_def failed_text_def Let_def split: list.splits prod.splits option.splits sum.splits)

lemma GetSystemInfo_reads:
  "pb_mem p = Inl m \<Longrightarrow> ns_Mem (fst (GetSystemInfo p)) = m"
  "pb_disk p = Inl d \<Longrightarrow> ns_Disk (fst (GetSystemInfo p)) = d"
  "pb_uptime p = Inl u \<Longrightarrow> ns_Uptime (fst (GetSystemInfo p)) = u"
  by (auto simp: GetSystemInfo_def read_probe_def Let_def split: prod.splits)

record 'f ServerPushStatusRequest =
  sr_Cpu :: 'f
  sr_Mem :: 'f
  sr_Disk :: 'f
  sr_Uptime :: nat
  sr_UpdatedAt :: int

definition ReportNodeStatus :: "('f ServerPushStatusRequest \<Rightarrow> string option) \<Rightarrow> int \<Rightarrow> 'f NodeStatus \<Rightarrow> unit outcome" where
  "ReportNodeStatus post nowMilli st =
    (case post \<lparr>sr_Cpu = ns_CPU st, sr_Mem = ns_Mem st, sr_Disk = ns_Disk st, sr_Uptime = ns_Uptime st, sr_UpdatedAt = nowMilli\<rparr> of
       Some e \<Rightarrow> Fail (''request failed: '' @ e)
     | None \<Rightarrow> Ret ())"

text \<open>The end of the report task prints the errors of both steps and goes on: it succeeds, and it sends a
  status whatever the probes said, with zeros for what could not be read.\<close>

definition report_status :: "'f probe \<Rightarrow> ('f ServerPushStatusRequest \<Rightarrow> string option) \<Rightarrow> int \<Rightarrow> string list \<times> unit outcome" where
  "report_status p post nowMilli =
    (case GetSystemInfo p of (status, err) \<Rightarrow>
       (let printed = (case err of None \<Rightarrow> [] | Some e \<Rightarrow> [e]) @
              (case ReportNodeStatus post nowMilli status of Fail e \<Rightarrow> [e] | _ \<Rightarrow> [])
        in (printed, Ret ())))"

lemma failed_probe_reports_zero:
  "pb_mem p = Inr e \<Longrightarrow> ns_Mem (fst (GetSystemInfo p)) = pb_zero p \<and> snd (report_status p post now) = Ret ()"
  by (auto simp: GetSystemInfo_def report_status_def read_probe_def Let_def split: prod.splits)

section \<open>Deprecated fields\<close>

record RecorderConfig =
  rc_Url :: string
  rc_Token :: string
  rc_Timeout :: int

record RedisConfig =
  rd_Address :: string
  rd_Password :: string
  rd_Db :: int
  rd_Expiry :: int

record IpReportConfig =
  ir_Periodic :: int
  ir_Type :: string
  ir_RecorderConfig :: "RecorderConfig option"
  ir_RedisConfig :: "RedisConfig option"
  ir_EnableIpSync :: bool

text \<open>The limit configuration with the two fields that nothing else reads.\<close>

record FullLimitConfig = LimitConfig +
  lc_EnableIpRecorder :: bool
  lc_IpRecorderConfig :: "IpReportConfig option"

datatype warning = WarnUot | WarnIpRecorder | WarnIpRecorderConfig

definition warnDeprecatedXrayOptions :: "XrayOptions option \<Rightarrow> warning list" where
  "warnDeprecatedXrayOptions x =
    (case x of None \<Rightarrow> [] | Some x \<Rightarrow> if xo_EnableUot x then [WarnUot] else [])"

definition warnDeprecatedLimitFields :: "FullLimitConfig option \<Rightarrow> warning list" where
  "warnDeprecatedLimitFields lc =
    (case lc of
       None \<Rightarrow> []
     | Some lc \<Rightarrow>
         (if lc_EnableIpRecorder lc then [WarnIpRecorder] else []) @
         (case lc_IpRecorderConfig lc of
            None \<Rightarrow> []
          | Some ipc \<Rightarrow>
              (let set = ir_Periodic ipc \<noteq> 0 \<or> ir_Type ipc \<noteq> '''' \<or> ir_EnableIpSync ipc \<or>
                 ir_RecorderConfig ipc \<noteq> None \<or> ir_RedisConfig ipc \<noteq> None
               in if set then [WarnIpRecorderConfig] else [])))"

text \<open>The zero value of a deprecated configuration gives no warning, and nothing else is silent.\<close>

lemma silent_IpRecorderConfig:
  "warnDeprecatedLimitFields (Some (lc\<lparr>lc_EnableIpRecorder := False, lc_IpRecorderConfig := Some ipc\<rparr>)) = [] \<longleftrightarrow>
     ipc = \<lparr>ir_Periodic = 0, ir_Type = '''', ir_RecorderConfig = None, ir_RedisConfig = None, ir_EnableIpSync = False\<rparr>"
  by (cases ipc) (auto simp: warnDeprecatedLimitFields_def Let_def)

section \<open>Log fields\<close>

text \<open>\<open>Duration.Round\<close>: to the nearest multiple, halves away from zero.\<close>

definition go_Round :: "int \<Rightarrow> int \<Rightarrow> int" where
  "go_Round d m = (if m \<le> 0 then d else sgn d * ((\<bar>d\<bar> + m div 2) div m * m))"

datatype field = FStr string | FInt int | FPort uint16 | FList "string list" | FDuration int

type_synonym fields = "(string, field) gomap"

definition mergeFields :: "fields \<Rightarrow> fields \<Rightarrow> fields" where
  "mergeFields base extra = gm.store_all (gm.store_all [] base) extra"

lemma mload_mergeFields:
  assumes "mwf base" and "mwf extra"
  shows "mload (mergeFields base extra) k = (case mload extra k of None \<Rightarrow> mload base k | Some v \<Rightarrow> Some v)"
proof -
  have "map_of (rev m) = map_of m" if "mwf m" for m :: fields
  proof
    fix k
    have "map_of (rev m) k = Some v \<longleftrightarrow> map_of m k = Some v" for v
      using that by (simp add: map_of_eq_Some_iff rev_map [symmetric])
    then show "map_of (rev m) k = map_of m k" by (metis not_None_eq)
  qed
  with assms show ?thesis by (simp add: mergeFields_def gm.load_store_all split: option.splits)
qed

definition logFields :: "Controller \<Rightarrow> fields" where
  "logFields c = [(''logical_tag'', FStr (ct_logicalTag c)), (''core'', FStr (ct_coreType c)), (''runtime_key'', FStr (ct_runtimeKey c))]"

text \<open>Reading the protocol of a node without a payload is a nil dereference.\<close>

definition startupLogFields :: "Controller \<Rightarrow> NodeInfo \<Rightarrow> fields outcome" where
  "startupLogFields c node =
    (case ni_Common node of
       None \<Rightarrow> Panic
     | Some common \<Rightarrow>
         (let f = mstore (logFields c) ''protocol'' (FStr (cn_Protocol common));
              f = mstore f ''server_id'' (FInt (ni_Id node));
              f = mstore f ''listen_addr'' (FStr (normalizeListenAddr (op_ListenIP (ct_options c))));
              f = (case protocolPort node of Ret port \<Rightarrow> mstore f ''port'' (FPort port) | _ \<Rightarrow> f);
              transports = protocolTransports (cn_Protocol common)
          in Ret (if length transports > 0 then mstore f ''network'' (FList transports) else f)))"

definition effectiveRenewBeforeDays :: "CertConfig \<Rightarrow> int" where
  "effectiveRenewBeforeDays cfg = (if cc_RenewBeforeDays cfg > 0 then cc_RenewBeforeDays cfg else DefaultRenewBeforeDays)"

definition certBaseFields :: "CertConfig \<Rightarrow> string \<Rightarrow> int \<Rightarrow> fields" where
  "certBaseFields cfg action remaining =
    (let f = [(''cert_action'', FStr action), (''domain'', FStr (cc_CertDomain cfg)), (''cert_file'', FStr (cc_CertFile cfg)),
       (''key_file'', FStr (cc_KeyFile cfg)), (''renew_before_days'', FInt (effectiveRenewBeforeDays cfg))]
     in if remaining > 0 then mstore f ''remaining'' (FDuration (go_Round remaining (sint hour))) else f)"

text \<open>The days that the log names are the days that the renewal window counts.\<close>

lemma renewBefore_effective:
  assumes "effectiveRenewBeforeDays cfg \<le> 106751"
  shows "renewBefore cfg = effectiveRenewBeforeDays cfg * 24 * sint hour"
proof -
  let ?d = "effectiveRenewBeforeDays cfg"
  have h: "hour = 3600000000000" "sint hour = 3600000000000" by (simp_all add: hour_def minute_def second_def)
  have d: "0 < ?d" by (simp add: effectiveRenewBeforeDays_def DefaultRenewBeforeDays_def)
  have "(word_of_int ?d :: int64) * 24 * hour = word_of_int (?d * 24 * 3600000000000)" by (simp add: h)
  then have "sint ((word_of_int ?d :: int64) * 24 * hour) = ?d * 24 * 3600000000000"
    using sint64_of_int [of "?d * 24 * 3600000000000"] assms d by simp
  moreover have "(if cc_RenewBeforeDays cfg \<le> 0 then DefaultRenewBeforeDays else cc_RenewBeforeDays cfg) = ?d"
    by (simp add: effectiveRenewBeforeDays_def)
  ultimately show ?thesis by (simp add: renewBefore_def Let_def h)
qed

text \<open>A window of more days than fit wraps around: the log names it, and no certificate is ever in it.\<close>

lemma renewBefore_overflow: "renewBefore (cfg\<lparr>cc_RenewBeforeDays := 106752\<rparr>) < 0"
  by (simp add: renewBefore_def hour_def minute_def second_def)

end
