(* ===== verification/CoreLaws.thy ===== *)
theory CoreLaws
  imports CoreInit CoreUsers
begin

text \<open>
  The two embedded cores behind the interface \<open>core/interface.go\<close>, and why a controller may rely on them:
  the handlers of \<open>core/xray/node.go\<close> on a running server, the method tables of both cores, and the laws
  that the theories of the controllers, the nodes and the selector ask of a core. The managers of the
  embedded servers are parameters; what is known of them is stated as a predicate.
\<close>

section \<open>Handlers of the xray core\<close>

text \<open>A manager of the server, for inbounds or for outbounds: creating an object, which need not be a
  handler of the right kind, adding a handler and removing it by its tag.\<close>

record ('cfg, 'h, 's) handler_manager =
  hm_CreateObject :: "'cfg \<Rightarrow> 's \<Rightarrow> 'h option outcome \<times> 's"
  hm_AddHandler :: "'h \<Rightarrow> 's \<Rightarrow> unit outcome \<times> 's"
  hm_RemoveHandler :: "string \<Rightarrow> 's \<Rightarrow> unit outcome \<times> 's"

text \<open>\<open>addInbound\<close> and \<open>addOutbound\<close> are the same code on their managers; a core without its features has a
  nil manager.\<close>

definition add_handler :: "('cfg, 'h, 's) handler_manager \<Rightarrow> 'cfg \<Rightarrow> 's xray_core \<Rightarrow> unit outcome \<times> 's xray_core" where
  "add_handler H config c =
    (case hm_CreateObject H config (xk_Server c) of
       (Panic, s) \<Rightarrow> (Panic, c\<lparr>xk_Server := s\<rparr>)
     | (Fail e, s) \<Rightarrow> (Fail e, c\<lparr>xk_Server := s\<rparr>)
     | (Ret None, s) \<Rightarrow> (Fail ''not an InboundHandler'', c\<lparr>xk_Server := s\<rparr>)
     | (Ret (Some handler), s) \<Rightarrow>
         if \<not> xk_features c then (Panic, c\<lparr>xk_Server := s\<rparr>)
         else (case hm_AddHandler H handler s of (r, s') \<Rightarrow> (r, c\<lparr>xk_Server := s'\<rparr>)))"

definition remove_handler :: "('cfg, 'h, 's) handler_manager \<Rightarrow> string \<Rightarrow> 's xray_core \<Rightarrow> unit outcome \<times> 's xray_core" where
  "remove_handler H tag c =
    (if \<not> xk_features c then (Panic, c)
     else (case hm_RemoveHandler H tag (xk_Server c) of (r, s) \<Rightarrow> (r, c\<lparr>xk_Server := s\<rparr>)))"

definition xray_managers :: "('cfg, 'h, 's) handler_manager \<Rightarrow> ('out, 'o, 's) handler_manager \<Rightarrow> (OutboundDetourConfig \<Rightarrow> 'out outcome)
    \<Rightarrow> ('cfg, 'out, 's xray_core) xray_server" where
  "xray_managers ihm ohm build = \<lparr>xm_BuildOut = build, xm_AddIn = add_handler ihm, xm_AddOut = add_handler ohm,
     xm_RemoveIn = remove_handler ihm, xm_RemoveOut = remove_handler ohm\<rparr>"

section \<open>The cores as tables of methods\<close>

text \<open>The traffic methods read the dispatcher, which is nil without the features.\<close>

definition xray_traffic :: "(UserMaps \<Rightarrow> 'r outcome \<times> UserMaps) \<Rightarrow> 's xray_core Xray \<Rightarrow> 'r outcome \<times> 's xray_core Xray" where
  "xray_traffic f x =
    (if \<not> xk_features (xr_Server x) then (Panic, x) else (case f (xr_maps x) of (r, m) \<Rightarrow> (r, x\<lparr>xr_maps := m\<rparr>)))"

definition xray_Core :: "('ip, 'cfg) xray_lib \<Rightarrow> ('cfg, 'out, 's xray_core) xray_server \<Rightarrow> (string \<Rightarrow> string) \<Rightarrow> 's xray_core user_manager
    \<Rightarrow> 's xray_core Xray Core" where
  "xray_Core V S b64 M =
    \<lparr>co_AddNode = (\<lambda>tag info opt x. case Xray_AddNode V S tag info opt (xr_Server x) of (r, opt', c) \<Rightarrow> (r, opt', x\<lparr>xr_Server := c\<rparr>)),
     co_DelNode = (\<lambda>tag x. case Xray_DelNode S tag (xr_Server x) of (r, c) \<Rightarrow> (r, x\<lparr>xr_Server := c\<rparr>)),
     co_AddUsers = Xray_AddUsers b64 M,
     co_GetUserTrafficSlice = (\<lambda>tag reset. xray_traffic (\<lambda>m. case GetUserTrafficSlice m tag reset of (sl, m') \<Rightarrow> (Ret sl, m'))),
     co_AddUserTrafficSlice = (\<lambda>tag traffic x. if traffic = [] then (Ret (), x) else xray_traffic (\<lambda>m. AddUserTrafficSlice m tag traffic) x),
     co_DelUsers = Xray_DelUsers M,
     co_Protocols = (\<lambda>x. Xray_Protocols), co_Type = (\<lambda>x. Xray_Type)\<rparr>"

definition sing_Core :: "'ip sing_lib \<Rightarrow> ('ip, 'b) sing_box \<Rightarrow> (string \<Rightarrow> string) \<Rightarrow> 'b sing_inbounds \<Rightarrow> 'b Sing Core" where
  "sing_Core V B b64 N =
    \<lparr>co_AddNode = (\<lambda>tag info opt s. case Sing_AddNode V B tag info opt (sg_box s) of (r, opt', b) \<Rightarrow> (r, opt', s\<lparr>sg_box := b\<rparr>)),
     co_DelNode = (\<lambda>tag s. case Sing_DelNode B tag (sg_box s) of (r, b) \<Rightarrow> (r, s\<lparr>sg_box := b\<rparr>)),
     co_AddUsers = Sing_AddUsers b64 N,
     co_GetUserTrafficSlice = Sing_GetUserTrafficSlice,
     co_AddUserTrafficSlice = Sing_AddUserTrafficSlice,
     co_DelUsers = Sing_DelUsers N,
     co_Protocols = (\<lambda>s. Sing_Protocols), co_Type = (\<lambda>s. Sing_Type)\<rparr>"

section \<open>What is known of the managers\<close>

text \<open>
  \<open>up\<close> are the inbounds a server serves. Of an inbound manager: creating an object changes nothing and
  gives a handler with the tag of its configuration, adding a handler serves its tag or, when it fails,
  nothing new, and after removing a tag it is not served. Of an outbound manager: it leaves the inbounds
  alone. Of user managers and of the box: the same.
\<close>

definition inbound_laws :: "('cfg, 'h, 's) handler_manager \<Rightarrow> ('cfg \<Rightarrow> string) \<Rightarrow> ('h \<Rightarrow> string) \<Rightarrow> ('s \<Rightarrow> string set) \<Rightarrow> bool" where
  "inbound_laws H ctag htag up \<longleftrightarrow>
     (\<forall>c s r s'. hm_CreateObject H c s = (r, s') \<longrightarrow> up s' = up s \<and> (\<forall>h. r = Ret (Some h) \<longrightarrow> htag h = ctag c)) \<and>
     (\<forall>h s r s'. hm_AddHandler H h s = (r, s') \<longrightarrow> up s' = (if r = Ret () then insert (htag h) (up s) else up s)) \<and>
     (\<forall>t s r s'. hm_RemoveHandler H t s = (r, s') \<longrightarrow> up s' = up s - {t})"

definition outbound_laws :: "('out, 'o, 's) handler_manager \<Rightarrow> ('s \<Rightarrow> string set) \<Rightarrow> bool" where
  "outbound_laws H up \<longleftrightarrow>
     (\<forall>c s. up (snd (hm_CreateObject H c s)) = up s) \<and> (\<forall>h s. up (snd (hm_AddHandler H h s)) = up s) \<and>
     (\<forall>t s. up (snd (hm_RemoveHandler H t s)) = up s)"

definition box_laws :: "('ip, 'b) sing_box \<Rightarrow> 'b sing_inbounds \<Rightarrow> ('b \<Rightarrow> string set) \<Rightarrow> bool" where
  "box_laws B N up \<longleftrightarrow>
     (\<forall>t ty o1 b r b'. sb_Create B t ty o1 b = (r, b') \<longrightarrow> up b' = (if r = Ret () then insert t (up b) else up b)) \<and>
     (\<forall>t b r b'. sb_Remove B t b = (r, b') \<longrightarrow> up b' = up b - {t}) \<and>
     (\<forall>t us b. up (snd (bx_AddUsers N t us b)) = up b)"

section \<open>The laws of the cores\<close>

lemma add_handler_features [simp]: "xk_features (snd (add_handler H cfg c)) = xk_features c"
  by (simp add: add_handler_def split: outcome.split option.split prod.split)

lemma remove_handler_features [simp]: "xk_features (snd (remove_handler H t c)) = xk_features c"
  by (simp add: remove_handler_def split: prod.split)

lemma add_handler_stopped: "\<not> xk_features c \<Longrightarrow> fst (add_handler H cfg c) \<noteq> Ret ()"
  by (simp add: add_handler_def split: outcome.split option.split prod.split)

text \<open>The state a handler call leaves the server in.\<close>

lemma add_handler_server:
  "xk_Server (snd (add_handler H cfg c)) =
     (case hm_CreateObject H cfg (xk_Server c) of
        (Ret (Some h), s) \<Rightarrow> if xk_features c then snd (hm_AddHandler H h s) else s | (_, s) \<Rightarrow> s)"
  by (simp add: add_handler_def split: outcome.split option.split prod.split)

lemma remove_handler_server:
  "xk_Server (snd (remove_handler H t c)) = (if xk_features c then snd (hm_RemoveHandler H t (xk_Server c)) else xk_Server c)"
  by (simp add: remove_handler_def split: prod.split)

lemma inbound_create:
  assumes "inbound_laws H ctag htag up" and "hm_CreateObject H c s = (r, s')"
  shows "up s' = up s \<and> (\<forall>h. r = Ret (Some h) \<longrightarrow> htag h = ctag c)"
  by (rule assms(1) [unfolded inbound_laws_def, THEN conjunct1, rule_format, OF assms(2)])

lemma inbound_add:
  assumes "inbound_laws H ctag htag up" and "hm_AddHandler H h s = (r, s')"
  shows "up s' = (if r = Ret () then insert (htag h) (up s) else up s)"
  by (rule assms(1) [unfolded inbound_laws_def, THEN conjunct2, THEN conjunct1, rule_format, OF assms(2)])

lemma inbound_remove:
  assumes "inbound_laws H ctag htag up" and "hm_RemoveHandler H t s = (r, s')"
  shows "up s' = up s - {t}"
  by (rule assms(1) [unfolded inbound_laws_def, THEN conjunct2, THEN conjunct2, rule_format, OF assms(2)])

lemma add_inbound_up:
  assumes laws: "inbound_laws H ctag htag up"
  shows "up (xk_Server (snd (add_handler H cfg c))) =
    (if fst (add_handler H cfg c) = Ret () then insert (ctag cfg) (up (xk_Server c)) else up (xk_Server c))"
proof -
  obtain t s where cr: "hm_CreateObject H cfg (xk_Server c) = (t, s)" by force
  note s = inbound_create [OF laws cr]
  show ?thesis
  proof (cases "\<exists>h. t = Ret (Some h) \<and> xk_features c")
    case True
    then obtain h where h: "t = Ret (Some h)" "xk_features c" by blast
    obtain r1 s1 where a: "hm_AddHandler H h s = (r1, s1)" by force
    note s1 = inbound_add [OF laws a]
    have "add_handler H cfg c = (r1, c\<lparr>xk_Server := s1\<rparr>)" using cr h a by (simp add: add_handler_def)
    with s1 s h show ?thesis by simp
  next
    case False
    with cr have "fst (add_handler H cfg c) \<noteq> Ret () \<and> xk_Server (snd (add_handler H cfg c)) = s"
      by (cases "xk_features c"; simp add: add_handler_def split: outcome.split option.split)
    with s show ?thesis by simp
  qed
qed

lemma add_outbound_up:
  assumes laws: "outbound_laws H up"
  shows "up (xk_Server (snd (add_handler H cfg c))) = up (xk_Server c)"
proof -
  obtain t s where cr: "hm_CreateObject H cfg (xk_Server c) = (t, s)" by force
  have "up (snd (hm_CreateObject H cfg (xk_Server c))) = up (xk_Server c)" using laws by (simp add: outbound_laws_def)
  then have s: "up s = up (xk_Server c)" by (simp add: cr)
  moreover have "up (snd (hm_AddHandler H h s)) = up s" for h using laws by (simp add: outbound_laws_def)
  ultimately show ?thesis by (simp add: add_handler_server cr split: outcome.split option.split)
qed

lemma remove_outbound_up:
  "outbound_laws H up \<Longrightarrow> up (xk_Server (snd (remove_handler H t c))) = up (xk_Server c)"
  by (simp add: remove_handler_server outbound_laws_def)

lemma remove_inbound_up:
  assumes "inbound_laws H ctag htag up" and "xk_features c"
  shows "up (xk_Server (snd (remove_handler H t c))) = up (xk_Server c) - {t}"
proof -
  obtain r1 s1 where a: "hm_RemoveHandler H t (xk_Server c) = (r1, s1)" by force
  with inbound_remove [OF assms(1) a] assms(2) show ?thesis by (simp add: remove_handler_server)
qed


text \<open>What a core serves: nothing before it was started and after it was closed.\<close>

definition serving_server :: "('s \<Rightarrow> string set) \<Rightarrow> 's xray_core \<Rightarrow> string set" where
  "serving_server up c = (if xk_features c then up (xk_Server c) else {})"

definition served :: "('s \<Rightarrow> string set) \<Rightarrow> 's xray_core Xray \<Rightarrow> string set" where
  "served up x = serving_server up (xr_Server x)"

definition sing_served :: "('b \<Rightarrow> string set) \<Rightarrow> 'b Sing \<Rightarrow> string set" where
  "sing_served up s = up (sg_box s)"

lemma inbound_config_tag: "inbound_config V opt info tag = Ret i \<Longrightarrow> ix_Tag i = tag"
  by (auto simp: inbound_config_def Let_def bindR_Ret split: option.splits prod.splits)

lemma Xray_AddNode_served:
  assumes S: "S = xray_managers ihm ohm build" and inb: "inbound_laws ihm ctag htag up" and out: "outbound_laws ohm up"
    and tag: "\<And>i c. xv_Build V i = Ret c \<Longrightarrow> ctag c = ix_Tag i"
    and add: "Xray_AddNode V S tag info opt c = (r, opt', c')"
  shows "serving_server up c' = (if r = Ret () then insert tag (serving_server up c) else serving_server up c) \<or>
    (r \<noteq> Ret () \<and> serving_server up c' = insert tag (serving_server up c) \<and>
     ((\<forall>o1. buildOutbound build opt tag \<noteq> Ret o1) \<or> (\<exists>o1 c1. buildOutbound build opt tag = Ret o1 \<and> xk_features c1 \<and> fst (add_handler ohm o1 c1) \<noteq> Ret ())))"
proof (cases "buildInbound V opt (Some info) tag")
  case (Ret cfg)
  then obtain i where i: "inbound_config V opt (Some info) tag = Ret i" "xv_Build V i = Ret cfg"
    by (auto simp: buildInbound_def bindR_Ret)
  have t: "ctag cfg = tag" using tag [OF i(2)] inbound_config_tag [OF i(1)] by simp
  obtain r1 c1 where a: "add_handler ihm cfg c = (r1, c1)" by force
  have f1: "xk_features c1 = xk_features c" using add_handler_features [of ihm cfg c] a by simp
  have u1: "up (xk_Server c1) = (if r1 = Ret () then insert tag (up (xk_Server c)) else up (xk_Server c))"
    using add_inbound_up [OF inb, of cfg c] a t by simp
  have st: "r1 = Ret () \<Longrightarrow> xk_features c" using add_handler_stopped [of c ihm cfg] a by auto
  show ?thesis
  proof (cases "r1 = Ret ()")
    case False
    with add Ret a have "r \<noteq> Ret () \<and> c' = c1"
      by (cases r1) (auto simp: Xray_AddNode_def S xray_managers_def wrapErr_def)
    with f1 u1 False show ?thesis by (simp add: serving_server_def)
  next
    case True
    show ?thesis
    proof (cases "buildOutbound build opt tag")
      case O: (Ret o1)
      obtain r2 c2 where b: "add_handler ohm o1 c1 = (r2, c2)" by force
      have c2: "xk_features c2 = xk_features c1" "up (xk_Server c2) = up (xk_Server c1)"
        using add_handler_features [of ohm o1 c1] add_outbound_up [OF out, of o1 c1] b by simp_all
      from add Ret a True O b have "c' = c2 \<and> (r = Ret () \<longleftrightarrow> r2 = Ret ())"
        by (cases r2) (auto simp: Xray_AddNode_def S xray_managers_def wrapErr_def)
      with c2 f1 u1 True st O b show ?thesis by (cases "r2 = Ret ()") (auto simp: serving_server_def intro: exI [of _ c1])
    next
      case (Fail e)
      with add Ret a True have "c' = c1 \<and> r \<noteq> Ret ()"
        by (auto simp: Xray_AddNode_def S xray_managers_def wrapErr_def)
      with f1 u1 True st Fail show ?thesis by (simp add: serving_server_def)
    next
      case Panic
      with add Ret a True have "c' = c1 \<and> r \<noteq> Ret ()"
        by (auto simp: Xray_AddNode_def S xray_managers_def wrapErr_def)
      with f1 u1 True st Panic show ?thesis by (simp add: serving_server_def)
    qed
  qed
qed (use add in \<open>auto simp: Xray_AddNode_def\<close>)


lemma Xray_DelNode_served:
  assumes S: "S = xray_managers ihm ohm build" and inb: "inbound_laws ihm ctag htag up" and out: "outbound_laws ohm up"
    and del: "Xray_DelNode S tag c = (r, c')"
  shows "serving_server up c' = serving_server up c - {tag}"
proof -
  obtain r1 c1 where a: "remove_handler ihm tag c = (r1, c1)" by force
  obtain r2 c2 where b: "remove_handler ohm tag c1 = (r2, c2)" by force
  have c1: "xk_features c1 = xk_features c" "xk_features c \<Longrightarrow> up (xk_Server c1) = up (xk_Server c) - {tag}"
    using remove_handler_features [of ihm tag c] remove_inbound_up [OF inb, of c tag] a by simp_all
  have c2: "xk_features c2 = xk_features c1" "up (xk_Server c2) = up (xk_Server c1)"
    using remove_handler_features [of ohm tag c1] remove_outbound_up [OF out, of tag c1] b by simp_all
  have "c' = c1 \<or> c' = c2"
    using del a b by (cases r1; cases r2) (auto simp: Xray_DelNode_def S xray_managers_def wrapErr_def)
  with c1 c2 show ?thesis by (auto simp: serving_server_def)
qed

lemma add_accounts_keeps:
  assumes "\<And>t u x. f (snd (ug_AddUser M t u x)) = f x"
  shows "f (snd (add_accounts M tag us x)) = f x"
proof (induction us arbitrary: x)
  case (Cons u us)
  obtain r x1 where a: "ug_AddUser M tag u x = (r, x1)" by force
  with assms [of tag u x] have x1: "f x1 = f x" by simp
  show ?case
  proof (cases "ug_ToMemoryUser M u")
    case (Ret v)
    with a Cons.IH [of x1] x1 show ?thesis by (cases r) simp_all
  qed simp_all
qed simp

lemma Xray_AddUsers_served:
  assumes "\<And>t u c. serving_server up (snd (ug_AddUser M t u c)) = serving_server up c"
  shows "served up (snd (Xray_AddUsers b64 M tag users info x)) = served up x"
proof -
  have "serving_server up (snd (add_accounts M tag us c)) = serving_server up c" for us c
    by (rule add_accounts_keeps) (rule assms)
  then have keep: "add_accounts M tag us c = (t, s) \<Longrightarrow> serving_server up s = serving_server up c" for us c t s
    by (metis snd_conv)
  show ?thesis
    by (auto simp: Xray_AddUsers_def Let_def served_def dest!: keep split: outcome.split prod.split)
qed

lemma box_create:
  assumes "box_laws B N up" and "sb_Create B t ty o1 b = (r, b')"
  shows "up b' = (if r = Ret () then insert t (up b) else up b)"
  by (rule assms(1) [unfolded box_laws_def, THEN conjunct1, rule_format, OF assms(2)])

lemma box_remove:
  assumes "box_laws B N up" and "sb_Remove B t b = (r, b')"
  shows "up b' = up b - {t}"
  by (rule assms(1) [unfolded box_laws_def, THEN conjunct2, THEN conjunct1, rule_format, OF assms(2)])

lemma Sing_AddUsers_served:
  assumes "box_laws B N up"
  shows "up (sg_box (snd (Sing_AddUsers b64 N tag users info s))) = up (sg_box s)"
proof -
  have "up (snd (bx_AddUsers N t us b)) = up b" for t us b using assms by (simp add: box_laws_def)
  then have keep: "bx_AddUsers N t us b = (r, b') \<Longrightarrow> up b' = up b" for t us b r b'
    by (metis snd_conv)
  show ?thesis
    by (auto simp: Sing_AddUsers_def Let_def dest!: keep split: outcome.split option.split prod.split)
qed

lemma sing_core_laws:
  assumes laws: "box_laws B N bup"
  shows "core_laws (sing_Core W B b64 N) (sing_served bup)"
  unfolding core_laws_def
proof (intro conjI allI impI)
  fix t n opt k r opt' k'
  assume "co_AddNode (sing_Core W B b64 N) t n opt k = (r, opt', k')"
  moreover have "bup b' = (if r = Ret () then insert t (bup b) else bup b)" if "sb_Create B t ty o1 b = (r, b')" for ty o1 b r b'
    using box_create [OF laws that] .
  ultimately show "sing_served bup k' = (if r = Ret () then insert t (sing_served bup k) else sing_served bup k)"
    by (fastforce simp: sing_Core_def Sing_AddNode_def sing_served_def split: outcome.splits prod.splits)
next
  fix t k r k'
  assume "co_DelNode (sing_Core W B b64 N) t k = (r, k')"
  moreover have "bup b' = bup b - {t}" if "sb_Remove B t b = (r, b')" for b r b' using box_remove [OF laws that] .
  ultimately show "sing_served bup k' = sing_served bup k - {t}"
    by (fastforce simp: sing_Core_def Sing_DelNode_def sing_served_def split: outcome.splits prod.splits)
next
  fix t us n k r k'
  assume "co_AddUsers (sing_Core W B b64 N) t us n k = (r, k')"
  then show "sing_served bup k' = sing_served bup k"
    using Sing_AddUsers_served [OF laws, of b64 t us n k] by (simp add: sing_Core_def sing_served_def)
qed

text \<open>The three calls of the xray core.\<close>

lemma xray_core_AddNode:
  assumes "inbound_laws ihm ctag htag up" and "outbound_laws ohm up" and "\<And>i c. xv_Build V i = Ret c \<Longrightarrow> ctag c = ix_Tag i"
    and "co_AddNode (xray_Core V (xray_managers ihm ohm build) b64 M) tag info opt x = (r, opt', x')"
  shows "served up x' = (if r = Ret () then insert tag (served up x) else served up x) \<or>
    r \<noteq> Ret () \<and> served up x' = insert tag (served up x) \<and>
      ((\<forall>o1. buildOutbound build opt tag \<noteq> Ret o1) \<or>
       (\<exists>o1 c1. buildOutbound build opt tag = Ret o1 \<and> xk_features c1 \<and> fst (add_handler ohm o1 c1) \<noteq> Ret ()))"
proof -
  from assms(4) obtain c where x': "Xray_AddNode V (xray_managers ihm ohm build) tag info opt (xr_Server x) = (r, opt', c)" "x' = x\<lparr>xr_Server := c\<rparr>"
    by (auto simp: xray_Core_def split: prod.splits)
  then have sx: "served up x' = serving_server up c" "served up x = serving_server up (xr_Server x)" by (simp_all add: served_def)
  show ?thesis unfolding sx by (rule Xray_AddNode_served [OF refl assms(1-3) x'(1)])
qed

lemma xray_core_DelNode:
  assumes "inbound_laws ihm ctag htag up" and "outbound_laws ohm up"
    and "co_DelNode (xray_Core V (xray_managers ihm ohm build) b64 M) tag x = (r, x')"
  shows "served up x' = served up x - {tag}"
proof -
  from assms(3) obtain c where "Xray_DelNode (xray_managers ihm ohm build) tag (xr_Server x) = (r, c)" "x' = x\<lparr>xr_Server := c\<rparr>"
    by (auto simp: xray_Core_def split: prod.splits)
  with Xray_DelNode_served [OF refl assms(1,2) this(1)] show ?thesis by (simp add: served_def)
qed

lemma xray_core_AddUsers:
  assumes "\<And>t u c. serving_server up (snd (ug_AddUser M t u c)) = serving_server up c"
    and "co_AddUsers (xray_Core V S b64 M) tag us info x = (r, x')"
  shows "served up x' = served up x"
  using Xray_AddUsers_served [where M = M and up = up, OF assms(1), of b64 tag us info x] assms(2) by (simp add: xray_Core_def)

text \<open>Where outbounds never fail, the xray core is lawful without exception, so the theorems on controllers,
  nodes and selectors apply to it.\<close>

lemma xray_core_laws:
  assumes "inbound_laws ihm ctag htag up" and "outbound_laws ohm up" and "\<And>i c. xv_Build V i = Ret c \<Longrightarrow> ctag c = ix_Tag i"
    and "\<And>t u c. serving_server up (snd (ug_AddUser M t u c)) = serving_server up c"
    and "\<And>opt tag. \<exists>o1. buildOutbound build opt tag = Ret o1" and "\<And>o1 c. xk_features c \<Longrightarrow> fst (add_handler ohm o1 c) = Ret ()"
  shows "core_laws (xray_Core V (xray_managers ihm ohm build) b64 M) (served up)"
  unfolding core_laws_def
proof (intro conjI allI impI)
  fix t n opt x r opt' x'
  assume "co_AddNode (xray_Core V (xray_managers ihm ohm build) b64 M) t n opt x = (r, opt', x')"
  from xray_core_AddNode [OF assms(1-3) this] assms(5) [of opt t] assms(6)
  show "served up x' = (if r = Ret () then insert t (served up x) else served up x)" by metis
next
  fix t x r x'
  assume "co_DelNode (xray_Core V (xray_managers ihm ohm build) b64 M) t x = (r, x')"
  then show "served up x' = served up x - {t}" by (rule xray_core_DelNode [OF assms(1,2)])
next
  fix t us n x r x'
  assume "co_AddUsers (xray_Core V (xray_managers ihm ohm build) b64 M) t us n x = (r, x')"
  then show "served up x' = served up x" by (rule xray_core_AddUsers [OF assms(4)])
qed


text \<open>A server as the list of its inbound tags.\<close>

definition demo_ihm :: "(string, string, string list) handler_manager" where
  "demo_ihm = \<lparr>hm_CreateObject = (\<lambda>c s. (Ret (Some c), s)), hm_AddHandler = (\<lambda>h s. (Ret (), h # s)),
     hm_RemoveHandler = (\<lambda>t s. (Ret (), removeAll t s))\<rparr>"

definition demo_ohm :: "(string, string, string list) handler_manager" where
  "demo_ohm = \<lparr>hm_CreateObject = (\<lambda>c s. (Ret (Some c), s)), hm_AddHandler = (\<lambda>h s. (Ret (), s)), hm_RemoveHandler = (\<lambda>t s. (Ret (), s))\<rparr>"

definition demo_user_manager :: "string list xray_core user_manager" where
  "demo_user_manager = \<lparr>ug_Get = (\<lambda>t c. Ret ()), ug_ToMemoryUser = (\<lambda>u. Ret ()), ug_AddUser = (\<lambda>t u c. (Ret (), c)),
     ug_RemoveUser = (\<lambda>t e c. (Ret (), c))\<rparr>"

definition demo_box :: "(string, string list) sing_box" where
  "demo_box = \<lparr>sb_Create = (\<lambda>t ty o1 b. (Ret (), t # b)), sb_Remove = (\<lambda>t b. (Ret (), removeAll t b))\<rparr>"

definition demo_inbounds :: "string list sing_inbounds" where
  "demo_inbounds = \<lparr>bx_Get = (\<lambda>t b. Some ''vmess''), bx_AddUsers = (\<lambda>t us b. (Ret (), b)), bx_DelUsers = (\<lambda>t us b. (Ret (), b))\<rparr>"

definition demo_xray_core :: "string list xray_core Xray Core" where
  "demo_xray_core = xray_Core demo_xray_lib (xray_managers demo_ihm demo_ohm (\<lambda>d. Ret (ox_Tag d))) (\<lambda>s. s) demo_user_manager"

definition demo_started :: "string list xray_core Xray" where
  "demo_started = \<lparr>xr_Server = \<lparr>xk_Server = [''xray|m''], xk_features = True, xk_uidMap = []\<rparr>, xr_maps = \<lparr>um_uidMap = [], um_Counter = []\<rparr>,
     xr_LinkManagers = [], xr_links = demo_links\<rparr>"


end
