(* ===== verification/Registry.thy ===== *)
theory Registry
  imports CoreLaws Selector
begin

text \<open>
  How the cores get into the program: the table of \<open>core/core.go\<close>, the \<open>init\<close> functions of the two
  core packages, which the packages \<open>core/imports\<close> pull in under the build tags \<open>sing\<close> and \<open>xray\<close>, and
  what a configured core type becomes from its decoding to its constructor.
\<close>

section \<open>The table of cores\<close>

definition RegisterCore :: "string \<Rightarrow> (CoreConfig \<Rightarrow> ('c Core \<times> 'c) outcome) \<Rightarrow> 'c registry \<Rightarrow> 'c registry" where
  "RegisterCore t f cores = mstore cores t f"

definition RegisteredCore :: "'c registry \<Rightarrow> string list" where
  "RegisteredCore cores = mkeys cores"

text \<open>One state type serves both cores: a constructor wraps the core it makes.\<close>

definition xray_init :: "('j, 'm, 's) xray_conf \<Rightarrow> 'c Core \<Rightarrow> ('s xray_core \<Rightarrow> 'c) \<Rightarrow> 'c registry \<Rightarrow> 'c registry" where
  "xray_init V C wrap cores = RegisterCore ''xray'' (\<lambda>c. bindR (Xray_New V c) (\<lambda>x. Ret (C, wrap x))) cores"

definition sing_init :: "('o, 't) sing_conf \<Rightarrow> 'c Core \<Rightarrow> ('t sing_core \<Rightarrow> 'c) \<Rightarrow> 'c registry \<Rightarrow> 'c registry" where
  "sing_init W C wrap cores = RegisterCore ''sing'' (\<lambda>c. bindR (Sing_New W c) (\<lambda>x. Ret (C, wrap x))) cores"

definition built_registry ::
  "bool \<Rightarrow> bool \<Rightarrow> ('c registry \<Rightarrow> 'c registry) \<Rightarrow> ('c registry \<Rightarrow> 'c registry) \<Rightarrow> 'c registry" where
  "built_registry sing xray si xi = (let r = (if sing then si [] else []) in if xray then xi r else r)"

lemma built_registry_types:
  "set (RegisteredCore (built_registry sing xray (sing_init W C w) (xray_init V D v))) =
     (if sing then {''sing''} else {}) \<union> (if xray then {''xray''} else {})"
  by (auto simp: built_registry_def sing_init_def xray_init_def RegisterCore_def RegisteredCore_def Let_def)

text \<open>A build without the package of a core refuses configurations that name it.\<close>

lemma core_not_built:
  "kc_Type c = ''xray'' \<Longrightarrow> NewCore (built_registry sing False (sing_init W C w) (xray_init V D v)) [c] = Fail ''unknown core type''"
  by (simp add: NewCore_def built_registry_def sing_init_def RegisterCore_def)

section \<open>A core type in capitals\<close>

lemma decode_other_type:
  assumes "jd_core J b zero_core = (Ret (), c)" and "kc_Type c \<noteq> ''xray''" and "kc_Type c \<noteq> ''sing''"
  shows "CoreConfig_UnmarshalJSON J b zero_core = (Ret (), c)"
  using assms by (simp add: CoreConfig_UnmarshalJSON_def)

lemma xray_builder_panics:
  "kc_XrayConfig c = None \<Longrightarrow> mload (built_registry s True (sing_init W C w) (xray_init V D v)) ''xray'' = Some f \<Longrightarrow> f c = Panic"
  by (auto simp: built_registry_def sing_init_def xray_init_def RegisterCore_def Let_def Xray_New_def split: if_splits)

text \<open>C28: The parts disagree about the case of a core type. A core whose type is the name of the xray core
  with a capital letter is decoded without an error and without its section; as the only core it is then
  refused as unknown, and as the first of several, where the type is looked up in lower case, its
  constructor dereferences the missing section and the program panics at its start.\<close>

theorem capital_core_type:
  assumes "jd_core J b zero_core = (Ret (), c)" and "kc_XrayConfig c = None"
    and "ToLower (kc_Type c) = ''xray''" and "kc_Type c \<noteq> ''xray''"
  shows "CoreConfig_UnmarshalJSON J b zero_core = (Ret (), c) \<and>
    NewCore (built_registry s True (sing_init W C w) (xray_init V D v)) [c] = Fail ''unknown core type'' \<and>
    NewCore (built_registry s True (sing_init W C w) (xray_init V D v)) (c # c2 # cs) = Panic"
proof -
  let ?reg = "built_registry s True (sing_init W C w) (xray_init V D v)"
  have sing: "kc_Type c \<noteq> ''sing''"
  proof
    assume "kc_Type c = ''sing''"
    moreover have "ToLower ''sing'' = ''sing''" by code_simp
    ultimately show False using assms(3) by simp
  qed
  have "mload ?reg (kc_Type c) = None"
    using assms(4) sing by (simp add: built_registry_def sing_init_def xray_init_def RegisterCore_def Let_def)
  moreover obtain f where f: "mload ?reg ''xray'' = Some f"
    by (simp add: built_registry_def xray_init_def RegisterCore_def)
  from xray_builder_panics [OF assms(2) f] have "NewCore ?reg (c # c2 # cs) = Panic"
    by (simp add: NewCore_def NewSelector_def assms(3) f)
  ultimately show ?thesis
    using decode_other_type [OF assms(1,4) sing] by (simp add: NewCore_def)
qed

theorem capital_core_type_witness:
  "CoreConfig_UnmarshalJSON demo_conf_decoders ''Xray'' zero_core = (Ret (), zero_core\<lparr>kc_Type := ''Xray''\<rparr>) \<and>
    (\<forall>W C w V D v. NewCore (built_registry True True (sing_init W C w) (xray_init V D v)) [zero_core\<lparr>kc_Type := ''Xray''\<rparr>, zero_core] = Panic)"
proof -
  have j: "jd_core demo_conf_decoders ''Xray'' zero_core = (Ret (), zero_core\<lparr>kc_Type := ''Xray''\<rparr>)"
    by (simp add: demo_conf_decoders_def)
  have "ToLower ''Xray'' = ''xray''" by code_simp
  then have t: "kc_XrayConfig (zero_core\<lparr>kc_Type := ''Xray''\<rparr>) = None"
    "ToLower (kc_Type (zero_core\<lparr>kc_Type := ''Xray''\<rparr>)) = ''xray''" "kc_Type (zero_core\<lparr>kc_Type := ''Xray''\<rparr>) \<noteq> ''xray''"
    by (simp_all add: zero_core_def)
  show ?thesis using capital_core_type [OF j t] by blast
qed

end
