(* ===== verification/Spec2Isabelle.thy ===== *)
theory Spec2Isabelle
  imports Watch SingHook Dispatch CertFlight Accounts Commands RateLimit HostReport Registry
begin

text \<open>
  A model of yunzes-node, the node agent of a proxy service. A panel describes nodes (inbounds) and
  users; the agent runs each node in an embedded server, xray or sing-box, limits and counts the
  traffic of its users, and reports it back.

  How the parts interact. \<open>cmd/server.go\<close> loads the configuration (\<open>conf/\<close>), builds a core (\<open>core/\<close>)
  and starts a controller for each node (\<open>node/\<close>). A controller asks the panel (\<open>api/panel\<close>) for the node
  and its users, reserves its listeners, makes sure of its certificate, registers a limiter
  (\<open>limiter/\<close>), adds inbound and users to its core, and starts periodic tasks (\<open>common/task\<close>): one
  follows the panel, one reports traffic, one renews the certificate, one watches for speeders. The
  core asks the limiter for every connection and counts its bytes (\<open>common/counter\<close>). When the
  configuration file changes, the whole runtime is swapped, with the old one as the fallback.

  The theories, from the ground up:

    GoPrelude, GoText   Go maps as association lists (the locale of key-value stores), machine
                        integers, strings, \<open>strconv.Atoi\<close>
    Format              \<open>common/format\<close>: user tags, runtime keys, Shadowsocks ciphers
    PanelTypes          the structs of \<open>api/panel\<close> and \<open>conf\<close>; outcomes of fallible calls: a result,
                        an error, or a panic
    Json5, Conf         \<open>common/json5\<close>, \<open>conf/\<close>: how the file becomes a configuration
    ConnLimits, ConnGate, Limiters, LimiterProps, CheckLimits
                        \<open>limiter/\<close>: connection and address caps, speed limits, the registry of limiters
    Counters, TrafficSlices
                        \<open>common/counter\<close>, \<open>node/traffic_store.go\<close>, and the traffic interface of a core
    PortRegistry        \<open>node/port_registry.go\<close>: who listens where
    PanelClient         \<open>api/panel\<close>: requests to the panel and the decoding of its answers
    CertManager, CertProps
                        \<open>node/cert_manager.go\<close>, \<open>node/cert.go\<close>, \<open>node/lego.go\<close>: certificates on disk
    Paths, CertFlight   the same calls made at once: task keys, flights, and the mutex around ACME
    Accounts            \<open>node/lego.go\<close>: the ACME account, its key and its file
    RateLimit           \<open>common/rate\<close>: connections that wait for a token bucket
    TaskSched           \<open>common/task\<close>: periodic tasks, as operations and as interleavings
    Controllers, ControllerProps
                        \<open>node/controller.go\<close>: starting and closing one node
    Reload, NodeMonitor, Report
                        \<open>node/reload.go\<close>, \<open>node/task.go\<close>, \<open>node/user.go\<close>: the periodic work of a node
    HostReport          \<open>common/serverstatus\<close>, \<open>node/config_validation.go\<close>: the host's status, the
                        deprecation warnings, and the fields of the log lines
    NodeMgr             \<open>node/node.go\<close>, \<open>node/cert_resolve.go\<close>: many controllers, and the panel's
                        description of a whole server
    Selector            \<open>core/selector.go\<close>: several cores behind one interface
    Outcomes, SingInbound, XrayInbound, CoreUsers
                        \<open>core/sing\<close>, \<open>core/xray\<close>: inbounds and users inside the embedded servers
    CoreInit            \<open>core/xray/xray.go\<close>, \<open>core/sing/sing.go\<close>: building, starting and closing a core
    CoreLaws            \<open>core/xray/node.go\<close>: handlers on a running server; the method tables of both cores,
                        and that they obey the laws the controllers, nodes and the selector ask for
    Registry            \<open>core/core.go\<close>: the table of cores, and what becomes of a configured type
    CmdReload, Watch    \<open>cmd/server.go\<close>, \<open>cmd/reload.go\<close>, \<open>conf/watch.go\<close>: the agent, swapping its runtime,
                        and when a change of its file is read
    Sessions, SingHook  \<open>core/sing/hook.go\<close>, \<open>core/sing/conn_release.go\<close>: the connections of sing-box
    Sniffing, Dispatch  \<open>core/xray/app/dispatcher\<close>: the connections of xray
    Crypt, Commands     \<open>common/crypt\<close>, \<open>cmd/x25519.go\<close>, \<open>cmd/action_linux.go\<close>, \<open>cmd/synctime.go\<close>: keys,
                        the AES wrapper, and the commands of the operator

  How state and operations correspond. A Go struct is a record and keeps its name; its fields carry a
  prefix of two letters. Go maps are association lists in the order they are ranged over; structures
  shared through pointers (limiters, link managers, release wrappers) are numbered entries of a heap in
  the state that owns them. A function that can fail returns an \<open>outcome\<close>: \<open>Ret\<close>, \<open>Fail\<close> for an error (by
  the text that names its cause), \<open>Panic\<close> for a panic; nil pointers are \<open>None\<close>. Operations keep the names
  of the code, and take and return the state they change. Byte counters and durations are 64-bit words
  where they can wrap, ports and buffers 16- and 32-bit words.

  What is shown. Limiter: admission is transactional, counts equal the open sessions and respect the
  caps, a session on either core gives its slots back once, and the bytes of a limited user stay within
  the configured rate. Registries: no two nodes share a socket,
  a certificate file or a limiter, and a start that fails, whenever it does, gives its claims back.
  Certificates: a crash at any point leaves old or new files; calls made at once share one ACME client,
  and each of them returns; an account is registered once. Controllers and nodes: starting is all or
  nothing, closing undoes it, a reload leaves the node serving. Reports: no byte is lost before the
  failure cap. Configuration: comments become blanks, a loaded configuration is typed, and edits are
  read at most once per window. The server: one runtime at a time, along every sequence of changes.
  Dispatching: a connection is routed or shut, sniffing ends and loses no byte. Several theorems state
  what the code does where it differs from its comments; the same is said in their texts.

  Interfaces are locales, interpreted where they are provided: key-value stores (GoPrelude, for Go maps
  and for the lists of the limiter), the ledger of claims (the port registry), the traffic interface of
  a core (TrafficSlices), and the factories and closers of the runtime (CmdReload). The laws of a core
  are a predicate instead, for they hold of values: of each embedded core (CoreLaws), and of a selector
  whose members obey them (Selector).

  Bounds and fuel. No definition runs on fuel that stands for a bound of the code: loops over lists are
  structural, and the text scanners of Json5 and CertManager carry their termination proofs; the four steps of \<open>run_flight\<close>
  are all that a flight takes (\<open>run_flight_alone\<close>). A loop that
  waits for the outside world takes what it will receive as a list (\<open>content_loop\<close>, \<open>watch_loop\<close>) and
  returns \<open>None\<close> or its state when the list is used up; how many elements suffice is a theorem. A task
  that locks itself is the value \<open>None\<close>.

  Not modelled, and why. The embedded servers, ACME, X.509, HTTP, the block cipher, hash and curve, the
  token bucket, the singleflight group, the shell, the probes of the host, the decoding of a single JSON
  value and the file system notifications are other people's code: parameters, with what is relied on as
  hypotheses. Payload bytes appear only where they are read to sniff or counted against a limit. The texts
  of log lines are left out, their fields and warnings are not. Of \<open>cmd/\<close>, the flags, the signals and the
  version banner are left to the command library. The dispatcher's \<open>config.pb.go\<close> and the import lists are
  generated or registrations. Goroutines of one part run as sequences of operations, except the periodic
  tasks and the calls for certificates, whose interleavings are step relations.
\<close>

end
